(* ===== verification/Prelude.thy ===== *)
theory Prelude
  imports Main Complex_Main "HOL-Library.AList" "HOL-Library.Multiset"
begin

text \<open>
  What every component of the development shares: the error type of a call that may raise,
  the Python string operations the code uses (\<open>strip\<close>, \<open>upper\<close>, \<open>isdigit\<close>, \<open>startswith\<close>),
  sums over rows, and the contract of a state machine with refusals
  (\<open>guarded_system\<close>), which the components' handlers interpret.

  Strings are lists of 8-bit characters; \<open>py_upper\<close> and \<open>py_isdigit\<close> are Python's on ASCII
  text, which is what the identifiers the code passes through them are made of.
\<close>

named_theorems res_simps \<open>unfolding of the result monad and of guards\<close>
named_theorems inv_intros \<open>a handler preserves its component's invariant\<close>

section \<open>Calls that may raise\<close>

text \<open>\<open>Inl e\<close> is the exception, \<open>Inr v\<close> the returned value.\<close>

definition bind_res :: "'e + 'a \<Rightarrow> ('a \<Rightarrow> 'e + 'b) \<Rightarrow> 'e + 'b" where
  "bind_res m f = (case m of Inl e \<Rightarrow> Inl e | Inr v \<Rightarrow> f v)"

lemma bind_res_simps [simp, res_simps]:
  "bind_res (Inl e) f = Inl e"
  "bind_res (Inr v) f = f v"
  by (simp_all add: bind_res_def)

lemma bind_res_Inr_iff:
  "bind_res m f = Inr w \<longleftrightarrow> (\<exists>v. m = Inr v \<and> f v = Inr w)"
  by (cases m) simp_all

lemma bind_res_elim:
  assumes "bind_res m f = Inr w"
  obtains v where "m = Inr v" "f v = Inr w"
  using assms by (auto simp: bind_res_Inr_iff)

lemma option_res_elim:
  assumes "(case m of None \<Rightarrow> Inl e | Some v \<Rightarrow> f v) = Inr w"
  obtains v where "m = Some v" "f v = Inr w"
  using assms by (cases m) auto

lemma bind_res_Inl_iff:
  "bind_res m f = Inl e \<longleftrightarrow> m = Inl e \<or> (\<exists>v. m = Inr v \<and> f v = Inl e)"
  by (cases m) auto

text \<open>\<open>if cond: raise e\<close>, as a step of the monad.\<close>

definition refuse_if :: "bool \<Rightarrow> 'e \<Rightarrow> 'e + unit" where
  "refuse_if c e = (if c then Inl e else Inr ())"

lemma refuse_if_simps [simp, res_simps]:
  "refuse_if True e = Inl e"
  "refuse_if False e = Inr ()"
  by (simp_all add: refuse_if_def)

lemma refuse_if_Inr_iff [simp]: "refuse_if c e = Inr u \<longleftrightarrow> \<not> c"
  by (simp add: refuse_if_def)

lemma refuse_if_Inl_iff [simp]: "refuse_if c e = Inl e' \<longleftrightarrow> c \<and> e' = e"
  by (auto simp: refuse_if_def)

lemma bind_refuse_Inr_iff [simp]:
  "bind_res (refuse_if c e) f = Inr w \<longleftrightarrow> \<not> c \<and> f () = Inr w"
  by (cases c) simp_all

section \<open>Python strings\<close>

definition code_of :: "char \<Rightarrow> nat" where
  "code_of c = of_char c"

definition py_space :: "char \<Rightarrow> bool" where
  "py_space c = (code_of c \<in> {9, 10, 11, 12, 13, 28, 29, 30, 31, 32, 133, 160})"

definition py_strip :: "string \<Rightarrow> string" where
  "py_strip s = rev (dropWhile py_space (rev (dropWhile py_space s)))"

definition upper_char :: "char \<Rightarrow> char" where
  "upper_char c = (if 97 \<le> code_of c \<and> code_of c \<le> 122 then char_of (code_of c - 32) else c)"

definition lower_char :: "char \<Rightarrow> char" where
  "lower_char c = (if 65 \<le> code_of c \<and> code_of c \<le> 90 then char_of (code_of c + 32) else c)"

definition py_upper :: "string \<Rightarrow> string" where
  "py_upper s = map upper_char s"

definition py_lower :: "string \<Rightarrow> string" where
  "py_lower s = map lower_char s"

definition is_digit :: "char \<Rightarrow> bool" where
  "is_digit c = (48 \<le> code_of c \<and> code_of c \<le> 57)"

definition py_isdigit :: "string \<Rightarrow> bool" where
  "py_isdigit s = (s \<noteq> [] \<and> list_all is_digit s)"

fun starts_with :: "string \<Rightarrow> string \<Rightarrow> bool" where
  "starts_with [] s = True"
| "starts_with (p # ps) [] = False"
| "starts_with (p # ps) (c # cs) = (p = c \<and> starts_with ps cs)"

text \<open>The value of a run of decimal digits (\<open>int(text)\<close>).\<close>

definition digit_val :: "char \<Rightarrow> nat" where
  "digit_val c = code_of c - 48"

definition digits_val :: "string \<Rightarrow> nat" where
  "digits_val s = foldl (\<lambda>n c. 10 * n + digit_val c) 0 s"

lemma starts_with_append [simp]: "starts_with p (p @ s)"
  by (induction p) simp_all

lemma starts_with_iff: "starts_with p s \<longleftrightarrow> (\<exists>r. s = p @ r)"
  by (induction p s rule: starts_with.induct) auto

lemma code_of_upper: "code_of (upper_char c) =
    (if 97 \<le> code_of c \<and> code_of c \<le> 122 then code_of c - 32 else code_of c)"
proof (cases "97 \<le> code_of c \<and> code_of c \<le> 122")
  case True
  then have "(code_of c - 32) mod 256 = code_of c - 32" by auto
  with True show ?thesis by (simp add: upper_char_def) (simp add: code_of_def)
next
  case False
  then show ?thesis by (auto simp: upper_char_def)
qed

lemma upper_char_idem [simp]: "upper_char (upper_char c) = upper_char c"
proof (cases "97 \<le> code_of c \<and> code_of c \<le> 122")
  case True
  then have "\<not> (97 \<le> code_of (upper_char c) \<and> code_of (upper_char c) \<le> 122)"
    by (auto simp: code_of_upper)
  then show ?thesis unfolding upper_char_def [of "upper_char c"] by (simp only: if_False)
next
  case False
  then have "upper_char c = c" by (simp only: upper_char_def if_False)
  then show ?thesis by simp
qed

lemma py_upper_idem [simp]: "py_upper (py_upper s) = py_upper s"
  by (simp add: py_upper_def)

lemma py_space_upper [simp]: "py_space (upper_char c) = py_space c"
  unfolding py_space_def code_of_upper by auto

lemma dropWhile_upper:
  "dropWhile py_space (map upper_char s) = map upper_char (dropWhile py_space s)"
  by (induction s) simp_all

lemma strip_upper: "py_strip (py_upper s) = py_upper (py_strip s)"
  by (simp add: py_strip_def py_upper_def dropWhile_upper rev_map)

lemma dropWhile_idem: "dropWhile P (dropWhile P s) = dropWhile P s"
  by (induction s) simp_all

lemma dropWhile_rev_dropWhile:
  assumes "dropWhile P s = s"
  shows "dropWhile P (rev (dropWhile P (rev s))) = rev (dropWhile P (rev s))"
proof (cases s)
  case Nil
  then show ?thesis by simp
next
  case (Cons c cs)
  with assms have c: "\<not> P c" by (metis dropWhile_eq_self_iff list.sel(1) list.distinct(1))
  have "rev (dropWhile P (rev s)) = [] \<or> hd (rev (dropWhile P (rev s))) = c"
    using Cons c by (simp add: dropWhile_append dropWhile_eq_Nil_conv split: if_splits)
  with c show ?thesis by (metis dropWhile_eq_self_iff)
qed

lemma py_strip_idem [simp]: "py_strip (py_strip s) = py_strip s"
  by (simp add: py_strip_def dropWhile_rev_dropWhile dropWhile_idem)

section \<open>Rows and their sums\<close>

definition sum_by :: "('r \<Rightarrow> int) \<Rightarrow> 'r list \<Rightarrow> int" where
  "sum_by f rows = sum_list (map f rows)"

lemma sum_by_Nil [simp]: "sum_by f [] = 0"
  and sum_by_Cons [simp]: "sum_by f (r # rs) = f r + sum_by f rs"
  and sum_by_append [simp]: "sum_by f (rs @ qs) = sum_by f rs + sum_by f qs"
  by (simp_all add: sum_by_def)

lemma sum_by_map: "sum_by f (map g rows) = sum_by (\<lambda>r. f (g r)) rows"
  by (simp add: sum_by_def comp_def)

lemma sum_by_filter_split:
  "sum_by f rows = sum_by f (filter P rows) + sum_by f (filter (\<lambda>r. \<not> P r) rows)"
  by (induction rows) simp_all

lemma sum_by_nonneg: "(\<And>r. r \<in> set rows \<Longrightarrow> 0 \<le> f r) \<Longrightarrow> 0 \<le> sum_by f rows"
  by (induction rows) (auto simp: add_nonneg_nonneg)

lemma sum_by_cong: "(\<And>r. r \<in> set rows \<Longrightarrow> f r = g r) \<Longrightarrow> sum_by f rows = sum_by g rows"
  by (simp add: sum_by_def cong: map_cong)

lemma sum_by_mset: "mset rows = mset rows' \<Longrightarrow> sum_by f rows = sum_by f rows'"
  unfolding sum_by_def by (metis mset_map sum_mset_sum_list)

lemma sum_by_sort_key [simp]: "sum_by f (sort_key k rows) = sum_by f rows"
  by (rule sum_by_mset) simp

section \<open>The best of a list\<close>

text \<open>\<open>if best is None or key > best_key: best = row\<close> over a list: the first of the largest.\<close>

fun best_by :: "('a \<Rightarrow> 'k::linorder) \<Rightarrow> 'a option \<Rightarrow> 'a list \<Rightarrow> 'a option" where
  "best_by key best [] = best"
| "best_by key best (x # xs) =
     best_by key (case best of None \<Rightarrow> Some x | Some b \<Rightarrow> if key b < key x then Some x else best) xs"

lemma best_by_keeps: "best_by key (Some b) xs = Some r \<Longrightarrow> key b \<le> key r \<and> r \<in> insert b (set xs) \<and> (\<forall>x \<in> set xs. key x \<le> key r)"
proof (induction xs arbitrary: b)
  case Nil
  then show ?case by simp
next
  case (Cons x xs)
  show ?case
  proof (cases "key b < key x")
    case True
    with Cons.prems Cons.IH [of x] show ?thesis by auto
  next
    case False
    with Cons.prems Cons.IH [of b] show ?thesis by auto
  qed
qed

lemma best_by_Some: "best_by key (Some b) xs \<noteq> None"
  by (induction xs arbitrary: b) auto

lemma best_by_best: "best_by key None xs = Some r \<Longrightarrow> r \<in> set xs \<and> (\<forall>x \<in> set xs. key x \<le> key r)"
  by (cases xs) (auto dest: best_by_keeps)

lemma best_by_None: "best_by key None xs = None \<longleftrightarrow> xs = []"
  by (cases xs) (simp_all add: best_by_Some)

section \<open>Handlers that may refuse\<close>

text \<open>
  A handler runs in a transaction: an exception leaves the state as it was. \<open>run_events\<close>
  serves a list of requests, a refused one changing nothing.
\<close>

definition after :: "'s \<Rightarrow> 'err + 's \<Rightarrow> 's" where
  "after s r = (case r of Inl _ \<Rightarrow> s | Inr s' \<Rightarrow> s')"

lemma after_simps [simp]: "after s (Inl e) = s" "after s (Inr s') = s'"
  by (simp_all add: after_def)

fun run_events :: "('s \<Rightarrow> 'ev \<Rightarrow> 'err + 's) \<Rightarrow> 's \<Rightarrow> 'ev list \<Rightarrow> 's" where
  "run_events step s [] = s"
| "run_events step s (e # es) = run_events step (after s (step s e)) es"

lemma run_events_append: "run_events step s (xs @ ys) = run_events step (run_events step s xs) ys"
  by (induction xs arbitrary: s) simp_all

text \<open>
  The contract of such a machine: every accepted request keeps the invariant. Then so does
  every history of requests.
\<close>

locale guarded_system =
  fixes step :: "'s \<Rightarrow> 'ev \<Rightarrow> 'err + 's"
    and inv :: "'s \<Rightarrow> bool"
  assumes step_inv: "inv s \<Longrightarrow> step s e = Inr s' \<Longrightarrow> inv s'"
begin

lemma after_inv: "inv s \<Longrightarrow> inv (after s (step s e))"
  by (cases "step s e") (auto intro: step_inv)

lemma run_inv: "inv s \<Longrightarrow> inv (run_events step s es)"
  by (induction es arbitrary: s) (auto intro: after_inv)

end

text \<open>
  A machine in which a part of the state, once it satisfies \<open>closed\<close>, is never changed
  again: a terminal status, an append-only history, a spent token.
\<close>

locale frozen_part = guarded_system step inv
  for step :: "'s \<Rightarrow> 'ev \<Rightarrow> 'err + 's" and inv :: "'s \<Rightarrow> bool" +
  fixes closed :: "'k \<Rightarrow> 's \<Rightarrow> bool"
    and view :: "'k \<Rightarrow> 's \<Rightarrow> 'v"
  assumes step_closed: "inv s \<Longrightarrow> closed k s \<Longrightarrow> step s e = Inr s' \<Longrightarrow> closed k s' \<and> view k s' = view k s"
begin

lemma after_closed:
  "inv s \<Longrightarrow> closed k s \<Longrightarrow> closed k (after s (step s e)) \<and> view k (after s (step s e)) = view k s"
  by (cases "step s e") (auto dest: step_closed)

lemma run_closed:
  "inv s \<Longrightarrow> closed k s \<Longrightarrow> closed k (run_events step s es) \<and> view k (run_events step s es) = view k s"
proof (induction es arbitrary: s)
  case Nil
  then show ?case by simp
next
  case (Cons e es)
  then have "inv (after s (step s e))" by (blast intro: after_inv)
  with Cons.IH [of "after s (step s e)"] after_closed [OF Cons.prems, of e] show ?case by simp
qed

end

text \<open>
  A machine that relates each state to the ones before it: \<open>later\<close> is what an observer who saw a state
  may still rely on after any further history.
\<close>

locale tracked_system = guarded_system step inv
  for step :: "'s \<Rightarrow> 'ev \<Rightarrow> 'err + 's" and inv :: "'s \<Rightarrow> bool" +
  fixes later :: "'s \<Rightarrow> 's \<Rightarrow> bool"
  assumes later_refl: "later s s"
    and later_trans: "later a b \<Longrightarrow> later b c \<Longrightarrow> later a c"
    and step_later: "inv s \<Longrightarrow> step s e = Inr s' \<Longrightarrow> later s s'"
begin

lemma after_later: "inv s \<Longrightarrow> later s (after s (step s e))"
  by (cases "step s e") (auto intro: later_refl step_later)

lemma run_later: "inv s \<Longrightarrow> later s (run_events step s es)"
proof (induction es arbitrary: s)
  case Nil
  then show ?case by (simp add: later_refl)
next
  case (Cons e es)
  then have "inv (after s (step s e))" by (blast intro: after_inv)
  from Cons.IH [OF this] after_later [OF Cons.prems, of e] show ?case by (simp add: later_trans)
qed

end

end
