(* ===== verification/Countries.thy ===== *)
theory Countries
  imports Prelude
begin

text \<open>
  The country registry (\<open>base/countries.py\<close>): the \<open>Country\<close> row, the two rows the registry
  holds, the strict and the lenient lookups, and \<open>normalize_phone\<close>, which turns what a person
  typed into E.164 or nothing. The two float factors used when the maps service is down
  (\<open>road_distance_factor\<close>, \<open>fallback_avg_speed_kmh\<close>) are not fields of the record: no
  operation of this file reads them. A registry value is stored under its own \<open>code\<close>, as the
  dictionary comprehension does. Optional text arguments are \<open>string option\<close>; the empty text
  is falsy, as in the source.
\<close>

record country =
  ct_code :: string
  ct_name :: string
  ct_currency :: string
  currency_symbol :: string
  symbol_position :: string
  calling_code :: string
  national_number_lengths :: "nat list"
  ct_distance_unit :: string
  ct_tax_mode :: string
  ct_tax_label :: string
  default_timezone :: string
  default_tax_percent :: string
  driver_documents :: "string list"
  vehicle_documents :: "string list"
  emergency_numbers :: "(string \<times> string) list"

text \<open>The rupee sign, in UTF-8.\<close>

definition rupee_sign :: string where
  "rupee_sign = [CHR 0xE2, CHR 0x82, CHR 0xB9]"

definition INDIA :: country where
  "INDIA = \<lparr> ct_code = ''IN'', ct_name = ''India'', ct_currency = ''INR'',
     currency_symbol = rupee_sign, symbol_position = ''prefix'', calling_code = ''91'',
     national_number_lengths = [10], ct_distance_unit = ''km'', ct_tax_mode = ''inclusive'',
     ct_tax_label = ''GST'', default_timezone = ''Asia/Kolkata'', default_tax_percent = ''5.00'',
     driver_documents = [''license_front'', ''license_back''],
     vehicle_documents = [''rc'', ''insurance'', ''permit'', ''fitness'', ''puc''],
     emergency_numbers = [(''unified'', ''112'')] \<rparr>"

definition UNITED_STATES :: country where
  "UNITED_STATES = \<lparr> ct_code = ''US'', ct_name = ''United States'', ct_currency = ''USD'',
     currency_symbol = ''$'', symbol_position = ''prefix'', calling_code = ''1'',
     national_number_lengths = [10], ct_distance_unit = ''mi'', ct_tax_mode = ''additive'',
     ct_tax_label = ''Sales tax'', default_timezone = ''America/New_York'',
     default_tax_percent = ''0.00'',
     driver_documents = [''license_front'', ''license_back''],
     vehicle_documents = [''registration'', ''insurance'', ''inspection''],
     emergency_numbers = [(''unified'', ''911'')] \<rparr>"

definition COUNTRIES :: "country list" where
  "COUNTRIES = [INDIA, UNITED_STATES]"

definition DEFAULT_COUNTRY_CODE :: string where
  "DEFAULT_COUNTRY_CODE = ''IN''"


definition lookup_country :: "string \<Rightarrow> country option" where
  "lookup_country code = find (\<lambda>c. ct_code c = code) COUNTRIES"

text \<open>\<open>str(value or '').upper().strip()\<close>, the normal form of a code.\<close>

definition norm_code :: "string option \<Rightarrow> string" where
  "norm_code v = py_strip (py_upper (case v of None \<Rightarrow> [] | Some s \<Rightarrow> s))"

definition falsy :: "string option \<Rightarrow> bool" where
  "falsy v = (v = None \<or> v = Some [])"

definition find_country :: "string option \<Rightarrow> country option" where
  "find_country code = (if falsy code then None else lookup_country (norm_code code))"

datatype country_error = UnknownCountry "string option"

definition require_country :: "string option \<Rightarrow> country_error + country" where
  "require_country code = (case find_country code of
      None \<Rightarrow> Inl (UnknownCountry code) | Some c \<Rightarrow> Inr c)"

definition get_country :: "string option \<Rightarrow> country" where
  "get_country code = (if falsy code then INDIA
     else case lookup_country (norm_code code) of None \<Rightarrow> INDIA | Some c \<Rightarrow> c)"

definition country_supported :: "string option \<Rightarrow> bool" where
  "country_supported code = (norm_code code \<in> ct_code ` set COUNTRIES)"

definition currency_for :: "string option \<Rightarrow> string" where
  "currency_for code = ct_currency (get_country code)"

section \<open>Phone numbers\<close>



text \<open>The countries in the order the function tries them: the default one first.\<close>

definition tried_countries :: "country option \<Rightarrow> country list" where
  "tried_countries dflt = (case dflt of None \<Rightarrow> COUNTRIES
     | Some d \<Rightarrow> d # filter (\<lambda>c. ct_code c \<noteq> ct_code d) COUNTRIES)"





section \<open>Lookups\<close>


lemma lookup_in_registry: "lookup_country code = Some c \<Longrightarrow> c \<in> set COUNTRIES \<and> ct_code c = code"
  by (auto simp: lookup_country_def find_Some_iff)


lemma get_in_registry: "get_country code \<in> set COUNTRIES"
proof -
  have "INDIA \<in> set COUNTRIES" by (simp add: COUNTRIES_def)
  then show ?thesis
    using lookup_in_registry [of "norm_code code"]
    by (cases "lookup_country (norm_code code)") (simp_all add: get_country_def)
qed

text \<open>The two lookups agree wherever the strict one answers; the lenient one only ever adds
  the default country.\<close>

lemma get_country_find: "get_country code = (case find_country code of None \<Rightarrow> INDIA | Some c \<Rightarrow> c)"
  by (simp add: get_country_def find_country_def)

lemma tried_in_registry:
  "set (tried_countries dflt) \<subseteq> insert (the dflt) (set COUNTRIES)"
  "dflt = None \<Longrightarrow> set (tried_countries dflt) = set COUNTRIES"
  by (auto simp: tried_countries_def split: option.splits)

section \<open>What a normalized number looks like\<close>


















end
