(* ===== verification/PyDecimal.thy ===== *)
theory PyDecimal
  imports Prelude
begin

text \<open>
  Python's \<open>decimal.Decimal\<close> under the default context (28 significant digits, half-even),
  as far as the code uses it: a finite decimal is a coefficient and an exponent; construction
  from text and integers is exact; \<open>+\<close>, \<open>*\<close>, \<open>/\<close> and \<open>scaleb\<close> round to the context's
  precision; \<open>quantize\<close> rounds half up and raises \<open>InvalidOperation\<close> when the result
  needs more than 28 digits. \<open>dval\<close> is the number a decimal stands for. The lemmas say when
  an operation is exact: whenever the exact coefficient has at most 28 digits.

  The sign of zero, the exponent limits (\<open>Emax\<close> 999999) and the flags are not modelled.
\<close>

datatype decimal = Dec (coef: int) (expo: int)

definition dval :: "decimal \<Rightarrow> rat" where
  "dval d = (if 0 \<le> expo d then of_int (coef d) * 10 ^ nat (expo d)
             else of_int (coef d) / 10 ^ nat (- expo d))"

fun ndigits :: "nat \<Rightarrow> nat" where
  "ndigits n = (if n < 10 then 1 else Suc (ndigits (n div 10)))"

declare ndigits.simps [simp del]

definition dec_prec :: nat where
  "dec_prec = 28"

definition div_half_even :: "nat \<Rightarrow> nat \<Rightarrow> nat" where
  "div_half_even n k = (let p = 10 ^ k; q = n div p; r = n mod p
     in if 2 * r > p \<or> 2 * r = p \<and> odd q then q + 1 else q)"

definition dec_fix :: "int \<Rightarrow> int \<Rightarrow> decimal" where
  "dec_fix c e = (let n = nat \<bar>c\<bar>; k = ndigits n - dec_prec
     in if k = 0 then Dec c e
        else let q = div_half_even n k
             in if ndigits q > dec_prec then Dec (sgn c * int (q div 10)) (e + int k + 1)
                else Dec (sgn c * int q) (e + int k))"

definition dec_of_int :: "int \<Rightarrow> decimal" where
  "dec_of_int n = Dec n 0"

definition dec_scaleb :: "decimal \<Rightarrow> int \<Rightarrow> decimal" where
  "dec_scaleb d k = dec_fix (coef d) (expo d + k)"

definition dec_mul :: "decimal \<Rightarrow> decimal \<Rightarrow> decimal" where
  "dec_mul a b = dec_fix (coef a * coef b) (expo a + expo b)"

definition dec_add :: "decimal \<Rightarrow> decimal \<Rightarrow> decimal" where
  "dec_add a b = (let e = min (expo a) (expo b)
     in dec_fix (coef a * 10 ^ nat (expo a - e) + coef b * 10 ^ nat (expo b - e)) e)"

definition dec_neg :: "decimal \<Rightarrow> decimal" where
  "dec_neg a = dec_fix (- coef a) (expo a)"

definition dec_sub :: "decimal \<Rightarrow> decimal \<Rightarrow> decimal" where
  "dec_sub a b = dec_add a (Dec (- coef b) (expo b))"

text \<open>Division: enough digits for the context, one sticky digit when it is inexact, the
  trailing zeros of an exact quotient removed down to the ideal exponent.\<close>

fun strip_zeros :: "nat \<Rightarrow> int \<Rightarrow> int \<Rightarrow> decimal" where
  "strip_zeros 0 c e = Dec c e"
| "strip_zeros (Suc k) c e = (if c mod 10 = 0 then strip_zeros k (c div 10) (e + 1) else Dec c e)"

definition dec_div :: "decimal \<Rightarrow> decimal \<Rightarrow> decimal option" where
  "dec_div a b =
     (if coef b = 0 then None
      else if coef a = 0 then Some (Dec 0 (expo a - expo b))
      else let n = nat \<bar>coef a\<bar>; m = nat \<bar>coef b\<bar>; s = sgn (coef a) * sgn (coef b);
               shift = int (ndigits m) - int (ndigits n) + int dec_prec + 1;
               e = expo a - expo b - shift;
               q = (if 0 \<le> shift then (n * 10 ^ nat shift) div m else n div (m * 10 ^ nat (- shift)));
               r = (if 0 \<le> shift then (n * 10 ^ nat shift) mod m else n mod (m * 10 ^ nat (- shift)))
           in if r \<noteq> 0 then Some (dec_fix (s * int (if q mod 5 = 0 then q + 1 else q)) e)
              else case strip_zeros (nat (expo a - expo b - e)) (s * int q) e of
                     Dec c' e' \<Rightarrow> Some (dec_fix c' e'))"

text \<open>\<open>d.quantize(Decimal(1).scaleb(t), rounding=ROUND_HALF_UP)\<close>; \<open>None\<close> is
  \<open>InvalidOperation\<close>.\<close>

definition half_up :: "nat \<Rightarrow> nat \<Rightarrow> nat" where
  "half_up n k = (n + 10 ^ k div 2) div 10 ^ k"

definition dec_quantize :: "decimal \<Rightarrow> int \<Rightarrow> decimal option" where
  "dec_quantize d t =
     (let n = nat \<bar>coef d\<bar>;
          q = (if t \<le> expo d then n * 10 ^ nat (expo d - t) else half_up n (nat (t - expo d)))
      in if ndigits q > dec_prec then None else Some (Dec (sgn (coef d) * int q) t))"

definition dec_le :: "decimal \<Rightarrow> decimal \<Rightarrow> bool" where
  "dec_le a b = (dval a \<le> dval b)"

definition dec_lt :: "decimal \<Rightarrow> decimal \<Rightarrow> bool" where
  "dec_lt a b = (dval a < dval b)"

text \<open>\<open>max\<close> returns its first argument unless the second is greater.\<close>

definition dec_max :: "decimal \<Rightarrow> decimal \<Rightarrow> decimal" where
  "dec_max a b = (if dec_lt a b then b else a)"

definition dec_eq :: "decimal \<Rightarrow> decimal \<Rightarrow> bool" where
  "dec_eq a b = (dval a = dval b)"

text \<open>The integer a quantized decimal holds (\<open>int(...)\<close>, truncation).\<close>

definition dec_to_int :: "decimal \<Rightarrow> int" where
  "dec_to_int d = (if 0 \<le> expo d then coef d * 10 ^ nat (expo d)
                   else sgn (coef d) * (\<bar>coef d\<bar> div 10 ^ nat (- expo d)))"

section \<open>Decimal literals\<close>

datatype dec_lit = Finite decimal | Infinite | QuietNaN | SignalingNaN

definition split_sign :: "string \<Rightarrow> int \<times> string" where
  "split_sign s = (case s of
      c # r \<Rightarrow> if c = CHR ''-'' then (- 1, r) else if c = CHR ''+'' then (1, r) else (1, s)
    | [] \<Rightarrow> (1, s))"

text \<open>\<open>[digits][.digits][e[+-]digits]\<close>, at least one digit in the mantissa.\<close>

definition parse_number :: "int \<Rightarrow> string \<Rightarrow> decimal option" where
  "parse_number sg s =
     (let ip = takeWhile is_digit s; r1 = dropWhile is_digit s;
          (fp, r2) = (case r1 of c # r \<Rightarrow> if c = CHR ''.'' then (takeWhile is_digit r, dropWhile is_digit r)
                                          else ([], r1)
                      | [] \<Rightarrow> ([], []))
      in if ip @ fp = [] then None
         else let c = sg * int (digits_val (ip @ fp)); e = - int (length fp)
              in case r2 of [] \<Rightarrow> Some (Dec c e)
                 | x # r \<Rightarrow> (if lower_char x = CHR ''e''
                     then (let (es, ds) = split_sign r
                           in if py_isdigit ds then Some (Dec c (e + es * int (digits_val ds))) else None)
                     else None))"

definition parse_decimal :: "string \<Rightarrow> dec_lit option" where
  "parse_decimal s =
     (let t = filter (\<lambda>c. c \<noteq> CHR ''_'') (py_strip s); (sg, r) = split_sign t; l = py_lower r
      in if l = ''inf'' \<or> l = ''infinity'' then Some Infinite
         else if starts_with ''nan'' l \<and> list_all is_digit (drop 3 l) then Some QuietNaN
         else if starts_with ''snan'' l \<and> list_all is_digit (drop 4 l) then Some SignalingNaN
         else map_option Finite (parse_number sg r))"

text \<open>Evaluation on closed decimals: the digit count unfolds on numerals only.\<close>

lemma ndigits_numeral [simp]:
  "ndigits (numeral k) = (if numeral k < (10::nat) then 1 else Suc (ndigits (numeral k div 10)))"
  by (rule ndigits.simps)

lemma ndigits_small [simp]: "ndigits 0 = 1" "ndigits (Suc 0) = 1"
  by (simp_all add: ndigits.simps)

lemmas dec_eval = dec_fix_def dec_of_int_def dec_scaleb_def dec_mul_def dec_add_def dec_neg_def
  dec_sub_def dec_div_def dec_quantize_def dec_to_int_def dval_def half_up_def div_half_even_def
  dec_prec_def Let_def

section \<open>Digits\<close>

lemma ndigits_pos: "0 < ndigits n"
  by (subst ndigits.simps) simp

lemma ndigits_le_iff: "0 < k \<Longrightarrow> ndigits n \<le> k \<longleftrightarrow> n < 10 ^ k"
proof (induction n arbitrary: k rule: ndigits.induct)
  case (1 n)
  show ?case
  proof (cases "n < 10")
    case True
    moreover have "(10::nat) \<le> 10 ^ k" using "1.prems" by (cases k) simp_all
    ultimately show ?thesis using "1.prems" by (subst ndigits.simps) (auto simp: Suc_le_eq)
  next
    case False
    show ?thesis
    proof (cases "k = 1")
      case True
      with False show ?thesis using ndigits_pos [of "n div 10"] by (subst ndigits.simps) simp
    next
      case k: False
      with "1.prems" obtain j where j: "k = Suc j" "0 < j" by (cases k) auto
      have "ndigits n \<le> k \<longleftrightarrow> ndigits (n div 10) \<le> j"
        using False j by (subst ndigits.simps) simp
      also have "\<dots> \<longleftrightarrow> n div 10 < 10 ^ j" using "1.IH" [OF False j(2)] .
      also have "\<dots> \<longleftrightarrow> n < 10 ^ k" using j by (simp add: div_less_iff_less_mult mult.commute)
      finally show ?thesis .
    qed
  qed
qed

definition fits :: "int \<Rightarrow> bool" where
  "fits c = (\<bar>c\<bar> < 10 ^ 28)"

lemma fits_ndigits: "fits c \<longleftrightarrow> ndigits (nat \<bar>c\<bar>) \<le> dec_prec"
proof -
  have "nat \<bar>c\<bar> < 10 ^ 28 \<longleftrightarrow> \<bar>c\<bar> < 10 ^ 28" by (simp add: nat_less_iff)
  then show ?thesis by (simp add: fits_def dec_prec_def ndigits_le_iff)
qed

lemma fits_bound: "\<bar>c\<bar> \<le> b \<Longrightarrow> b < 10 ^ 28 \<Longrightarrow> fits c"
  by (simp add: fits_def)

lemma dec_fix_exact: "fits c \<Longrightarrow> dec_fix c e = Dec c e"
  by (simp add: fits_ndigits dec_fix_def)

lemma dec_scaleb_exact: "fits (coef d) \<Longrightarrow> dec_scaleb d k = Dec (coef d) (expo d + k)"
  by (simp add: dec_scaleb_def dec_fix_exact)

lemma dec_mul_exact: "fits (coef a * coef b) \<Longrightarrow> dec_mul a b = Dec (coef a * coef b) (expo a + expo b)"
  by (simp add: dec_mul_def dec_fix_exact)

section \<open>Values\<close>

definition ten_pow :: "int \<Rightarrow> rat" where
  "ten_pow e = (if 0 \<le> e then 10 ^ nat e else 1 / 10 ^ nat (- e))"

lemma dval_ten_pow: "dval (Dec c e) = of_int c * ten_pow e"
  by (simp add: dval_def ten_pow_def)

lemma ten_pow_pos: "0 < ten_pow e"
  by (simp add: ten_pow_def)

lemma ten_pow_powr: "ten_pow e = power_int 10 e"
  by (simp add: ten_pow_def power_int_def power_one_over field_simps inverse_eq_divide)

lemma ten_pow_add: "ten_pow (a + b) = ten_pow a * ten_pow b"
  by (simp add: ten_pow_powr power_int_add)

lemma ten_pow_0 [simp]: "ten_pow 0 = 1"
  by (simp add: ten_pow_def)

lemma dval_scaleb: "fits (coef d) \<Longrightarrow> dval (dec_scaleb d k) = dval d * ten_pow k"
  by (cases d) (simp add: dec_scaleb_exact dval_ten_pow ten_pow_add)

lemma dval_mul: "fits (coef a * coef b) \<Longrightarrow> dval (dec_mul a b) = dval a * dval b"
  by (cases a; cases b) (simp add: dec_mul_exact dval_ten_pow ten_pow_add)

lemma dval_int [simp]: "dval (Dec n 0) = of_int n"
  by (simp add: dval_def)

section \<open>Half-up rounding\<close>

text \<open>Rounding a rational to the nearest integer, halves away from zero.\<close>

definition round_half_up :: "rat \<Rightarrow> int" where
  "round_half_up x = (if 0 \<le> x then \<lfloor>x + 1 / 2\<rfloor> else - \<lfloor>- x + 1 / 2\<rfloor>)"

lemma half_up_0 [simp]: "half_up n 0 = n"
  by (simp add: half_up_def)

lemma half_up_floor: "int (half_up n k) = \<lfloor>(of_nat n :: rat) / 10 ^ k + 1 / 2\<rfloor>"
proof (cases k)
  case 0
  have "\<lfloor>(of_nat n :: rat) + 1 / 2\<rfloor> = int n" by (simp add: floor_eq_iff)
  with 0 show ?thesis by simp
next
  case (Suc j)
  have h: "2 * ((10::nat) ^ k div 2) = 10 ^ k" using Suc by simp
  have "(of_nat n :: rat) / 10 ^ k + 1 / 2 = of_nat (n + 10 ^ k div 2) / of_nat (10 ^ k)"
  proof -
    have "(of_nat (10 ^ k div 2) :: rat) = 10 ^ k / 2"
      using arg_cong [OF h, of "of_nat :: nat \<Rightarrow> rat"] by simp
    then show ?thesis by (simp add: add_divide_distrib)
  qed
  then show ?thesis
    by (simp only: half_up_def floor_divide_of_nat_eq of_nat_div)
qed

lemma round_half_up_scaled:
  "sgn c * int (half_up (nat \<bar>c\<bar>) k) = round_half_up (of_int c / 10 ^ k)"
proof (cases "0 \<le> c")
  case True
  then have "(of_nat (nat \<bar>c\<bar>) :: rat) = of_int c" by simp
  moreover have "0 \<le> (of_int c :: rat) / 10 ^ k" using True by simp
  moreover have "sgn c * int (half_up (nat \<bar>c\<bar>) k) = int (half_up (nat \<bar>c\<bar>) k)"
    using True by (cases "c = 0") (simp_all add: half_up_def sgn_if)
  ultimately show ?thesis by (simp add: half_up_floor round_half_up_def)
next
  case False
  then have "(of_nat (nat \<bar>c\<bar>) :: rat) = - of_int c" by simp
  moreover have "\<not> 0 \<le> (of_int c :: rat) / 10 ^ k" using False by (simp add: zero_le_divide_iff not_le)
  ultimately show ?thesis using False by (simp add: half_up_floor round_half_up_def)
qed

lemma round_half_up_int [simp]: "round_half_up (of_int n) = n"
proof -
  have "\<lfloor>(of_int m :: rat) + 1 / 2\<rfloor> = m" for m by (simp add: floor_eq_iff)
  from this [of n] this [of "- n"] show ?thesis by (simp add: round_half_up_def)
qed

lemma round_half_up_error: "\<bar>of_int (round_half_up x) - x\<bar> \<le> 1 / 2"
proof -
  have *: "\<bar>of_int \<lfloor>y + 1 / 2\<rfloor> - y\<bar> \<le> 1 / 2" for y :: rat by linarith
  show ?thesis
  proof (cases "0 \<le> x")
    case True
    with * [of x] show ?thesis by (simp add: round_half_up_def)
  next
    case False
    have "\<bar>of_int (- \<lfloor>- x + 1 / 2\<rfloor>) - x\<bar> = \<bar>of_int \<lfloor>- x + 1 / 2\<rfloor> - (- x)\<bar>" by simp
    with * [of "- x"] False show ?thesis by (simp only: round_half_up_def if_False)
  qed
qed

lemma round_half_up_mono: "x \<le> y \<Longrightarrow> round_half_up x \<le> round_half_up y"
proof -
  assume le: "x \<le> y"
  have pos: "0 \<le> a \<Longrightarrow> 0 \<le> \<lfloor>a + 1 / 2\<rfloor>" for a :: rat by simp
  consider "0 \<le> x" | "x < 0" "0 \<le> y" | "y < 0" using le by linarith
  then show ?thesis
  proof cases
    case 1
    with le show ?thesis by (simp add: round_half_up_def floor_mono)
  next
    case 2
    have "0 \<le> \<lfloor>y + 1 / 2\<rfloor>" "0 \<le> \<lfloor>- x + 1 / 2\<rfloor>" using 2 by (auto intro!: pos)
    moreover have "round_half_up x = - \<lfloor>- x + 1 / 2\<rfloor>" "round_half_up y = \<lfloor>y + 1 / 2\<rfloor>"
      using 2 by (simp_all add: round_half_up_def)
    ultimately show ?thesis by linarith
  next
    case 3
    with le have "\<lfloor>- y + 1 / 2\<rfloor> \<le> \<lfloor>- x + 1 / 2\<rfloor>" by (intro floor_mono) simp
    with 3 le show ?thesis by (simp add: round_half_up_def)
  qed
qed

lemma dec_quantize_0:
  assumes "dec_quantize (Dec c e) 0 = Some d"
  shows "d = Dec (round_half_up (dval (Dec c e))) 0"
proof (cases "0 \<le> e")
  case True
  have "sgn c * int (nat \<bar>c\<bar> * 10 ^ nat e) = c * 10 ^ nat e"
    by (simp add: sgn_mult_abs mult.assoc [symmetric])
  moreover have "dval (Dec c e) = of_int (c * 10 ^ nat e)" using True by (simp add: dval_def)
  then have "round_half_up (dval (Dec c e)) = c * 10 ^ nat e" by (simp only: round_half_up_int)
  ultimately show ?thesis using assms True
    by (auto simp: dec_quantize_def Let_def split: if_splits)
next
  case False
  then have "dval (Dec c e) = of_int c / 10 ^ nat (- e)" by (simp add: dval_def)
  with round_half_up_scaled [of c "nat (- e)"] show ?thesis using assms False
    by (auto simp: dec_quantize_def Let_def split: if_splits)
qed


lemma dec_quantize_0_total:
  assumes "fits (round_half_up (dval d))"
  shows "dec_quantize d 0 = Some (Dec (round_half_up (dval d)) 0)"
proof -
  obtain c e where d: "d = Dec c e" by (cases d)
  define q where "q = (if 0 \<le> e then nat \<bar>c\<bar> * 10 ^ nat e else half_up (nat \<bar>c\<bar>) (nat (- e)))"
  have v: "sgn c * int q = round_half_up (dval d)"
  proof (cases "0 \<le> e")
    case True
    have "sgn c * int (nat \<bar>c\<bar> * 10 ^ nat e) = c * 10 ^ nat e"
      by (simp add: sgn_mult_abs mult.assoc [symmetric])
    moreover have "dval d = of_int (c * 10 ^ nat e)" using True by (simp add: d dval_def)
    then have "round_half_up (dval d) = c * 10 ^ nat e" by (simp only: round_half_up_int)
    ultimately show ?thesis using True by (simp add: q_def)
  next
    case False
    then have "dval d = of_int c / 10 ^ nat (- e)" by (simp add: d dval_def)
    with round_half_up_scaled [of c "nat (- e)"] False show ?thesis by (simp add: q_def)
  qed
  have "c = 0 \<Longrightarrow> q = 0" by (simp add: q_def half_up_def)
  then have "\<bar>sgn c * int q\<bar> = int q" by (cases "c = 0") (simp_all add: abs_mult sgn_if)
  with assms v have "ndigits q \<le> dec_prec" by (simp add: fits_ndigits)
  moreover have "dec_quantize d 0 = (if ndigits q > dec_prec then None else Some (Dec (sgn c * int q) 0))"
    by (simp add: dec_quantize_def d Let_def q_def)
  ultimately show ?thesis using v by simp
qed


section \<open>Division by a hundred\<close>

lemma strip_zeros_props:
  "\<exists>j. j \<le> k \<and> strip_zeros k c e = Dec (c div 10 ^ j) (e + int j) \<and> 10 ^ j dvd c
      \<and> (j < k \<longrightarrow> (c div 10 ^ j) mod 10 \<noteq> 0)"
proof (induction k arbitrary: c e)
  case 0
  then show ?case by simp
next
  case (Suc k)
  show ?case
  proof (cases "c mod 10 = 0")
    case True
    obtain j where j: "j \<le> k" "strip_zeros k (c div 10) (e + 1) = Dec (c div 10 div 10 ^ j) (e + 1 + int j)"
      "10 ^ j dvd c div 10" "j < k \<longrightarrow> (c div 10 div 10 ^ j) mod 10 \<noteq> 0"
      using Suc.IH [of "c div 10" "e + 1"] by blast
    have d: "c div 10 div 10 ^ j = c div 10 ^ Suc j" by (simp add: zdiv_zmult2_eq)
    have "c = 10 * (c div 10)" using True by presburger
    then have "10 ^ Suc j dvd c" using j(3) by (metis dvd_refl mult_dvd_mono power_Suc)
    with j True d show ?thesis by (intro exI [of _ "Suc j"]) (simp add: add.assoc)
  next
    case False
    then show ?thesis by (intro exI [of _ 0]) simp
  qed
qed

lemma dec_div_100:
  assumes "fits c"
  shows "\<exists>d. dec_div (Dec c e) (Dec 100 0) = Some d \<and> fits (coef d) \<and> dval d = dval (Dec c e) / 100"
proof (cases "c = 0")
  case True
  then show ?thesis by (simp add: dec_div_def dval_def fits_def)
next
  case False
  define n where "n = nat \<bar>c\<bar>"
  define S where "S = 32 - ndigits n"
  have nd: "0 < ndigits n" "ndigits n \<le> 28"
    using ndigits_pos assms by (simp_all add: n_def fits_ndigits dec_prec_def)
  have S: "4 \<le> S" "int 3 - int (ndigits n) + int 28 + 1 = int S" using nd by (simp_all add: S_def)
  have ten: "(10::nat) ^ S = 100 * 10 ^ (S - 2)"
  proof -
    have "S = 2 + (S - 2)" using S(1) by linarith
    then have "(10::nat) ^ S = 10 ^ (2 + (S - 2))" by (rule arg_cong)
    then show ?thesis unfolding power_add by simp
  qed
  have q: "n * 10 ^ S div 100 = n * 10 ^ (S - 2)" "n * 10 ^ S mod 100 = 0"
    by (simp_all add: ten mult.left_commute)
  define c0 where "c0 = c * 10 ^ (S - 2)"
  have c0: "sgn c * int (n * 10 ^ (S - 2)) = c0"
    by (simp add: n_def c0_def sgn_mult_abs mult.assoc [symmetric])
  obtain j where j: "j \<le> S" "strip_zeros S c0 (e - int S) = Dec (c0 div 10 ^ j) (e - int S + int j)"
    "10 ^ j dvd c0" "j < S \<longrightarrow> (c0 div 10 ^ j) mod 10 \<noteq> 0"
    using strip_zeros_props [of S c0 "e - int S"] by blast
  have jS: "S - 2 \<le> j"
  proof (rule ccontr)
    assume "\<not> S - 2 \<le> j"
    then obtain i where i: "S - 2 = j + Suc i" using less_imp_Suc_add by (metis add_Suc_right not_le)
    have "c0 div 10 ^ j = 10 * (c * 10 ^ i)" by (simp add: c0_def i power_add)
    with j(4) \<open>\<not> S - 2 \<le> j\<close> show False by simp
  qed
  define c' where "c' = c0 div 10 ^ j"
  have c': "c0 = c' * 10 ^ j" using j(3) by (simp add: c'_def)
  have "c = c' * 10 ^ (j - (S - 2))"
  proof -
    have "c * 10 ^ (S - 2) = c' * 10 ^ (j - (S - 2)) * 10 ^ (S - 2)"
      using c' jS by (simp add: c0_def mult.assoc flip: power_add)
    then show ?thesis by simp
  qed
  then have "\<bar>c'\<bar> \<le> \<bar>c\<bar>" by (simp add: abs_mult mult_le_cancel_left1)
  with assms have f: "fits c'" by (simp add: fits_def)
  have "dval (Dec c' (e - int S + int j)) = of_int c0 * ten_pow (e - int S)"
    using c' by (simp add: dval_ten_pow ten_pow_add) (simp add: ten_pow_def)
  also have "\<dots> = of_int c * (10 ^ (S - 2) * ten_pow (e - int S))" by (simp add: c0_def)
  also have "10 ^ (S - 2) * ten_pow (e - int S) = ten_pow e / 100"
  proof -
    have "(10::rat) ^ (S - 2) = ten_pow (int S - 2)" using S(1) by (simp add: ten_pow_def nat_diff_distrib)
    then have "10 ^ (S - 2) * ten_pow (e - int S) = ten_pow (e - 2)" by (simp flip: ten_pow_add)
    also have "\<dots> = ten_pow e * ten_pow (- 2)" by (simp flip: ten_pow_add)
    finally show ?thesis by (simp add: ten_pow_def [of "- 2"])
  qed
  finally have v: "dval (Dec c' (e - int S + int j)) = dval (Dec c e) / 100" by (simp add: dval_ten_pow)
  have "dec_div (Dec c e) (Dec 100 0) = Some (Dec c' (e - int S + int j))"
    using False S q c0 j(2) f
    by (simp add: dec_div_def n_def [symmetric] dec_prec_def Let_def c'_def [symmetric] dec_fix_exact)
  with f v show ?thesis by simp
qed

text \<open>\<open>amount * percent / Decimal('100')\<close>, as the code writes a percentage.\<close>

lemma percent_of_exact:
  assumes "fits (coef a * coef p)"
  shows "\<exists>d. dec_div (dec_mul a p) (Dec 100 0) = Some d \<and> fits (coef d) \<and> dval d = dval a * dval p / 100"
  using dec_div_100 [OF assms, of "expo a + expo p"] dval_mul [OF assms]
  by (simp add: dec_mul_exact [OF assms])


section \<open>How far a rounded result can be\<close>

lemma dval_abs: "\<bar>dval (Dec c e)\<bar> = of_int \<bar>c\<bar> * ten_pow e"
  using ten_pow_pos [of e] by (simp add: dval_ten_pow abs_mult)

lemma ten_pow_nat: "ten_pow (int k) = 10 ^ k"
  by (simp add: ten_pow_def)

lemma div_half_even_bounds:
  assumes "10 ^ k \<le> n"
  shows "n \<le> 2 * (div_half_even n k * 10 ^ k)" "div_half_even n k * 10 ^ k \<le> 2 * n"
proof -
  define p q r where "p = (10::nat) ^ k" and "q = n div p" and "r = n mod p"
  have n: "n = q * p + r" "r < p" unfolding p_def q_def r_def by (metis div_mult_mod_eq) simp
  have "1 \<le> q" using assms by (simp add: q_def p_def div_greater_zero_iff Suc_le_eq)
  then have qp: "p \<le> q * p" by simp
  have d: "div_half_even n k = q \<or> div_half_even n k = q + 1"
    by (simp add: div_half_even_def Let_def p_def [symmetric] q_def)
  define t where "t = q * p"
  have "t \<le> n" "n \<le> 2 * t" "t + p \<le> 2 * n" "n \<le> 2 * (t + p)"
    using n qp by (simp_all add: t_def [symmetric])
  then have "q * p \<le> 2 * n" "n \<le> 2 * (q * p)" "(q + 1) * p \<le> 2 * n" "n \<le> 2 * ((q + 1) * p)"
    by (simp_all add: t_def)
  with d show "n \<le> 2 * (div_half_even n k * 10 ^ k)" "div_half_even n k * 10 ^ k \<le> 2 * n"
    by (auto simp: p_def [symmetric])
qed

lemma dec_fix_bounds:
  "\<bar>dval (dec_fix c e)\<bar> \<le> 4 * \<bar>dval (Dec c e)\<bar>" "\<bar>dval (Dec c e)\<bar> \<le> 4 * \<bar>dval (dec_fix c e)\<bar>"
proof -
  define n k where "n = nat \<bar>c\<bar>" and "k = ndigits n - dec_prec"
  have "\<exists>w. \<bar>dval (dec_fix c e)\<bar> = of_nat w * ten_pow e \<and> w \<le> 4 * n \<and> n \<le> 4 * w"
  proof (cases "k = 0")
    case True
    then have "dec_fix c e = Dec c e" by (simp add: dec_fix_def Let_def n_def k_def)
    then show ?thesis by (intro exI [of _ n]) (simp add: dval_abs n_def)
  next
    case False
    define q where "q = div_half_even n k"
    have "\<not> ndigits n \<le> k" using False by (simp add: k_def dec_prec_def)
    with False have big: "10 ^ k \<le> n" by (simp add: ndigits_le_iff)
    have nd: "\<not> ndigits n \<le> dec_prec" using False by (simp add: k_def)
    from big have s: "\<bar>sgn c\<bar> = 1" by (cases "c = 0") (simp_all add: n_def sgn_if)
    have b: "n \<le> 2 * (q * 10 ^ k)" "q * 10 ^ k \<le> 2 * n"
      using div_half_even_bounds [OF big] by (simp_all add: q_def)
    show ?thesis
    proof (cases "ndigits q > dec_prec")
      case True
      have "10 \<le> q" using True ndigits_le_iff [of 28 q] by (simp add: dec_prec_def not_less)
      then have m: "q \<le> 2 * (q div 10 * 10)" "q div 10 * 10 \<le> q" by presburger+
      have "dec_fix c e = Dec (sgn c * int (q div 10)) (e + int k + 1)"
        using True nd by (simp add: dec_fix_def Let_def n_def [symmetric] k_def [symmetric] q_def [symmetric])
      then have "\<bar>dval (dec_fix c e)\<bar> = of_nat (q div 10 * 10 * 10 ^ k) * ten_pow e"
        using s by (simp add: dval_abs abs_mult ten_pow_add ten_pow_nat) (simp add: ten_pow_def)
      moreover have "n \<le> 4 * (q div 10 * 10 * 10 ^ k)"
      proof -
        have "q * 10 ^ k \<le> 2 * (q div 10 * 10) * 10 ^ k" using m(1) by (rule mult_right_mono) simp
        with b(1) show ?thesis by linarith
      qed
      moreover have "q div 10 * 10 * 10 ^ k \<le> 4 * n"
      proof -
        have "q div 10 * 10 * 10 ^ k \<le> q * 10 ^ k" using m(2) by (rule mult_right_mono) simp
        with b(2) show ?thesis by linarith
      qed
      ultimately show ?thesis by blast
    next
      case small: False
      have "dec_fix c e = Dec (sgn c * int q) (e + int k)"
        using small nd by (simp add: dec_fix_def Let_def n_def [symmetric] k_def [symmetric] q_def [symmetric])
      then have "\<bar>dval (dec_fix c e)\<bar> = of_nat (q * 10 ^ k) * ten_pow e"
        using s by (simp add: dval_abs abs_mult ten_pow_add ten_pow_nat)
      moreover have "q * 10 ^ k \<le> 4 * n" "n \<le> 4 * (q * 10 ^ k)" using b by linarith+
      ultimately show ?thesis by blast
    qed
  qed
  then obtain w where w: "\<bar>dval (dec_fix c e)\<bar> = of_nat w * ten_pow e" "w \<le> 4 * n" "n \<le> 4 * w" by blast
  have c: "\<bar>dval (Dec c e)\<bar> = of_nat n * ten_pow e" by (simp add: dval_abs n_def)
  have "(of_nat w :: rat) \<le> 4 * of_nat n" "(of_nat n :: rat) \<le> 4 * of_nat w"
    using w(2,3) by (metis of_nat_le_iff of_nat_mult of_nat_numeral)+
  then have "of_nat w * ten_pow e \<le> 4 * of_nat n * ten_pow e" "of_nat n * ten_pow e \<le> 4 * of_nat w * ten_pow e"
    using ten_pow_pos [of e] by (simp_all add: mult_right_mono less_imp_le)
  then show "\<bar>dval (dec_fix c e)\<bar> \<le> 4 * \<bar>dval (Dec c e)\<bar>" "\<bar>dval (Dec c e)\<bar> \<le> 4 * \<bar>dval (dec_fix c e)\<bar>"
    by (simp_all only: w(1) c mult.assoc)
qed

lemma ndigits_upper: "n < 10 ^ ndigits n"
  using ndigits_le_iff [of "ndigits n" n] ndigits_pos by simp

lemma ndigits_lower: "0 < n \<Longrightarrow> 10 ^ (ndigits n - 1) \<le> n"
proof (cases "ndigits n - 1 = 0")
  case False
  have "\<not> ndigits n \<le> ndigits n - 1" using ndigits_pos [of n] by linarith
  with False show ?thesis using ndigits_le_iff [of "ndigits n - 1" n] by (meson gr0I not_less)
qed simp

lemma strip_zeros_dval: "dval (strip_zeros k c e) = dval (Dec c e)"
proof -
  obtain j where j: "strip_zeros k c e = Dec (c div 10 ^ j) (e + int j)" "10 ^ j dvd c"
    using strip_zeros_props [of k c e] by blast
  have "of_int c = (of_int (c div 10 ^ j) :: rat) * 10 ^ j"
    using j(2) by (metis dvd_div_mult_self of_int_mult of_int_numeral of_int_power)
  then show ?thesis by (simp add: j(1) dval_ten_pow ten_pow_add ten_pow_nat)
qed

lemma dec_fix_fits: "fits (coef (dec_fix c e))"
proof -
  define n k where "n = nat \<bar>c\<bar>" and "k = ndigits n - dec_prec"
  show ?thesis
  proof (cases "ndigits n \<le> dec_prec")
    case True
    then show ?thesis by (simp add: dec_fix_def Let_def n_def [symmetric]) (simp add: n_def fits_ndigits)
  next
    case False
    define q where "q = div_half_even n k"
    have "n < 10 ^ (28 + k)" using ndigits_upper [of n] False by (simp add: k_def dec_prec_def)
    then have "n div 10 ^ k < 10 ^ 28" by (simp add: power_add less_mult_imp_div_less)
    then have q: "q \<le> 10 ^ 28" by (simp add: q_def div_half_even_def Let_def)
    have abs: "\<bar>sgn c * int x\<bar> \<le> int x" for x by (simp add: abs_mult sgn_if)
    show ?thesis
    proof (cases "ndigits q > dec_prec")
      case True
      then have "coef (dec_fix c e) = sgn c * int (q div 10)"
        using False by (simp add: dec_fix_def Let_def n_def [symmetric] k_def [symmetric] q_def [symmetric])
      moreover have "int (q div 10) < 10 ^ 28" using q by simp
      ultimately show ?thesis using abs [of "q div 10"] by (simp add: fits_def)
    next
      case small: False
      then have "coef (dec_fix c e) = sgn c * int q"
        using False by (simp add: dec_fix_def Let_def n_def [symmetric] k_def [symmetric] q_def [symmetric])
      moreover have "q < 10 ^ 28" using small ndigits_le_iff [of 28 q] by (simp add: dec_prec_def)
      ultimately show ?thesis using abs [of q] by (simp add: fits_def)
    qed
  qed
qed

lemma dec_div_fits: "dec_div a b = Some d \<Longrightarrow> fits (coef d)"
proof -
  assume h: "dec_div a b = Some d"
  have "\<exists>c e. d = dec_fix c e \<or> d = Dec 0 e"
    using h unfolding dec_div_def Let_def
    by (simp only: option.inject option.distinct split: if_split_asm decimal.split_asm) blast+
  then show ?thesis by (auto simp: dec_fix_fits) (simp add: fits_def)
qed

text \<open>A quotient is never more than a small factor of the exact one.\<close>

lemma dec_div_bound:
  assumes "dec_div a b = Some d"
  shows "\<bar>dval d\<bar> * \<bar>dval b\<bar> \<le> 8 * \<bar>dval a\<bar>"
proof (cases "coef a = 0")
  case True
  with assms have "d = Dec 0 (expo a - expo b)" by (simp add: dec_div_def split: if_splits)
  then show ?thesis by (simp add: dval_def)
next
  case False
  define n m s where "n = nat \<bar>coef a\<bar>" and "m = nat \<bar>coef b\<bar>" and "s = sgn (coef a) * sgn (coef b)"
  define shift where "shift = int (ndigits m) - int (ndigits n) + int dec_prec + 1"
  define e where "e = expo a - expo b - shift"
  define q where "q = (if 0 \<le> shift then (n * 10 ^ nat shift) div m else n div (m * 10 ^ nat (- shift)))"
  have b0: "coef b \<noteq> 0" using assms by (auto simp: dec_div_def)
  then have mpos: "0 < m" and npos: "0 < n" and s1: "\<bar>s\<bar> = 1" using False by (auto simp: m_def n_def s_def abs_mult sgn_if)
  have va: "\<bar>dval a\<bar> = of_nat n * ten_pow (expo a)" by (cases a) (simp add: dval_abs n_def)
  have vb: "\<bar>dval b\<bar> = of_nat m * ten_pow (expo b)" by (cases b) (simp add: dval_abs m_def)
  have qm: "of_nat q * of_nat m * ten_pow (- shift) \<le> (of_nat n :: rat)"
  proof (cases "0 \<le> shift")
    case True
    have "q * m \<le> n * 10 ^ nat shift" using True by (simp add: q_def)
    then have "(of_nat (q * m) :: rat) \<le> of_nat (n * 10 ^ nat shift)" by (simp only: of_nat_le_iff)
    then have "of_nat q * of_nat m \<le> (of_nat n :: rat) * ten_pow shift" using True by (simp add: ten_pow_def)
    then have "of_nat q * of_nat m * ten_pow (- shift) \<le> of_nat n * ten_pow shift * ten_pow (- shift)"
      by (intro mult_right_mono) (simp_all add: ten_pow_pos less_imp_le)
    also have "\<dots> = of_nat n" by (simp add: mult.assoc flip: ten_pow_add)
    finally show ?thesis .
  next
    case neg: False
    have "q * (m * 10 ^ nat (- shift)) \<le> n" using neg by (simp add: q_def del: mult.assoc)
    then have "(of_nat (q * (m * 10 ^ nat (- shift))) :: rat) \<le> of_nat n" by (simp only: of_nat_le_iff)
    then show ?thesis using neg by (simp add: ten_pow_def mult.assoc)
  qed
  have q1: "1 \<le> q"
  proof -
    have n10: "10 ^ (ndigits n - 1) \<le> n" using ndigits_lower [OF npos] .
    have m10: "m < 10 ^ ndigits m" using ndigits_upper by blast
    show ?thesis
    proof (cases "0 \<le> shift")
      case True
      then have "ndigits m \<le> ndigits n - 1 + nat shift" using ndigits_pos [of n] by (simp add: shift_def dec_prec_def)
      then have "(10::nat) ^ ndigits m \<le> 10 ^ (ndigits n - 1) * 10 ^ nat shift"
        by (simp flip: power_add add: power_increasing)
      also have "\<dots> \<le> n * 10 ^ nat shift" using n10 by simp
      finally have "m \<le> n * 10 ^ nat shift" using m10 by linarith
      then show ?thesis using True mpos by (simp add: q_def Suc_le_eq div_greater_zero_iff)
    next
      case neg: False
      then have "ndigits m + nat (- shift) \<le> ndigits n - 1" using ndigits_pos [of n] by (simp add: shift_def dec_prec_def)
      then have "(10::nat) ^ ndigits m * 10 ^ nat (- shift) \<le> 10 ^ (ndigits n - 1)"
        by (simp flip: power_add add: power_increasing)
      moreover have "m * 10 ^ nat (- shift) \<le> 10 ^ ndigits m * 10 ^ nat (- shift)" using m10 by simp
      ultimately have "m * 10 ^ nat (- shift) \<le> n" using n10 by linarith
      then show ?thesis using neg mpos by (simp add: q_def Suc_le_eq div_greater_zero_iff)
    qed
  qed
  obtain q' where q': "q' \<le> q + 1" "\<bar>dval d\<bar> \<le> 4 * (of_nat q' * ten_pow e)"
  proof -
    define r where "r = (if 0 \<le> shift then (n * 10 ^ nat shift) mod m else n mod (m * 10 ^ nat (- shift)))"
    have run: "dec_div a b = (if r \<noteq> 0 then Some (dec_fix (s * int (if q mod 5 = 0 then q + 1 else q)) e)
        else case strip_zeros (nat (expo a - expo b - e)) (s * int q) e of Dec c' e' \<Rightarrow> Some (dec_fix c' e'))"
      by (simp only: dec_div_def Let_def False b0 if_False n_def m_def s_def shift_def e_def q_def r_def)
    show ?thesis
    proof (cases "r = 0")
      case True
      obtain c' e' where st: "strip_zeros (nat (expo a - expo b - e)) (s * int q) e = Dec c' e'" by (cases "strip_zeros (nat (expo a - expo b - e)) (s * int q) e")
      with True run assms have "d = dec_fix c' e'" by simp
      moreover have "\<bar>dval (Dec c' e')\<bar> = of_nat q * ten_pow e"
        using strip_zeros_dval [of "nat (expo a - expo b - e)" "s * int q" e] s1 by (simp add: st dval_abs abs_mult)
      ultimately show ?thesis using dec_fix_bounds(1) [of c' e'] that [of q] by simp
    next
      case r: False
      define q' where "q' = (if q mod 5 = 0 then q + 1 else q)"
      have "d = dec_fix (s * int q') e" using r run assms by (simp add: q'_def)
      then have "\<bar>dval d\<bar> \<le> 4 * (of_nat q' * ten_pow e)"
        using dec_fix_bounds(1) [of "s * int q'" e] s1 by (simp add: dval_abs abs_mult)
      then show ?thesis using that [of q'] by (simp add: q'_def)
    qed
  qed
  have "q' \<le> 2 * q" using q'(1) q1 by linarith
  then have "(of_nat q' :: rat) \<le> of_nat (2 * q)" by (simp only: of_nat_le_iff)
  then have "of_nat q' * ten_pow e \<le> of_nat (2 * q) * ten_pow e"
    by (rule mult_right_mono) (simp add: ten_pow_pos less_imp_le)
  then have "4 * (of_nat q' * ten_pow e) \<le> 8 * (of_nat q * ten_pow e)" by simp
  with q'(2) have "\<bar>dval d\<bar> \<le> 8 * (of_nat q * ten_pow e)" by linarith
  then have "\<bar>dval d\<bar> * \<bar>dval b\<bar> \<le> 8 * (of_nat q * ten_pow e) * \<bar>dval b\<bar>" by (rule mult_right_mono) simp
  also have "\<dots> = 8 * (of_nat q * of_nat m * ten_pow (- shift)) * ten_pow (expo a)"
  proof -
    have "ten_pow e * ten_pow (expo b) = ten_pow (- shift) * ten_pow (expo a)"
      by (simp add: e_def flip: ten_pow_add)
    then show ?thesis by (simp add: vb)
  qed
  also have "\<dots> \<le> 8 * of_nat n * ten_pow (expo a)"
    using qm by (intro mult_right_mono) (simp_all add: ten_pow_pos less_imp_le)
  finally show ?thesis by (simp add: va)
qed


section \<open>Whole cents\<close>

text \<open>Decimals with two places, as \<open>from_minor\<close> makes them, add and subtract exactly.\<close>

lemma dec_add_cents: "fits (a + b) \<Longrightarrow> dec_add (Dec a (- 2)) (Dec b (- 2)) = Dec (a + b) (- 2)"
  by (simp add: dec_add_def dec_fix_exact)

lemma dec_sub_cents: "fits (a - b) \<Longrightarrow> dec_sub (Dec a (- 2)) (Dec b (- 2)) = Dec (a - b) (- 2)"
  using dec_add_cents [of a "- b"] by (simp add: dec_sub_def)

lemma dec_mul_int_cents: "fits (a * k) \<Longrightarrow> dec_mul (Dec a (- 2)) (Dec k 0) = Dec (a * k) (- 2)"
  by (simp add: dec_mul_def dec_fix_exact)

lemma dval_cents: "dval (Dec a (- 2)) = of_int a / 100"
  by (simp add: dval_def)

end
