(* ===== verification/Money.thy ===== *)
theory Money
  imports PyDecimal Countries "HOL-Library.List_Lexorder" "HOL-Library.Char_ord"
    "HOL-Library.Option_ord"
begin

text \<open>
  Money (\<open>base/money.py\<close>): stored amounts are integers of minor units beside a currency;
  arithmetic is in \<open>Decimal\<close> and \<open>to_minor\<close> is where it becomes stored. The file has the
  currency table, the conversions, the rider-facing rounding, the aggregates that never mix
  currencies, where a row's currency comes from, and the property that fronts an integer column.

  A value of unknown Python type is a \<open>pyval\<close>; a float is kept as its \<open>str()\<close>, which is
  all the module reads of it. Query sets are the lists of the columns they select. The float
  that \<open>to_gateway_major\<close> hands to JSON and the log lines are not modelled.
\<close>

datatype pyval = VNone | VBool bool | VFloat string | VInt int | VDec dec_lit | VStr string | VOther

datatype money_error =
    MoneyTypeError | UnsupportedCurrency | DecimalInvalid | NotMinorColumn | CurrencyRescale

record currency_row =
  cur_code :: string
  cur_exponent :: int
  cur_symbol :: string

definition CURRENCIES :: "(string \<times> currency_row) list" where
  "CURRENCIES =
     [(''INR'', \<lparr> cur_code = ''INR'', cur_exponent = 2, cur_symbol = rupee_sign \<rparr>),
      (''USD'', \<lparr> cur_code = ''USD'', cur_exponent = 2, cur_symbol = ''$'' \<rparr>)]"

definition DEFAULT_CURRENCY :: string where
  "DEFAULT_CURRENCY = ct_currency (get_country (Some DEFAULT_COUNTRY_CODE))"

definition supported :: "string \<Rightarrow> bool" where
  "supported code = (map_of CURRENCIES code \<noteq> None)"

definition is_supported :: "string option \<Rightarrow> bool" where
  "is_supported currency = supported (norm_code currency)"

definition normalize_currency :: "string option \<Rightarrow> string option \<Rightarrow> string" where
  "normalize_currency currency fallback =
     (let code = norm_code currency in
      if supported code then code
      else case fallback of Some f \<Rightarrow> if f = [] then DEFAULT_CURRENCY else f
           | None \<Rightarrow> DEFAULT_CURRENCY)"

definition exponent :: "string option \<Rightarrow> money_error + int" where
  "exponent currency = (case map_of CURRENCIES (norm_code currency) of
      None \<Rightarrow> Inl UnsupportedCurrency | Some c \<Rightarrow> Inr (cur_exponent c))"

definition quantum :: "string option \<Rightarrow> money_error + decimal" where
  "quantum currency = bind_res (exponent currency) (\<lambda>e. Inr (dec_scaleb (Dec 1 0) (- e)))"

definition as_decimal :: "pyval \<Rightarrow> money_error + decimal" where
  "as_decimal v = (case v of
      VDec (Finite d) \<Rightarrow> Inr d
    | VInt n \<Rightarrow> Inr (dec_of_int n)
    | VStr s \<Rightarrow> (case parse_decimal s of Some (Finite d) \<Rightarrow> Inr d | _ \<Rightarrow> Inl MoneyTypeError)
    | _ \<Rightarrow> Inl MoneyTypeError)"

definition parse_input :: "pyval \<Rightarrow> money_error + decimal" where
  "parse_input v = as_decimal (case v of VFloat s \<Rightarrow> VStr s | _ \<Rightarrow> v)"

definition to_minor :: "pyval \<Rightarrow> string option \<Rightarrow> money_error + int option" where
  "to_minor amount currency =
     (if amount = VNone then Inr None
      else bind_res (as_decimal amount) (\<lambda>d.
           bind_res (exponent currency) (\<lambda>e.
           case dec_quantize (dec_scaleb d e) 0 of
             None \<Rightarrow> Inl DecimalInvalid
           | Some q \<Rightarrow> Inr (Some (dec_to_int q)))))"

definition from_minor :: "pyval \<Rightarrow> string option \<Rightarrow> money_error + decimal option" where
  "from_minor minor currency = (case minor of
      VNone \<Rightarrow> Inr None
    | VInt n \<Rightarrow> bind_res (exponent currency) (\<lambda>e. Inr (Some (dec_scaleb (dec_of_int n) (- e))))
    | _ \<Rightarrow> Inl MoneyTypeError)"

text \<open>An optional stored value, as the Python value it is.\<close>

definition of_minor :: "int option \<Rightarrow> pyval" where
  "of_minor m = (case m of None \<Rightarrow> VNone | Some n \<Rightarrow> VInt n)"

definition of_dec :: "decimal option \<Rightarrow> pyval" where
  "of_dec d = (case d of None \<Rightarrow> VNone | Some x \<Rightarrow> VDec (Finite x))"

definition quantize_money :: "pyval \<Rightarrow> string option \<Rightarrow> money_error + decimal option" where
  "quantize_money amount currency =
     (if amount = VNone then Inr None
      else bind_res (to_minor amount currency) (\<lambda>m. from_minor (of_minor m) currency))"

text \<open>\<open>quantize(d, currency)\<close> of a Decimal.\<close>

definition quant :: "decimal \<Rightarrow> string \<Rightarrow> money_error + decimal" where
  "quant d currency = bind_res (quantize_money (VDec (Finite d)) (Some currency))
     (\<lambda>q. case q of None \<Rightarrow> Inl MoneyTypeError | Some x \<Rightarrow> Inr x)"

text \<open>\<open>Decimal(str(amount)).quantize(Decimal('1'), ROUND_HALF_UP)\<close>.\<close>

definition whole_units :: "pyval \<Rightarrow> money_error + dec_lit" where
  "whole_units amount =
     (let lit = (case amount of VDec x \<Rightarrow> Some x | VInt n \<Rightarrow> Some (Finite (dec_of_int n))
                 | VStr s \<Rightarrow> parse_decimal s | VFloat s \<Rightarrow> parse_decimal s | _ \<Rightarrow> None)
      in case lit of
           Some (Finite d) \<Rightarrow> (case dec_quantize d 0 of None \<Rightarrow> Inl DecimalInvalid | Some q \<Rightarrow> Inr (Finite q))
         | Some QuietNaN \<Rightarrow> Inr QuietNaN
         | _ \<Rightarrow> Inl DecimalInvalid)"

definition round_fare :: "pyval \<Rightarrow> string option \<Rightarrow> money_error + decimal option" where
  "round_fare amount currency =
     (if amount = VNone then Inr None
      else if py_upper (case currency of None \<Rightarrow> ''None'' | Some c \<Rightarrow> c) = ''INR''
        then bind_res (whole_units amount) (\<lambda>w. quantize_money (VDec w) currency)
      else quantize_money amount currency)"

section \<open>Rendering\<close>

fun show_nat :: "nat \<Rightarrow> string" where
  "show_nat n = (if n < 10 then [char_of (48 + n)] else show_nat (n div 10) @ [char_of (48 + n mod 10)])"

declare show_nat.simps [simp del]

text \<open>Thousands separators, from the right.\<close>

fun group3_rev :: "string \<Rightarrow> string" where
  "group3_rev (a # b # c # d # r) = a # b # c # CHR '','' # group3_rev (d # r)"
| "group3_rev s = s"

definition pad_zeros :: "nat \<Rightarrow> string \<Rightarrow> string" where
  "pad_zeros k s = replicate (k - length s) (CHR ''0'') @ s"

text \<open>\<open>f'{value:,.{places}f}'\<close> of an amount of \<open>m\<close> minor units.\<close>

definition format_fixed :: "int \<Rightarrow> nat \<Rightarrow> string" where
  "format_fixed m places =
     (let n = nat \<bar>m\<bar>; whole = rev (group3_rev (rev (show_nat (n div 10 ^ places))))
      in (if m < 0 then ''-'' else []) @ whole @
         (if places = 0 then [] else ''.'' @ pad_zeros places (show_nat (n mod 10 ^ places))))"

definition format_money :: "pyval \<Rightarrow> string option \<Rightarrow> bool \<Rightarrow> money_error + string" where
  "format_money amount currency with_symbol =
     (let code = normalize_currency currency None;
          a = (if amount = VNone then VInt 0 else amount)
      in bind_res (to_minor a (Some code)) (\<lambda>m.
         bind_res (exponent (Some code)) (\<lambda>places.
         let text = format_fixed (case m of None \<Rightarrow> 0 | Some n \<Rightarrow> n) (nat places);
             symbol = (case map_of CURRENCIES code of None \<Rightarrow> [] | Some c \<Rightarrow> cur_symbol c)
         in Inr (if \<not> with_symbol then text
            else case find (\<lambda>c. ct_currency c = code) COUNTRIES of
                   Some c \<Rightarrow> if symbol_position c = ''suffix'' then text @ '' '' @ symbol else symbol @ text
                 | None \<Rightarrow> symbol @ text))))"

section \<open>Aggregates\<close>

text \<open>\<open>Coalesce(final_fare_minor, estimated_fare_minor, 0)\<close>.\<close>

definition charged_fare :: "int option \<Rightarrow> int option \<Rightarrow> int" where
  "charged_fare final_fare estimated_fare =
     (case final_fare of Some f \<Rightarrow> f | None \<Rightarrow> (case estimated_fare of Some e \<Rightarrow> e | None \<Rightarrow> 0))"

definition null_int :: "int option \<Rightarrow> int" where
  "null_int a = (case a of None \<Rightarrow> 0 | Some n \<Rightarrow> n)"

definition sum_column :: "int option list \<Rightarrow> int" where
  "sum_column col = sum_list (map null_int col)"

type_synonym money_rows = "(string option \<times> int option) list"

text \<open>\<open>values(currency).annotate(Sum(field)).order_by(currency)\<close>: one total per stored
  currency text, in its order.\<close>

definition grouped :: "money_rows \<Rightarrow> (string option \<times> int) list" where
  "grouped rows = map (\<lambda>c. (c, sum_column (map snd (filter (\<lambda>r. fst r = c) rows))))
     (sort (remdups (map fst rows)))"

fun add_totals :: "(string \<times> int) list \<Rightarrow> (string option \<times> int) list \<Rightarrow> (string \<times> int) list" where
  "add_totals totals [] = totals"
| "add_totals totals ((c, t) # rest) =
     (let code = normalize_currency c None
      in add_totals (AList.update code ((case map_of totals code of None \<Rightarrow> 0 | Some x \<Rightarrow> x) + t) totals) rest)"

definition totals_minor :: "money_rows \<Rightarrow> (string \<times> int) list" where
  "totals_minor rows = add_totals [] (grouped rows)"

fun majors :: "(string \<times> int) list \<Rightarrow> money_error + (string \<times> decimal option) list" where
  "majors [] = Inr []"
| "majors ((code, m) # rest) =
     bind_res (from_minor (VInt m) (Some code)) (\<lambda>d. bind_res (majors rest) (\<lambda>ds. Inr ((code, d) # ds)))"

definition ends_with :: "string \<Rightarrow> string \<Rightarrow> bool" where
  "ends_with suffix s = starts_with (rev suffix) (rev s)"

text \<open>\<open>field\<close> is a column name, or an expression (\<open>None\<close>) whose values the rows carry.\<close>

definition sum_by_currency :: "string option \<Rightarrow> money_rows \<Rightarrow> money_error + (string \<times> decimal option) list" where
  "sum_by_currency field rows =
     (if (case field of Some f \<Rightarrow> \<not> ends_with ''_minor'' f | None \<Rightarrow> False) then Inl NotMinorColumn
      else majors (totals_minor rows))"

definition sum_minor :: "int option list \<Rightarrow> int" where
  "sum_minor col = sum_column col"

definition single_currency_or_none :: "string option list \<Rightarrow> string option" where
  "single_currency_or_none col =
     (case remdups (filter (\<lambda>c. \<not> falsy c) col) of [c] \<Rightarrow> Some (normalize_currency c None) | _ \<Rightarrow> None)"

text \<open>\<open>' + '.join(...)\<close> of the formatted totals.\<close>

fun format_all :: "(string \<times> decimal option) list \<Rightarrow> money_error + string list" where
  "format_all [] = Inr []"
| "format_all ((k, v) # rest) = bind_res (format_money (of_dec v) (Some k) True)
     (\<lambda>t. bind_res (format_all rest) (\<lambda>ts. Inr (t # ts)))"

fun join_plus :: "string list \<Rightarrow> string" where
  "join_plus [] = []"
| "join_plus [t] = t"
| "join_plus (t # ts) = t @ '' + '' @ join_plus ts"

definition format_totals :: "(string \<times> decimal option) list \<Rightarrow> money_error + string" where
  "format_totals totals = (if totals = [] then format_money (VInt 0) (Some DEFAULT_CURRENCY) True
     else bind_res (format_all totals) (\<lambda>ts. Inr (join_plus ts)))"

section \<open>Where a record's currency comes from\<close>

record zone_money =
  zm_currency :: "string option"
  zm_country :: "string option"

definition currency_for_zone :: "zone_money option \<Rightarrow> string" where
  "currency_for_zone zone = (case zone of None \<Rightarrow> DEFAULT_CURRENCY
     | Some z \<Rightarrow> if \<not> falsy (zm_currency z) then normalize_currency (zm_currency z) None
                 else normalize_currency (Some (ct_currency (get_country (zm_country z)))) None)"

text \<open>A trip is its stamped currency and its zone.\<close>

definition currency_for_trip :: "(string option \<times> zone_money option) option \<Rightarrow> string" where
  "currency_for_trip trip = (case trip of None \<Rightarrow> DEFAULT_CURRENCY
     | Some (stamped, zone) \<Rightarrow>
         if \<not> falsy stamped then normalize_currency stamped None else currency_for_zone zone)"

text \<open>A row with one money column: its currency field, what \<open>_derive_currency\<close> finds for it,
  and the stored minor units.\<close>

record money_row =
  mr_currency :: string
  mr_derive :: "string option"
  mr_minor :: "int option"

definition currency_of :: "money_row \<Rightarrow> string \<times> money_row" where
  "currency_of r =
     (if mr_currency r \<noteq> [] then (mr_currency r, r)
      else if falsy (mr_derive r) then (DEFAULT_CURRENCY, r)
      else let chosen = normalize_currency (mr_derive r) None in (chosen, r\<lparr>mr_currency := chosen\<rparr>))"

definition amount_get :: "money_row \<Rightarrow> (money_error + decimal option) \<times> money_row" where
  "amount_get r = (let (c, r') = currency_of r in (from_minor (of_minor (mr_minor r)) (Some c), r'))"

definition amount_set :: "pyval \<Rightarrow> money_row \<Rightarrow> money_error + money_row" where
  "amount_set v r = (let (c, r') = currency_of r
     in bind_res (to_minor v (Some c)) (\<lambda>m. Inr (r'\<lparr>mr_minor := m\<rparr>)))"

text \<open>\<open>held\<close> are the row's money columns.\<close>

definition assert_currency_change_keeps_scale ::
  "string option \<Rightarrow> string option \<Rightarrow> int option list \<Rightarrow> money_error + unit" where
  "assert_currency_change_keeps_scale before after_cur held =
     (if falsy before \<or> falsy after_cur \<or> before = after_cur then Inr ()
      else case (exponent before, exponent after_cur) of
             (Inr a, Inr b) \<Rightarrow>
               if a = b then Inr ()
               else if filter (\<lambda>m. m \<noteq> None \<and> m \<noteq> Some 0) held \<noteq> [] then Inl CurrencyRescale else Inr ()
           | _ \<Rightarrow> Inr ())"


section \<open>Conversions\<close>

lemma exponent_2: "exponent c = Inr e \<Longrightarrow> e = 2"
  by (auto simp: exponent_def CURRENCIES_def split: option.splits if_splits)

lemma exponent_supported: "exponent c = Inr e \<longleftrightarrow> is_supported c \<and> e = 2"
  by (auto simp: exponent_def is_supported_def supported_def CURRENCIES_def
      split: option.splits if_splits)

lemma norm_supported: "supported code \<Longrightarrow> norm_code (Some code) = code"
proof -
  assume "supported code"
  then have "code = ''INR'' \<or> code = ''USD''"
    by (auto simp: supported_def CURRENCIES_def split: if_splits)
  moreover have "norm_code (Some ''INR'') = ''INR''" "norm_code (Some ''USD'') = ''USD''"
    by code_simp+
  ultimately show ?thesis by auto
qed

lemma supported_default: "supported DEFAULT_CURRENCY"
  by code_simp

lemma normalize_is_supported: "supported (normalize_currency c None)"
  by (auto simp: normalize_currency_def Let_def supported_default)

lemma exponent_normalized [simp]: "exponent (Some (normalize_currency c None)) = Inr 2"
  using normalize_is_supported [of c] norm_supported [OF normalize_is_supported, of c]
  by (simp add: exponent_supported is_supported_def)

lemma inr_exponent: "exponent (Some ''INR'') = Inr 2" "exponent (Some ''USD'') = Inr 2"
  by code_simp+

lemma to_minor_eval:
  "as_decimal v = Inr d \<Longrightarrow> exponent c = Inr e \<Longrightarrow> v \<noteq> VNone
    \<Longrightarrow> dec_quantize (dec_scaleb d e) 0 = Some q \<Longrightarrow> m = dec_to_int q \<Longrightarrow> to_minor v c = Inr (Some m)"
  by (simp add: to_minor_def)

lemma quantize_fits: "fits c \<Longrightarrow> dec_quantize (Dec c 0) 0 = Some (Dec c 0)"
  by (simp add: dec_quantize_def fits_ndigits Let_def sgn_mult_abs)

lemma from_minor_int:
  "fits m \<Longrightarrow> from_minor (VInt m) c = Inr d \<Longrightarrow> d = Some (Dec m (- 2)) \<and> exponent c = Inr 2"
  by (auto simp: from_minor_def bind_res_Inr_iff dec_of_int_def dec_scaleb_exact dest: exponent_2)

lemma to_minor_of_minor:
  "fits m \<Longrightarrow> exponent c = Inr 2 \<Longrightarrow> to_minor (VDec (Finite (Dec m (- 2)))) c = Inr (Some m)"
  by (simp add: to_minor_def as_decimal_def dec_scaleb_exact quantize_fits dec_to_int_def)

lemma from_minor_value: "fits m \<Longrightarrow> from_minor (VInt m) c = Inr (Some d) \<Longrightarrow> dval d = of_int m / 100"
  by (auto dest!: from_minor_int simp: dval_def)

lemma to_minor_value:
  assumes "to_minor v c = Inr (Some m)" "as_decimal v = Inr d" "fits (coef d)"
  shows "m = round_half_up (dval d * 100)"
proof -
  from assms(1,2) obtain e q where e: "exponent c = Inr e"
    and q: "dec_quantize (dec_scaleb d e) 0 = Some q" and m: "m = dec_to_int q"
    by (auto simp: to_minor_def bind_res_Inr_iff split: if_splits option.splits)
  have e2: "e = 2" using e by (rule exponent_2)
  then have q': "dec_quantize (Dec (coef d) (expo d + 2)) 0 = Some q"
    using q assms(3) by (simp add: dec_scaleb_exact)
  have "dval (Dec (coef d) (expo d + 2)) = dval d * 100"
    by (cases d) (simp add: dval_ten_pow ten_pow_add, simp add: ten_pow_def)
  with dec_quantize_0 [OF q'] m show ?thesis by (simp add: dec_to_int_def)
qed

lemma dec_quantize_fits: "dec_quantize d 0 = Some q \<Longrightarrow> expo q = 0 \<and> fits (coef q)"
proof -
  assume r: "dec_quantize d 0 = Some q"
  define n where "n = (if 0 \<le> expo d then nat \<bar>coef d\<bar> * 10 ^ nat (expo d)
     else half_up (nat \<bar>coef d\<bar>) (nat (- expo d)))"
  have q: "ndigits n \<le> dec_prec" "q = Dec (sgn (coef d) * int n) 0"
    using r by (auto simp: dec_quantize_def Let_def n_def split: if_splits)
  have "nat \<bar>sgn (coef d) * int n\<bar> \<le> n" by (simp add: abs_mult sgn_if)
  moreover have "n < 10 ^ 28" using q(1) by (simp add: dec_prec_def ndigits_le_iff)
  ultimately have "nat \<bar>sgn (coef d) * int n\<bar> < 10 ^ 28" by linarith
  then show ?thesis by (simp add: q(2) fits_def nat_less_iff)
qed

lemma to_minor_None: "to_minor v c = Inr None \<longleftrightarrow> v = VNone"
  by (auto simp: to_minor_def bind_res_Inr_iff split: option.splits)

text \<open>The contract of the two conversions the other components rely on: what the rounding point
  returns for an exact amount, and that reading a stored amount and storing it again is the
  identity.\<close>

locale minor_unit_store =
  fixes store :: "rat \<Rightarrow> int" and load :: "int \<Rightarrow> rat" and unit_size :: rat
  assumes unit_pos: "0 < unit_size"
    and load_def_law: "load m = of_int m * unit_size"
    and store_nearest: "\<bar>of_int (store x) * unit_size - x\<bar> \<le> unit_size / 2"
    and store_mono: "x \<le> y \<Longrightarrow> store x \<le> store y"
begin

lemma store_load: "store (load m) = m"
proof -
  have "\<bar>of_int (store (load m)) * unit_size - of_int m * unit_size\<bar> \<le> unit_size / 2"
    using store_nearest [of "load m"] by (simp add: load_def_law)
  moreover have "of_int (store (load m)) * unit_size - of_int m * unit_size
      = unit_size * of_int (store (load m) - m)" by (simp add: right_diff_distrib mult.commute)
  ultimately have "unit_size * \<bar>of_int (store (load m) - m)\<bar> \<le> unit_size / 2"
    using unit_pos by (simp only: abs_mult abs_of_pos)
  then have "\<bar>of_int (store (load m) - m) :: rat\<bar> \<le> 1 / 2"
    using unit_pos by (metis mult.commute mult_le_cancel_left_pos times_divide_eq_left mult_1)
  then show ?thesis by linarith
qed

lemma load_mono: "m \<le> n \<Longrightarrow> load m \<le> load n"
  using unit_pos by (simp add: load_def_law)

lemma store_le: "x \<le> load n \<Longrightarrow> store x \<le> n"
  using store_mono [of x "load n"] by (simp add: store_load)

lemma store_ge: "load n \<le> x \<Longrightarrow> n \<le> store x"
  using store_mono [of "load n" x] by (simp add: store_load)

lemma store_nonneg: "0 \<le> x \<Longrightarrow> 0 \<le> store x"
  using store_ge [of 0 x] by (simp add: load_def_law)

end

definition cents :: "rat \<Rightarrow> int" where
  "cents x = round_half_up (x * 100)"

interpretation cents: minor_unit_store cents "\<lambda>m. of_int m / 100" "1 / 100"
proof unfold_locales
  fix x :: rat
  show "\<bar>of_int (cents x) * (1 / 100) - x\<bar> \<le> 1 / 100 / 2"
    using round_half_up_error [of "x * 100"] by (simp add: cents_def abs_if split: if_splits)
next
  fix x y :: rat
  assume "x \<le> y"
  then show "cents x \<le> cents y" by (simp add: cents_def round_half_up_mono)
qed simp_all

lemma to_minor_cents:
  "to_minor v c = Inr (Some m) \<Longrightarrow> as_decimal v = Inr d \<Longrightarrow> fits (coef d) \<Longrightarrow> m = cents (dval d)"
  by (simp add: cents_def to_minor_value)

lemma to_minor_exact:
  assumes "exponent c = Inr 2" and "fits (coef x)" and "fits (cents (dval x))"
  shows "to_minor (VDec (Finite x)) c = Inr (Some (cents (dval x)))"
proof -
  have v: "dval (dec_scaleb x 2) = dval x * 100"
    using dval_scaleb [OF assms(2), of 2] by (simp add: ten_pow_def)
  have "dec_quantize (dec_scaleb x 2) 0 = Some (Dec (cents (dval x)) 0)"
    using dec_quantize_0_total [of "dec_scaleb x 2"] assms(3) by (simp add: v cents_def)
  then show ?thesis
    by (intro to_minor_eval [where d = x and q = "Dec (cents (dval x)) 0", OF _ assms(1)])
      (simp_all add: as_decimal_def dec_to_int_def)
qed

lemma quant_cents:
  "quant d currency = Inr q \<Longrightarrow> fits (coef d) \<Longrightarrow> q = Dec (cents (dval d)) (- 2) \<and> fits (cents (dval d))"
proof -
  assume q: "quant d currency = Inr q" and f: "fits (coef d)"
  obtain m where m: "to_minor (VDec (Finite d)) (Some currency) = Inr (Some m)"
    and r: "from_minor (VInt m) (Some currency) = Inr (Some q)"
    using q by (auto simp: quant_def quantize_money_def bind_res_Inr_iff of_minor_def to_minor_def
        from_minor_def split: option.splits)
  have fm: "fits m" using m by (auto simp: to_minor_def bind_res_Inr_iff dec_to_int_def
        dest!: dec_quantize_fits split: if_splits option.splits)
  have "m = cents (dval d)" using to_minor_cents [OF m _ f] by (simp add: as_decimal_def)
  with from_minor_int [OF fm r] fm show ?thesis by simp
qed

lemma quant_exact:
  "exponent (Some currency) = Inr 2 \<Longrightarrow> fits (coef d) \<Longrightarrow> fits (cents (dval d))
     \<Longrightarrow> quant d currency = Inr (Dec (cents (dval d)) (- 2))"
  using to_minor_exact [of "Some currency" d]
  by (simp add: quant_def quantize_money_def of_minor_def from_minor_def dec_of_int_def dec_scaleb_exact)


section \<open>Aggregates\<close>

lemma sum_column_sum_by: "sum_column (map snd rows) = sum_by (\<lambda>r. null_int (snd r)) rows"
  by (simp add: sum_column_def sum_by_def comp_def)

lemma AList_update_set: "map_of (AList.update k v al) = (map_of al)(k \<mapsto> v)"
  by (rule update_conv')

lemma distinct_add_totals:
  "distinct (map fst totals) \<Longrightarrow> distinct (map fst (add_totals totals gs))"
  by (induction totals gs rule: add_totals.induct) (simp_all add: Let_def distinct_update)

definition code_is :: "string \<Rightarrow> string option \<Rightarrow> bool" where
  "code_is code c = (normalize_currency c None = code)"

lemma add_totals_lookup:
  "null_int (map_of (add_totals totals gs) code) =
     null_int (map_of totals code) + sum_by (\<lambda>g. if code_is code (fst g) then snd g else 0) gs"
  by (induction totals gs rule: add_totals.induct)
    (auto simp: Let_def update_conv' null_int_def code_is_def split: option.splits)

lemma add_totals_dom:
  "fst ` set (add_totals totals gs) = fst ` set totals \<union> (\<lambda>g. normalize_currency (fst g) None) ` set gs"
  by (induction totals gs rule: add_totals.induct) (auto simp: Let_def dom_update)

lemma sum_over_keys:
  assumes "distinct ks" "fst ` set rows \<subseteq> set ks"
  shows "sum_by (\<lambda>k. if P k then sum_by f (filter (\<lambda>r. fst r = k) rows) else 0) ks
       = sum_by (\<lambda>r. if P (fst r) then f r else 0) rows"
  using assms
proof (induction rows)
  case Nil
  show ?case by (rule sum_by_cong [of _ _ "\<lambda>_. 0", THEN trans]) (auto simp: sum_by_def)
next
  case (Cons r rows)
  let ?g = "\<lambda>k. if P k then sum_by f (filter (\<lambda>r. fst r = k) rows) else 0"
  have one: "distinct ks \<Longrightarrow> sum_by (\<lambda>k. if k = fst r then x else 0) ks = (if fst r \<in> set ks then x else 0)" for x
    by (induction ks) auto
  have "sum_by (\<lambda>k. if P k then sum_by f (filter (\<lambda>q. fst q = k) (r # rows)) else 0) ks
      = sum_by (\<lambda>k. ?g k + (if k = fst r then (if P (fst r) then f r else 0) else 0)) ks"
    by (rule sum_by_cong) auto
  also have "\<dots> = sum_by ?g ks + (if P (fst r) then f r else 0)"
    using one [OF Cons.prems(1)] Cons.prems(2) by (simp add: sum_by_def sum_list_addf)
  finally show ?case using Cons by simp
qed

lemma grouped_sum:
  "sum_by (\<lambda>g. if P (fst g) then snd g else 0) (grouped rows)
     = sum_by (\<lambda>r. if P (fst r) then null_int (snd r) else 0) rows"
proof -
  have "sum_by (\<lambda>g. if P (fst g) then snd g else 0) (grouped rows)
      = sum_by (\<lambda>k. if P k then sum_by (\<lambda>r. null_int (snd r)) (filter (\<lambda>r. fst r = k) rows) else 0)
          (sort (remdups (map fst rows)))"
    unfolding grouped_def sum_by_map by (rule sum_by_cong) (simp add: sum_column_sum_by)
  also have "\<dots> = sum_by (\<lambda>r. if P (fst r) then null_int (snd r) else 0) rows"
    by (rule sum_over_keys) simp_all
  finally show ?thesis .
qed

lemma totals_minor_lookup:
  "null_int (map_of (totals_minor rows) code)
     = sum_by (\<lambda>r. if code_is code (fst r) then null_int (snd r) else 0) rows"
  using add_totals_lookup [of "[]" "grouped rows" code] grouped_sum [of "code_is code" rows]
  by (simp add: totals_minor_def null_int_def)

lemma totals_minor_codes:
  "fst ` set (totals_minor rows) = (\<lambda>r. normalize_currency (fst r) None) ` set rows"
  "distinct (map fst (totals_minor rows))"
  by (auto simp: totals_minor_def add_totals_dom distinct_add_totals grouped_def image_image)

lemma majors_mem:
  "majors ts = Inr ds \<Longrightarrow> (code, d) \<in> set ds \<Longrightarrow>
     \<exists>m. (code, m) \<in> set ts \<and> from_minor (VInt m) (Some code) = Inr d"
proof (induction ts arbitrary: ds)
  case Nil
  then show ?case by simp
next
  case (Cons t ts)
  obtain k m where t: "t = (k, m)" by fastforce
  from Cons.prems(1) obtain d' ds' where d': "from_minor (VInt m) (Some k) = Inr d'"
    and ds': "majors ts = Inr ds'" "ds = (k, d') # ds'" by (auto simp: t bind_res_Inr_iff)
  show ?case
  proof (cases "(code, d) \<in> set ds'")
    case True
    from Cons.IH [OF ds'(1) True] show ?thesis by auto
  next
    case False
    with Cons.prems(2) ds'(2) d' show ?thesis by (auto simp: t)
  qed
qed

lemma majors_fst: "majors ts = Inr ds \<Longrightarrow> map fst ds = map fst ts"
  by (induction ts arbitrary: ds) (auto simp: bind_res_Inr_iff)

lemma majors_ok: "(\<And>code m. (code, m) \<in> set ts \<Longrightarrow> supported code) \<Longrightarrow> \<exists>ds. majors ts = Inr ds"
proof (induction ts)
  case Nil
  then show ?case by simp
next
  case (Cons t ts)
  obtain code m where t: "t = (code, m)" by fastforce
  have "supported code" using Cons.prems t by auto
  then have "exponent (Some code) = Inr 2"
    by (simp add: exponent_supported is_supported_def norm_supported)
  moreover obtain ds where "majors ts = Inr ds" using Cons by auto
  ultimately show ?case by (simp add: t from_minor_def)
qed

text \<open>The total reported for one currency, in minor units.\<close>

definition currency_total :: "money_rows \<Rightarrow> string \<Rightarrow> int" where
  "currency_total rows code = sum_by (\<lambda>r. null_int (snd r)) (filter (\<lambda>r. code_is code (fst r)) rows)"

lemma currency_total_if:
  "currency_total rows code = sum_by (\<lambda>r. if code_is code (fst r) then null_int (snd r) else 0) rows"
  by (induction rows) (simp_all add: currency_total_def)


section \<open>The properties\<close>

lemma dec_quantize_int_value:
  "dec_quantize (Dec w 2) 0 = Some q \<Longrightarrow> q = Dec (w * 100) 0"
  using dec_quantize_0 [of w 2 q] by (simp add: dval_def) (metis mult.commute of_int_mult of_int_numeral round_half_up_int)

lemma round_trip_fits:
  "to_minor v c = Inr (Some m) \<Longrightarrow> fits m"
  by (auto simp: to_minor_def bind_res_Inr_iff dec_to_int_def dest!: dec_quantize_fits split: if_splits option.splits)

text \<open>An amount read from its integer column and stored again is the same integer,
  for every amount of up to 28 digits in a supported currency.\<close>

theorem minor_units_round_trip:
  assumes "fits m" and "is_supported c"
  shows "\<exists>d. from_minor (VInt m) c = Inr (Some d) \<and> dval d = of_int m / 100
           \<and> to_minor (VDec (Finite d)) c = Inr (Some m)"
proof -
  have e: "exponent c = Inr 2" using assms(2) by (simp add: exponent_supported)
  then have "from_minor (VInt m) c = Inr (Some (Dec m (- 2)))"
    using assms(1) by (simp add: from_minor_def dec_of_int_def dec_scaleb_exact)
  with to_minor_of_minor [OF assms(1) e] from_minor_value [OF assms(1)] show ?thesis by blast
qed

theorem minor_units_round_trip_witness:
  "\<exists>d. from_minor (VInt 13568) (Some ''inr '') = Inr (Some d) \<and> dval d = of_int 13568 / 100
           \<and> to_minor (VDec (Finite d)) (Some ''inr '') = Inr (Some 13568)"
proof -
  have "fits 13568" by (simp add: fits_def)
  moreover have "is_supported (Some ''inr '')" by code_simp
  ultimately show ?thesis by (rule minor_units_round_trip)
qed

text \<open>Storing an amount rounds it once, half up: the stored integer is the nearest
  number of minor units (never more than half a unit away), larger amounts are never stored as
  smaller ones, and an amount that is a whole number of units is stored exactly.\<close>

theorem to_minor_rounds_half_up:
  assumes "to_minor v c = Inr (Some m)" and "as_decimal v = Inr d" and "fits (coef d)"
  shows "m = round_half_up (dval d * 100) \<and> \<bar>of_int m / 100 - dval d\<bar> \<le> 1 / 200
     \<and> (\<forall>n. of_int n / 100 \<le> dval d \<longrightarrow> n \<le> m) \<and> (\<forall>n. dval d \<le> of_int n / 100 \<longrightarrow> m \<le> n)"
proof -
  have m: "m = cents (dval d)" using assms by (rule to_minor_cents)
  have "\<bar>of_int m / 100 - dval d\<bar> \<le> 1 / 200" using cents.store_nearest [of "dval d"] by (simp add: m)
  then show ?thesis using m cents.store_ge cents.store_le by (simp add: cents_def)
qed

theorem to_minor_rounds_half_up_witness:
  "(13568 :: int) = round_half_up (dval (Dec 135675 (- 3)) * 100)"
proof -
  have h: "to_minor (VDec (Finite (Dec 135675 (- 3)))) (Some ''INR'') = Inr (Some 13568)"
    by (rule to_minor_eval [OF _ inr_exponent(1), where d = "Dec 135675 (- 3)" and q = "Dec 13568 0"])
      (simp_all add: as_decimal_def dec_eval)
  have d: "as_decimal (VDec (Finite (Dec 135675 (- 3)))) = Inr (Dec 135675 (- 3))"
    by (simp add: as_decimal_def)
  have f: "fits (coef (Dec 135675 (- 3)))" by (simp add: fits_def)
  show ?thesis using to_minor_rounds_half_up [OF h d f] by simp
qed

text \<open>\<open>sum_by_currency\<close> never adds two currencies: it answers with one total per
  currency code present in the rows, each exactly the integer sum of that currency's rows.\<close>

theorem sum_by_currency_exact:
  assumes "case field of Some f \<Rightarrow> ends_with ''_minor'' f | None \<Rightarrow> True"
    and "\<And>code. fits (currency_total rows code)"
  shows "\<exists>totals. sum_by_currency field rows = Inr totals \<and> distinct (map fst totals)
     \<and> fst ` set totals = (\<lambda>r. normalize_currency (fst r) None) ` set rows
     \<and> (\<forall>code d. (code, d) \<in> set totals \<longrightarrow>
          (\<exists>x. d = Some x \<and> dval x = of_int (currency_total rows code) / 100))"
proof -
  let ?ts = "totals_minor rows"
  have "supported code" if "(code, m) \<in> set ?ts" for code m
  proof -
    have "code \<in> fst ` set ?ts" using that by (force simp: image_iff)
    then show ?thesis unfolding totals_minor_codes(1) using normalize_is_supported by blast
  qed
  then obtain ds where ds: "majors ?ts = Inr ds" using majors_ok by blast
  have run: "sum_by_currency field rows = Inr ds"
    using assms(1) ds by (auto simp: sum_by_currency_def split: option.splits)
  have fst: "map fst ds = map fst ?ts" using ds by (rule majors_fst)
  have val: "\<exists>x. d = Some x \<and> dval x = of_int (currency_total rows code) / 100"
    if mem: "(code, d) \<in> set ds" for code d
  proof -
    obtain m where m: "(code, m) \<in> set ?ts" "from_minor (VInt m) (Some code) = Inr d"
      using majors_mem [OF ds mem] by blast
    have "map_of ?ts code = Some m" using m(1) totals_minor_codes(2) [of rows] by (simp add: map_of_is_SomeI)
    then have mt: "m = currency_total rows code"
      using totals_minor_lookup [of rows code] by (simp add: null_int_def currency_total_if)
    with assms(2) have "fits m" by simp
    then show ?thesis using from_minor_int m(2) from_minor_value mt by blast
  qed
  have "fst ` set ds = fst ` set ?ts" using fst by (metis set_map)
  then show ?thesis using run fst val totals_minor_codes [of rows] by auto
qed

theorem sum_by_currency_exact_witness:
  "\<exists>totals. sum_by_currency (Some ''amount_minor'')
      [(Some ''INR'', Some 150), (Some ''USD'', Some 25), (Some ''inr'', None), (None, Some 50)] = Inr totals
     \<and> distinct (map fst totals)"
proof -
  let ?rows = "[(Some ''INR'', Some 150), (Some ''USD'', Some 25), (Some ''inr'', None), (None, Some 50)]"
  have "\<bar>currency_total ?rows code\<bar> \<le> 225" for code
    by (auto simp: currency_total_def sum_by_def null_int_def)
  then have f: "fits (currency_total ?rows code)" for code by (rule fits_bound) simp
  have c: "case Some ''amount_minor'' of Some f \<Rightarrow> ends_with ''_minor'' f | None \<Rightarrow> True" by code_simp
  show ?thesis using sum_by_currency_exact [OF c f] by blast
qed

text \<open>A rupee fare shown to a rider is a whole number of rupees: the amount rounded half
  up, once, to the rupee, whatever its paise were.\<close>

theorem round_fare_whole_rupees:
  assumes "round_fare v (Some ''INR'') = Inr (Some d)" and "as_decimal v = Inr x"
  shows "dval d = of_int (round_half_up (dval x))"
proof -
  have up: "py_upper ''INR'' = ''INR''" by code_simp
  obtain q where q: "dec_quantize x 0 = Some q"
    and r: "quantize_money (VDec (Finite q)) (Some ''INR'') = Inr (Some d)"
    using assms up
    by (auto simp: round_fare_def whole_units_def as_decimal_def bind_res_Inr_iff Let_def quantize_money_def
        split: if_splits pyval.splits dec_lit.splits option.splits)
  obtain w where w: "q = Dec w 0" "w = round_half_up (dval x)"
    using q dec_quantize_0 [of "coef x" "expo x" q] by (cases x) auto
  have "fits w" using dec_quantize_fits [OF q] w by simp
  obtain m where m: "to_minor (VDec (Finite q)) (Some ''INR'') = Inr (Some m)"
    and d: "from_minor (VInt m) (Some ''INR'') = Inr (Some d)"
    using r by (auto simp: quantize_money_def bind_res_Inr_iff of_minor_def to_minor_def from_minor_def
        split: option.splits)
  have "m = round_half_up (dval q * 100)"
    using to_minor_value [OF m, of q] w \<open>fits w\<close> by (simp add: as_decimal_def)
  then have "m = w * 100" by (simp add: w(1)) (metis of_int_mult of_int_numeral round_half_up_int)
  moreover have "dval d = of_int m / 100"
    using from_minor_value [OF round_trip_fits [OF m] d] .
  ultimately show ?thesis using w by simp
qed

theorem round_fare_whole_rupees_witness:
  "dval (Dec 13600 (- 2)) = of_int (round_half_up (dval (Dec 1355 (- 1))))"
proof -
  have up: "py_upper ''INR'' = ''INR''" by code_simp
  have h: "round_fare (VDec (Finite (Dec 1355 (- 1)))) (Some ''INR'') = Inr (Some (Dec 13600 (- 2)))"
  proof -
    have q: "dec_quantize (Dec 1355 (- 1)) 0 = Some (Dec 136 0)" by (simp add: dec_eval)
    have m: "to_minor (VDec (Finite (Dec 136 0))) (Some ''INR'') = Inr (Some 13600)"
      by (rule to_minor_eval [OF _ inr_exponent(1), where d = "Dec 136 0" and q = "Dec 13600 0"])
        (simp_all add: as_decimal_def dec_eval)
    have f: "from_minor (VInt 13600) (Some ''INR'') = Inr (Some (Dec 13600 (- 2)))"
      by (simp add: from_minor_def inr_exponent dec_of_int_def dec_scaleb_exact fits_def)
    show ?thesis by (simp add: round_fare_def up whole_units_def quantize_money_def q m f of_minor_def)
  qed
  have d: "as_decimal (VDec (Finite (Dec 1355 (- 1)))) = Inr (Dec 1355 (- 1))"
    by (simp add: as_decimal_def)
  show ?thesis by (rule round_fare_whole_rupees [OF h d])
qed

end
