(* ===== verification/Geo.thy ===== *)
theory Geo
  imports Prelude "HOL-Library.Sublist"
begin

text \<open>
  The geographic tree of the access model (\<open>GeoNode\<close> in
  \<open>servers/admin_access/models.py\<close>): a node is its kind, its code and its chain of parents;
  the stored \<open>path\<close> column is \<open>build_path\<close> of that chain, which \<open>save()\<close> keeps up to date for
  the whole subtree. \<open>covers\<close> is the prefix test the scope rules are built on. The lemmas
  show when the prefix test is the ancestor relation.
\<close>

datatype geo_kind = GLOBAL | COUNTRY | STATE | CITY

datatype geo_node = GeoNode (gn_id: int) (gn_kind: geo_kind) (gn_code: string) (gn_parent: "geo_node option")

definition allowed_parent :: "geo_kind \<Rightarrow> geo_kind option" where
  "allowed_parent k = (case k of GLOBAL \<Rightarrow> None | COUNTRY \<Rightarrow> Some GLOBAL | STATE \<Rightarrow> Some COUNTRY | CITY \<Rightarrow> Some STATE)"

text \<open>\<open>GeoNode.clean\<close>: a node sits under the kind the table allows, or it is refused.\<close>

definition node_clean :: "geo_node \<Rightarrow> bool" where
  "node_clean n = (allowed_parent (gn_kind n) = map_option gn_kind (gn_parent n))"

primrec node_path :: "geo_node \<Rightarrow> string" where
  "node_path (GeoNode i k c p) = (case map_option node_path p of None \<Rightarrow> [] | Some q \<Rightarrow> q) @ c @ ''/''"

definition covers :: "geo_node \<Rightarrow> geo_node option \<Rightarrow> bool" where
  "covers n other = (case other of None \<Rightarrow> False | Some m \<Rightarrow> starts_with (node_path n) (node_path m))"

text \<open>\<open>GeoNode.country\<close>: the node of kind country at or above this one.\<close>

primrec node_country :: "geo_node \<Rightarrow> geo_node option" where
  "node_country (GeoNode i k c p) = (if k = COUNTRY then Some (GeoNode i k c p)
     else case map_option node_country p of None \<Rightarrow> None | Some r \<Rightarrow> r)"

text \<open>\<open>city_node_of\<close> of \<open>servers/pricing/commission.py\<close>: the city at or above a node.\<close>

primrec city_node_of_node :: "geo_node \<Rightarrow> geo_node option" where
  "city_node_of_node (GeoNode i k c p) = (if k = CITY then Some (GeoNode i k c p)
     else case map_option city_node_of_node p of None \<Rightarrow> None | Some r \<Rightarrow> r)"

definition city_node_of :: "geo_node option \<Rightarrow> geo_node option" where
  "city_node_of node = (case node of None \<Rightarrow> None | Some n \<Rightarrow> city_node_of_node n)"

section \<open>Chains of ancestors\<close>

text \<open>The node and everything above it, outermost first.\<close>

primrec chain :: "geo_node \<Rightarrow> geo_node list" where
  "chain (GeoNode i k c p) = (case map_option chain p of None \<Rightarrow> [] | Some q \<Rightarrow> q) @ [GeoNode i k c p]"

definition ancestor_or_self :: "geo_node \<Rightarrow> geo_node \<Rightarrow> bool" where
  "ancestor_or_self a n = (a \<in> set (chain n))"

definition seg :: "string \<Rightarrow> string" where
  "seg c = c @ ''/''"

lemma node_path_chain: "node_path n = concat (map (\<lambda>m. seg (gn_code m)) (chain n))"
proof (induction n)
  case (GeoNode i k c p)
  then show ?case by (cases p) (simp_all add: seg_def)
qed

lemma chain_last: "chain n \<noteq> [] \<and> last (chain n) = n"
  by (cases n) simp

lemma chain_self: "n \<in> set (chain n)"
  using chain_last [of n] last_in_set by metis

lemma chain_prefix: "a \<in> set (chain n) \<Longrightarrow> prefix (chain a) (chain n)"
proof (induction n)
  case (GeoNode i k c p)
  show ?case
  proof (cases p)
    case None
    with GeoNode.prems show ?thesis by simp
  next
    case (Some q)
    with GeoNode have "a = GeoNode i k c p \<or> prefix (chain a) (chain q)" by auto
    with Some show ?thesis by auto
  qed
qed

lemma seg_prefix_cancel:
  assumes "CHR ''/'' \<notin> set c" "CHR ''/'' \<notin> set d"
    and "prefix (seg c @ xs) (seg d @ ys)"
  shows "c = d \<and> prefix xs ys"
  using assms
proof (induction c arbitrary: d)
  case Nil
  then show ?case by (cases d) (auto simp: seg_def)
next
  case (Cons x c)
  then obtain e where d: "d = x # e" by (cases d) (auto simp: seg_def)
  with Cons show ?case by (auto simp: seg_def)
qed

lemma seg_not_Nil: "seg c @ xs \<noteq> []"
  by (simp add: seg_def)

lemma seg_prefix:
  assumes "\<forall>c \<in> set cs. CHR ''/'' \<notin> set c" "\<forall>d \<in> set ds. CHR ''/'' \<notin> set d"
  shows "prefix (concat (map seg cs)) (concat (map seg ds)) \<longleftrightarrow> prefix cs ds"
  using assms
proof (induction cs arbitrary: ds)
  case Nil
  then show ?case by simp
next
  case (Cons c cs)
  show ?case
  proof (cases ds)
    case Nil
    then show ?thesis by (simp add: seg_def)
  next
    case d: (Cons d es)
    have no: "CHR ''/'' \<notin> set c" "CHR ''/'' \<notin> set d" using Cons.prems d by simp_all
    have "prefix (seg c @ xs) (seg d @ ys) \<longleftrightarrow> c = d \<and> prefix xs ys" for xs ys
      using seg_prefix_cancel [OF no, of xs ys] by (metis same_prefix_prefix)
    moreover have "prefix (concat (map seg cs)) (concat (map seg es)) \<longleftrightarrow> prefix cs es"
      using Cons.prems d by (intro Cons.IH) simp_all
    ultimately show ?thesis by (simp add: d)
  qed
qed

text \<open>A registry of nodes: closed under parents, codes unique and free of the separator.\<close>

definition geo_registry :: "geo_node set \<Rightarrow> bool" where
  "geo_registry N = ((\<forall>n \<in> N. set (chain n) \<subseteq> N) \<and> inj_on gn_code N \<and> (\<forall>n \<in> N. CHR ''/'' \<notin> set (gn_code n)))"

lemma starts_with_prefix: "starts_with p s = prefix p s"
  by (simp add: starts_with_iff prefix_def)

lemma prefix_codes_ancestor:
  assumes N: "geo_registry N" "a \<in> N" "n \<in> N"
    and p: "prefix (map gn_code (chain a)) (map gn_code (chain n))"
  shows "a \<in> set (chain n)"
proof -
  have "gn_code a \<in> set (map gn_code (chain a))" using chain_self [of a] by simp
  then have "gn_code a \<in> set (map gn_code (chain n))" using set_mono_prefix [OF p] by blast
  then obtain b where b: "b \<in> set (chain n)" "gn_code b = gn_code a" by auto
  then have "b = a" using N by (auto simp: geo_registry_def inj_on_def)
  with b show ?thesis by simp
qed

lemma covers_ancestor:
  assumes N: "geo_registry N" "a \<in> N" "n \<in> N"
  shows "covers a (Some n) \<longleftrightarrow> ancestor_or_self a n"
proof -
  have no: "\<forall>c \<in> set (map gn_code (chain m)). CHR ''/'' \<notin> set c" if "m \<in> N" for m
    using N(1) that by (auto simp: geo_registry_def)
  have "covers a (Some n) \<longleftrightarrow> prefix (concat (map seg (map gn_code (chain a)))) (concat (map seg (map gn_code (chain n))))"
    by (simp add: covers_def starts_with_prefix node_path_chain comp_def)
  also have "\<dots> \<longleftrightarrow> prefix (map gn_code (chain a)) (map gn_code (chain n))"
    using no N by (intro seg_prefix) auto
  also have "\<dots> \<longleftrightarrow> a \<in> set (chain n)"
    using prefix_codes_ancestor [OF N] chain_prefix [of a n] by (auto intro: map_mono_prefix)
  finally show ?thesis by (simp add: ancestor_or_self_def)
qed

lemma covers_refl: "covers n (Some n)"
  by (simp add: covers_def starts_with_prefix)

lemma covers_trans: "covers a (Some b) \<Longrightarrow> covers b (Some c) \<Longrightarrow> covers a (Some c)"
  by (auto simp: covers_def starts_with_prefix)

end
