(* ===== verification/Access.thy ===== *)
theory Access
  imports Geo Countries "HOL-Library.List_Lexorder" "HOL-Library.Char_ord"
begin

text \<open>
  Who may do what, and where: \<open>base/permissions.py\<close> (the operator test and the legacy
  capabilities), \<open>servers/admin_access/access.py\<close> (assignments, scopes, the query filter),
  \<open>servers/admin_access/models.py\<close> (which role may be held at which node),
  \<open>servers/admin_access/bridge.py\<close> (the two models side by side during the migration) and
  \<open>servers/approvals/scope.py\<close> (\<open>may_act\<close>).

  The database is the list of assignment rows, passed to every function that queries it; an
  anonymous caller is an account with \<open>authenticated\<close> false. An unknown permission raises
  \<open>ValueError\<close>, the value \<open>Inl UnknownPermission\<close>. The permission that a query
  set is filtered by is a list of optional anchor nodes per row. Logging is not modelled.
\<close>

section \<open>Operators and the legacy capabilities\<close>

record user_acct =
  user_pk :: int
  authenticated :: bool
  is_superuser :: bool
  is_staff :: bool
  user_role :: string
  ops_role :: string

definition is_operator :: "user_acct \<Rightarrow> bool" where
  "is_operator u = (if \<not> authenticated u then False
     else if is_superuser u then True
     else user_role u = ''admin'' \<and> is_staff u)"

definition ALL_CAPABILITIES :: "string list" where
  "ALL_CAPABILITIES = [''trip.read'', ''driver.read'', ''driver.kyc'', ''support.read'',
     ''support.reply'', ''finance.read'', ''finance.payout'', ''pricing.write'', ''ops.admin'']"

definition OPS_ROLE_CAPABILITIES :: "(string \<times> string list) list" where
  "OPS_ROLE_CAPABILITIES =
     [(''support'', [''trip.read'', ''driver.read'', ''support.read'', ''support.reply'']),
      (''driver_ops'', [''trip.read'', ''driver.read'', ''driver.kyc'', ''support.read'']),
      (''finance'', [''trip.read'', ''driver.read'', ''support.read'', ''finance.read'', ''finance.payout'']),
      (''admin'', ALL_CAPABILITIES)]"

definition ops_role_of :: "user_acct \<Rightarrow> string option" where
  "ops_role_of u = (if \<not> is_operator u then None
     else if is_superuser u then Some ''admin''
     else let role = (if ops_role u = [] then ''admin'' else ops_role u)
          in Some (if map_of OPS_ROLE_CAPABILITIES role \<noteq> None then role else ''admin''))"

definition legacy_capabilities_of :: "user_acct \<Rightarrow> string list" where
  "legacy_capabilities_of u = (case ops_role_of u of None \<Rightarrow> []
     | Some r \<Rightarrow> (case map_of OPS_ROLE_CAPABILITIES r of None \<Rightarrow> [] | Some cs \<Rightarrow> cs))"

definition has_capability :: "user_acct \<Rightarrow> string \<Rightarrow> bool" where
  "has_capability u c = (if c \<notin> set ALL_CAPABILITIES then False else c \<in> set (legacy_capabilities_of u))"

section \<open>Roles and assignments\<close>

definition ALL_PERMISSIONS :: "string list" where
  "ALL_PERMISSIONS = [
    ''trip.read'', ''rider.read'', ''driver.read'', ''support.read'', ''finance.read'',
    ''report.read'', ''audit.read'', ''zone.read'', ''liveops.read'', ''liveops.aggregate'',
    ''pii.view'', ''trip.write'', ''trip.stale_resolve'', ''rider.write'', ''rider.note'',
    ''rider.flag'', ''rider.signout'', ''rider.block'', ''driver.write'', ''driver.kyc'',
    ''driver.deactivate'', ''support.reply'', ''support.refund'', ''support.macro'',
    ''support.sla'', ''support.dashboard'', ''finance.payout'', ''finance.adjust'',
    ''finance.config'', ''finance.aggregate'', ''finance.export'', ''pricing.write'',
    ''zone.write'', ''promo.read'', ''promo.write'', ''incentive.write'', ''fraud.read'',
    ''fraud.rules'', ''notify.send'', ''notify.read'', ''notify.template'', ''notify.campaign'',
    ''safety.read'', ''safety.respond'', ''safety.config'', ''fraud.review'', ''admin.manage'',
    ''platform.settings'', ''platform.read'', ''platform.city_pause'',
    ''platform.integrations.read'', ''approval.check'', ''privacy.manage'']"

definition SUPER_ADMIN :: string where
  "SUPER_ADMIN = ''super_admin''"

record admin_role =
  role_code :: string
  role_permissions :: "string list"
  is_global_only :: bool
  role_active :: bool

record assignment =
  as_admin :: int
  as_role :: admin_role
  as_scope :: geo_node
  as_active :: bool

type_synonym assignments = "assignment list"

datatype access_error = UnknownPermission | GlobalIsSuperAdminOnly | GlobalOnlyRole | ScopeNotHeld

definition check_role_at_scope :: "admin_role \<Rightarrow> geo_node \<Rightarrow> access_error + unit" where
  "check_role_at_scope role scope =
     (if gn_kind scope = GLOBAL \<and> role_code role \<noteq> SUPER_ADMIN then Inl GlobalIsSuperAdminOnly
      else if is_global_only role \<and> gn_kind scope \<noteq> GLOBAL then Inl GlobalOnlyRole
      else Inr ())"

text \<open>\<open>AdminAssignment.save()\<close> of a new row, \<open>update(role=, scope=)\<close> over the rows
  a filter selects, and \<open>bulk_create\<close>; each checks every row before it writes any.\<close>

definition save_assignment :: "assignment \<Rightarrow> assignments \<Rightarrow> access_error + assignments" where
  "save_assignment a db = bind_res (check_role_at_scope (as_role a) (as_scope a)) (\<lambda>_. Inr (db @ [a]))"

fun check_all :: "(admin_role \<times> geo_node) list \<Rightarrow> access_error + unit" where
  "check_all [] = Inr ()"
| "check_all ((r, n) # rest) = bind_res (check_role_at_scope r n) (\<lambda>_. check_all rest)"

definition moved :: "admin_role option \<Rightarrow> geo_node option \<Rightarrow> assignment \<Rightarrow> assignment" where
  "moved new_role new_scope a = a\<lparr>as_role := (case new_role of None \<Rightarrow> as_role a | Some r \<Rightarrow> r),
      as_scope := (case new_scope of None \<Rightarrow> as_scope a | Some n \<Rightarrow> n)\<rparr>"

definition update_assignments ::
  "(assignment \<Rightarrow> bool) \<Rightarrow> admin_role option \<Rightarrow> geo_node option \<Rightarrow> assignments \<Rightarrow> access_error + assignments" where
  "update_assignments sel new_role new_scope db =
     bind_res (if new_role = None \<and> new_scope = None then Inr ()
       else check_all (map (\<lambda>a. (as_role (moved new_role new_scope a), as_scope (moved new_role new_scope a)))
              (filter sel db)))
     (\<lambda>_. Inr (map (\<lambda>a. if sel a then moved new_role new_scope a else a) db))"

definition bulk_create_assignments :: "assignment list \<Rightarrow> assignments \<Rightarrow> access_error + assignments" where
  "bulk_create_assignments objs db =
     bind_res (check_all (map (\<lambda>a. (as_role a, as_scope a)) objs)) (\<lambda>_. Inr (db @ objs))"

section \<open>Permissions and scopes\<close>

definition active_assignments :: "assignments \<Rightarrow> user_acct \<Rightarrow> assignments" where
  "active_assignments db u = (if \<not> authenticated u then []
     else filter (\<lambda>a. as_admin a = user_pk u \<and> as_active a \<and> role_active (as_role a)) db)"

definition permissions_at :: "assignments \<Rightarrow> user_acct \<Rightarrow> geo_node option \<Rightarrow> string list" where
  "permissions_at db u node =
     (if is_superuser u then ALL_PERMISSIONS
      else concat (map (\<lambda>a. role_permissions (as_role a))
             (filter (\<lambda>a. case node of None \<Rightarrow> True | Some n \<Rightarrow> covers (as_scope a) (Some n))
               (active_assignments db u))))"

definition has_permission_at :: "assignments \<Rightarrow> user_acct \<Rightarrow> string \<Rightarrow> geo_node option \<Rightarrow> access_error + bool" where
  "has_permission_at db u p node =
     (if p \<notin> set ALL_PERMISSIONS then Inl UnknownPermission
      else Inr (p \<in> set (permissions_at db u node)))"

text \<open>\<open>None\<close> means unrestricted.\<close>

definition scope_paths :: "assignments \<Rightarrow> user_acct \<Rightarrow> string list option" where
  "scope_paths db u =
     (if is_superuser u then None
      else let asg = active_assignments db u
           in if \<exists>a \<in> set asg. gn_kind (as_scope a) = GLOBAL then None
              else Some (sort (remdups (map (\<lambda>a. node_path (as_scope a)) asg))))"

text \<open>\<open>anchors r\<close> are the row's anchor nodes (a NULL anchor is absent), \<open>also\<close> the rows
  visible to every scoped holder.\<close>

definition scope_queryset ::
  "assignments \<Rightarrow> user_acct \<Rightarrow> ('r \<Rightarrow> geo_node list) \<Rightarrow> ('r \<Rightarrow> bool) option \<Rightarrow> 'r list \<Rightarrow> 'r list" where
  "scope_queryset db u anchors also qs = (case scope_paths db u of
      None \<Rightarrow> qs
    | Some paths \<Rightarrow>
        (if paths = [] then []
         else filter (\<lambda>r. (\<exists>path \<in> set paths. \<exists>n \<in> set (anchors r). starts_with path (node_path n))
                \<or> (case also of None \<Rightarrow> False | Some q \<Rightarrow> q r)) qs))"

definition is_super_admin :: "assignments \<Rightarrow> user_acct \<Rightarrow> bool" where
  "is_super_admin db u = (if is_superuser u then True
     else \<exists>a \<in> set (active_assignments db u). role_code (as_role a) = SUPER_ADMIN \<and> gn_kind (as_scope a) = GLOBAL)"

text \<open>\<open>?scope=<code>\<close>: the requested node, refused unless the caller holds it.\<close>

definition requested_node :: "assignments \<Rightarrow> geo_node list \<Rightarrow> user_acct \<Rightarrow> string option \<Rightarrow> access_error + geo_node option" where
  "requested_node db nodes u code_param =
     (let code = py_strip (case code_param of None \<Rightarrow> [] | Some c \<Rightarrow> c)
      in if code = [] then Inr None
         else case find (\<lambda>n. gn_code n = code) nodes of
           None \<Rightarrow> Inl ScopeNotHeld
         | Some node \<Rightarrow> (case scope_paths db u of
               None \<Rightarrow> Inr (Some node)
             | Some paths \<Rightarrow> if \<exists>p \<in> set paths. starts_with p (node_path node) then Inr (Some node)
                             else Inl ScopeNotHeld))"

section \<open>The bridge\<close>

definition LEGACY_EQUIVALENT :: "(string \<times> string) list" where
  "LEGACY_EQUIVALENT =
     [(''trip.read'', ''trip.read''), (''driver.read'', ''driver.read''), (''driver.kyc'', ''driver.kyc''),
      (''support.read'', ''support.read''), (''support.reply'', ''support.reply''),
      (''finance.read'', ''finance.read''), (''finance.payout'', ''finance.payout''),
      (''pricing.write'', ''pricing.write''), (''admin.manage'', ''ops.admin'')]"

definition LEGACY_OPEN_TO_ANY_OPERATOR :: "string list" where
  "LEGACY_OPEN_TO_ANY_OPERATOR = [''report.read'', ''pii.view'', ''safety.respond'', ''zone.read'']"

definition is_migrated :: "assignments \<Rightarrow> user_acct \<Rightarrow> bool" where
  "is_migrated db u = (active_assignments db u \<noteq> [])"

datatype how = New | Legacy | Denied

definition granted ::
  "bool \<Rightarrow> assignments \<Rightarrow> user_acct \<Rightarrow> string \<Rightarrow> geo_node option \<Rightarrow> access_error + bool \<times> how" where
  "granted strict db u p node =
     (if \<not> is_operator u then Inr (False, Denied)
      else bind_res (has_permission_at db u p node) (\<lambda>ok.
        if ok then Inr (True, New)
        else if strict then Inr (False, Denied)
        else if is_migrated db u then Inr (False, Denied)
        else if p \<in> set LEGACY_OPEN_TO_ANY_OPERATOR then Inr (True, Legacy)
        else case map_of LEGACY_EQUIVALENT p of
               None \<Rightarrow> Inr (False, Denied)
             | Some c \<Rightarrow> if has_capability u c then Inr (True, Legacy) else Inr (False, Denied)))"

definition allowed :: "access_error + bool \<times> how \<Rightarrow> bool" where
  "allowed r = (case r of Inl _ \<Rightarrow> False | Inr (b, _) \<Rightarrow> b)"

definition capabilities_of :: "bool \<Rightarrow> assignments \<Rightarrow> user_acct \<Rightarrow> string list" where
  "capabilities_of strict db u =
     (if \<not> is_operator u then []
      else if strict \<or> is_migrated db u then permissions_at db u None
      else permissions_at db u None @ LEGACY_OPEN_TO_ANY_OPERATOR
           @ map fst (filter (\<lambda>(p, c). has_capability u c) LEGACY_EQUIVALENT))"

text \<open>\<open>scoped_anchor\<close> is \<open>bridge.node_of(obj)\<close>, the node the object sits in.\<close>

definition in_scope ::
  "bool \<Rightarrow> assignments \<Rightarrow> user_acct \<Rightarrow> geo_node option \<Rightarrow> string \<Rightarrow> access_error + bool" where
  "in_scope strict db u scoped_anchor p =
     (if \<not> strict \<and> \<not> is_migrated db u then Inr True
      else bind_res (granted strict db u p scoped_anchor) (\<lambda>r. Inr (fst r)))"

definition may_act ::
  "bool \<Rightarrow> assignments \<Rightarrow> user_acct \<Rightarrow> string \<Rightarrow> geo_node option \<Rightarrow> access_error + bool" where
  "may_act strict db u p node =
     (if \<not> strict \<and> \<not> is_migrated db u
        then bind_res (granted strict db u p None) (\<lambda>r. Inr (fst r))
      else case node of
        None \<Rightarrow> (if scope_paths db u \<noteq> None then Inr False
                 else bind_res (granted strict db u p None) (\<lambda>r. Inr (fst r)))
      | Some n \<Rightarrow> bind_res (granted strict db u p (Some n)) (\<lambda>r. Inr (fst r)))"

text \<open>\<open>scoped(user, queryset)\<close>: an unmigrated account outside strict mode is not filtered.\<close>

definition scoped ::
  "bool \<Rightarrow> assignments \<Rightarrow> user_acct \<Rightarrow> ('r \<Rightarrow> geo_node list) \<Rightarrow> ('r \<Rightarrow> bool) option \<Rightarrow> 'r list \<Rightarrow> 'r list" where
  "scoped strict db u anchors also qs =
     (if \<not> strict \<and> \<not> is_migrated db u then qs else scope_queryset db u anchors also qs)"

section \<open>The legacy model inside the catalogue\<close>

lemma legacy_in_catalogue:
  "set LEGACY_OPEN_TO_ANY_OPERATOR \<subseteq> set ALL_PERMISSIONS"
  "fst ` set LEGACY_EQUIVALENT \<subseteq> set ALL_PERMISSIONS"
  by code_simp+

lemma legacy_keys_distinct: "distinct (map fst LEGACY_EQUIVALENT)"
  by code_simp

lemma legacy_lookup:
  "(\<exists>c. (p, c) \<in> set LEGACY_EQUIVALENT \<and> has_capability u c) \<longleftrightarrow>
     (case map_of LEGACY_EQUIVALENT p of None \<Rightarrow> False | Some c \<Rightarrow> has_capability u c)"
proof (cases "map_of LEGACY_EQUIVALENT p")
  case None
  then have "p \<notin> fst ` set LEGACY_EQUIVALENT" by (simp add: map_of_eq_None_iff)
  then show ?thesis by (force simp: None)
next
  case (Some c)
  then have "(p, d) \<in> set LEGACY_EQUIVALENT \<longleftrightarrow> d = c" for d
    using legacy_keys_distinct by (metis map_of_is_SomeI map_of_SomeD option.inject)
  with Some show ?thesis by auto
qed


section \<open>Which writes keep the Global rule\<close>

datatype access_event =
    SaveAssignment assignment
  | UpdateAssignments "assignment \<Rightarrow> bool" "admin_role option" "geo_node option"
  | BulkCreate "assignment list"

fun access_step :: "assignments \<Rightarrow> access_event \<Rightarrow> access_error + assignments" where
  "access_step db (SaveAssignment a) = save_assignment a db"
| "access_step db (UpdateAssignments sel r n) = update_assignments sel r n db"
| "access_step db (BulkCreate objs) = bulk_create_assignments objs db"

definition assignment_ok :: "assignment \<Rightarrow> bool" where
  "assignment_ok a = (check_role_at_scope (as_role a) (as_scope a) = Inr ())"

definition access_inv :: "assignments \<Rightarrow> bool" where
  "access_inv db = list_all assignment_ok db"

lemma check_all_ok: "check_all xs = Inr u \<Longrightarrow> \<forall>(r, n) \<in> set xs. check_role_at_scope r n = Inr ()"
proof (induction xs rule: check_all.induct)
  case (2 r n rest)
  then show ?case by (cases "check_role_at_scope r n") auto
qed simp

lemma update_keeps_inv:
  assumes inv: "access_inv db" and r: "update_assignments sel nr ns db = Inr db'"
  shows "access_inv db'"
proof -
  have db': "db' = map (\<lambda>a. if sel a then moved nr ns a else a) db"
    using r by (auto simp: update_assignments_def bind_res_Inr_iff)
  have "assignment_ok (moved nr ns a)" if "a \<in> set db" "sel a" for a
  proof (cases "nr = None \<and> ns = None")
    case True
    then have "moved nr ns a = a" by (simp add: moved_def)
    with inv that show ?thesis by (simp add: access_inv_def list_all_iff)
  next
    case False
    with r have "\<exists>u. check_all (map (\<lambda>a. (as_role (moved nr ns a), as_scope (moved nr ns a))) (filter sel db)) = Inr u"
      by (auto simp: update_assignments_def bind_res_Inr_iff)
    with that show ?thesis by (auto simp: assignment_ok_def dest!: check_all_ok)
  qed
  with inv show ?thesis by (auto simp: db' access_inv_def list_all_iff)
qed

lemma access_step_inv: "access_inv db \<Longrightarrow> access_step db e = Inr db' \<Longrightarrow> access_inv db'"
proof (cases e)
  case (SaveAssignment a)
  assume "access_inv db" "access_step db e = Inr db'"
  with SaveAssignment show ?thesis
    by (auto simp: save_assignment_def bind_res_Inr_iff access_inv_def assignment_ok_def)
next
  case (UpdateAssignments sel r n)
  assume "access_inv db" "access_step db e = Inr db'"
  with UpdateAssignments show ?thesis by (auto intro: update_keeps_inv)
next
  case (BulkCreate objs)
  assume "access_inv db" "access_step db e = Inr db'"
  with BulkCreate show ?thesis
    by (fastforce simp: bulk_create_assignments_def bind_res_Inr_iff access_inv_def assignment_ok_def
        list_all_iff dest!: check_all_ok)
qed

interpretation access: guarded_system access_step access_inv
  by unfold_locales (rule access_step_inv)

lemma active_subset: "a \<in> set (active_assignments db u) \<Longrightarrow> a \<in> set db"
  by (auto simp: active_assignments_def split: if_splits)

lemma unrestricted_super: "access_inv db \<Longrightarrow> scope_paths db u = None \<Longrightarrow> is_super_admin db u"
  by (auto simp: scope_paths_def is_super_admin_def Let_def access_inv_def list_all_iff assignment_ok_def
      check_role_at_scope_def dest: active_subset split: if_splits)

section \<open>The properties\<close>

text \<open>Claim C18. An admin's list is exactly the rows it should be: when the nodes form a registry
  (closed under parents, unique codes without a slash), a row passes the scope filter if and only
  if the caller is a superuser, or holds an active assignment that is at Global, or whose node is
  an ancestor of (or is) one of the row's anchors, or the row is one every scoped holder sees.\<close>

theorem scope_queryset_exact:
  assumes N: "geo_registry N" "\<forall>a \<in> set db. as_scope a \<in> N" "set (anchors r) \<subseteq> N"
  shows "r \<in> set (scope_queryset db u anchors also qs) \<longleftrightarrow> r \<in> set qs \<and>
     (is_superuser u \<or> (\<exists>a \<in> set (active_assignments db u). gn_kind (as_scope a) = GLOBAL
        \<or> (\<exists>n \<in> set (anchors r). ancestor_or_self (as_scope a) n)
        \<or> (\<exists>q. also = Some q \<and> q r)))"
proof (cases "scope_paths db u")
  case None
  then show ?thesis
    by (auto simp: scope_queryset_def scope_paths_def Let_def split: if_splits)
next
  case (Some paths)
  then have su: "\<not> is_superuser u" "\<forall>a \<in> set (active_assignments db u). gn_kind (as_scope a) \<noteq> GLOBAL"
    and paths: "set paths = (\<lambda>a. node_path (as_scope a)) ` set (active_assignments db u)"
    by (auto simp: scope_paths_def Let_def split: if_splits)
  have anc: "starts_with (node_path (as_scope a)) (node_path n) \<longleftrightarrow> ancestor_or_self (as_scope a) n"
    if "a \<in> set (active_assignments db u)" "n \<in> set (anchors r)" for a n
    using covers_ancestor [OF N(1), of "as_scope a" n] N that active_subset [OF that(1)]
    by (auto simp: covers_def)
  have ex: "(\<exists>path \<in> set paths. \<exists>n \<in> set (anchors r). starts_with path (node_path n))
      \<longleftrightarrow> (\<exists>a \<in> set (active_assignments db u). \<exists>n \<in> set (anchors r). ancestor_or_self (as_scope a) n)"
    by (simp add: paths anc)
  have ne: "paths \<noteq> [] \<longleftrightarrow> (\<exists>a. a \<in> set (active_assignments db u))"
    using paths by (metis ex_in_conv image_is_empty set_empty)
  have "r \<in> set (scope_queryset db u anchors also qs) \<longleftrightarrow> paths \<noteq> [] \<and> r \<in> set qs \<and>
      ((\<exists>path \<in> set paths. \<exists>n \<in> set (anchors r). starts_with path (node_path n)) \<or> (\<exists>q. also = Some q \<and> q r))"
    using Some by (auto simp: scope_queryset_def split: option.splits)
  also have "\<dots> \<longleftrightarrow> r \<in> set qs \<and> (\<exists>a \<in> set (active_assignments db u).
        (\<exists>n \<in> set (anchors r). ancestor_or_self (as_scope a) n) \<or> (\<exists>q. also = Some q \<and> q r))"
    unfolding ex using ne by blast
  finally show ?thesis using su by blast
qed

definition demo_global :: geo_node where
  "demo_global = GeoNode 1 GLOBAL ''GLOBAL'' None"

definition demo_india :: geo_node where
  "demo_india = GeoNode 2 COUNTRY ''IN'' (Some demo_global)"

definition demo_telangana :: geo_node where
  "demo_telangana = GeoNode 3 STATE ''IN-TG'' (Some demo_india)"

definition demo_us :: geo_node where
  "demo_us = GeoNode 4 COUNTRY ''US'' (Some demo_global)"

definition demo_role :: admin_role where
  "demo_role = \<lparr> role_code = ''city_ops'', role_permissions = [''trip.read''],
     is_global_only = False, role_active = True \<rparr>"

definition demo_ops :: user_acct where
  "demo_ops = \<lparr> user_pk = 7, authenticated = True, is_superuser = False, is_staff = True,
     user_role = ''admin'', ops_role = [] \<rparr>"

definition demo_asg :: assignment where
  "demo_asg = \<lparr> as_admin = 7, as_role = demo_role, as_scope = demo_india, as_active = True \<rparr>"

lemmas demo_access = demo_global_def demo_india_def demo_telangana_def demo_us_def demo_role_def
  demo_ops_def demo_asg_def

theorem scope_queryset_exact_witness:
  "demo_telangana \<in> set (scope_queryset [demo_asg] demo_ops (\<lambda>n. [n]) None [demo_telangana, demo_us])"
proof -
  let ?N = "{demo_global, demo_india, demo_telangana, demo_us}"
  have N: "geo_registry ?N" by (simp add: geo_registry_def demo_access inj_on_def)
  have s: "\<forall>a \<in> set [demo_asg]. as_scope a \<in> ?N" by (simp add: demo_asg_def)
  have r: "set ((\<lambda>n. [n]) demo_telangana) \<subseteq> ?N" by simp
  have act: "demo_asg \<in> set (active_assignments [demo_asg] demo_ops)"
    by (simp add: active_assignments_def demo_access)
  have anc: "ancestor_or_self (as_scope demo_asg) demo_telangana"
    by (simp add: ancestor_or_self_def demo_access)
  show ?thesis
    using scope_queryset_exact [where r = demo_telangana and anchors = "\<lambda>n. [n]", OF N s r,
        of demo_ops None "[demo_telangana, demo_us]"] act anc
    by auto
qed

text \<open>The list of capabilities the console draws itself from is exactly what
  \<open>granted\<close> would answer, for every permission of the catalogue, for every account, in strict
  mode and during the migration.\<close>

theorem capabilities_match_granted:
  assumes "p \<in> set ALL_PERMISSIONS"
  shows "p \<in> set (capabilities_of strict db u) \<longleftrightarrow> allowed (granted strict db u p None)"
proof -
  have legacy: "p \<in> fst ` {x. x \<in> set LEGACY_EQUIVALENT \<and> (case x of (q, c) \<Rightarrow> has_capability u c)}
      \<longleftrightarrow> (case map_of LEGACY_EQUIVALENT p of None \<Rightarrow> False | Some c \<Rightarrow> has_capability u c)"
    using legacy_lookup [of p u] by (force simp: image_iff)
  show ?thesis
    using assms legacy
    by (auto simp: capabilities_of_def granted_def allowed_def has_permission_at_def split: option.splits)
qed

theorem capabilities_match_granted_witness:
  "(''trip.read'' \<in> set (capabilities_of False [demo_asg] demo_ops))
     = allowed (granted False [demo_asg] demo_ops ''trip.read'' None)"
proof -
  have "''trip.read'' \<in> set ALL_PERMISSIONS" by code_simp
  then show ?thesis by (rule capabilities_match_granted)
qed

text \<open>Claim C29. Whatever assignments are saved, moved or bulk-created, an account whose scope is
  unrestricted is a Super Admin: no other role ever reaches the whole world.\<close>

theorem unrestricted_is_super_admin:
  assumes "access_inv db" and "scope_paths (run_events access_step db events) u = None"
  shows "is_super_admin (run_events access_step db events) u"
  using access.run_inv [OF assms(1)] assms(2) by (rule unrestricted_super)

theorem unrestricted_is_super_admin_witness:
  "is_super_admin (run_events access_step [] [SaveAssignment (demo_asg\<lparr>as_scope := demo_global\<rparr>),
      SaveAssignment (demo_asg\<lparr>as_role := demo_role\<lparr>role_code := SUPER_ADMIN\<rparr>, as_scope := demo_global\<rparr>)]) demo_ops"
proof (rule unrestricted_is_super_admin)
  show "access_inv []" by (simp add: access_inv_def)
  show "scope_paths (run_events access_step [] [SaveAssignment (demo_asg\<lparr>as_scope := demo_global\<rparr>),
      SaveAssignment (demo_asg\<lparr>as_role := demo_role\<lparr>role_code := SUPER_ADMIN\<rparr>, as_scope := demo_global\<rparr>)]) demo_ops = None"
    by (simp add: save_assignment_def check_role_at_scope_def SUPER_ADMIN_def scope_paths_def
        active_assignments_def demo_access)
qed

text \<open>A migrated account never falls back to its legacy capabilities: what it may do at
  a node comes from one of its own active assignments, whose node covers that one.\<close>

theorem migrated_has_no_fallback:
  assumes "granted strict db u p (Some n) = Inr (True, h)" and "is_migrated db u"
    and "\<not> is_superuser u"
  shows "h = New \<and> (\<exists>a \<in> set (active_assignments db u).
      covers (as_scope a) (Some n) \<and> p \<in> set (role_permissions (as_role a)))"
  using assms
  by (auto simp: granted_def bind_res_Inr_iff has_permission_at_def permissions_at_def split: if_splits)

theorem migrated_has_no_fallback_witness:
  "\<exists>a \<in> set (active_assignments [demo_asg] demo_ops). covers (as_scope a) (Some demo_telangana)"
proof -
  have ok: "''trip.read'' \<in> set ALL_PERMISSIONS" by code_simp
  have g: "granted False [demo_asg] demo_ops ''trip.read'' (Some demo_telangana) = Inr (True, New)"
    by (simp add: granted_def is_operator_def has_permission_at_def ok permissions_at_def
        active_assignments_def covers_def demo_access)
  have m: "is_migrated [demo_asg] demo_ops"
    by (simp add: is_migrated_def active_assignments_def demo_access)
  have s: "\<not> is_superuser demo_ops" by (simp add: demo_ops_def)
  show ?thesis using migrated_has_no_fallback [OF g m s] by blast
qed

end
