(* ===== verification/Zones.thy ===== *)
theory Zones
  imports Geo PyDecimal "HOL-Library.List_Lexorder" "HOL-Library.Char_ord"
    "HOL-Library.Product_Lexorder"
begin

text \<open>
  Service zones and rate cards (\<open>servers/pricing/models.py\<close>, \<open>servers/pricing/services.py\<close>):
  the polygon cache, the one function that resolves a point to a zone, and the search for the
  rate card up the zone's parents.

  Shapely is outside the program: \<open>shape_of\<close> stands for parsing and validating a GeoJSON value
  (\<open>None\<close> where the code answers \<open>None\<close>) and \<open>inside\<close> for \<open>polygon.contains\<close>. Coordinates
  are the numbers \<open>float()\<close> reads, \<open>None\<close> when it raises. Times are integers. A zone names its
  parent by id, as the foreign key does, so a parent chain may loop; the search carries the
  \<open>seen\<close> set of the source and terminates on any table.
\<close>

record 'j service_zone =
  sz_id :: int
  sz_code :: string
  sz_country :: string
  sz_parent :: "int option"
  sz_geo :: "geo_node option"
  sz_geojson :: 'j
  sz_priority :: int
  sz_currency :: string
  sz_timezone :: string
  sz_distance_unit :: string
  sz_tax_mode :: string
  sz_per_trip_fee :: "decimal option"
  sz_fee_label :: string
  sz_active :: bool
  sz_updated_at :: int

section \<open>The polygon cache\<close>

type_synonym 'g polygon_cache = "int \<rightharpoonup> int \<times> 'g"

definition polygon_for_zone ::
  "('j \<Rightarrow> 'g option) \<Rightarrow> 'g polygon_cache \<Rightarrow> 'j service_zone \<Rightarrow> 'g option \<times> 'g polygon_cache" where
  "polygon_for_zone shape_of cache z =
     (case cache (sz_id z) of
        Some (ts, g) \<Rightarrow>
          (if ts = sz_updated_at z then (Some g, cache)
           else case shape_of (sz_geojson z) of
                  None \<Rightarrow> (None, cache)
                | Some p \<Rightarrow> (Some p, cache(sz_id z \<mapsto> (sz_updated_at z, p))))
      | None \<Rightarrow>
          (case shape_of (sz_geojson z) of
             None \<Rightarrow> (None, cache)
           | Some p \<Rightarrow> (Some p, cache(sz_id z \<mapsto> (sz_updated_at z, p)))))"

definition invalidate_polygon_cache :: "int option \<Rightarrow> 'g polygon_cache \<Rightarrow> 'g polygon_cache" where
  "invalidate_polygon_cache zone_id cache = (case zone_id of None \<Rightarrow> Map.empty | Some i \<Rightarrow> cache(i := None))"

text \<open>A cached polygon is the polygon of the row it was made from, as long as the row's
  \<open>updated_at\<close> has not moved.\<close>

definition cache_ok :: "('j \<Rightarrow> 'g option) \<Rightarrow> 'g polygon_cache \<Rightarrow> 'j service_zone list \<Rightarrow> bool" where
  "cache_ok shape_of cache zones =
     (\<forall>z \<in> set zones. case cache (sz_id z) of None \<Rightarrow> True
        | Some (ts, g) \<Rightarrow> ts = sz_updated_at z \<longrightarrow> shape_of (sz_geojson z) = Some g)"

section \<open>Resolving a point\<close>

text \<open>A draft zone: the zone it becomes, its polygon, the id it replaces, whether it is active.\<close>

record ('j, 'g) draft_zone =
  dz_zone :: "'j service_zone"
  dz_polygon :: "'g option"
  dz_zone_id :: "int option"
  dz_active :: bool

definition zone_key :: "'j service_zone \<Rightarrow> int \<times> string" where
  "zone_key z = (- sz_priority z, sz_code z)"

fun load_polygons ::
  "('j \<Rightarrow> 'g option) \<Rightarrow> int option \<Rightarrow> 'g polygon_cache \<Rightarrow> 'j service_zone list
     \<Rightarrow> ('j service_zone \<times> 'g) list \<times> 'g polygon_cache" where
  "load_polygons shape_of skip cache [] = ([], cache)"
| "load_polygons shape_of skip cache (z # zs) =
     (if skip = Some (sz_id z) then load_polygons shape_of skip cache zs
      else let (p, cache') = polygon_for_zone shape_of cache z;
               (es, cache'') = load_polygons shape_of skip cache' zs
           in ((case p of None \<Rightarrow> es | Some g \<Rightarrow> (z, g) # es), cache''))"

definition load_index ::
  "('j \<Rightarrow> 'g option) \<Rightarrow> ('j, 'g) draft_zone option \<Rightarrow> 'g polygon_cache \<Rightarrow> 'j service_zone list
     \<Rightarrow> ('j service_zone \<times> 'g) list \<times> 'g polygon_cache" where
  "load_index shape_of overlay cache zones =
     (let live = sort_key zone_key (filter sz_active zones);
          skip = (case overlay of None \<Rightarrow> None | Some d \<Rightarrow> dz_zone_id d);
          (entries, cache') = load_polygons shape_of skip cache live;
          drawn = (case overlay of None \<Rightarrow> []
            | Some d \<Rightarrow> if dz_active d then (case dz_polygon d of None \<Rightarrow> [] | Some g \<Rightarrow> [(dz_zone d, g)]) else [])
      in (sort_key (\<lambda>e. zone_key (fst e)) (entries @ drawn), cache'))"

definition containing ::
  "('g \<Rightarrow> rat \<times> rat \<Rightarrow> bool) \<Rightarrow> ('j service_zone \<times> 'g) list \<Rightarrow> rat option \<Rightarrow> rat option \<Rightarrow> 'j service_zone list" where
  "containing inside entries lat lon = (case (lat, lon) of
      (Some la, Some lo) \<Rightarrow>
        (if -90 \<le> la \<and> la \<le> 90 \<and> -180 \<le> lo \<and> lo \<le> 180
         then map fst (filter (\<lambda>e. inside (snd e) (lo, la)) entries) else [])
    | _ \<Rightarrow> [])"

definition resolve_point ::
  "('g \<Rightarrow> rat \<times> rat \<Rightarrow> bool) \<Rightarrow> ('j service_zone \<times> 'g) list \<Rightarrow> rat option \<Rightarrow> rat option \<Rightarrow> 'j service_zone option" where
  "resolve_point inside entries lat lon = (case containing inside entries lat lon of [] \<Rightarrow> None | z # _ \<Rightarrow> Some z)"

definition find_zone_for_point ::
  "('j \<Rightarrow> 'g option) \<Rightarrow> ('g \<Rightarrow> rat \<times> rat \<Rightarrow> bool) \<Rightarrow> 'g polygon_cache \<Rightarrow> 'j service_zone list
     \<Rightarrow> rat option \<Rightarrow> rat option \<Rightarrow> 'j service_zone option" where
  "find_zone_for_point shape_of inside cache zones lat lon =
     resolve_point inside (fst (load_index shape_of None cache zones)) lat lon"

definition is_inside_service_area ::
  "('j \<Rightarrow> 'g option) \<Rightarrow> ('g \<Rightarrow> rat \<times> rat \<Rightarrow> bool) \<Rightarrow> 'g polygon_cache \<Rightarrow> 'j service_zone list
     \<Rightarrow> rat option \<Rightarrow> rat option \<Rightarrow> bool" where
  "is_inside_service_area shape_of inside cache zones lat lon =
     (find_zone_for_point shape_of inside cache zones lat lon \<noteq> None)"

datatype area_answer = AreaOk | PickupOutside | DropOutside

definition validate_service_area ::
  "(rat option \<Rightarrow> rat option \<Rightarrow> bool) \<Rightarrow> rat option \<times> rat option \<Rightarrow> rat option \<times> rat option \<Rightarrow> area_answer" where
  "validate_service_area is_inside pickup dest =
     (if \<not> is_inside (fst pickup) (snd pickup) then PickupOutside
      else if \<not> is_inside (fst dest) (snd dest) then DropOutside else AreaOk)"

section \<open>Rate cards\<close>

record rate_card =
  rc_zone :: int
  rc_vehicle_type :: int
  rc_base_fare :: decimal
  rc_per_km :: decimal
  rc_per_min :: decimal
  rc_min_fare :: decimal
  rc_night_multiplier :: decimal
  rc_night_start :: int
  rc_night_end :: int
  rc_surge_cap :: decimal
  rc_gst_percent :: decimal
  rc_from :: int
  rc_to :: "int option"
  rc_version :: int
  rc_active :: bool

definition card_in_force :: "int \<Rightarrow> int \<Rightarrow> int \<Rightarrow> rate_card \<Rightarrow> bool" where
  "card_in_force zone_id vt tm c =
     (rc_zone c = zone_id \<and> rc_vehicle_type c = vt \<and> rc_active c \<and> rc_from c \<le> tm
      \<and> (case rc_to c of None \<Rightarrow> True | Some t \<Rightarrow> t > tm))"

text \<open>\<open>.order_by('-effective_from', '-version').first()\<close>.\<close>

definition latest_card :: "rate_card list \<Rightarrow> rate_card option" where
  "latest_card cards = (case sort_key (\<lambda>c. (- rc_from c, - rc_version c)) cards of [] \<Rightarrow> None | c # _ \<Rightarrow> Some c)"

definition zone_by_id :: "'j service_zone list \<Rightarrow> int option \<Rightarrow> 'j service_zone option" where
  "zone_by_id zones i = (case i of None \<Rightarrow> None | Some n \<Rightarrow> find (\<lambda>z. sz_id z = n) zones)"

lemma zone_by_id_mem: "zone_by_id zones i = Some z \<Longrightarrow> z \<in> set zones \<and> i = Some (sz_id z)"
  by (auto simp: zone_by_id_def find_Some_iff split: option.splits)

function card_up_chain ::
  "rate_card list \<Rightarrow> 'j service_zone list \<Rightarrow> int \<Rightarrow> int \<Rightarrow> int set \<Rightarrow> 'j service_zone option \<Rightarrow> rate_card option" where
  "card_up_chain cards zones vt tm seen None = None"
| "card_up_chain cards zones vt tm seen (Some z) =
     (if sz_id z \<in> seen then None
      else case latest_card (filter (card_in_force (sz_id z) vt tm) cards) of
             Some c \<Rightarrow> Some c
           | None \<Rightarrow> card_up_chain cards zones vt tm (insert (sz_id z) seen) (zone_by_id zones (sz_parent z)))"
  by pat_completeness auto
termination
proof (relation "measures [\<lambda>(cards, zones, vt, tm, seen, cur). card (sz_id ` set zones - seen),
     \<lambda>(cards, zones, vt, tm, seen, cur). case cur of None \<Rightarrow> 0 | Some z \<Rightarrow> if z \<in> set zones then 1 else 2]", simp)
  fix cards :: "rate_card list" and zones :: "'a service_zone list" and vt tm :: int and seen and z :: "'a service_zone"
  assume ns: "sz_id z \<notin> seen"
  let ?N = "sz_id ` set zones"
  show "((cards, zones, vt, tm, insert (sz_id z) seen, zone_by_id zones (sz_parent z)),
         cards, zones, vt, tm, seen, Some z) \<in> measures
         [\<lambda>(cards, zones, vt, tm, seen, cur). card (sz_id ` set zones - seen),
          \<lambda>(cards, zones, vt, tm, seen, cur). case cur of None \<Rightarrow> 0 | Some z \<Rightarrow> if z \<in> set zones then 1 else 2]"
  proof (cases "sz_id z \<in> ?N")
    case True
    with ns have "card (?N - insert (sz_id z) seen) < card (?N - seen)"
      by (intro psubset_card_mono) auto
    then show ?thesis by simp
  next
    case False
    then have "?N - insert (sz_id z) seen = ?N - seen" and "z \<notin> set zones" by auto
    then show ?thesis
      by (cases "zone_by_id zones (sz_parent z)") (auto dest: zone_by_id_mem)
  qed
qed

definition get_active_rate_card ::
  "rate_card list \<Rightarrow> 'j service_zone list \<Rightarrow> 'j service_zone \<Rightarrow> int \<Rightarrow> int \<Rightarrow> rate_card option" where
  "get_active_rate_card cards zones zone vt tm = card_up_chain cards zones vt tm {} (Some zone)"

section \<open>Facts\<close>

lemma polygon_for_zone_ok:
  assumes "cache_ok shape_of cache zs" "z \<in> set zs" "distinct (map sz_id zs)"
  shows "fst (polygon_for_zone shape_of cache z) = shape_of (sz_geojson z)
     \<and> cache_ok shape_of (snd (polygon_for_zone shape_of cache z)) zs"
proof -
  have eq: "z' = z" if "z' \<in> set zs" "sz_id z' = sz_id z" for z'
    using assms(2,3) that by (auto simp: distinct_map inj_on_def)
  show ?thesis
    using assms(1,2) eq
    by (fastforce simp: polygon_for_zone_def cache_ok_def split: option.splits prod.splits if_splits)
qed

lemma load_polygons_ok:
  assumes "cache_ok shape_of cache zs" "distinct (map sz_id zs)" "set qs \<subseteq> set zs"
  shows "fst (load_polygons shape_of None cache qs)
     = concat (map (\<lambda>z. case shape_of (sz_geojson z) of None \<Rightarrow> [] | Some g \<Rightarrow> [(z, g)]) qs)"
  using assms
proof (induction qs arbitrary: cache)
  case Nil
  then show ?case by simp
next
  case (Cons q qs)
  let ?r = "polygon_for_zone shape_of cache q"
  have r: "fst ?r = shape_of (sz_geojson q)" "cache_ok shape_of (snd ?r) zs"
    using polygon_for_zone_ok [OF Cons.prems(1) _ Cons.prems(2), of q] Cons.prems(3) by auto
  have "fst (load_polygons shape_of None (snd ?r) qs)
     = concat (map (\<lambda>z. case shape_of (sz_geojson z) of None \<Rightarrow> [] | Some g \<Rightarrow> [(z, g)]) qs)"
    using Cons.prems(2,3) by (intro Cons.IH [OF r(2)]) auto
  with r(1) show ?case by (auto simp: Let_def split: prod.splits option.splits)
qed

lemma distinct_sort_filter:
  "distinct (map sz_id zones) \<Longrightarrow> distinct (map sz_id (sort_key zone_key (filter sz_active zones)))"
  by (auto simp: distinct_map intro: inj_on_subset)

lemma live_entries:
  assumes "cache_ok shape_of cache zones" "distinct (map sz_id zones)"
  shows "(z, g) \<in> set (fst (load_index shape_of None cache zones))
     \<longleftrightarrow> z \<in> set zones \<and> sz_active z \<and> shape_of (sz_geojson z) = Some g"
proof -
  let ?live = "sort_key zone_key (filter sz_active zones)"
  have "fst (load_polygons shape_of None cache ?live)
     = concat (map (\<lambda>z. case shape_of (sz_geojson z) of None \<Rightarrow> [] | Some g \<Rightarrow> [(z, g)]) ?live)"
    by (rule load_polygons_ok [OF assms]) auto
  then show ?thesis by (auto simp: load_index_def Let_def split: prod.splits option.splits)
qed

lemma index_sorted: "sorted (map (\<lambda>e. zone_key (fst e)) (fst (load_index shape_of overlay cache zones)))"
  by (auto simp: load_index_def Let_def split: prod.splits)

lemma filter_hd_min:
  assumes "sorted (map k xs)" "filter P xs = y # ys" "x \<in> set xs" "P x"
  shows "k y \<le> k x"
proof -
  have "sorted (map k (y # ys))" using assms(1,2) sorted_filter by metis
  moreover have "x \<in> set (filter P xs)" using assms(3,4) by simp
  then have "x \<in> set (y # ys)" using assms(2) by simp
  ultimately show ?thesis by auto
qed


lemma latest_card_mem: "latest_card cs = Some c \<Longrightarrow> c \<in> set cs"
proof -
  let ?s = "sort_key (\<lambda>c. (- rc_from c, - rc_version c)) cs"
  assume "latest_card cs = Some c"
  then have "c \<in> set ?s" by (cases ?s) (simp_all add: latest_card_def)
  then show ?thesis by simp
qed

lemma card_up_chain_mem: "card_up_chain cards zones vt tm seen cur = Some c \<Longrightarrow> c \<in> set cards"
  by (induction cards zones vt tm seen cur rule: card_up_chain.induct)
    (auto dest!: latest_card_mem split: if_splits option.splits)

lemma get_active_rate_card_mem: "get_active_rate_card cards zones z vt tm = Some c \<Longrightarrow> c \<in> set cards"
  unfolding get_active_rate_card_def by (rule card_up_chain_mem)




section \<open>The properties\<close>

lemma resolve_point_Some:
  "resolve_point inside entries lat lon = Some z \<Longrightarrow>
     \<exists>la lo g rest. lat = Some la \<and> lon = Some lo
       \<and> filter (\<lambda>e. inside (snd e) (lo, la)) entries = (z, g) # rest"
  by (auto simp: resolve_point_def containing_def split: option.splits list.splits if_splits)

text \<open>A point resolves to the most specific active zone around it: an active zone whose
  polygon contains the point, of the highest priority, ties broken by the smaller code; the
  polygon cache never changes the answer.\<close>

theorem find_zone_most_specific:
  assumes "cache_ok shape_of cache zones" and "distinct (map sz_id zones)"
    and "find_zone_for_point shape_of inside cache zones (Some la) (Some lo) = Some z"
  shows "z \<in> set zones \<and> sz_active z
     \<and> (\<exists>g. shape_of (sz_geojson z) = Some g \<and> inside g (lo, la))
     \<and> (\<forall>z' \<in> set zones. \<forall>g. sz_active z' \<and> shape_of (sz_geojson z') = Some g \<and> inside g (lo, la)
          \<longrightarrow> zone_key z \<le> zone_key z')"
proof -
  let ?es = "fst (load_index shape_of None cache zones)"
  obtain g rest where f: "filter (\<lambda>e. inside (snd e) (lo, la)) ?es = (z, g) # rest"
    using resolve_point_Some assms(3) unfolding find_zone_for_point_def by fastforce
  then have "(z, g) \<in> set (filter (\<lambda>e. inside (snd e) (lo, la)) ?es)" by simp
  then have z: "(z, g) \<in> set ?es" "inside g (lo, la)" by simp_all
  have "zone_key z \<le> zone_key z'" if "z' \<in> set zones" "sz_active z'" "shape_of (sz_geojson z') = Some g'"
    "inside g' (lo, la)" for z' g'
    using filter_hd_min [OF index_sorted f, of "(z', g')"] live_entries [OF assms(1,2)] that by auto
  with z live_entries [OF assms(1,2), of z g] show ?thesis by blast
qed

definition demo_zone :: "int \<Rightarrow> string \<Rightarrow> int \<Rightarrow> int option \<Rightarrow> rat service_zone" where
  "demo_zone i code prio parent = \<lparr> sz_id = i, sz_code = code, sz_country = ''IN'', sz_parent = parent,
     sz_geo = None, sz_geojson = of_int i, sz_priority = prio, sz_currency = ''INR'', sz_timezone = [],
     sz_distance_unit = ''km'', sz_tax_mode = ''inclusive'', sz_per_trip_fee = None, sz_fee_label = [],
     sz_active = True, sz_updated_at = 0 \<rparr>"

theorem find_zone_most_specific_witness:
  "zone_key (demo_zone 2 ''HYD-AIR'' 100 (Some 1)) \<le> zone_key (demo_zone 1 ''HYD'' 10 None)"
proof -
  let ?zs = "[demo_zone 1 ''HYD'' 10 None, demo_zone 2 ''HYD-AIR'' 100 (Some 1)]"
  have c: "cache_ok Some Map.empty ?zs" by (simp add: cache_ok_def)
  have d: "distinct (map sz_id ?zs)" by (simp add: demo_zone_def)
  have f: "find_zone_for_point Some (\<lambda>g p. True) Map.empty ?zs (Some 17) (Some 78)
      = Some (demo_zone 2 ''HYD-AIR'' 100 (Some 1))"
    by (simp add: find_zone_for_point_def load_index_def demo_zone_def zone_key_def polygon_for_zone_def
        resolve_point_def containing_def less_eq_prod_def Let_def)
  show ?thesis using find_zone_most_specific [OF c d f] by (simp add: demo_zone_def)
qed




end
