(* ===== verification/Commission.thy ===== *)
theory Commission
  imports Money Zones
begin

text \<open>
  Commission (\<open>servers/pricing/commission.py\<close>, the rule rows of \<open>commission_models.py\<close>): a rule
  per country, optionally narrowed to a city and a vehicle class; the resolution of the most
  specific rule in force, the snapshot that a booking stores, the percentage a settlement uses,
  and the earnings preview of a draft rule.

  Times are integers. Percentages are exact decimals. \<open>find_zone\<close> is the point lookup of
  \<open>Zones\<close> applied to the trip's pickup. The two averages of the preview, which the code
  rounds in floating point, and the rows of the console's matrix are not modelled.
\<close>

datatype rule_kind = PERCENTAGE | FLAT_FEE | SUBSCRIPTION

datatype rule_status = RULE_DRAFT | RULE_PENDING | RULE_ACTIVE | RULE_ARCHIVED

record commission_rule =
  cr_id :: int
  cr_country :: string
  cr_geo :: "geo_node option"
  cr_vehicle_type :: "int option"
  cr_kind :: rule_kind
  cr_percent :: decimal
  cr_status :: rule_status
  cr_version :: int
  cr_from :: int
  cr_to :: "int option"

definition applicable_status :: "rule_status \<Rightarrow> bool" where
  "applicable_status s = (s = RULE_ACTIVE \<or> s = RULE_ARCHIVED)"

definition is_city_rule :: "commission_rule \<Rightarrow> bool" where
  "is_city_rule r = (case cr_geo r of None \<Rightarrow> False | Some n \<Rightarrow> gn_kind n = CITY)"

text \<open>\<open>if self.vehicle_type_id\<close>: a null or zero id is falsy.\<close>

definition truthy_id :: "int option \<Rightarrow> bool" where
  "truthy_id v = (case v of None \<Rightarrow> False | Some n \<Rightarrow> n \<noteq> 0)"

datatype rule_level = COUNTRY_DEFAULT | CITY_OVERRIDE | VEHICLE_OVERRIDE | CITY_VEHICLE_OVERRIDE

definition rule_level :: "commission_rule \<Rightarrow> rule_level" where
  "rule_level r = (if is_city_rule r \<and> truthy_id (cr_vehicle_type r) then CITY_VEHICLE_OVERRIDE
     else if is_city_rule r then CITY_OVERRIDE
     else if truthy_id (cr_vehicle_type r) then VEHICLE_OVERRIDE
     else COUNTRY_DEFAULT)"

definition specificity :: "commission_rule \<Rightarrow> int" where
  "specificity r = (if truthy_id (cr_vehicle_type r) then 2 else 0) + (if is_city_rule r then 1 else 0)"

definition applies_at :: "commission_rule \<Rightarrow> int \<Rightarrow> bool" where
  "applies_at r tm = (if \<not> applicable_status (cr_status r) then False
     else if cr_from r > tm then False
     else (case cr_to r of None \<Rightarrow> True | Some t \<Rightarrow> t > tm))"

section \<open>Where a trip sits\<close>

record 'j priced_trip =
  pt_id :: int
  pt_zone :: "'j service_zone option"
  pt_requested_vt :: "int option"
  pt_vehicle_vt :: "int option"
  pt_requested_at :: "int option"
  pt_percent_snapshot :: "decimal option"
  pt_rule_id :: "int option"
  pt_rule_version :: "int option"

definition country_code_of_zone :: "'j service_zone \<Rightarrow> string option" where
  "country_code_of_zone z =
     (case (case sz_geo z of None \<Rightarrow> None | Some n \<Rightarrow> node_country n) of
        Some c \<Rightarrow> Some (gn_code c)
      | None \<Rightarrow> (if py_upper (sz_country z) = [] then None else Some (py_upper (sz_country z))))"

definition trip_context ::
  "'j service_zone option \<Rightarrow> 'j priced_trip \<Rightarrow> string option \<times> int option \<times> int option" where
  "trip_context find_zone t =
     (let zone = (case pt_zone t of None \<Rightarrow> find_zone | Some z \<Rightarrow> Some z);
          country = (case zone of None \<Rightarrow> None | Some z \<Rightarrow> country_code_of_zone z);
          city = (case zone of None \<Rightarrow> None | Some z \<Rightarrow> city_node_of (sz_geo z));
          vt = (case pt_requested_vt t of None \<Rightarrow> pt_vehicle_vt t | Some v \<Rightarrow> Some v)
      in (country, map_option gn_id city, vt))"

section \<open>Resolution\<close>

definition same_key :: "commission_rule \<Rightarrow> commission_rule \<Rightarrow> bool" where
  "same_key a b = (cr_country a = cr_country b \<and> map_option gn_id (cr_geo a) = map_option gn_id (cr_geo b)
     \<and> cr_vehicle_type a = cr_vehicle_type b)"

definition rule_key :: "commission_rule \<Rightarrow> int \<times> int \<times> int" where
  "rule_key r = (specificity r, cr_from r, cr_version r)"

definition in_cell :: "int option \<Rightarrow> int option \<Rightarrow> commission_rule \<Rightarrow> bool" where
  "in_cell city vt r =
     (\<not> (is_city_rule r \<and> map_option gn_id (cr_geo r) \<noteq> city)
      \<and> \<not> (cr_vehicle_type r \<noteq> None \<and> cr_vehicle_type r \<noteq> vt))"

text \<open>\<open>preloaded\<close> is the optional list of the caller, \<open>db\<close> the rule table; \<open>override\<close> a
  draft that is treated as in force.\<close>

definition candidates ::
  "commission_rule list \<Rightarrow> commission_rule list option \<Rightarrow> commission_rule option \<Rightarrow> string \<Rightarrow> int \<Rightarrow> commission_rule list" where
  "candidates db preloaded override country tm =
     (let rules = (case preloaded of
            None \<Rightarrow> filter (\<lambda>r. cr_country r = country \<and> cr_kind r = PERCENTAGE \<and> applies_at r tm) db
          | Some rs \<Rightarrow> filter (\<lambda>r. cr_kind r = PERCENTAGE \<and> applies_at r tm) rs)
      in case override of None \<Rightarrow> rules | Some ov \<Rightarrow> filter (\<lambda>r. \<not> same_key r ov) rules @ [ov])"

definition resolve ::
  "commission_rule list \<Rightarrow> commission_rule list option \<Rightarrow> commission_rule option
     \<Rightarrow> string option \<Rightarrow> int option \<Rightarrow> int option \<Rightarrow> int \<Rightarrow> commission_rule option" where
  "resolve db preloaded override country city vt tm =
     (if falsy country then None
      else best_by rule_key None (filter (in_cell city vt) (candidates db preloaded override (the country) tm)))"

datatype decision_source = Snapshot | RuleAtRequestedAt

record decision =
  dn_percent :: decimal
  dn_rule_id :: "int option"
  dn_rule_version :: "int option"
  dn_source :: decision_source

datatype commission_error = CommissionNotConfigured "string option" int

definition commission_for_trip ::
  "commission_rule list \<Rightarrow> 'j service_zone option \<Rightarrow> int \<Rightarrow> 'j priced_trip \<Rightarrow> commission_error + decision" where
  "commission_for_trip db find_zone now t =
     (case pt_percent_snapshot t of
        Some p \<Rightarrow> Inr \<lparr> dn_percent = p, dn_rule_id = pt_rule_id t, dn_rule_version = pt_rule_version t,
                       dn_source = Snapshot \<rparr>
      | None \<Rightarrow>
          (let (country, city, vt) = trip_context find_zone t;
               tm = (case pt_requested_at t of None \<Rightarrow> now | Some r \<Rightarrow> r)
           in case resolve db None None country city vt tm of
                None \<Rightarrow> Inl (CommissionNotConfigured country (pt_id t))
              | Some r \<Rightarrow> Inr \<lparr> dn_percent = cr_percent r, dn_rule_id = Some (cr_id r),
                               dn_rule_version = Some (cr_version r), dn_source = RuleAtRequestedAt \<rparr>))"

text \<open>The fields a booking puts on the trip: none when no rule is in force.\<close>

definition snapshot_for_booking ::
  "commission_rule list \<Rightarrow> 'j service_zone option \<Rightarrow> int option \<Rightarrow> int \<Rightarrow> 'j priced_trip \<Rightarrow> 'j priced_trip" where
  "snapshot_for_booking db zone vt tm t =
     (let country = (case zone of None \<Rightarrow> None | Some z \<Rightarrow> country_code_of_zone z);
          city = (case zone of None \<Rightarrow> None | Some z \<Rightarrow> city_node_of (sz_geo z))
      in case resolve db None None country (map_option gn_id city) vt tm of
           None \<Rightarrow> t
         | Some r \<Rightarrow> t\<lparr>pt_percent_snapshot := Some (cr_percent r), pt_rule_id := Some (cr_id r),
                      pt_rule_version := Some (cr_version r)\<rparr>)"

text \<open>The next scheduled rule that would govern a cell, for the console's matrix.\<close>

definition next_change ::
  "commission_rule list \<Rightarrow> string option \<Rightarrow> int option \<Rightarrow> int option \<Rightarrow> int \<Rightarrow> commission_rule option" where
  "next_change rules country city vt now =
     find (\<lambda>r. in_cell city vt r
            \<and> (case resolve [] (Some rules) None country city vt (cr_from r) of
                 None \<Rightarrow> False | Some cur \<Rightarrow> cr_id cur = cr_id r))
       (sort_key cr_from (filter (\<lambda>r. cr_status r = RULE_ACTIVE \<and> cr_kind r = PERCENTAGE \<and> cr_from r > now) rules))"

section \<open>The commission amount\<close>

text \<open>\<open>to_minor(from_minor(gross, currency) * percent / Decimal('100'), currency)\<close>.\<close>

definition commission_minor :: "int \<Rightarrow> decimal \<Rightarrow> string option \<Rightarrow> money_error + int option" where
  "commission_minor gross percent currency =
     bind_res (from_minor (VInt gross) currency) (\<lambda>g. case g of
        None \<Rightarrow> Inl MoneyTypeError
      | Some d \<Rightarrow> (case dec_div (dec_mul d percent) (Dec 100 0) of
            None \<Rightarrow> Inl DecimalInvalid
          | Some x \<Rightarrow> to_minor (VDec (Finite x)) currency))"

section \<open>The earnings preview\<close>

record 'j settled_trip =
  st_trip :: "'j priced_trip"
  st_version :: int
  st_completed_at :: "int option"
  st_driver :: int
  st_currency :: string
  st_gross :: int
  st_commission :: int

record preview_bucket =
  pb_trips :: int
  pb_drivers :: "int list"
  pb_change :: int

definition draft_governs ::
  "commission_rule list \<Rightarrow> commission_rule \<Rightarrow> int \<Rightarrow> string option \<Rightarrow> int option \<times> int option \<Rightarrow> bool" where
  "draft_governs db draft now country cell =
     (case resolve db None (Some draft) country (fst cell) (snd cell) now of
        None \<Rightarrow> False | Some w \<Rightarrow> same_key w draft)"

definition add_to_bucket :: "int \<Rightarrow> int \<Rightarrow> preview_bucket option \<Rightarrow> preview_bucket" where
  "add_to_bucket driver change b =
     (case b of None \<Rightarrow> \<lparr> pb_trips = 1, pb_drivers = [driver], pb_change = change \<rparr>
      | Some b \<Rightarrow> \<lparr> pb_trips = pb_trips b + 1, pb_drivers = List.insert driver (pb_drivers b),
                  pb_change = pb_change b + change \<rparr>)"

text \<open>The query: first versions of the settlements of trips completed in the window whose zone
  is in the draft's scope. \<open>since\<close> is \<open>now\<close> less the thirty days.\<close>

definition preview_scope :: "commission_rule \<Rightarrow> int \<Rightarrow> int \<Rightarrow> 'j settled_trip \<Rightarrow> bool" where
  "preview_scope draft since now s =
     (st_version s = 1
      \<and> (case st_completed_at s of None \<Rightarrow> False | Some t \<Rightarrow> since \<le> t \<and> t \<le> now)
      \<and> (truthy_id (cr_vehicle_type draft) \<longrightarrow> pt_requested_vt (st_trip s) = cr_vehicle_type draft)
      \<and> (case pt_zone (st_trip s) of
           None \<Rightarrow> False
         | Some z \<Rightarrow> (case cr_geo draft of
             Some n \<Rightarrow> (case sz_geo z of None \<Rightarrow> False | Some g \<Rightarrow> starts_with (node_path n) (node_path g))
           | None \<Rightarrow> sz_country z = cr_country draft)))"

text \<open>The loop over the settled trips, with the cell cache. A draft whose country the trip is not
  in, or whose cell another rule governs, is skipped.\<close>

fun preview_loop ::
  "commission_rule list \<Rightarrow> commission_rule \<Rightarrow> int \<Rightarrow> (int option \<times> int option \<rightharpoonup> bool)
     \<Rightarrow> (string \<rightharpoonup> preview_bucket) \<Rightarrow> 'j settled_trip list \<Rightarrow> money_error + (string \<rightharpoonup> preview_bucket)" where
  "preview_loop db draft now cache out [] = Inr out"
| "preview_loop db draft now cache out (s # ss) =
     (let (country, cell) = trip_context None (st_trip s) in
      if country \<noteq> Some (cr_country draft) then preview_loop db draft now cache out ss
      else let hit = (case cache cell of Some b \<Rightarrow> b | None \<Rightarrow> draft_governs db draft now country cell);
               cache' = cache(cell \<mapsto> hit)
           in if \<not> hit then preview_loop db draft now cache' out ss
              else bind_res (commission_minor (st_gross s) (cr_percent draft) (Some (st_currency s)))
                (\<lambda>m. let change = st_commission s - null_int m
                     in preview_loop db draft now cache'
                          (out(st_currency s \<mapsto> add_to_bucket (st_driver s) change (out (st_currency s)))) ss))"

definition earnings_preview ::
  "commission_rule list \<Rightarrow> commission_rule \<Rightarrow> int \<Rightarrow> int \<Rightarrow> 'j settled_trip list
     \<Rightarrow> money_error + (string \<rightharpoonup> preview_bucket)" where
  "earnings_preview db draft since now rows =
     preview_loop db draft now Map.empty Map.empty (filter (preview_scope draft since now) rows)"


section \<open>Facts about the resolver\<close>

text \<open>The rules of the table that speak for a cell at a moment.\<close>

definition speaks_for ::
  "string \<Rightarrow> int option \<Rightarrow> int option \<Rightarrow> int \<Rightarrow> commission_rule \<Rightarrow> bool" where
  "speaks_for country city vt tm r =
     (cr_country r = country \<and> cr_kind r = PERCENTAGE \<and> applies_at r tm \<and> in_cell city vt r)"

lemma candidates_db:
  "filter (in_cell city vt) (candidates db None None country tm) = filter (speaks_for country city vt tm) db"
  by (auto simp: candidates_def speaks_for_def intro: filter_cong)

lemma resolve_db:
  "resolve db None None country city vt tm =
     (if falsy country then None
      else best_by rule_key None (filter (speaks_for (the country) city vt tm) db))"
  by (simp add: resolve_def candidates_db)

lemma resolve_SomeD:
  assumes "resolve db None None country city vt tm = Some r"
  shows "r \<in> set db \<and> country = Some (cr_country r) \<and> speaks_for (cr_country r) city vt tm r
     \<and> (\<forall>q \<in> set db. speaks_for (cr_country r) city vt tm q \<longrightarrow> rule_key q \<le> rule_key r)"
proof -
  from assms have c: "\<not> falsy country"
    and b: "best_by rule_key None (filter (speaks_for (the country) city vt tm) db) = Some r"
    by (auto simp: resolve_db split: if_splits)
  from best_by_best [OF b] have "r \<in> set db" "speaks_for (the country) city vt tm r"
    and m: "\<forall>q \<in> set (filter (speaks_for (the country) city vt tm) db). rule_key q \<le> rule_key r" by auto
  moreover from this(2) have "the country = cr_country r" by (simp add: speaks_for_def)
  moreover have "country \<noteq> None" using c by (auto simp: falsy_def)
  ultimately show ?thesis by auto
qed

lemma resolve_NoneD:
  "resolve db None None (Some c) city vt tm = None \<Longrightarrow> c \<noteq> [] \<Longrightarrow> r \<in> set db \<Longrightarrow> \<not> speaks_for c city vt tm r"
  by (auto simp: resolve_db falsy_def best_by_None filter_empty_conv split: if_splits)

lemma rule_key_le:
  "rule_key q \<le> rule_key r \<longleftrightarrow> specificity q < specificity r
     \<or> (specificity q = specificity r \<and> (cr_from q < cr_from r \<or> (cr_from q = cr_from r \<and> cr_version q \<le> cr_version r)))"
  by (auto simp: rule_key_def less_eq_prod_def)


section \<open>Facts about the amounts\<close>

lemma commission_minor_value:
  assumes "fits gross" and "fits (gross * coef percent)" and "is_supported currency"
    and fit: "fits (cents (of_int gross / 100 * dval percent / 100))"
  shows "commission_minor gross percent currency =
     Inr (Some (cents (of_int gross / 100 * dval percent / 100)))"
proof -
  have e: "exponent currency = Inr 2" using assms(3) by (simp add: exponent_supported)
  have g: "from_minor (VInt gross) currency = Inr (Some (Dec gross (- 2)))"
    using assms(1) e by (simp add: from_minor_def dec_of_int_def dec_scaleb_exact)
  have gv: "dval (Dec gross (- 2)) = of_int gross / 100" by (simp add: dval_def)
  obtain x where x: "dec_div (dec_mul (Dec gross (- 2)) percent) (Dec 100 0) = Some x"
    "fits (coef x)" "dval x = of_int gross / 100 * dval percent / 100"
    using percent_of_exact [of "Dec gross (- 2)" percent] assms(2) by (auto simp: gv)
  have "to_minor (VDec (Finite x)) currency = Inr (Some (cents (dval x)))"
    by (rule to_minor_exact) (use e x fit in \<open>simp_all add: x\<close>)
  then show ?thesis by (simp add: commission_minor_def g x)
qed


section \<open>Facts about the preview\<close>

text \<open>Without a cache: a trip is affected when it is in the draft's country and the draft would
  be the rule of its cell.\<close>

definition affected :: "commission_rule list \<Rightarrow> commission_rule \<Rightarrow> int \<Rightarrow> 'j settled_trip \<Rightarrow> bool" where
  "affected db draft now s = (let (country, cell) = trip_context None (st_trip s)
     in country = Some (cr_country draft) \<and> draft_governs db draft now country cell)"

definition kept_more :: "commission_rule \<Rightarrow> 'j settled_trip \<Rightarrow> int" where
  "kept_more draft s = st_commission s -
     (case commission_minor (st_gross s) (cr_percent draft) (Some (st_currency s)) of
        Inl _ \<Rightarrow> 0 | Inr m \<Rightarrow> null_int m)"

text \<open>What a currency's bucket says of the affected trips of that currency.\<close>

definition bucket_of :: "commission_rule \<Rightarrow> 'j settled_trip list \<Rightarrow> preview_bucket option \<Rightarrow> bool" where
  "bucket_of draft rows b = (case b of
     None \<Rightarrow> rows = []
   | Some b \<Rightarrow> pb_trips b = int (length rows) \<and> rows \<noteq> []
        \<and> distinct (pb_drivers b) \<and> set (pb_drivers b) = st_driver ` set rows
        \<and> pb_change b = sum_by (kept_more draft) rows)"

lemma bucket_of_add:
  "bucket_of draft rows b \<Longrightarrow>
     bucket_of draft (rows @ [s]) (Some (add_to_bucket (st_driver s) (kept_more draft s) b))"
  by (cases b) (auto simp: bucket_of_def add_to_bucket_def)

definition cache_right ::
  "commission_rule list \<Rightarrow> commission_rule \<Rightarrow> int \<Rightarrow> (int option \<times> int option \<rightharpoonup> bool) \<Rightarrow> bool" where
  "cache_right db draft now cache =
     (\<forall>cell b. cache cell = Some b \<longrightarrow> b = draft_governs db draft now (Some (cr_country draft)) cell)"

abbreviation in_currency :: "string \<Rightarrow> 'j settled_trip list \<Rightarrow> 'j settled_trip list" where
  "in_currency cur rows \<equiv> filter (\<lambda>s. st_currency s = cur) rows"

lemma preview_loop_spec:
  assumes "cache_right db draft now cache"
    and "\<And>cur. bucket_of draft (in_currency cur done_rows) (out cur)"
    and "preview_loop db draft now cache out ss = Inr out'"
  shows "bucket_of draft (in_currency cur (done_rows @ filter (affected db draft now) ss)) (out' cur)"
  using assms
proof (induction ss arbitrary: cache out done_rows)
  case Nil
  then show ?case by simp
next
  case (Cons s ss)
  obtain country cell where ctx: "trip_context None (st_trip s) = (country, cell)"
    by (cases "trip_context None (st_trip s)")
  show ?case
  proof (cases "country = Some (cr_country draft)")
    case False
    then have "\<not> affected db draft now s" by (simp add: affected_def ctx)
    with Cons.IH [OF Cons.prems(1,2)] Cons.prems(3) False show ?thesis by (simp add: ctx)
  next
    case True
    define hit where "hit = draft_governs db draft now (Some (cr_country draft)) cell"
    have found: "(case cache cell of Some b \<Rightarrow> b
        | None \<Rightarrow> draft_governs db draft now (Some (cr_country draft)) cell) = hit"
      using Cons.prems(1) by (simp add: cache_right_def hit_def split: option.splits del: split_paired_All)
    have cr: "cache_right db draft now (cache(cell \<mapsto> hit))"
      using Cons.prems(1) by (simp add: cache_right_def hit_def del: split_paired_All)
    have aff: "affected db draft now s = hit" using True by (simp add: affected_def ctx hit_def)
    have step: "preview_loop db draft now cache out (s # ss) =
      (if \<not> hit then preview_loop db draft now (cache(cell \<mapsto> hit)) out ss
       else bind_res (commission_minor (st_gross s) (cr_percent draft) (Some (st_currency s)))
         (\<lambda>m. preview_loop db draft now (cache(cell \<mapsto> hit))
           (out(st_currency s \<mapsto> add_to_bucket (st_driver s) (st_commission s - null_int m) (out (st_currency s)))) ss))"
      by (simp only: preview_loop.simps ctx prod.case True Let_def found) simp
    show ?thesis
    proof (cases hit)
      case False
      then have "preview_loop db draft now (cache(cell \<mapsto> hit)) out ss = Inr out'"
        using Cons.prems(3) unfolding step by simp
      from Cons.IH [OF cr Cons.prems(2) this] aff False show ?thesis by simp
    next
      case hit': True
      obtain m where m: "commission_minor (st_gross s) (cr_percent draft) (Some (st_currency s)) = Inr m"
        and go: "preview_loop db draft now (cache(cell \<mapsto> hit))
          (out(st_currency s \<mapsto> add_to_bucket (st_driver s) (st_commission s - null_int m) (out (st_currency s)))) ss
            = Inr out'"
        using Cons.prems(3) hit' unfolding step by (auto simp: bind_res_Inr_iff)
      have k: "st_commission s - null_int m = kept_more draft s" by (simp add: kept_more_def m)
      have "bucket_of draft (in_currency c (done_rows @ [s]))
          ((out(st_currency s \<mapsto> add_to_bucket (st_driver s) (kept_more draft s) (out (st_currency s)))) c)" for c
        using Cons.prems(2) [of c] bucket_of_add [of draft "in_currency c done_rows" "out c" s] by auto
      from Cons.IH [OF cr this go [unfolded k]] aff hit' show ?thesis by simp
    qed
  qed
qed


section \<open>The properties\<close>

text \<open>Claim C17. The most specific rule in force governs: the resolved rule is a percentage rule of
  the country, in force at the moment, that covers the cell, and no other such rule is more
  specific, or as specific and later, or as specific and as late and of a higher version. Nothing
  is resolved only when no rule speaks for the cell.\<close>

theorem resolve_most_specific:
  assumes "c \<noteq> []"
  shows "case resolve db None None (Some c) city vt tm of
      Some r \<Rightarrow> r \<in> set db \<and> cr_country r = c \<and> cr_kind r = PERCENTAGE \<and> applies_at r tm \<and> in_cell city vt r
        \<and> (\<forall>q \<in> set db. cr_country q = c \<and> cr_kind q = PERCENTAGE \<and> applies_at q tm \<and> in_cell city vt q \<longrightarrow>
             specificity q < specificity r
             \<or> (specificity q = specificity r \<and> (cr_from q < cr_from r
                  \<or> (cr_from q = cr_from r \<and> cr_version q \<le> cr_version r))))
    | None \<Rightarrow> (\<forall>q \<in> set db. \<not> (cr_country q = c \<and> cr_kind q = PERCENTAGE \<and> applies_at q tm \<and> in_cell city vt q))"
proof (cases "resolve db None None (Some c) city vt tm")
  case None
  with resolve_NoneD [OF None assms] show ?thesis by (auto simp: speaks_for_def)
next
  case (Some r)
  from resolve_SomeD [OF Some] Some show ?thesis by (auto simp: speaks_for_def simp flip: rule_key_le)
qed

definition demo_rule :: "int \<Rightarrow> geo_node option \<Rightarrow> int option \<Rightarrow> int \<Rightarrow> commission_rule" where
  "demo_rule i node vt pct = \<lparr> cr_id = i, cr_country = ''IN'', cr_geo = node, cr_vehicle_type = vt,
     cr_kind = PERCENTAGE, cr_percent = Dec pct (- 2), cr_status = RULE_ACTIVE, cr_version = 1,
     cr_from = 0, cr_to = None \<rparr>"

definition hyd :: geo_node where
  "hyd = GeoNode 3 CITY ''IN-TG-HYD'' (Some (GeoNode 2 STATE ''IN-TG'' (Some (GeoNode 1 COUNTRY ''IN'' None))))"

lemmas demo_eval = demo_rule_def hyd_def resolve_def candidates_def applies_at_def applicable_status_def
  falsy_def in_cell_def is_city_rule_def rule_key_def specificity_def truthy_id_def less_prod_def

theorem resolve_most_specific_witness:
  "resolve [demo_rule 1 None None 1500, demo_rule 2 (Some hyd) None 1000, demo_rule 3 None (Some 7) 1400]
       None None (Some ''IN'') (Some 3) (Some 7) 5 = Some (demo_rule 3 None (Some 7) 1400)
   \<and> applies_at (demo_rule 3 None (Some 7) 1400) 5"
proof -
  let ?db = "[demo_rule 1 None None 1500, demo_rule 2 (Some hyd) None 1000, demo_rule 3 None (Some 7) 1400]"
  have r: "resolve ?db None None (Some ''IN'') (Some 3) (Some 7) 5 = Some (demo_rule 3 None (Some 7) 1400)"
    by (simp add: demo_eval)
  with resolve_most_specific [where c = "''IN''" and db = ?db and city = "Some 3" and vt = "Some 7" and tm = 5]
  show ?thesis by simp
qed

text \<open>Commission is never invented and never retroactive: a settled percent is the trip's
  snapshot, or the percent of a rule of the table in force when the trip was requested; and once a
  booking has stored its snapshot, no later state of the rule table changes the answer.\<close>

theorem commission_never_invented:
  assumes "commission_for_trip db found now t = Inr dn"
  shows "(pt_percent_snapshot t = Some (dn_percent dn) \<and> dn_source dn = Snapshot
            \<and> (\<forall>db' found' now'. commission_for_trip db' found' now' t = Inr dn))
       \<or> (pt_percent_snapshot t = None \<and> dn_source dn = RuleAtRequestedAt
            \<and> (\<exists>r \<in> set db. dn_percent dn = cr_percent r \<and> dn_rule_id dn = Some (cr_id r)
                 \<and> applies_at r (case pt_requested_at t of None \<Rightarrow> now | Some q \<Rightarrow> q)))"
proof (cases "pt_percent_snapshot t")
  case (Some p)
  with assms show ?thesis by (auto simp: commission_for_trip_def)
next
  case None
  from assms None obtain country city vt r where
    r: "resolve db None None country city vt (case pt_requested_at t of None \<Rightarrow> now | Some q \<Rightarrow> q) = Some r"
    and dn: "dn_percent dn = cr_percent r" "dn_rule_id dn = Some (cr_id r)" "dn_source dn = RuleAtRequestedAt"
    by (auto simp: commission_for_trip_def Let_def split: prod.splits option.splits)
  from resolve_SomeD [OF r] dn None show ?thesis by (auto simp: speaks_for_def)
qed

definition demo_trip :: "unit priced_trip" where
  "demo_trip = \<lparr> pt_id = 9, pt_zone = None, pt_requested_vt = Some 7, pt_vehicle_vt = None,
     pt_requested_at = Some 5, pt_percent_snapshot = Some (Dec 1500 (- 2)), pt_rule_id = Some 1,
     pt_rule_version = Some 1 \<rparr>"

theorem commission_never_invented_witness:
  "commission_for_trip [] None 99 demo_trip = commission_for_trip [demo_rule 1 None None 2000] None 7 demo_trip"
proof -
  have h: "commission_for_trip [] None 99 demo_trip = Inr \<lparr> dn_percent = Dec 1500 (- 2), dn_rule_id = Some 1,
      dn_rule_version = Some 1, dn_source = Snapshot \<rparr>"
    by (simp add: commission_for_trip_def demo_trip_def)
  from commission_never_invented [OF this] have "\<forall>db' found' now'. commission_for_trip db' found' now' demo_trip
      = Inr \<lparr> dn_percent = Dec 1500 (- 2), dn_rule_id = Some 1, dn_rule_version = Some 1, dn_source = Snapshot \<rparr>"
    by (auto simp: demo_trip_def)
  with h show ?thesis by simp
qed

text \<open>A commission is the percentage of the gross rounded half up once, to the minor unit,
  and lies between nothing and the whole fare, for every 63-bit fare and every two-decimal
  percent from 0 to 100.\<close>

theorem commission_within_fare:
  assumes "0 \<le> gross" and "gross < 2 ^ 63" and "0 \<le> pct" and "pct \<le> 10000" and "is_supported currency"
  shows "\<exists>m. commission_minor gross (Dec pct (- 2)) currency = Inr (Some m)
     \<and> m = round_half_up (of_int (gross * pct) / 10000) \<and> 0 \<le> m \<and> m \<le> gross"
proof -
  define v :: rat where "v = of_int gross / 100 * dval (Dec pct (- 2)) / 100"
  have v: "v = of_int (gross * pct) / 1000000" by (simp add: v_def dval_def)
  have small: "gross * pct \<le> gross * 10000" using assms by (simp add: mult_left_mono)
  then have "(of_int (gross * pct) :: rat) \<le> of_int (gross * 10000)" by (simp only: of_int_le_iff)
  then have up: "v \<le> of_int gross / 100" by (simp add: v)
  have lo: "0 \<le> v" using assms by (simp add: v)
  have m: "0 \<le> cents v" "cents v \<le> gross" using cents.store_nonneg [OF lo] cents.store_le [OF up] by simp_all
  have f: "fits gross" "fits (gross * coef (Dec pct (- 2)))" "fits (cents v)"
    using assms small m by (auto simp: fits_def abs_of_nonneg)
  have "cents v = round_half_up (of_int (gross * pct) / 10000)" by (simp add: cents_def v)
  moreover have "commission_minor gross (Dec pct (- 2)) currency = Inr (Some (cents v))"
    using commission_minor_value [OF f(1,2) assms(5)] f(3) by (simp add: v_def)
  ultimately show ?thesis using m by blast
qed

theorem commission_within_fare_witness:
  "\<exists>m. commission_minor 33333 (Dec 1500 (- 2)) (Some ''INR'') = Inr (Some m) \<and> 0 \<le> m \<and> m \<le> 33333"
proof -
  have "is_supported (Some ''INR'')" by code_simp
  from commission_within_fare [OF _ _ _ _ this, of 33333 1500] show ?thesis by auto
qed

text \<open>The earnings preview reports, per currency, exactly the settled trips the draft
  would govern: their number, each of their drivers once, and the sum of what drivers would have
  kept more. The cell cache changes nothing.\<close>

theorem preview_exact:
  assumes "earnings_preview db draft since now rows = Inr out"
  shows "bucket_of draft
     (in_currency cur (filter (affected db draft now) (filter (preview_scope draft since now) rows))) (out cur)"
proof -
  have "cache_right db draft now Map.empty" by (simp add: cache_right_def)
  moreover have "bucket_of draft (in_currency c []) (Map.empty c)" for c by (simp add: bucket_of_def)
  ultimately show ?thesis
    using preview_loop_spec [of db draft now Map.empty "[]" Map.empty _ out cur] assms
    unfolding earnings_preview_def append_Nil by blast
qed

definition demo_settled :: "string settled_trip" where
  "demo_settled = \<lparr> st_trip = \<lparr> pt_id = 9,
       pt_zone = Some \<lparr> sz_id = 1, sz_code = ''HYD'', sz_country = ''IN'', sz_parent = None, sz_geo = Some hyd,
         sz_geojson = [], sz_priority = 0, sz_currency = ''INR'', sz_timezone = [], sz_distance_unit = ''km'',
         sz_tax_mode = ''inclusive'', sz_per_trip_fee = None, sz_fee_label = [], sz_active = True, sz_updated_at = 0 \<rparr>,
       pt_requested_vt = Some 7, pt_vehicle_vt = None, pt_requested_at = Some 5, pt_percent_snapshot = None,
       pt_rule_id = None, pt_rule_version = None \<rparr>,
     st_version = 1, st_completed_at = Some 50, st_driver = 4, st_currency = ''INR'', st_gross = 20000,
     st_commission = 3000 \<rparr>"

lemma demo_settled_context: "trip_context None (st_trip demo_settled) = (Some ''IN'', Some 3, Some 7)"
  by (simp add: trip_context_def demo_settled_def country_code_of_zone_def city_node_of_def hyd_def)

theorem preview_exact_witness:
  "\<exists>out b. earnings_preview [demo_rule 1 None None 1500] (demo_rule 2 None None 1000) 0 60 [demo_settled] = Inr out
     \<and> out ''INR'' = Some b \<and> pb_trips b = 1 \<and> pb_change b = 1000"
proof -
  let ?db = "[demo_rule 1 None None 1500]" and ?draft = "demo_rule 2 None None 1000"
  have sup: "is_supported (Some ''INR'')" by code_simp
  have "cents (of_int 20000 / 100 * dval (Dec 1000 (- 2)) / 100) = 2000"
    using round_half_up_int [of 2000] by (simp add: cents_def dval_def)
  with commission_minor_value [OF _ _ sup, of 20000 "Dec 1000 (- 2)"]
  have m: "commission_minor 20000 (Dec 1000 (- 2)) (Some ''INR'') = Inr (Some 2000)" by (simp add: fits_def)
  have scope: "preview_scope ?draft 0 60 demo_settled"
    by (simp add: preview_scope_def demo_settled_def demo_rule_def truthy_id_def)
  have gov: "draft_governs ?db ?draft 60 (Some ''IN'') (Some 3, Some 7)"
    by (simp add: draft_governs_def demo_eval same_key_def)
  have run: "\<exists>out. earnings_preview ?db ?draft 0 60 [demo_settled] = Inr out"
    using m by (simp add: earnings_preview_def scope demo_settled_context gov Let_def)
      (simp add: demo_settled_def demo_rule_def)
  then obtain out where out: "earnings_preview ?db ?draft 0 60 [demo_settled] = Inr out" by blast
  have aff: "affected ?db ?draft 60 demo_settled"
    using gov by (simp add: affected_def demo_settled_context demo_rule_def)
  have k: "kept_more ?draft demo_settled = 1000"
    using m by (simp add: kept_more_def demo_settled_def demo_rule_def null_int_def)
  have "st_currency demo_settled = ''INR''" by (simp add: demo_settled_def)
  with preview_exact [OF out, of "''INR''"] scope aff k
  have "bucket_of ?draft [demo_settled] (out ''INR'')" by simp
  with out k show ?thesis by (auto simp: bucket_of_def split: option.splits)
qed

end
