(* ===== verification/PromoTax.thy ===== *)
theory PromoTax
  imports Money Zones
begin

text \<open>
  Tax on top of the fare (\<open>servers/pricing/promo_tax.py\<close>): the tax context of a zone, the split
  of a quoted total into fare, tax and fee, the amounts of a promo trip, and the split a
  settlement works from. Major amounts are decimals; the stored fare snapshots and the discount
  held on the trip are arguments (the rows of \<open>FarePricing\<close>, newest id first, and
  \<open>rider_promos.discount_minor\<close>).
\<close>

definition dec_min :: "decimal \<Rightarrow> decimal \<Rightarrow> decimal" where
  "dec_min a b = (if dec_lt b a then b else a)"

text \<open>\<open>value or '0'\<close>.\<close>

definition dec_or_zero :: "decimal option \<Rightarrow> decimal" where
  "dec_or_zero d = (case d of None \<Rightarrow> Dec 0 0 | Some x \<Rightarrow> if coef x = 0 then Dec 0 0 else x)"

definition additive_zone :: "'j service_zone \<Rightarrow> bool" where
  "additive_zone z = ((if sz_tax_mode z = [] then ''inclusive'' else sz_tax_mode z) = ''additive'')"

definition newest_card :: "rate_card list \<Rightarrow> int \<Rightarrow> rate_card option" where
  "newest_card cards zone_id =
     (case sort_key (\<lambda>c. - rc_version c) (filter (\<lambda>c. rc_zone c = zone_id \<and> rc_active c) cards) of
        [] \<Rightarrow> None | c # _ \<Rightarrow> Some c)"

definition additive_context ::
  "rate_card list \<Rightarrow> 'j service_zone list \<Rightarrow> int \<Rightarrow> 'j service_zone option \<Rightarrow> int option
     \<Rightarrow> money_error + (decimal \<times> decimal) option" where
  "additive_context cards zones now zone vt =
     (case zone of
        None \<Rightarrow> Inr None
      | Some z \<Rightarrow>
          if \<not> additive_zone z then Inr None
          else let asked = (case vt of None \<Rightarrow> None | Some v \<Rightarrow> get_active_rate_card cards zones z v now);
                   card = (case asked of Some c \<Rightarrow> Some c | None \<Rightarrow> newest_card cards (sz_id z))
               in case card of
                    None \<Rightarrow> Inr None
                  | Some c \<Rightarrow>
                      bind_res (quant (dec_or_zero (sz_per_trip_fee z)) (if sz_currency z = [] then ''USD'' else sz_currency z))
                        (\<lambda>fee. Inr (Some (dec_or_zero (Some (rc_gst_percent c)), fee))))"

text \<open>\<open>quantize(amount * percent / D(100), currency)\<close>.\<close>

definition percent_of :: "decimal \<Rightarrow> decimal \<Rightarrow> string \<Rightarrow> money_error + decimal" where
  "percent_of amount percent currency =
     (case dec_div (dec_mul amount percent) (Dec 100 0) of
        None \<Rightarrow> Inl DecimalInvalid | Some x \<Rightarrow> quant x currency)"

text \<open>The search: the first step whose fare plus its rounded tax is the remainder.\<close>

fun search_pretax ::
  "decimal \<Rightarrow> decimal \<Rightarrow> string \<Rightarrow> decimal \<Rightarrow> decimal \<Rightarrow> int list \<Rightarrow> money_error + decimal option" where
  "search_pretax remainder percent currency guess one [] = Inr None"
| "search_pretax remainder percent currency guess one (step # steps) =
     (let pretax = dec_add guess (dec_mul one (Dec step 0)) in
      if dec_lt pretax (Dec 0 0) then search_pretax remainder percent currency guess one steps
      else bind_res (percent_of pretax percent currency) (\<lambda>tax.
        if dec_eq (dec_add pretax tax) remainder then Inr (Some pretax)
        else search_pretax remainder percent currency guess one steps))"

declare search_pretax.simps [simp del]

definition one_minor :: "string \<Rightarrow> money_error + decimal" where
  "one_minor currency = bind_res (from_minor (VInt 1) (Some currency))
     (\<lambda>q. case q of None \<Rightarrow> Inl MoneyTypeError | Some x \<Rightarrow> Inr x)"

definition split_additive ::
  "decimal \<Rightarrow> decimal \<Rightarrow> decimal \<Rightarrow> string \<Rightarrow> money_error + decimal \<times> decimal \<times> decimal" where
  "split_additive charge percent fee0 currency =
     (let fee = dec_min fee0 charge;
          remainder = dec_sub charge fee
      in case dec_div percent (Dec 100 0) of
           None \<Rightarrow> Inl DecimalInvalid
         | Some rate \<Rightarrow>
             (case dec_div remainder (dec_add (Dec 1 0) rate) of
                None \<Rightarrow> Inl DecimalInvalid
              | Some exact \<Rightarrow>
                  bind_res (quant exact currency) (\<lambda>guess.
                  bind_res (one_minor currency) (\<lambda>one.
                  bind_res (search_pretax remainder percent currency guess one [0, - 1, 1, - 2, 2]) (\<lambda>hit.
                    let pretax = (case hit of Some p \<Rightarrow> p | None \<Rightarrow> guess)
                    in Inr (pretax, dec_sub remainder pretax, fee))))))"

record promo_amounts =
  pa_taxable :: decimal
  pa_tax :: decimal
  pa_tax_before :: decimal
  pa_full :: decimal
  pa_discount :: decimal
  pa_payable :: decimal
  pa_relief :: decimal

definition adjust_promo ::
  "decimal \<Rightarrow> decimal \<Rightarrow> decimal \<Rightarrow> decimal \<Rightarrow> string \<Rightarrow> decimal option \<Rightarrow> money_error + promo_amounts" where
  "adjust_promo pretax percent fee discount currency tax_before =
     bind_res (case tax_before of None \<Rightarrow> percent_of pretax percent currency | Some t \<Rightarrow> Inr t) (\<lambda>before.
       let taxable = dec_max (Dec 0 0) (dec_sub pretax discount)
       in bind_res (percent_of taxable percent currency) (\<lambda>worked.
            let tax = dec_min worked before;
                full = dec_add (dec_add pretax tax) fee;
                applied = dec_min discount full
            in Inr \<lparr> pa_taxable = taxable, pa_tax = tax, pa_tax_before = before, pa_full = full,
                 pa_discount = applied, pa_payable = dec_sub full applied, pa_relief = dec_sub before tax \<rparr>))"

definition fee_label :: "'j service_zone \<Rightarrow> string" where
  "fee_label z = (if sz_fee_label z = [] then ''Regulatory fee'' else sz_fee_label z)"

section \<open>The settlement's split\<close>

record split_parts =
  sp_pretax :: int
  sp_tax :: int
  sp_fee :: int

text \<open>\<open>snapshot\<close> is the newest fare snapshot that recorded the fare before tax, with its fee.\<close>

definition minor_of :: "decimal \<Rightarrow> string \<Rightarrow> money_error + int" where
  "minor_of d currency = bind_res (to_minor (VDec (Finite d)) (Some currency))
     (\<lambda>m. case m of None \<Rightarrow> Inl MoneyTypeError | Some n \<Rightarrow> Inr n)"

definition major_of :: "int \<Rightarrow> string \<Rightarrow> money_error + decimal" where
  "major_of m currency = bind_res (from_minor (VInt m) (Some currency))
     (\<lambda>q. case q of None \<Rightarrow> Inl MoneyTypeError | Some x \<Rightarrow> Inr x)"

definition computed_split ::
  "(decimal \<times> decimal) option \<Rightarrow> int \<Rightarrow> int \<Rightarrow> string \<Rightarrow> money_error + split_parts option" where
  "computed_split ctx discount gross currency =
     (case ctx of
        None \<Rightarrow> Inr None
      | Some (percent, zone_fee) \<Rightarrow>
          bind_res (minor_of zone_fee currency) (\<lambda>fee_minor.
            let fee = min fee_minor gross; remainder = gross - fee
            in if remainder \<le> discount
               then Inr (Some \<lparr> sp_pretax = remainder, sp_tax = 0, sp_fee = fee \<rparr>)
               else bind_res (major_of (remainder - discount) currency) (\<lambda>major.
                    bind_res (split_additive major percent (Dec 0 0) currency) (\<lambda>(taxable, tax, _).
                    bind_res (minor_of taxable currency) (\<lambda>p.
                    bind_res (minor_of tax currency) (\<lambda>t.
                      Inr (Some \<lparr> sp_pretax = p + discount, sp_tax = t, sp_fee = fee \<rparr>)))))))"

definition settlement_split ::
  "rate_card list \<Rightarrow> 'j service_zone list \<Rightarrow> int \<Rightarrow> 'j service_zone option \<Rightarrow> int option
     \<Rightarrow> (int \<times> int option) option \<Rightarrow> int \<Rightarrow> int \<Rightarrow> string \<Rightarrow> money_error + split_parts option" where
  "settlement_split cards zones now zone vt snapshot discount gross currency =
     (case zone of
        None \<Rightarrow> Inr None
      | Some z \<Rightarrow>
          if \<not> additive_zone z then Inr None
          else let stored = (case snapshot of
                      None \<Rightarrow> None
                    | Some (pretax, fee0) \<Rightarrow>
                        let fee = null_int fee0; tax = gross - pretax - fee
                        in if pretax \<ge> 0 \<and> fee \<ge> 0 \<and> tax \<ge> 0
                           then Some \<lparr> sp_pretax = pretax, sp_tax = tax, sp_fee = fee \<rparr> else None)
               in case stored of
                    Some p \<Rightarrow> Inr (Some p)
                  | None \<Rightarrow> bind_res (additive_context cards zones now zone vt)
                              (\<lambda>ctx. computed_split ctx discount gross currency))"


section \<open>Facts\<close>

lemma search_pretax_hit:
  assumes "search_pretax remainder percent currency guess one steps = Inr (Some p)"
  shows "\<exists>step \<in> set steps. p = dec_add guess (dec_mul one (Dec step 0))"
  using assms by (induction steps) (auto simp: search_pretax.simps Let_def bind_res_Inr_iff split: if_splits)

lemma one_minor_cents: "one_minor currency = Inr one \<Longrightarrow> one = Dec 1 (- 2)"
proof -
  assume "one_minor currency = Inr one"
  then obtain q where q: "from_minor (VInt 1) (Some currency) = Inr (Some q)" and "one = q"
    by (auto simp: one_minor_def bind_res_Inr_iff split: option.splits)
  moreover have "fits 1" by (simp add: fits_def)
  ultimately show ?thesis using from_minor_int by blast
qed

lemma rate_factor:
  assumes "dec_div percent (Dec 100 0) = Some rate" and "0 \<le> coef percent" and "fits (coef percent)"
  shows "1 \<le> 4 * \<bar>dval (dec_add (Dec 1 0) rate)\<bar>"
proof -
  obtain q x where pc: "percent = Dec q x" by (cases percent)
  obtain d where "dec_div (Dec q x) (Dec 100 0) = Some d" "dval d = dval (Dec q x) / 100"
    using dec_div_100 [of q x] assms(3) pc by auto
  then have v: "dval rate = of_int q * ten_pow x / 100" using assms(1) by (simp add: pc dval_ten_pow)
  have "0 \<le> of_int q * ten_pow x / 100" using assms(2) ten_pow_pos [of x] by (simp add: pc)
  then have r: "0 \<le> dval rate" by (simp only: v)
  obtain c e where rate: "rate = Dec c e" by (cases rate)
  define e' where "e' = min 0 e"
  have "dec_add (Dec 1 0) rate = dec_fix (10 ^ nat (- e') + c * 10 ^ nat (e - e')) e'"
    by (simp add: dec_add_def rate e'_def Let_def)
  moreover have "dval (Dec (10 ^ nat (- e') + c * 10 ^ nat (e - e')) e') = 1 + dval rate"
  proof -
    have "(10::rat) ^ nat (- e') = ten_pow (- e')" "(10::rat) ^ nat (e - e') = ten_pow (e - e')"
      by (simp_all add: ten_pow_def e'_def)
    then show ?thesis by (simp add: dval_ten_pow rate distrib_right mult.assoc flip: ten_pow_add)
  qed
  ultimately show ?thesis using dec_fix_bounds(2) [of "10 ^ nat (- e') + c * 10 ^ nat (e - e')" e'] r by simp
qed

lemma cents_abs: "\<bar>x\<bar> \<le> of_int n / 100 \<Longrightarrow> \<bar>cents x\<bar> \<le> n"
proof -
  assume "\<bar>x\<bar> \<le> of_int n / 100"
  then have "x \<le> of_int n / 100" "of_int (- n) / 100 \<le> x" by (simp_all add: abs_le_iff)
  then have "cents x \<le> n" "- n \<le> cents x" using cents.store_le cents.store_ge by blast+
  then show ?thesis by simp
qed

lemma split_additive_cents:
  assumes "split_additive (Dec r (- 2)) percent (Dec 0 0) currency = Inr (p, t, f)"
    and "0 \<le> r" "r < 2 ^ 63" "0 \<le> coef percent" "fits (coef percent)"
  shows "\<exists>g. p = Dec g (- 2) \<and> t = Dec (r - g) (- 2) \<and> \<bar>g\<bar> \<le> 32 * r + 2"
proof -
  have z: "dec_min (Dec 0 0) (Dec r (- 2)) = Dec 0 0"
    using assms(2) by (simp add: dec_min_def dec_lt_def dval_cents)
  have fr: "fits r" using assms(2,3) by (auto simp: fits_def)
  then have rem: "dec_sub (Dec r (- 2)) (Dec 0 0) = Dec r (- 2)"
    by (simp add: dec_sub_def dec_add_def dec_fix_exact)
  obtain rate exact guess one hit where rate: "dec_div percent (Dec 100 0) = Some rate"
    and exact: "dec_div (Dec r (- 2)) (dec_add (Dec 1 0) rate) = Some exact"
    and guess: "quant exact currency = Inr guess" and one: "one_minor currency = Inr one"
    and hit: "search_pretax (Dec r (- 2)) percent currency guess one [0, - 1, 1, - 2, 2] = Inr hit"
    and p: "(case hit of Some p \<Rightarrow> p | None \<Rightarrow> guess) = p"
    and t': "dec_sub (Dec r (- 2)) (case hit of Some p \<Rightarrow> p | None \<Rightarrow> guess) = t"
    using assms(1) unfolding split_additive_def Let_def z rem
    by (elim bind_res_elim option_res_elim, simp only: sum.inject prod.inject, elim conjE) (rule that, assumption+)
  note t = t' [unfolded p, symmetric]
  have "\<bar>dval exact\<bar> \<le> \<bar>dval exact\<bar> * (4 * \<bar>dval (dec_add (Dec 1 0) rate)\<bar>)"
    using rate_factor [OF rate assms(4,5)] by (simp add: mult_le_cancel_left1)
  also have "\<dots> \<le> 4 * (8 * \<bar>dval (Dec r (- 2))\<bar>)" using dec_div_bound [OF exact] by simp
  finally have "\<bar>dval exact\<bar> \<le> of_int (32 * r) / 100" using assms(2) by (simp add: dval_cents)
  then have g: "\<bar>cents (dval exact)\<bar> \<le> 32 * r" by (rule cents_abs)
  have gd: "guess = Dec (cents (dval exact)) (- 2)" using quant_cents [OF guess dec_div_fits [OF exact]] by simp
  have fits_near: "\<bar>k\<bar> \<le> 32 * r + 2 \<Longrightarrow> fits k \<and> fits (r - k)" for k
    using assms(2,3) by (auto simp: fits_def)
  obtain k where k: "\<bar>k\<bar> \<le> 2" "p = Dec (cents (dval exact) + k) (- 2)"
  proof (cases hit)
    case None
    then show ?thesis using that [of 0] p [symmetric] gd by simp
  next
    case (Some h)
    obtain step where "step \<in> set [0, - 1, 1, - 2, 2 :: int]" and h: "h = dec_add guess (dec_mul one (Dec step 0))"
      using search_pretax_hit [OF hit [unfolded Some]] by blast
    then have st: "\<bar>step\<bar> \<le> 2" by auto
    have "fits (1 * step)" by (rule fits_bound [of _ 2]) (use st in simp_all)
    then have "dec_mul one (Dec step 0) = Dec step (- 2)"
      using dec_mul_int_cents [of 1 step] one_minor_cents [OF one] by simp
    moreover have "fits (cents (dval exact) + step)" using fits_near [of "cents (dval exact) + step"] g st by linarith
    ultimately have "h = Dec (cents (dval exact) + step) (- 2)"
      by (simp only: h gd dec_add_cents)
    then show ?thesis using that [of step] p [symmetric] Some st by simp
  qed
  have b: "\<bar>cents (dval exact) + k\<bar> \<le> 32 * r + 2" using g k(1) by linarith
  then have "t = Dec (r - (cents (dval exact) + k)) (- 2)"
    using t k(2) dec_sub_cents [of r "cents (dval exact) + k"] fits_near [OF b] by simp
  with k(2) b show ?thesis by blast
qed

lemma minor_of_cents: "fits g \<Longrightarrow> minor_of (Dec g (- 2)) currency = Inr m \<Longrightarrow> m = g"
proof -
  assume f: "fits g" and m: "minor_of (Dec g (- 2)) currency = Inr m"
  then have "to_minor (VDec (Finite (Dec g (- 2)))) (Some currency) = Inr (Some m)"
    by (auto simp: minor_of_def bind_res_Inr_iff split: option.splits)
  from to_minor_cents [OF this] f have "m = cents (of_int g / 100)" by (simp add: as_decimal_def dval_cents)
  then show ?thesis by (simp add: cents.store_load)
qed

lemma major_of_cents: "fits m \<Longrightarrow> major_of m currency = Inr d \<Longrightarrow> d = Dec m (- 2)"
  by (auto simp: major_of_def bind_res_Inr_iff dest!: from_minor_int split: option.splits)

lemma computed_split_sum:
  assumes "computed_split ctx discount gross currency = Inr (Some parts)"
    and "case ctx of None \<Rightarrow> True | Some (percent, fee) \<Rightarrow> 0 \<le> coef percent \<and> fits (coef percent)"
    and "0 \<le> discount" and "0 \<le> sp_fee parts" and "gross < 2 ^ 63"
  shows "sp_pretax parts + sp_tax parts + sp_fee parts = gross"
proof -
  obtain percent zf fm where ctx: "ctx = Some (percent, zf)" and q: "0 \<le> coef percent" "fits (coef percent)"
    and fm: "minor_of zf currency = Inr fm"
    using assms(1,2) by (auto simp: computed_split_def bind_res_Inr_iff split: option.splits)
  define fee where "fee = min fm gross"
  define r where "r = gross - fee - discount"
  show ?thesis
  proof (cases "gross - fee \<le> discount")
    case True
    then show ?thesis using assms(1) by (auto simp: computed_split_def ctx fm Let_def fee_def)
  next
    case False
    then have r0: "0 \<le> r" by (simp add: r_def)
    obtain major taxable tax f p t where major: "major_of r currency = Inr major"
      and split: "split_additive major percent (Dec 0 0) currency = Inr (taxable, tax, f)"
      and p: "minor_of taxable currency = Inr p" and t: "minor_of tax currency = Inr t"
      and parts: "parts = \<lparr> sp_pretax = p + discount, sp_tax = t, sp_fee = fee \<rparr>"
      using False assms(1)
      by (auto simp: computed_split_def ctx fm Let_def fee_def [symmetric] r_def bind_res_Inr_iff)
    have "r < 2 ^ 63" using assms(3,4,5) parts by (simp add: r_def)
    then have "fits r" using r0 by (auto simp: fits_def)
    then have "major = Dec r (- 2)" using major major_of_cents by blast
    with split_additive_cents split r0 \<open>r < 2 ^ 63\<close> q obtain g where
      g: "taxable = Dec g (- 2)" "tax = Dec (r - g) (- 2)" "\<bar>g\<bar> \<le> 32 * r + 2" by blast
    have "fits g" "fits (r - g)" using g(3) r0 \<open>r < 2 ^ 63\<close> by (auto simp: fits_def)
    then have "p = g" "t = r - g" using p t g(1,2) minor_of_cents by blast+
    then show ?thesis by (simp add: parts r_def)
  qed
qed

text \<open>The columns the split reads: a tax percentage and a fee of no more than 28 digits, neither
  negative.\<close>

definition tax_rows_ok :: "rate_card list \<Rightarrow> 'j service_zone \<Rightarrow> bool" where
  "tax_rows_ok cards z = (list_all (\<lambda>c. 0 \<le> coef (rc_gst_percent c) \<and> fits (coef (rc_gst_percent c))) cards
     \<and> (case sz_per_trip_fee z of None \<Rightarrow> True | Some f \<Rightarrow> 0 \<le> coef f \<and> fits (coef f)))"

lemma newest_card_mem: "newest_card cards i = Some c \<Longrightarrow> c \<in> set cards"
proof -
  let ?s = "sort_key (\<lambda>c. - rc_version c) (filter (\<lambda>c. rc_zone c = i \<and> rc_active c) cards)"
  assume "newest_card cards i = Some c"
  then have "c \<in> set ?s" by (cases ?s) (simp_all add: newest_card_def)
  then show ?thesis by simp
qed

lemma additive_context_ok:
  assumes "additive_context cards zones now (Some z) vt = Inr (Some (percent, fee))" and "tax_rows_ok cards z"
  shows "0 \<le> coef percent \<and> fits (coef percent) \<and> (\<exists>m. fee = Dec m (- 2) \<and> 0 \<le> m \<and> fits m)"
proof -
  obtain c where c: "c \<in> set cards" and p: "percent = dec_or_zero (Some (rc_gst_percent c))"
    and q: "quant (dec_or_zero (sz_per_trip_fee z)) (if sz_currency z = [] then ''USD'' else sz_currency z) = Inr fee"
    using assms(1)
    by (auto simp: additive_context_def Let_def bind_res_Inr_iff
        dest: newest_card_mem get_active_rate_card_mem split: option.splits if_splits)
  have f: "0 \<le> coef (dec_or_zero (sz_per_trip_fee z))" "fits (coef (dec_or_zero (sz_per_trip_fee z)))"
    using assms(2) by (auto simp: tax_rows_ok_def dec_or_zero_def fits_def split: option.splits)
  have "0 \<le> dval (dec_or_zero (sz_per_trip_fee z))"
    using f(1) by (cases "dec_or_zero (sz_per_trip_fee z)") (simp add: dval_ten_pow ten_pow_pos less_imp_le)
  with quant_cents [OF q f(2)] cents.store_nonneg
  have "\<exists>m. fee = Dec m (- 2) \<and> 0 \<le> m \<and> fits m" by blast
  moreover have "0 \<le> coef percent" "fits (coef percent)"
    using p c assms(2) by (auto simp: tax_rows_ok_def list_all_iff dec_or_zero_def fits_def)
  ultimately show ?thesis by blast
qed

lemma settlement_split_sum:
  assumes "settlement_split cards zones now zone vt snapshot discount gross currency = Inr (Some parts)"
    and "0 \<le> discount" and "0 \<le> gross" and "gross < 2 ^ 63"
    and "case zone of None \<Rightarrow> True | Some z \<Rightarrow> tax_rows_ok cards z"
  shows "sp_pretax parts + sp_tax parts + sp_fee parts = gross \<and> 0 \<le> sp_fee parts"
proof (cases "\<exists>pretax fee0. snapshot = Some (pretax, fee0) \<and> pretax \<ge> 0 \<and> null_int fee0 \<ge> 0
    \<and> gross - pretax - null_int fee0 \<ge> 0")
  case True
  with assms(1) show ?thesis
    by (auto simp: settlement_split_def Let_def split: option.splits if_splits)
next
  case False
  then obtain z ctx where z: "zone = Some z" and ctx: "additive_context cards zones now (Some z) vt = Inr ctx"
    and run: "computed_split ctx discount gross currency = Inr (Some parts)"
    using assms(1)
    by (auto simp: settlement_split_def Let_def bind_res_Inr_iff split: option.splits if_splits)
  then obtain percent fee where c: "ctx = Some (percent, fee)"
    by (cases ctx) (auto simp: computed_split_def)
  then obtain m where ok: "0 \<le> coef percent" "fits (coef percent)" and m: "fee = Dec m (- 2)" "0 \<le> m" "fits m"
    using additive_context_ok ctx assms(5) z by (metis option.case(2))
  have "0 \<le> sp_fee parts"
  proof -
    obtain fm where fm: "minor_of fee currency = Inr fm" and sp: "sp_fee parts = min fm gross"
      using run by (auto simp: computed_split_def c bind_res_Inr_iff Let_def split: if_splits)
    have "fm = m" using minor_of_cents [OF m(3)] fm m(1) by blast
    with sp m(2) assms(3) show ?thesis by simp
  qed
  with computed_split_sum [OF run _ assms(2) _ assms(4)] ok c show ?thesis by simp
qed

text \<open>The split of an additive-tax trip loses nothing: whether it was recorded with the
  fare or worked out from the charge, fare before tax, tax and fee add up to the charge.\<close>

theorem settlement_split_exact:
  assumes "settlement_split cards zones now zone vt snapshot discount gross currency = Inr (Some parts)"
    and "0 \<le> discount" and "0 \<le> gross" and "gross < 2 ^ 63"
    and "case zone of None \<Rightarrow> True | Some z \<Rightarrow> tax_rows_ok cards z"
  shows "sp_pretax parts + sp_tax parts + sp_fee parts = gross \<and> 0 \<le> sp_fee parts"
  using assms by (rule settlement_split_sum)

definition us_zone :: "string service_zone" where
  "us_zone = \<lparr> sz_id = 5, sz_code = ''US-NYC'', sz_country = ''US'', sz_parent = None, sz_geo = None,
     sz_geojson = [], sz_priority = 0, sz_currency = ''USD'', sz_timezone = [], sz_distance_unit = ''mi'',
     sz_tax_mode = ''additive'', sz_per_trip_fee = Some (Dec 275 (- 2)), sz_fee_label = [],
     sz_active = True, sz_updated_at = 0 \<rparr>"

theorem settlement_split_exact_witness:
  "\<exists>parts. settlement_split [] [us_zone] 0 (Some us_zone) (Some 7) (Some (2000, Some 275)) 150 2453 ''USD''
       = Inr (Some parts) \<and> sp_pretax parts + sp_tax parts + sp_fee parts = 2453"
proof -
  have run: "settlement_split [] [us_zone] 0 (Some us_zone) (Some 7) (Some (2000, Some 275)) 150 2453 ''USD''
      = Inr (Some \<lparr> sp_pretax = 2000, sp_tax = 178, sp_fee = 275 \<rparr>)"
    by (simp add: settlement_split_def additive_zone_def us_zone_def null_int_def Let_def)
  have "tax_rows_ok [] us_zone" by (simp add: tax_rows_ok_def us_zone_def fits_def)
  with settlement_split_exact [OF run] run show ?thesis by simp
qed

end
