(* ===== verification/Budget.thy ===== *)
theory Budget
  imports Prelude
begin

text \<open>
  The campaign budget (\<open>servers/promotions/budget.py\<close>, the budget columns of \<open>Campaign\<close> in
  \<open>servers/promotions/models.py\<close>): reserve, settle, adjust, release, spend at once. An operation
  takes the locked row and returns the row it saves, or the exception it raises.

  A refused reservation is \<open>Refused\<close> with its code. \<open>release\<close> subtracts from
  \<open>budget_minor\<close> without looking for the null of a wrapped legacy campaign, so there it raises
  \<open>TypeError\<close>, the value \<open>NoneBudget\<close>. The alerts the code raises are not modelled. The
  lemmas show what the row's totals are against the reservations that are open.
\<close>

datatype campaign_kind = RIDER_PROMO | DRIVER_INCENTIVE | REFERRAL

datatype campaign_state = CP_DRAFT | CP_PENDING | CP_SCHEDULED | CP_LIVE | CP_PAUSED | CP_EXHAUSTED
  | CP_ENDED | CP_CANCELLED

record campaign_config =
  cc_flat :: bool
  cc_flat_minor :: "int option"
  cc_reward_minor :: "int option"
  cc_referrer_minor :: "int option"
  cc_referee_minor :: "int option"

record campaign =
  cp_kind :: campaign_kind
  cp_state :: campaign_state
  cp_budget :: "int option"
  cp_committed :: int
  cp_spent :: int
  cp_overshoot :: int
  cp_ends_at :: "int option"
  cp_config :: campaign_config

datatype budget_error = NotLive | BudgetExhausted | NoneBudget

definition int_or :: "int option \<Rightarrow> int \<Rightarrow> int" where
  "int_or v d = (case v of None \<Rightarrow> d | Some n \<Rightarrow> if n = 0 then d else n)"

definition min_viable_minor :: "campaign \<Rightarrow> int" where
  "min_viable_minor c = (let cfg = cp_config c in
     case cp_kind c of
       RIDER_PROMO \<Rightarrow> if cc_flat cfg then max 1 (int_or (cc_flat_minor cfg) 1) else 1
     | DRIVER_INCENTIVE \<Rightarrow> max 1 (int_or (cc_reward_minor cfg) 1)
     | REFERRAL \<Rightarrow> max 1 (int_or (cc_referrer_minor cfg) 0 + int_or (cc_referee_minor cfg) 0))"

definition admits :: "campaign \<Rightarrow> int \<Rightarrow> bool" where
  "admits c amount =
     (if cp_state c \<noteq> CP_LIVE then False
      else case cp_budget c of None \<Rightarrow> True | Some b \<Rightarrow> cp_committed c + cp_spent c + amount \<le> b)"

definition after_change :: "campaign \<Rightarrow> campaign" where
  "after_change c =
     (case cp_budget c of
        None \<Rightarrow> c
      | Some b \<Rightarrow>
          let used = cp_committed c + cp_spent c;
              c1 = (if used > b \<and> used - b > cp_overshoot c then c\<lparr>cp_overshoot := used - b\<rparr> else c)
          in if cp_state c1 = CP_LIVE \<and> b - used < min_viable_minor c1
             then c1\<lparr>cp_state := CP_EXHAUSTED\<rparr> else c1)"

definition reserve :: "int \<Rightarrow> campaign \<Rightarrow> budget_error + campaign" where
  "reserve amount c =
     bind_res (refuse_if (cp_state c \<noteq> CP_LIVE) NotLive) (\<lambda>_.
     bind_res (refuse_if (\<not> admits c amount) BudgetExhausted) (\<lambda>_.
       Inr (after_change (c\<lparr>cp_committed := cp_committed c + amount\<rparr>))))"

definition settle_budget :: "int \<Rightarrow> int option \<Rightarrow> campaign \<Rightarrow> campaign" where
  "settle_budget amount actual c =
     after_change (c\<lparr>cp_committed := max 0 (cp_committed c - amount),
       cp_spent := cp_spent c + (case actual of None \<Rightarrow> amount | Some a \<Rightarrow> a)\<rparr>)"

definition adjust_reservation :: "int \<Rightarrow> int \<Rightarrow> campaign \<Rightarrow> campaign" where
  "adjust_reservation old new c =
     after_change (c\<lparr>cp_committed := max 0 (cp_committed c - old + new)\<rparr>)"

definition release :: "int \<Rightarrow> int \<Rightarrow> campaign \<Rightarrow> budget_error + campaign" where
  "release now amount c0 =
     (let c = c0\<lparr>cp_committed := max 0 (cp_committed c0 - amount)\<rparr> in
      case cp_budget c of
        None \<Rightarrow> Inl NoneBudget
      | Some b \<Rightarrow>
          let remaining = b - cp_committed c - cp_spent c
          in Inr (if cp_state c = CP_EXHAUSTED \<and> remaining \<ge> min_viable_minor c
                    \<and> (case cp_ends_at c of None \<Rightarrow> True | Some e \<Rightarrow> e > now)
                  then c\<lparr>cp_state := CP_LIVE\<rparr> else c))"

definition spend_now :: "int \<Rightarrow> campaign \<Rightarrow> budget_error + campaign" where
  "spend_now amount c =
     bind_res (refuse_if (cp_state c \<noteq> CP_LIVE) NotLive) (\<lambda>_.
     bind_res (refuse_if (\<not> admits c amount) BudgetExhausted) (\<lambda>_.
       Inr (after_change (c\<lparr>cp_spent := cp_spent c + amount\<rparr>))))"


section \<open>The row against its open reservations\<close>

text \<open>
  The reservations are the redemptions that hold one, by id. A reservation is settled or released
  once: the caller moves the redemption's state in the same transaction. \<open>Adjust\<close> re-works a
  held discount (an operator ended the trip on a capped fare).
\<close>

record promo_books =
  pb_campaign :: campaign
  pb_open :: "(nat \<times> nat) list"

datatype budget_event =
    Reserve nat nat
  | SettleHeld nat
  | SettleAt nat nat
  | Adjust nat nat
  | Release nat int
  | SpendNow nat
  | SetState campaign_state

definition held_amount :: "nat \<Rightarrow> (nat \<times> nat) list \<Rightarrow> nat" where
  "held_amount i xs = (case map_of xs i of None \<Rightarrow> 0 | Some a \<Rightarrow> a)"

definition drop_held :: "nat \<Rightarrow> (nat \<times> nat) list \<Rightarrow> (nat \<times> nat) list" where
  "drop_held i xs = filter (\<lambda>p. fst p \<noteq> i) xs"

datatype step_error = BudgetRefused budget_error | NoSuchReservation

definition held :: "nat \<Rightarrow> promo_books \<Rightarrow> bool" where
  "held i s = (i \<in> fst ` set (pb_open s))"

definition lift_budget :: "budget_error + 'a \<Rightarrow> step_error + 'a" where
  "lift_budget r = (case r of Inl e \<Rightarrow> Inl (BudgetRefused e) | Inr x \<Rightarrow> Inr x)"

fun budget_step :: "promo_books \<Rightarrow> budget_event \<Rightarrow> step_error + promo_books" where
  "budget_step s (Reserve i a) = (if held i s then Inl NoSuchReservation
     else bind_res (lift_budget (reserve (int a) (pb_campaign s)))
       (\<lambda>c. Inr (s\<lparr>pb_campaign := c, pb_open := (i, a) # pb_open s\<rparr>)))"
| "budget_step s (SettleHeld i) = (if \<not> held i s then Inl NoSuchReservation
     else Inr (s\<lparr>pb_campaign := settle_budget (int (held_amount i (pb_open s))) None (pb_campaign s),
                pb_open := drop_held i (pb_open s)\<rparr>))"
| "budget_step s (SettleAt i actual) = (if \<not> held i s then Inl NoSuchReservation
     else Inr (s\<lparr>pb_campaign := settle_budget (int (held_amount i (pb_open s))) (Some (int actual)) (pb_campaign s),
                pb_open := drop_held i (pb_open s)\<rparr>))"
| "budget_step s (Adjust i new) = (if \<not> held i s then Inl NoSuchReservation
     else Inr (s\<lparr>pb_campaign := adjust_reservation (int (held_amount i (pb_open s))) (int new) (pb_campaign s),
                pb_open := (i, new) # drop_held i (pb_open s)\<rparr>))"
| "budget_step s (Release i now) = (if \<not> held i s then Inl NoSuchReservation
     else bind_res (lift_budget (release now (int (held_amount i (pb_open s))) (pb_campaign s)))
       (\<lambda>c. Inr (s\<lparr>pb_campaign := c, pb_open := drop_held i (pb_open s)\<rparr>)))"
| "budget_step s (SpendNow a) = bind_res (lift_budget (spend_now (int a) (pb_campaign s)))
     (\<lambda>c. Inr (s\<lparr>pb_campaign := c\<rparr>))"
| "budget_step s (SetState st) = Inr (s\<lparr>pb_campaign := (pb_campaign s)\<lparr>cp_state := st\<rparr>\<rparr>)"

definition open_total :: "promo_books \<Rightarrow> int" where
  "open_total s = sum_by (\<lambda>p. int (snd p)) (pb_open s)"

definition budget_inv :: "promo_books \<Rightarrow> bool" where
  "budget_inv s = (distinct (map fst (pb_open s))
     \<and> cp_committed (pb_campaign s) = open_total s
     \<and> 0 \<le> cp_overshoot (pb_campaign s)
     \<and> (case cp_budget (pb_campaign s) of None \<Rightarrow> True
        | Some b \<Rightarrow> cp_committed (pb_campaign s) + cp_spent (pb_campaign s) \<le> b + cp_overshoot (pb_campaign s)))"

lemma lift_budget_Inr [simp]: "lift_budget r = Inr x \<longleftrightarrow> r = Inr x"
  by (cases r) (simp_all add: lift_budget_def)

lemma drop_total:
  "distinct (map fst xs) \<Longrightarrow> i \<in> fst ` set xs \<Longrightarrow>
     sum_by (\<lambda>p. int (snd p)) (drop_held i xs) = sum_by (\<lambda>p. int (snd p)) xs - int (held_amount i xs)"
proof (induction xs)
  case Nil
  then show ?case by simp
next
  case (Cons x xs)
  obtain j a where x: "x = (j, a)" by fastforce
  show ?case
  proof (cases "j = i")
    case True
    with Cons.prems(1) x have "i \<notin> fst ` set xs" by auto
    then have "filter (\<lambda>p. fst p \<noteq> i) xs = xs" by (intro filter_True) force
    then show ?thesis using True by (simp add: x drop_held_def held_amount_def)
  next
    case False
    with Cons x show ?thesis by (simp add: drop_held_def held_amount_def)
  qed
qed

lemma held_le_total: "i \<in> fst ` set xs \<Longrightarrow> int (held_amount i xs) \<le> sum_by (\<lambda>p. int (snd p)) xs"
proof (induction xs)
  case (Cons x xs)
  obtain j a where x: "x = (j, a)" by fastforce
  have "0 \<le> sum_by (\<lambda>p. int (snd p)) xs" by (rule sum_by_nonneg) simp
  moreover have "i \<noteq> j \<Longrightarrow> i \<in> fst ` set xs" using Cons.prems x by auto
  ultimately show ?case using Cons.IH by (cases "i = j") (simp_all add: x held_amount_def)
qed simp

lemma drop_distinct: "distinct (map fst xs) \<Longrightarrow> distinct (map fst (drop_held i xs))"
  by (simp add: drop_held_def distinct_map_filter)

lemma drop_gone [simp]: "i \<notin> fst ` set (drop_held i xs)"
  by (auto simp: drop_held_def)

lemma after_change_totals [simp]:
  "cp_committed (after_change c) = cp_committed c" "cp_spent (after_change c) = cp_spent c"
  "cp_budget (after_change c) = cp_budget c"
  by (simp_all add: after_change_def Let_def split: option.splits)

lemma after_change_overshoot:
  "0 \<le> cp_overshoot c \<Longrightarrow> cp_overshoot c \<le> cp_overshoot (after_change c)
     \<and> (case cp_budget c of None \<Rightarrow> True
        | Some b \<Rightarrow> cp_committed c + cp_spent c \<le> b + cp_overshoot (after_change c))"
  by (auto simp: after_change_def Let_def split: option.splits)

lemma budget_invI:
  "distinct (map fst os) \<Longrightarrow> cp_committed c = sum_by (\<lambda>p. int (snd p)) os \<Longrightarrow> 0 \<le> cp_overshoot c
   \<Longrightarrow> budget_inv \<lparr> pb_campaign = after_change c, pb_open = os \<rparr>"
  using after_change_overshoot [of c] by (auto simp: budget_inv_def open_total_def split: option.splits)

lemma committed_drop:
  "budget_inv s \<Longrightarrow> held i s \<Longrightarrow>
     max 0 (cp_committed (pb_campaign s) - int (held_amount i (pb_open s)))
       = sum_by (\<lambda>p. int (snd p)) (drop_held i (pb_open s))"
  using drop_total [of "pb_open s" i] held_le_total [of i "pb_open s"]
  by (simp add: budget_inv_def open_total_def held_def)

lemma with_campaign: "s\<lparr>pb_campaign := c, pb_open := os\<rparr> = \<lparr> pb_campaign = c, pb_open = os \<rparr>"
  "s\<lparr>pb_campaign := c\<rparr> = \<lparr> pb_campaign = c, pb_open = pb_open s \<rparr>"
  by (cases s; simp)+

lemma release_fields:
  "release now a c = Inr c' \<Longrightarrow> cp_committed c' = max 0 (cp_committed c - a) \<and> cp_spent c' = cp_spent c
     \<and> cp_budget c' = cp_budget c \<and> cp_budget c \<noteq> None \<and> cp_overshoot c' = cp_overshoot c"
  by (auto simp: release_def Let_def split: option.splits if_splits)

lemma budget_step_inv:
  assumes inv: "budget_inv s" and step: "budget_step s e = Inr s'"
  shows "budget_inv s'"
proof (cases e)
  case (Reserve i a)
  with step have new: "i \<notin> fst ` set (pb_open s)"
    and s': "s' = \<lparr> pb_campaign = after_change ((pb_campaign s)\<lparr>cp_committed := cp_committed (pb_campaign s) + int a\<rparr>),
      pb_open = (i, a) # pb_open s \<rparr>"
    by (auto simp: held_def bind_res_Inr_iff reserve_def with_campaign split: if_splits)
  show ?thesis unfolding s' by (rule budget_invI) (use inv new in \<open>auto simp: budget_inv_def open_total_def\<close>)
next
  case (SettleHeld i)
  with step have h: "held i s" and s': "s' = \<lparr> pb_campaign = settle_budget (int (held_amount i (pb_open s))) None (pb_campaign s),
      pb_open = drop_held i (pb_open s) \<rparr>" by (auto simp: with_campaign split: if_splits)
  show ?thesis unfolding s' settle_budget_def
    by (rule budget_invI) (use inv committed_drop [OF inv h] drop_distinct in \<open>auto simp: budget_inv_def\<close>)
next
  case (SettleAt i x)
  with step have h: "held i s" and s': "s' = \<lparr> pb_campaign = settle_budget (int (held_amount i (pb_open s))) (Some (int x)) (pb_campaign s),
      pb_open = drop_held i (pb_open s) \<rparr>" by (auto simp: with_campaign split: if_splits)
  show ?thesis unfolding s' settle_budget_def
    by (rule budget_invI) (use inv committed_drop [OF inv h] drop_distinct in \<open>auto simp: budget_inv_def\<close>)
next
  case (Adjust i n)
  with step have h: "held i s" and s': "s' = \<lparr> pb_campaign = adjust_reservation (int (held_amount i (pb_open s))) (int n) (pb_campaign s),
      pb_open = (i, n) # drop_held i (pb_open s) \<rparr>" by (auto simp: with_campaign split: if_splits)
  have "0 \<le> sum_by (\<lambda>p. int (snd p)) (drop_held i (pb_open s))" by (rule sum_by_nonneg) simp
  then have c: "max 0 (cp_committed (pb_campaign s) - int (held_amount i (pb_open s)) + int n)
      = sum_by (\<lambda>p. int (snd p)) ((i, n) # drop_held i (pb_open s))"
    using committed_drop [OF inv h] drop_total [of "pb_open s" i] inv h
    by (simp add: budget_inv_def open_total_def held_def)
  show ?thesis unfolding s' adjust_reservation_def
    by (rule budget_invI) (use inv c drop_distinct drop_gone in \<open>auto simp: budget_inv_def\<close>)
next
  case (Release i now)
  with step have h: "held i s"
    and r: "release now (int (held_amount i (pb_open s))) (pb_campaign s) = Inr (pb_campaign s')"
    and os: "pb_open s' = drop_held i (pb_open s)"
    by (auto simp: bind_res_Inr_iff split: if_splits)
  note f = release_fields [OF r]
  then obtain b where b: "cp_budget (pb_campaign s) = Some b" by auto
  have "max 0 (cp_committed (pb_campaign s) - int (held_amount i (pb_open s))) \<le> cp_committed (pb_campaign s)"
    using inv sum_by_nonneg [of "pb_open s" "\<lambda>p. int (snd p)"] by (auto simp: budget_inv_def open_total_def)
  then show ?thesis
    using f inv b os committed_drop [OF inv h] drop_distinct by (auto simp: budget_inv_def open_total_def)
next
  case (SpendNow a)
  with step have s': "s' = \<lparr> pb_campaign = after_change ((pb_campaign s)\<lparr>cp_spent := cp_spent (pb_campaign s) + int a\<rparr>),
      pb_open = pb_open s \<rparr>"
    by (auto simp: bind_res_Inr_iff spend_now_def with_campaign)
  show ?thesis unfolding s' by (rule budget_invI) (use inv in \<open>auto simp: budget_inv_def open_total_def\<close>)
next
  case (SetState st)
  with step inv show ?thesis by (auto simp: budget_inv_def open_total_def split: option.splits)
qed

interpretation budget: guarded_system budget_step budget_inv
  by unfold_locales (rule budget_step_inv)

text \<open>Without a re-worked amount: reserve, settle, release and spend as booked.\<close>

definition booked_step :: "promo_books \<Rightarrow> budget_event \<Rightarrow> step_error + promo_books" where
  "booked_step s e = (case e of SettleAt _ _ \<Rightarrow> Inl NoSuchReservation | Adjust _ _ \<Rightarrow> Inl NoSuchReservation
     | _ \<Rightarrow> budget_step s e)"

definition capped_inv :: "promo_books \<Rightarrow> bool" where
  "capped_inv s = (budget_inv s \<and> (case cp_budget (pb_campaign s) of None \<Rightarrow> True
     | Some b \<Rightarrow> cp_committed (pb_campaign s) + cp_spent (pb_campaign s) \<le> b))"

lemma booked_step_capped:
  assumes inv: "capped_inv s" and step: "booked_step s e = Inr s'"
  shows "capped_inv s'"
proof -
  have b: "budget_inv s" using inv by (simp add: capped_inv_def)
  have st: "budget_step s e = Inr s'" using step by (auto simp: booked_step_def split: budget_event.splits)
  have d: "held i s \<Longrightarrow> max 0 (cp_committed (pb_campaign s) - int (held_amount i (pb_open s)))
      = cp_committed (pb_campaign s) - int (held_amount i (pb_open s))" for i
    using b held_le_total [of i "pb_open s"] by (simp add: budget_inv_def open_total_def held_def)
  have "case cp_budget (pb_campaign s') of None \<Rightarrow> True
      | Some c \<Rightarrow> cp_committed (pb_campaign s') + cp_spent (pb_campaign s') \<le> c"
    using step st inv d
    by (cases e) (auto simp: booked_step_def bind_res_Inr_iff reserve_def spend_now_def admits_def settle_budget_def
        capped_inv_def Let_def dest!: release_fields split: option.splits if_splits)
  with budget_step_inv [OF b st] show ?thesis by (simp add: capped_inv_def)
qed

interpretation booked: guarded_system booked_step capped_inv
  by unfold_locales (rule booked_step_capped)


section \<open>The properties\<close>

definition fresh_books :: "campaign \<Rightarrow> promo_books" where
  "fresh_books c = \<lparr> pb_campaign = c\<lparr>cp_committed := 0, cp_spent := 0, cp_overshoot := 0\<rparr>, pb_open = [] \<rparr>"

text \<open>Claim C24. The committed column is always the sum of the reservations that are open, and what
  was spent or promised beyond the budget is never more than the recorded overshoot, whatever
  history of reservations, settlements, re-worked discounts, releases, rewards and state changes.\<close>

theorem budget_accounts_exact:
  assumes "0 \<le> (case cp_budget c of None \<Rightarrow> 0 | Some b \<Rightarrow> b)"
  shows "(let s = run_events budget_step (fresh_books c) es in
     cp_committed (pb_campaign s) = open_total s
     \<and> (case cp_budget (pb_campaign s) of None \<Rightarrow> True
        | Some b \<Rightarrow> cp_committed (pb_campaign s) + cp_spent (pb_campaign s) \<le> b + cp_overshoot (pb_campaign s)))"
proof -
  have "budget_inv (fresh_books c)"
    using assms by (auto simp: budget_inv_def fresh_books_def open_total_def split: option.splits)
  from budget.run_inv [OF this, of es] show ?thesis by (simp add: budget_inv_def Let_def)
qed

text \<open>Claim C11. The budget is a hard cap: as long as no trip is honoured at a different amount than it
  was booked at, spend and reservations together never pass it.\<close>

theorem budget_hard_cap:
  assumes "0 \<le> b" and "cp_budget c = Some b"
  shows "(let s = run_events booked_step (fresh_books c) es in
     \<forall>cap. cp_budget (pb_campaign s) = Some cap \<longrightarrow> cp_committed (pb_campaign s) + cp_spent (pb_campaign s) \<le> cap)"
proof -
  have "capped_inv (fresh_books c)"
    using assms by (auto simp: capped_inv_def budget_inv_def fresh_books_def open_total_def)
  from booked.run_inv [OF this, of es] show ?thesis by (auto simp: capped_inv_def Let_def)
qed

definition demo_campaign :: "int option \<Rightarrow> campaign" where
  "demo_campaign b = \<lparr> cp_kind = RIDER_PROMO, cp_state = CP_LIVE, cp_budget = b, cp_committed = 0,
     cp_spent = 0, cp_overshoot = 0, cp_ends_at = None,
     cp_config = \<lparr> cc_flat = True, cc_flat_minor = Some 5000, cc_reward_minor = None,
       cc_referrer_minor = None, cc_referee_minor = None \<rparr> \<rparr>"

lemmas budget_eval = fresh_books_def demo_campaign_def held_def lift_budget_def reserve_def admits_def
  after_change_def min_viable_minor_def int_or_def adjust_reservation_def held_amount_def drop_held_def
  settle_budget_def release_def open_total_def booked_step_def

theorem budget_accounts_exact_witness:
  "let s = run_events budget_step (fresh_books (demo_campaign (Some 12000)))
       [Reserve 1 5000, Reserve 2 5000, Adjust 1 9000, SettleHeld 2]
   in cp_overshoot (pb_campaign s) = 2000 \<and> cp_committed (pb_campaign s) = open_total s"
proof -
  have "0 \<le> (case cp_budget (demo_campaign (Some 12000)) of None \<Rightarrow> 0 | Some b \<Rightarrow> b)" by (simp add: demo_campaign_def)
  from budget_accounts_exact [OF this, of "[Reserve 1 5000, Reserve 2 5000, Adjust 1 9000, SettleHeld 2]"]
  have "let s = run_events budget_step (fresh_books (demo_campaign (Some 12000)))
       [Reserve 1 5000, Reserve 2 5000, Adjust 1 9000, SettleHeld 2] in cp_committed (pb_campaign s) = open_total s"
    unfolding Let_def by blast
  moreover have "cp_overshoot (pb_campaign (run_events budget_step (fresh_books (demo_campaign (Some 12000)))
       [Reserve 1 5000, Reserve 2 5000, Adjust 1 9000, SettleHeld 2])) = 2000"
    by (simp add: budget_eval Let_def)
  ultimately show ?thesis by (simp add: Let_def)
qed

theorem budget_hard_cap_witness:
  "let s = run_events booked_step (fresh_books (demo_campaign (Some 12000))) [Reserve 1 5000, Reserve 2 5000, Reserve 3 5000]
   in cp_state (pb_campaign s) = CP_EXHAUSTED \<and> cp_committed (pb_campaign s) + cp_spent (pb_campaign s) \<le> 12000"
proof -
  let ?s = "run_events booked_step (fresh_books (demo_campaign (Some 12000))) [Reserve 1 5000, Reserve 2 5000, Reserve 3 5000]"
  have e: "cp_state (pb_campaign ?s) = CP_EXHAUSTED" "cp_budget (pb_campaign ?s) = Some 12000"
    by (simp_all add: budget_eval Let_def)
  have "cp_budget (demo_campaign (Some 12000)) = Some 12000" by (simp add: demo_campaign_def)
  from budget_hard_cap [OF _ this, of "[Reserve 1 5000, Reserve 2 5000, Reserve 3 5000]"] e
  show ?thesis by (simp add: Let_def del: run_events.simps)
qed

text \<open>A wrapped legacy campaign has no budget: every reservation on it is admitted while it
  is live, it can be settled, but it can never be released, since \<open>release\<close> raises on the null
  budget in every state.\<close>

theorem legacy_reservation_never_released:
  assumes "cp_budget c = None" and "cp_state c = CP_LIVE"
  shows "\<exists>c'. reserve amount c = Inr c' \<and> cp_committed c' = cp_committed c + amount
     \<and> (\<forall>now st. release now amount (c'\<lparr>cp_state := st\<rparr>) = Inl NoneBudget)
     \<and> cp_spent (settle_budget amount None c') = cp_spent c + amount"
  using assms by (auto simp: reserve_def admits_def after_change_def release_def settle_budget_def Let_def)

theorem legacy_reservation_never_released_witness:
  "\<exists>c'. reserve 700 (demo_campaign None) = Inr c' \<and> release 9 700 c' = Inl NoneBudget"
proof -
  have "cp_budget (demo_campaign None) = None" "cp_state (demo_campaign None) = CP_LIVE"
    by (simp_all add: demo_campaign_def)
  from legacy_reservation_never_released [OF this, of 700] obtain c' where
    r: "reserve 700 (demo_campaign None) = Inr c'"
    and f: "\<And>st. release 9 700 (c'\<lparr>cp_state := st\<rparr>) = Inl NoneBudget" by blast
  have "c'\<lparr>cp_state := cp_state c'\<rparr> = c'" by simp
  with f [of "cp_state c'"] r show ?thesis by simp
qed

end
