(* ===== verification/Wallet.thy ===== *)
theory Wallet
  imports Prelude
begin

text \<open>
  The driver's settlement balance and its ledger (\<open>Wallet\<close>, \<open>get_wallet\<close> and
  \<open>WalletTransaction\<close> in \<open>servers/rider/models.py\<close>, the rows a balance counts in
  \<open>servers/payments/ledger.py\<close>). \<open>bk_wallets\<close> holds the driver wallets by user id, \<open>bk_rows\<close>
  the driver-side ledger rows, newest first. Idempotency keys and reference ids, which the code
  spells as strings (\<open>TRIP_7_EARNING\<close>), are constructors with their ids, so two of them are
  equal when the strings are.

  \<open>posting_ledger\<close> is the contract every mutator of a balance is written against: a row whose
  key is taken is refused, and an accepted row moves its owner's balance by its signed amount.
\<close>

datatype txn_type = Credit | Debit

datatype txn_status = TxnPending | TxnCompleted | TxnFailed

datatype purpose = TripEarnings | TripCommission | TaxCollected | FeeCollected | FareCollectedByPlatform
  | PromoDiscount | PlatformFundedEnd | TripRefundReversal | WithdrawalDebit | RefundFailedWithdrawal
  | RefundRejectedWithdrawal | RefundReversedWithdrawal | BalanceAdjustment | RewardRecovery
  | IncentiveReward | ReferralReward

datatype reference = RefTrip int | RefWithdrawal int | RefFailed int nat | RefRejected int | RefReversed int
  | RefAdjustment int | RefRecovery int | RefIncentive int | RefReferral int

datatype ledger_key = KeyEarning int | KeyTax int | KeyFee int | KeyPromo int int | KeyCollected int
  | KeyReversal int | KeyPlatformFunded int | KeyWithdrawal int string | KeyRetry int nat
  | KeyFailed int nat | KeyRejected int | KeyReversed int | KeyAdjustment int | KeyDeduction int int
  | KeyRecoveryHold int int | KeyIncentive int int | KeyReferral int bool

record wallet =
  wl_balance :: int
  wl_currency :: string

record ledger_row =
  lr_user :: int
  lr_currency :: string
  lr_amount :: int
  lr_type :: txn_type
  lr_status :: txn_status
  lr_purpose :: purpose
  lr_ref :: reference
  lr_key :: ledger_key

record books =
  bk_wallets :: "int \<rightharpoonup> wallet"
  bk_rows :: "ledger_row list"

definition get_wallet :: "int \<Rightarrow> 'a books_scheme \<Rightarrow> wallet \<times> 'a books_scheme" where
  "get_wallet u s = (case bk_wallets s u of
      Some w \<Rightarrow> (w, s)
    | None \<Rightarrow> let w = \<lparr> wl_balance = 0, wl_currency = ''INR'' \<rparr>
              in (w, s\<lparr>bk_wallets := (bk_wallets s)(u \<mapsto> w)\<rparr>))"

text \<open>\<open>objects.create\<close> of a row: \<open>None\<close> is the \<open>IntegrityError\<close> of a key that is taken.\<close>

definition insert_row :: "ledger_row \<Rightarrow> 'a books_scheme \<Rightarrow> 'a books_scheme option" where
  "insert_row r s = (if lr_key r \<in> lr_key ` set (bk_rows s) then None
     else Some (s\<lparr>bk_rows := r # bk_rows s\<rparr>))"

definition move_balance :: "int \<Rightarrow> int \<Rightarrow> 'a books_scheme \<Rightarrow> 'a books_scheme" where
  "move_balance u d s =
     s\<lparr>bk_wallets := (bk_wallets s)(u := map_option (\<lambda>w. w\<lparr>wl_balance := wl_balance w + d\<rparr>) (bk_wallets s u))\<rparr>"

text \<open>\<open>SIGNED\<close> and \<open>counted\<close> of \<open>ledger.py\<close>.\<close>

definition signed :: "ledger_row \<Rightarrow> int" where
  "signed r = (case lr_type r of Credit \<Rightarrow> lr_amount r | Debit \<Rightarrow> - lr_amount r)"

definition counted :: "ledger_row \<Rightarrow> bool" where
  "counted r = (lr_status r = TxnCompleted \<or> lr_purpose r = WithdrawalDebit \<and> lr_status r = TxnPending)"

definition weight :: "ledger_row \<Rightarrow> int" where
  "weight r = (if counted r then signed r else 0)"

definition ledger_total :: "'a books_scheme \<Rightarrow> int \<Rightarrow> int" where
  "ledger_total s u = sum_by weight (filter (\<lambda>r. lr_user r = u) (bk_rows s))"

definition balance :: "'a books_scheme \<Rightarrow> int \<Rightarrow> int" where
  "balance s u = (case bk_wallets s u of None \<Rightarrow> 0 | Some w \<Rightarrow> wl_balance w)"

text \<open>Every balance is the signed sum of its owner's counted rows, and no key is used twice.\<close>

definition books_ok :: "'a books_scheme \<Rightarrow> bool" where
  "books_ok s = (distinct (map lr_key (bk_rows s)) \<and> (\<forall>u. balance s u = ledger_total s u))"

definition has_wallet :: "int \<Rightarrow> 'a books_scheme \<Rightarrow> bool" where
  "has_wallet u s = (bk_wallets s u \<noteq> None)"


section \<open>Facts\<close>

lemma get_wallet_simps:
  "has_wallet u (snd (get_wallet u s))" "bk_rows (snd (get_wallet u s)) = bk_rows s"
  "balance (snd (get_wallet u s)) v = balance s v" "has_wallet v s \<Longrightarrow> has_wallet v (snd (get_wallet u s))"
  by (auto simp: get_wallet_def has_wallet_def balance_def Let_def split: option.splits)

lemma get_wallet_ok [inv_intros]: "books_ok s \<Longrightarrow> books_ok (snd (get_wallet u s))"
  by (simp add: books_ok_def ledger_total_def get_wallet_simps)

lemma get_wallet_found: "bk_wallets s u = Some w \<Longrightarrow> get_wallet u s = (w, s)"
  by (simp add: get_wallet_def)

lemma get_wallet_balance: "wl_balance (fst (get_wallet u s)) = balance s u"
  by (simp add: get_wallet_def balance_def Let_def split: option.splits)

lemma insert_row_Some:
  "insert_row r s = Some s' \<longleftrightarrow> lr_key r \<notin> lr_key ` set (bk_rows s) \<and> s' = s\<lparr>bk_rows := r # bk_rows s\<rparr>"
  by (auto simp: insert_row_def)

lemma insert_row_None: "insert_row r s = None \<longleftrightarrow> lr_key r \<in> lr_key ` set (bk_rows s)"
  by (auto simp: insert_row_def)

lemma balance_insert [simp]: "balance (s\<lparr>bk_rows := rs\<rparr>) u = balance s u"
  by (simp add: balance_def)

lemma balance_move: "has_wallet u s \<Longrightarrow> balance (move_balance u d s) v = balance s v + (if v = u then d else 0)"
  by (auto simp: balance_def move_balance_def has_wallet_def)

lemma move_simps [simp]:
  "bk_rows (move_balance u d s) = bk_rows s" "has_wallet v (move_balance u d s) = has_wallet v s"
  "has_wallet v (s\<lparr>bk_rows := rs\<rparr>) = has_wallet v s"
  by (auto simp: move_balance_def has_wallet_def)

lemma ledger_total_insert:
  "ledger_total (s\<lparr>bk_rows := r # bk_rows s\<rparr>) u = ledger_total s u + (if lr_user r = u then weight r else 0)"
  by (simp add: ledger_total_def)

lemma ledger_total_move [simp]: "ledger_total (move_balance u d s) v = ledger_total s v"
  by (simp add: ledger_total_def)

text \<open>What the body of an operation does between its locks: rows of one user inserted, the
  balance moved by their total.\<close>

fun insert_rows :: "ledger_row list \<Rightarrow> 'a books_scheme \<Rightarrow> 'a books_scheme option" where
  "insert_rows [] s = Some s"
| "insert_rows (r # rs) s = (case insert_row r s of None \<Rightarrow> None | Some s' \<Rightarrow> insert_rows rs s')"

lemma insert_rows_balance: "insert_rows rs s = Some s' \<Longrightarrow> balance s' u = balance s u \<and> has_wallet u s' = has_wallet u s"
  by (induction rs arbitrary: s) (auto simp: insert_row_Some split: option.splits)

lemma insert_rows_keys:
  "insert_rows rs s = Some s' \<Longrightarrow> distinct (map lr_key (bk_rows s)) \<Longrightarrow> distinct (map lr_key (bk_rows s'))"
  by (induction rs arbitrary: s) (auto simp: insert_row_Some split: option.splits)

lemma insert_rows_total:
  "insert_rows rs s = Some s' \<Longrightarrow>
     ledger_total s' u = ledger_total s u + sum_by weight (filter (\<lambda>r. lr_user r = u) rs)"
  by (induction rs arbitrary: s) (auto simp: insert_row_Some ledger_total_insert split: option.splits)

lemma insert_rows_rows: "insert_rows rs s = Some s' \<Longrightarrow> bk_rows s' = rev rs @ bk_rows s"
  by (induction rs arbitrary: s) (auto simp: insert_row_Some split: option.splits)

lemma post_rows_ok [inv_intros]:
  assumes "books_ok s" and "has_wallet u s" and "insert_rows rs s = Some s'"
    and "\<forall>r \<in> set rs. lr_user r = u" and "d = sum_by weight rs"
  shows "books_ok (move_balance u d s')"
proof -
  have "filter (\<lambda>r. lr_user r = v) rs = (if v = u then rs else [])" for v
    using assms(4) by (induction rs) auto
  then show ?thesis
    using assms insert_rows_keys [OF assms(3)] insert_rows_total [OF assms(3)] insert_rows_balance [OF assms(3)]
    by (auto simp: books_ok_def balance_move)
qed

text \<open>The order the code takes does not matter: the balance may move first.\<close>

lemma insert_after_move: "insert_row r (move_balance u d s) = map_option (move_balance u d) (insert_row r s)"
  by (simp add: insert_row_def move_balance_def)


section \<open>The contract of a posting\<close>

definition post_row :: "ledger_row \<Rightarrow> 'a books_scheme \<Rightarrow> 'a books_scheme option" where
  "post_row r s = map_option (move_balance (lr_user r) (weight r)) (insert_row r (snd (get_wallet (lr_user r) s)))"

locale posting_ledger =
  fixes post :: "'r \<Rightarrow> 's \<Rightarrow> 's option"
    and key_of :: "'r \<Rightarrow> 'k" and keys :: "'s \<Rightarrow> 'k set"
    and funds :: "'s \<Rightarrow> 'u \<Rightarrow> int" and owner :: "'r \<Rightarrow> 'u" and amount :: "'r \<Rightarrow> int"
  assumes post_None: "post r s = None \<longleftrightarrow> key_of r \<in> keys s"
    and post_keys: "post r s = Some s' \<Longrightarrow> keys s' = insert (key_of r) (keys s)"
    and post_funds: "post r s = Some s' \<Longrightarrow> funds s' u = funds s u + (if owner r = u then amount r else 0)"
begin

text \<open>A delivery that may be repeated: a duplicate is suppressed.\<close>

definition deliver :: "'r \<Rightarrow> 's \<Rightarrow> 's" where
  "deliver r s = (case post r s of None \<Rightarrow> s | Some s' \<Rightarrow> s')"

lemma deliver_keys: "keys (deliver r s) = insert (key_of r) (keys s)"
  using post_None [of r s] by (auto simp: deliver_def post_keys split: option.splits)

lemma deliver_again: "key_of r \<in> keys s \<Longrightarrow> deliver r s = s"
  using post_None [of r s] by (simp add: deliver_def)

lemma deliver_twice: "deliver r (deliver r s) = deliver r s"
  by (simp add: deliver_again deliver_keys)

lemma fold_keys: "keys (fold deliver rs s) = key_of ` set rs \<union> keys s"
  by (induction rs arbitrary: s) (auto simp: deliver_keys)

lemma fold_seen: "key_of ` set rs \<subseteq> keys s \<Longrightarrow> fold deliver rs s = s"
  by (induction rs) (simp_all add: deliver_again)

lemma replay: "set qs \<subseteq> set rs \<Longrightarrow> fold deliver qs (fold deliver rs s) = fold deliver rs s"
  by (rule fold_seen) (auto simp: fold_keys)

lemma deliver_funds:
  "funds (deliver r s) u = funds s u + (if key_of r \<notin> keys s \<and> owner r = u then amount r else 0)"
  using post_None [of r s] post_funds [of r s] by (auto simp: deliver_def split: option.splits)

end

lemma post_row_Some:
  "post_row r s = Some s' \<longleftrightarrow> lr_key r \<notin> lr_key ` set (bk_rows s)
     \<and> s' = move_balance (lr_user r) (weight r)
         ((snd (get_wallet (lr_user r) s))\<lparr>bk_rows := r # bk_rows s\<rparr>)"
  by (auto simp: post_row_def insert_row_def get_wallet_simps)

interpretation wallet_ledger: posting_ledger post_row lr_key "\<lambda>s. lr_key ` set (bk_rows s)" balance lr_user weight
proof unfold_locales
  fix r :: ledger_row and s :: "'a books_scheme"
  show "post_row r s = None \<longleftrightarrow> lr_key r \<in> lr_key ` set (bk_rows s)"
    by (simp add: post_row_def insert_row_None get_wallet_simps)
next
  fix r :: ledger_row and s s' :: "'a books_scheme"
  assume p: "post_row r s = Some s'"
  show "lr_key ` set (bk_rows s') = insert (lr_key r) (lr_key ` set (bk_rows s))"
    using p by (simp add: post_row_Some)
  fix u
  show "balance s' u = balance s u + (if lr_user r = u then weight r else 0)"
    using p by (auto simp: post_row_Some balance_move get_wallet_simps)
qed

lemma post_row_ok [inv_intros]:
  assumes "books_ok s" and "post_row r s = Some s'"
  shows "books_ok s'"
proof -
  let ?s = "snd (get_wallet (lr_user r) s)"
  have "insert_rows [r] ?s = Some (?s\<lparr>bk_rows := r # bk_rows s\<rparr>)"
    using assms(2) by (simp add: post_row_Some insert_row_def get_wallet_simps)
  from post_rows_ok [OF get_wallet_ok [OF assms(1)] get_wallet_simps(1) this] assms(2)
  show ?thesis by (simp add: post_row_Some)
qed

end
