(* ===== verification/Settlement.thy ===== *)
theory Settlement
  imports Wallet Commission PromoTax Budget
begin

text \<open>
  Settling a trip against its driver's balance: \<open>servers/driver/utils.py\<close> (amounts, settlement,
  a cash trip paid later through the platform, the reversal of a refunded trip, deferral),
  \<open>settle_trip\<close> of \<open>servers/promotions/rider_promos.py\<close> and \<open>_credit_driver\<close> of
  \<open>servers/ride/operator_end.py\<close>.

  The rules, cards and zones of the market are the record \<open>market\<close>; \<open>mk_found\<close> is the point
  lookup of the trip's pickup. A driver is named by the user id their wallet is kept under. A
  savepoint that fails leaves the state it was entered with; an exception of the outer
  transaction is \<open>Inl\<close> and changes nothing. Alerts and logs are not
  modelled.
\<close>

record 'j ride = "'j priced_trip" +
  rd_driver :: "int option"
  rd_method :: string
  rd_end_rule :: string
  rd_final :: "int option"
  rd_estimated :: "int option"
  rd_currency :: "string option"
  rd_snapshot :: "(int \<times> int option) option"

record 'j market =
  mk_rules :: "commission_rule list"
  mk_cards :: "rate_card list"
  mk_zones :: "'j service_zone list"
  mk_found :: "'j service_zone option"
  mk_now :: int

datatype redemption_state = PR_COMMITTED | PR_SETTLED | PR_RELEASED | PR_LEGACY

record redemption =
  pr_id :: int
  pr_trip :: int
  pr_amount :: int
  pr_currency :: string
  pr_campaign :: "int option"
  pr_state :: redemption_state

record settlement =
  ts_trip :: int
  ts_driver :: int
  ts_currency :: string
  ts_gross :: int
  ts_percent :: decimal
  ts_commission :: int
  ts_net :: int
  ts_tax :: "int option"
  ts_fee :: "int option"
  ts_method :: string
  ts_version :: int

record history_row =
  th_trip :: int
  th_driver :: int
  th_currency :: string
  th_amount :: int
  th_method :: string
  th_type :: txn_type

record money_books = books +
  mb_settlements :: "settlement list"
  mb_redemptions :: "redemption list"
  mb_campaigns :: "int \<rightharpoonup> campaign"
  mb_funded :: "(int \<times> int) list"
  mb_history :: "history_row list"

datatype settle_error = NoCommissionRule | SettleMoney money_error | SettleIntegrity | CampaignMissing

section \<open>The amounts\<close>

definition ride_currency :: "'j ride \<Rightarrow> string" where
  "ride_currency t = currency_for_trip (Some (rd_currency t,
     map_option (\<lambda>z. \<lparr> zm_currency = Some (sz_currency z), zm_country = Some (sz_country z) \<rparr>) (pt_zone t)))"

definition fare_minor :: "'j ride \<Rightarrow> int" where
  "fare_minor t = (case rd_final t of Some f \<Rightarrow> f | None \<Rightarrow> null_int (rd_estimated t))"

definition held_redemption :: "redemption \<Rightarrow> bool" where
  "held_redemption r = (pr_state r = PR_COMMITTED \<or> pr_state r = PR_SETTLED \<or> pr_state r = PR_LEGACY)"

definition discount_minor :: "redemption list \<Rightarrow> 'j ride \<Rightarrow> int" where
  "discount_minor rs t = (if rd_end_rule t = ''platform_funded'' then 0
     else sum_by pr_amount (filter (\<lambda>r. pr_trip r = pt_id t \<and> held_redemption r) rs))"

definition payable_minor :: "redemption list \<Rightarrow> 'j ride \<Rightarrow> int" where
  "payable_minor rs t = max 0 (fare_minor t - min (discount_minor rs t) (fare_minor t))"

record amounts =
  am_gross :: int
  am_tax :: "int option"
  am_fee :: "int option"
  am_rate :: decimal
  am_commission :: int
  am_net :: int

definition lift_money :: "money_error + 'a \<Rightarrow> settle_error + 'a" where
  "lift_money r = (case r of Inl e \<Rightarrow> Inl (SettleMoney e) | Inr x \<Rightarrow> Inr x)"

definition commission_percent_for_trip :: "'j market \<Rightarrow> 'j ride \<Rightarrow> settle_error + decimal" where
  "commission_percent_for_trip mk t =
     (case commission_for_trip (mk_rules mk) (mk_found mk) (mk_now mk) (priced_trip.truncate t) of
        Inl _ \<Rightarrow> Inl NoCommissionRule | Inr dn \<Rightarrow> Inr (dn_percent dn))"

definition settlement_amounts :: "'j market \<Rightarrow> redemption list \<Rightarrow> 'j ride \<Rightarrow> settle_error + amounts" where
  "settlement_amounts mk rs t =
     (let currency = ride_currency t; charge = fare_minor t in
      bind_res (lift_money (settlement_split (mk_cards mk) (mk_zones mk) (mk_now mk) (pt_zone t)
          (pt_requested_vt t) (rd_snapshot t) (discount_minor rs t) charge currency)) (\<lambda>split.
        let gross = (case split of None \<Rightarrow> charge | Some p \<Rightarrow> sp_pretax p);
            tax = map_option sp_tax split; fee = map_option sp_fee split
        in bind_res (commission_percent_for_trip mk t) (\<lambda>rate.
           bind_res (lift_money (commission_minor gross rate (Some currency))) (\<lambda>m.
             case m of
               None \<Rightarrow> Inl (SettleMoney MoneyTypeError)
             | Some c \<Rightarrow> Inr \<lparr> am_gross = gross, am_tax = tax, am_fee = fee, am_rate = rate,
                            am_commission = c, am_net = gross - c \<rparr>))))"

section \<open>The promo of a settled trip\<close>

definition promo_row :: "int \<Rightarrow> int \<Rightarrow> redemption \<Rightarrow> ledger_row" where
  "promo_row u trip r = \<lparr> lr_user = u, lr_currency = pr_currency r, lr_amount = pr_amount r, lr_type = Credit,
     lr_status = TxnCompleted, lr_purpose = PromoDiscount, lr_ref = RefTrip trip, lr_key = KeyPromo trip (pr_id r) \<rparr>"

text \<open>One committed redemption: the budget, the redemption, the funded entry and, on a cash trip,
  the driver's credit. \<open>driver\<close> is \<open>Some\<close> when the driver is to be paid the discount.\<close>

definition settle_redemption ::
  "int option \<Rightarrow> int \<Rightarrow> redemption \<Rightarrow> money_books \<Rightarrow> settle_error + money_books" where
  "settle_redemption driver trip r s =
     (case pr_campaign r of
        None \<Rightarrow> Inr s
      | Some cid \<Rightarrow>
          (case mb_campaigns s cid of
             None \<Rightarrow> Inl CampaignMissing
           | Some c \<Rightarrow>
               let s1 = s\<lparr>mb_campaigns := (mb_campaigns s)(cid \<mapsto> settle_budget (pr_amount r) None c),
                          mb_redemptions := map (\<lambda>q. if pr_id q = pr_id r then q\<lparr>pr_state := PR_SETTLED\<rparr> else q) (mb_redemptions s)\<rparr>
               in bind_res (case driver of
                      None \<Rightarrow> Inr s1
                    | Some u \<Rightarrow> (case insert_row (promo_row u trip r) s1 of
                        None \<Rightarrow> Inl SettleIntegrity
                      | Some s2 \<Rightarrow> Inr (move_balance u (pr_amount r) s2))) (\<lambda>s3.
                  if pr_id r \<in> fst ` set (mb_funded s3) then Inl SettleIntegrity
                  else Inr (s3\<lparr>mb_funded := (pr_id r, pr_amount r) # mb_funded s3\<rparr>))))"

fun settle_redemptions ::
  "int option \<Rightarrow> int \<Rightarrow> redemption list \<Rightarrow> money_books \<Rightarrow> settle_error + money_books" where
  "settle_redemptions driver trip [] s = Inr s"
| "settle_redemptions driver trip (r # rs) s =
     bind_res (settle_redemption driver trip r s) (settle_redemptions driver trip rs)"

definition settle_promo :: "'j ride \<Rightarrow> bool \<Rightarrow> money_books \<Rightarrow> settle_error + money_books" where
  "settle_promo t is_cash s =
     (let rs = filter (\<lambda>r. pr_trip r = pt_id t \<and> pr_state r = PR_COMMITTED) (mb_redemptions s) in
      if rs = [] \<or> rd_end_rule t = ''platform_funded'' then Inr s
      else settle_redemptions (if is_cash then rd_driver t else None) (pt_id t) rs s)"

section \<open>The settlement\<close>

definition earning_row :: "int \<Rightarrow> string \<Rightarrow> amounts \<Rightarrow> bool \<Rightarrow> int \<Rightarrow> ledger_row" where
  "earning_row u currency a is_cash trip =
     \<lparr> lr_user = u, lr_currency = currency, lr_amount = (if is_cash then am_commission a else am_net a),
       lr_type = (if is_cash then Debit else Credit), lr_status = TxnCompleted,
       lr_purpose = (if is_cash then TripCommission else TripEarnings), lr_ref = RefTrip trip,
       lr_key = KeyEarning trip \<rparr>"

definition pass_row :: "int \<Rightarrow> string \<Rightarrow> int \<Rightarrow> purpose \<Rightarrow> int \<Rightarrow> ledger_key \<Rightarrow> ledger_row" where
  "pass_row u currency amount p trip key = \<lparr> lr_user = u, lr_currency = currency, lr_amount = amount,
     lr_type = Debit, lr_status = TxnCompleted, lr_purpose = p, lr_ref = RefTrip trip, lr_key = key \<rparr>"

text \<open>\<open>if amount:\<close> the tax and fee lines of a cash trip.\<close>

definition pass_rows :: "int \<Rightarrow> string \<Rightarrow> amounts \<Rightarrow> int \<Rightarrow> ledger_row list" where
  "pass_rows u currency a trip =
     (if int_or (am_tax a) 0 \<noteq> 0
        then [pass_row u currency (int_or (am_tax a) 0) TaxCollected trip (KeyTax trip)] else [])
   @ (if int_or (am_fee a) 0 \<noteq> 0
        then [pass_row u currency (int_or (am_fee a) 0) FeeCollected trip (KeyFee trip)] else [])"

text \<open>The constraints of the settlement table: one row per trip and version, a commission and a
  gross that are not negative.\<close>

definition insert_settlement :: "settlement \<Rightarrow> money_books \<Rightarrow> money_books option" where
  "insert_settlement r s =
     (if (ts_trip r, ts_version r) \<in> (\<lambda>q. (ts_trip q, ts_version q)) ` set (mb_settlements s)
         \<or> ts_commission r < 0 \<or> ts_gross r < 0 then None
      else Some (s\<lparr>mb_settlements := r # mb_settlements s\<rparr>))"

definition method_or_online :: "string \<Rightarrow> string" where
  "method_or_online m = (if m = [] then ''online'' else m)"

text \<open>The line of \<open>TransactionHistory\<close>.\<close>

definition history_of :: "'j ride \<Rightarrow> ledger_row \<Rightarrow> history_row" where
  "history_of t r = \<lparr> th_trip = pt_id t, th_driver = lr_user r, th_currency = lr_currency r, th_amount = lr_amount r,
     th_method = method_or_online (rd_method t), th_type = lr_type r \<rparr>"

definition credit_driver_wallet ::
  "'j market \<Rightarrow> 'j ride \<Rightarrow> money_books \<Rightarrow> settle_error + money_books" where
  "credit_driver_wallet mk t s =
     (case rd_driver t of
        None \<Rightarrow> Inr s
      | Some u \<Rightarrow>
          if rd_end_rule t = ''platform_funded'' then Inr s
          else bind_res (settlement_amounts mk (mb_redemptions s) t) (\<lambda>a.
            let currency = ride_currency t; trip = pt_id t; is_cash = (rd_method t = ''cash'');
                s1 = snd (get_wallet u s);
                moved = (if is_cash then - am_commission a - (int_or (am_tax a) 0 + int_or (am_fee a) 0)
                         else am_net a)
            in case insert_row (earning_row u currency a is_cash trip) s1 of
                 None \<Rightarrow> Inr s1
               | Some s2 \<Rightarrow>
                   let s3 = move_balance u moved s2 in
                   (case insert_rows (if is_cash then pass_rows u currency a trip else []) s3 of
                      None \<Rightarrow> Inl SettleIntegrity
                    | Some s4 \<Rightarrow>
                        (case insert_settlement \<lparr> ts_trip = trip, ts_driver = u, ts_currency = currency,
                             ts_gross = am_gross a, ts_percent = am_rate a, ts_commission = am_commission a,
                             ts_net = am_net a, ts_tax = am_tax a, ts_fee = am_fee a,
                             ts_method = method_or_online (rd_method t), ts_version = 1 \<rparr>
                             (s4\<lparr>mb_history := history_of t (earning_row u currency a is_cash trip) # mb_history s4\<rparr>) of
                           None \<Rightarrow> Inl SettleIntegrity
                         | Some s5 \<Rightarrow> Inr (after s5 (settle_promo t is_cash s5))))))"

definition settle_or_defer :: "'j market \<Rightarrow> 'j ride \<Rightarrow> money_books \<Rightarrow> settle_error + bool \<times> money_books" where
  "settle_or_defer mk t s = (case credit_driver_wallet mk t s of
      Inr s' \<Rightarrow> Inr (True, s')
    | Inl NoCommissionRule \<Rightarrow> Inr (False, s)
    | Inl e \<Rightarrow> Inl e)"

section \<open>A cash trip paid through the platform\<close>

definition collected_row :: "int \<Rightarrow> string \<Rightarrow> int \<Rightarrow> int \<Rightarrow> ledger_row" where
  "collected_row u currency amount trip = \<lparr> lr_user = u, lr_currency = currency, lr_amount = amount,
     lr_type = Credit, lr_status = TxnCompleted, lr_purpose = FareCollectedByPlatform,
     lr_ref = RefTrip trip, lr_key = KeyCollected trip \<rparr>"

definition credit_fare_collected ::
  "'j ride \<Rightarrow> int \<Rightarrow> string \<Rightarrow> money_books \<Rightarrow> bool \<times> money_books" where
  "credit_fare_collected t amount currency s =
     (case rd_driver t of
        None \<Rightarrow> (False, s)
      | Some u \<Rightarrow>
          if amount \<le> 0 then (False, s)
          else (case post_row (collected_row u currency amount (pt_id t)) s of
                  None \<Rightarrow> (False, snd (get_wallet u s))
                | Some s' \<Rightarrow> (True, s')))"

definition current_settlement :: "int \<Rightarrow> settlement list \<Rightarrow> settlement option" where
  "current_settlement trip rows =
     (case sort_key (\<lambda>r. - ts_version r) (filter (\<lambda>r. ts_trip r = trip) rows) of [] \<Rightarrow> None | r # _ \<Rightarrow> Some r)"

definition settle_paid_by_platform ::
  "'j market \<Rightarrow> 'j ride \<Rightarrow> int \<Rightarrow> string option \<Rightarrow> money_books \<Rightarrow> settle_error + money_books" where
  "settle_paid_by_platform mk t amount currency s0 =
     (let s = (case rd_driver t of None \<Rightarrow> s0 | Some u \<Rightarrow> snd (get_wallet u s0)) in
      case current_settlement (pt_id t) (mb_settlements s) of
        None \<Rightarrow> bind_res (settle_or_defer mk t s) (\<lambda>r. Inr (snd r))
      | Some cur \<Rightarrow>
          if ts_method cur \<noteq> ''cash'' then Inr s
          else (case credit_fare_collected t amount
                    (case currency of None \<Rightarrow> ts_currency cur | Some c \<Rightarrow> if c = [] then ts_currency cur else c) s of
                  (False, s1) \<Rightarrow> Inr s1
                | (True, s1) \<Rightarrow>
                    (case insert_settlement (cur\<lparr>ts_method := method_or_online (rd_method t),
                                              ts_version := ts_version cur + 1\<rparr>) s1 of
                       None \<Rightarrow> Inl SettleIntegrity | Some s2 \<Rightarrow> Inr s2)))"

section \<open>Reversal and the platform-funded end\<close>

definition trip_purpose :: "purpose \<Rightarrow> bool" where
  "trip_purpose p = (p \<in> {TripEarnings, TripCommission, TaxCollected, FeeCollected, PromoDiscount,
     FareCollectedByPlatform, PlatformFundedEnd})"

definition trip_line :: "int \<Rightarrow> int \<Rightarrow> ledger_row \<Rightarrow> bool" where
  "trip_line u trip r = (lr_user r = u \<and> lr_ref r = RefTrip trip \<and> trip_purpose (lr_purpose r)
     \<and> lr_status r = TxnCompleted)"

definition trip_gain :: "int \<Rightarrow> int \<Rightarrow> ledger_row list \<Rightarrow> int" where
  "trip_gain u trip rows = sum_by signed (filter (trip_line u trip) rows)"

definition reversal_row :: "int \<Rightarrow> string \<Rightarrow> int \<Rightarrow> int \<Rightarrow> ledger_row" where
  "reversal_row u currency amount trip = \<lparr> lr_user = u, lr_currency = currency, lr_amount = amount,
     lr_type = Debit, lr_status = TxnCompleted, lr_purpose = TripRefundReversal,
     lr_ref = RefTrip trip, lr_key = KeyReversal trip \<rparr>"

definition reverse_trip_earnings :: "'j ride \<Rightarrow> money_books \<Rightarrow> money_books" where
  "reverse_trip_earnings t s =
     (case rd_driver t of
        None \<Rightarrow> s
      | Some u \<Rightarrow>
          (let (w, s1) = get_wallet u s; net = trip_gain u (pt_id t) (bk_rows s1) in
           if net \<le> 0 then s1
           else (case post_row (reversal_row u (wl_currency w) net (pt_id t)) s1 of
                   None \<Rightarrow> s1 | Some s2 \<Rightarrow> s2)))"

definition credit_platform_funded :: "'j ride \<Rightarrow> string \<Rightarrow> int \<Rightarrow> money_books \<Rightarrow> money_books" where
  "credit_platform_funded t currency earnings s =
     (case rd_driver t of
        None \<Rightarrow> s
      | Some u \<Rightarrow>
          if earnings = 0 then s
          else (case post_row \<lparr> lr_user = u, lr_currency = currency, lr_amount = earnings, lr_type = Credit,
                    lr_status = TxnCompleted, lr_purpose = PlatformFundedEnd, lr_ref = RefTrip (pt_id t),
                    lr_key = KeyPlatformFunded (pt_id t) \<rparr> s of
                  None \<Rightarrow> s | Some s' \<Rightarrow> s'))"



section \<open>Every operation keeps the books\<close>

lemma extension_books [simp]:
  "books_ok (s\<lparr>mb_settlements := a\<rparr>) = books_ok s" "books_ok (s\<lparr>mb_redemptions := b\<rparr>) = books_ok s"
  "books_ok (s\<lparr>mb_campaigns := c\<rparr>) = books_ok s" "books_ok (s\<lparr>mb_funded := d\<rparr>) = books_ok s"
  "books_ok (s\<lparr>mb_history := h\<rparr>) = books_ok s" "has_wallet u (s\<lparr>mb_history := h\<rparr>) = has_wallet u s"
  "has_wallet u (s\<lparr>mb_settlements := a\<rparr>) = has_wallet u s" "has_wallet u (s\<lparr>mb_redemptions := b\<rparr>) = has_wallet u s"
  "has_wallet u (s\<lparr>mb_campaigns := c\<rparr>) = has_wallet u s" "has_wallet u (s\<lparr>mb_funded := d\<rparr>) = has_wallet u s"
  by (simp_all add: books_ok_def balance_def ledger_total_def has_wallet_def)

lemma extension_balance [simp]:
  "balance (s\<lparr>mb_settlements := a\<rparr>) u = balance s u" "balance (s\<lparr>mb_redemptions := b\<rparr>) u = balance s u"
  "balance (s\<lparr>mb_campaigns := c\<rparr>) u = balance s u" "balance (s\<lparr>mb_funded := d\<rparr>) u = balance s u"
  "balance (s\<lparr>mb_history := h\<rparr>) u = balance s u"
  by (simp_all add: balance_def)

lemma books_fields [simp]:
  "mb_settlements (move_balance u d s) = mb_settlements s" "mb_redemptions (move_balance u d s) = mb_redemptions s"
  "mb_campaigns (move_balance u d s) = mb_campaigns s" "mb_funded (move_balance u d s) = mb_funded s"
  "mb_settlements (snd (get_wallet u s)) = mb_settlements s" "mb_redemptions (snd (get_wallet u s)) = mb_redemptions s"
  "mb_campaigns (snd (get_wallet u s)) = mb_campaigns s" "mb_funded (snd (get_wallet u s)) = mb_funded s"
  by (simp_all add: move_balance_def get_wallet_def Let_def split: option.splits)

lemma insert_row_fields:
  "insert_row r s = Some s' \<Longrightarrow> mb_settlements s' = mb_settlements s \<and> mb_redemptions s' = mb_redemptions s
     \<and> mb_campaigns s' = mb_campaigns s \<and> mb_funded s' = mb_funded s"
  by (auto simp: insert_row_Some)

lemma insert_rows_fields:
  "insert_rows rs s = Some s' \<Longrightarrow> mb_settlements s' = mb_settlements s \<and> mb_redemptions s' = mb_redemptions s
     \<and> mb_campaigns s' = mb_campaigns s \<and> mb_funded s' = mb_funded s"
  by (induction rs arbitrary: s) (auto simp: insert_row_Some split: option.splits)

lemma insert_rows_after_move:
  "insert_rows rs (move_balance u d s) = map_option (move_balance u d) (insert_rows rs s)"
  by (induction rs arbitrary: s) (auto simp: insert_after_move split: option.splits)

lemma promo_row_weight [simp]: "weight (promo_row u trip r) = pr_amount r" "lr_user (promo_row u trip r) = u"
  by (simp_all add: weight_def counted_def signed_def promo_row_def)

lemma settle_redemption_ok:
  assumes "settle_redemption driver trip r s = Inr s'" and "books_ok s"
    and "\<And>u. driver = Some u \<Longrightarrow> has_wallet u s"
  shows "books_ok s' \<and> (\<forall>u. has_wallet u s \<longrightarrow> has_wallet u s') \<and> mb_settlements s' = mb_settlements s"
proof (cases "pr_campaign r")
  case None
  with assms show ?thesis by (simp add: settle_redemption_def)
next
  case (Some cid)
  then obtain c where c: "mb_campaigns s cid = Some c"
    using assms(1) by (auto simp: settle_redemption_def split: option.splits)
  define s1 where "s1 = s\<lparr>mb_campaigns := (mb_campaigns s)(cid \<mapsto> settle_budget (pr_amount r) None c),
      mb_redemptions := map (\<lambda>q. if pr_id q = pr_id r then q\<lparr>pr_state := PR_SETTLED\<rparr> else q) (mb_redemptions s)\<rparr>"
  have s1: "books_ok s1" "has_wallet u s1 = has_wallet u s" "mb_settlements s1 = mb_settlements s" for u
    using assms(2) by (simp_all add: s1_def)
  show ?thesis
  proof (cases driver)
    case None
    with assms(1) Some c s1 show ?thesis
      by (auto simp: settle_redemption_def Let_def s1_def [symmetric] bind_res_Inr_iff split: if_splits)
  next
    case d: (Some u)
    then obtain s2 where s2: "insert_row (promo_row u trip r) s1 = Some s2"
      and s': "s' = (move_balance u (pr_amount r) s2)\<lparr>mb_funded := (pr_id r, pr_amount r) # mb_funded (move_balance u (pr_amount r) s2)\<rparr>"
      using assms(1) Some c
      by (auto simp: settle_redemption_def Let_def s1_def [symmetric] bind_res_Inr_iff split: if_splits option.splits)
    have one: "insert_rows [promo_row u trip r] s1 = Some s2" using s2 by (simp only: insert_rows.simps option.case)
    have "has_wallet u s1" using assms(3) d s1(2) by simp
    from post_rows_ok [OF s1(1) this one] have "books_ok (move_balance u (pr_amount r) s2)" by simp
    with s' s2 s1 show ?thesis by (auto simp: insert_row_Some)
  qed
qed

lemma settle_redemptions_ok:
  "settle_redemptions driver trip rs s = Inr s' \<Longrightarrow> books_ok s \<Longrightarrow> (\<And>u. driver = Some u \<Longrightarrow> has_wallet u s)
     \<Longrightarrow> books_ok s' \<and> mb_settlements s' = mb_settlements s"
proof (induction rs arbitrary: s)
  case Nil
  then show ?case by simp
next
  case (Cons r rs)
  then obtain s1 where s1: "settle_redemption driver trip r s = Inr s1" and s': "settle_redemptions driver trip rs s1 = Inr s'"
    by (auto simp: bind_res_Inr_iff)
  note ok = settle_redemption_ok [OF s1 Cons.prems(2,3)]
  have "books_ok s' \<and> mb_settlements s' = mb_settlements s1"
    using Cons.IH [OF s'] ok Cons.prems(3) by blast
  with ok show ?case by simp
qed

lemma settle_promo_ok:
  assumes "settle_promo t is_cash s = Inr s'" and "books_ok s" and "\<And>u. rd_driver t = Some u \<Longrightarrow> has_wallet u s"
  shows "books_ok s' \<and> mb_settlements s' = mb_settlements s"
proof (cases "filter (\<lambda>r. pr_trip r = pt_id t \<and> pr_state r = PR_COMMITTED) (mb_redemptions s) = []
    \<or> rd_end_rule t = ''platform_funded''")
  case True
  with assms show ?thesis by (auto simp: settle_promo_def Let_def)
next
  case False
  then have run: "settle_redemptions (if is_cash then rd_driver t else None) (pt_id t)
      (filter (\<lambda>r. pr_trip r = pt_id t \<and> pr_state r = PR_COMMITTED) (mb_redemptions s)) s = Inr s'"
    using assms(1) by (simp add: settle_promo_def Let_def)
  show ?thesis by (rule settle_redemptions_ok [OF run assms(2)]) (use assms(3) in \<open>auto split: if_splits\<close>)
qed

text \<open>What a settlement writes, in one place: the rows, the balance and the settlement row.\<close>

definition settled_rows :: "int \<Rightarrow> string \<Rightarrow> amounts \<Rightarrow> bool \<Rightarrow> int \<Rightarrow> ledger_row list" where
  "settled_rows u currency a is_cash trip =
     earning_row u currency a is_cash trip # (if is_cash then pass_rows u currency a trip else [])"

definition settlement_of :: "int \<Rightarrow> 'j ride \<Rightarrow> amounts \<Rightarrow> settlement" where
  "settlement_of u t a = \<lparr> ts_trip = pt_id t, ts_driver = u, ts_currency = ride_currency t,
     ts_gross = am_gross a, ts_percent = am_rate a, ts_commission = am_commission a, ts_net = am_net a,
     ts_tax = am_tax a, ts_fee = am_fee a, ts_method = method_or_online (rd_method t), ts_version = 1 \<rparr>"

definition settle_move :: "amounts \<Rightarrow> bool \<Rightarrow> int" where
  "settle_move a is_cash = (if is_cash then - am_commission a - (int_or (am_tax a) 0 + int_or (am_fee a) 0) else am_net a)"

lemma settled_rows_weight: "sum_by weight (settled_rows u currency a is_cash trip) = settle_move a is_cash"
  by (auto simp: settled_rows_def settle_move_def earning_row_def pass_rows_def pass_row_def weight_def counted_def
      signed_def int_or_def split: option.splits)

lemma settled_rows_user: "r \<in> set (settled_rows u currency a is_cash trip) \<Longrightarrow> lr_user r = u"
  by (auto simp: settled_rows_def earning_row_def pass_rows_def pass_row_def split: if_splits)

lemma credit_driver_wallet_cases:
  assumes "credit_driver_wallet mk t s = Inr s'" and "rd_driver t = Some u" and "rd_end_rule t \<noteq> ''platform_funded''"
  obtains
    (again) a where "settlement_amounts mk (mb_redemptions s) t = Inr a"
      "KeyEarning (pt_id t) \<in> lr_key ` set (bk_rows s)" "s' = snd (get_wallet u s)"
  | (fresh) a s4 h s5 where "settlement_amounts mk (mb_redemptions s) t = Inr a"
      "KeyEarning (pt_id t) \<notin> lr_key ` set (bk_rows s)"
      "insert_rows (settled_rows u (ride_currency t) a (rd_method t = ''cash'') (pt_id t)) (snd (get_wallet u s)) = Some s4"
      "insert_settlement (settlement_of u t a)
         ((move_balance u (settle_move a (rd_method t = ''cash'')) s4)\<lparr>mb_history := h\<rparr>) = Some s5"
      "s' = after s5 (settle_promo t (rd_method t = ''cash'') s5)"
proof -
  let ?cash = "rd_method t = ''cash''" and ?s1 = "snd (get_wallet u s)"
  obtain a where a: "settlement_amounts mk (mb_redemptions s) t = Inr a"
    using assms by (auto simp: credit_driver_wallet_def bind_res_Inr_iff)
  let ?row = "earning_row u (ride_currency t) a ?cash (pt_id t)"
  have key: "lr_key ?row = KeyEarning (pt_id t)" by (simp add: earning_row_def)
  show ?thesis
  proof (cases "insert_row ?row ?s1")
    case None
    then have "s' = ?s1" using assms a by (simp add: credit_driver_wallet_def Let_def)
    with None a that(1) show ?thesis by (simp add: insert_row_None key get_wallet_simps)
  next
    case (Some s2)
    let ?d = "settle_move a ?cash" and ?ps = "if ?cash then pass_rows u (ride_currency t) a (pt_id t) else []"
    have "credit_driver_wallet mk t s = (case insert_rows ?ps (move_balance u ?d s2) of
        None \<Rightarrow> Inl SettleIntegrity
      | Some s4 \<Rightarrow> (case insert_settlement (settlement_of u t a) (s4\<lparr>mb_history := history_of t ?row # mb_history s4\<rparr>) of
          None \<Rightarrow> Inl SettleIntegrity | Some s5 \<Rightarrow> Inr (after s5 (settle_promo t ?cash s5))))"
      unfolding settle_move_def settlement_of_def
      by (simp add: credit_driver_wallet_def Let_def assms(2,3) a Some split del: if_split)
    with assms(1) obtain s4' s5 where s4': "insert_rows ?ps (move_balance u ?d s2) = Some s4'"
      and s5: "insert_settlement (settlement_of u t a) (s4'\<lparr>mb_history := history_of t ?row # mb_history s4'\<rparr>) = Some s5"
      and s': "s' = after s5 (settle_promo t ?cash s5)"
      by (auto split: option.splits)
    obtain s4 where s4: "insert_rows ?ps s2 = Some s4" "s4' = move_balance u ?d s4"
      using s4' by (auto simp: insert_rows_after_move)
    have "insert_rows (settled_rows u (ride_currency t) a ?cash (pt_id t)) ?s1 = Some s4"
      using Some s4(1) by (simp add: settled_rows_def)
    moreover have "KeyEarning (pt_id t) \<notin> lr_key ` set (bk_rows s)"
      using Some by (simp add: insert_row_Some key get_wallet_simps)
    ultimately show ?thesis using that(2) a s5 s4(2) s' by blast
  qed
qed

lemma insert_settlement_Some:
  "insert_settlement r s = Some s' \<Longrightarrow> s' = s\<lparr>mb_settlements := r # mb_settlements s\<rparr>
     \<and> (ts_trip r, ts_version r) \<notin> (\<lambda>q. (ts_trip q, ts_version q)) ` set (mb_settlements s)
     \<and> 0 \<le> ts_commission r \<and> 0 \<le> ts_gross r"
  by (auto simp: insert_settlement_def split: if_splits)

lemma settled_books:
  assumes "books_ok s"
    and "insert_rows (settled_rows u cur a is_cash trip) (snd (get_wallet u s)) = Some s4"
  shows "books_ok (move_balance u (settle_move a is_cash) s4) \<and> has_wallet u s4"
proof -
  have w: "has_wallet u (snd (get_wallet u s))" by (simp add: get_wallet_simps)
  have "books_ok (snd (get_wallet u s))" using assms(1) by (rule get_wallet_ok)
  from post_rows_ok [OF this w assms(2)] show ?thesis
    using settled_rows_user settled_rows_weight insert_rows_balance [OF assms(2)] w by metis
qed

lemma credit_driver_wallet_ok [inv_intros]:
  assumes "credit_driver_wallet mk t s = Inr s'" and "books_ok s"
  shows "books_ok s'"
proof (cases "rd_driver t = None \<or> rd_end_rule t = ''platform_funded''")
  case True
  with assms show ?thesis by (auto simp: credit_driver_wallet_def split: option.splits)
next
  case False
  then obtain u where u: "rd_driver t = Some u" "rd_end_rule t \<noteq> ''platform_funded''" by auto
  show ?thesis
    using assms(1) u
  proof (cases rule: credit_driver_wallet_cases)
    case (again a)
    with assms(2) show ?thesis by (simp add: get_wallet_ok)
  next
    case (fresh a s4 h s5)
    note ok = settled_books [OF assms(2) fresh(3)]
    have s5: "books_ok s5" "has_wallet u s5"
      using insert_settlement_Some [OF fresh(4)] ok by simp_all
    show ?thesis
    proof (cases "settle_promo t (rd_method t = ''cash'') s5")
      case (Inl e)
      with fresh(5) s5(1) show ?thesis by simp
    next
      case (Inr s6)
      with settle_promo_ok [OF Inr s5(1)] u(1) s5(2) fresh(5) show ?thesis by simp
    qed
  qed
qed


lemma credit_fare_collected_ok:
  "credit_fare_collected t amount currency s = (done, s') \<Longrightarrow> books_ok s \<Longrightarrow>
     books_ok s' \<and> mb_settlements s' = mb_settlements s"
  by (auto simp: credit_fare_collected_def post_row_Some
      intro: get_wallet_ok post_row_ok split: option.splits if_splits)

lemma settle_or_defer_ok:
  "settle_or_defer mk t s = Inr (done, s') \<Longrightarrow> books_ok s \<Longrightarrow> books_ok s'"
  by (auto simp: settle_or_defer_def intro: credit_driver_wallet_ok split: sum.splits settle_error.splits)

lemma settle_paid_by_platform_ok [inv_intros]:
  assumes "settle_paid_by_platform mk t amount currency s = Inr s'" and "books_ok s"
  shows "books_ok s'"
proof -
  define s0 where "s0 = (case rd_driver t of None \<Rightarrow> s | Some u \<Rightarrow> snd (get_wallet u s))"
  have s0: "books_ok s0" using assms(2) by (auto simp: s0_def intro: get_wallet_ok split: option.splits)
  show ?thesis
  proof (cases "current_settlement (pt_id t) (mb_settlements s0)")
    case None
    then show ?thesis using assms(1) settle_or_defer_ok [OF _ s0]
      by (auto simp: settle_paid_by_platform_def s0_def [symmetric] Let_def bind_res_Inr_iff)
  next
    case (Some cur)
    obtain d s1 where c: "credit_fare_collected t amount
        (case currency of None \<Rightarrow> ts_currency cur | Some c \<Rightarrow> if c = [] then ts_currency cur else c) s0 = (d, s1)"
      by fastforce
    have "books_ok s1" using credit_fare_collected_ok [OF c s0] by simp
    then show ?thesis using assms(1) Some c s0
      by (auto simp: settle_paid_by_platform_def s0_def [symmetric] Let_def dest!: insert_settlement_Some
          split: if_splits bool.splits option.splits)
  qed
qed

lemma reverse_trip_earnings_ok [inv_intros]: "books_ok s \<Longrightarrow> books_ok (reverse_trip_earnings t s)"
  by (auto simp: reverse_trip_earnings_def Let_def intro: get_wallet_ok post_row_ok
      split: option.splits prod.splits) (metis get_wallet_ok snd_conv post_row_ok)+

lemma credit_platform_funded_ok [inv_intros]: "books_ok s \<Longrightarrow> books_ok (credit_platform_funded t currency earnings s)"
  by (auto simp: credit_platform_funded_def intro: post_row_ok split: option.splits)


section \<open>The machine of settlements\<close>

datatype 'j settle_event =
    CompleteTrip "'j market" "'j ride"
  | PaidThroughPlatform "'j market" "'j ride" int "string option"
  | RefundTrip "'j ride"
  | PlatformEnd "'j ride" string int

fun settle_step :: "money_books \<Rightarrow> 'j settle_event \<Rightarrow> settle_error + money_books" where
  "settle_step s (CompleteTrip mk t) = bind_res (settle_or_defer mk t s) (\<lambda>r. Inr (snd r))"
| "settle_step s (PaidThroughPlatform mk t amount currency) = settle_paid_by_platform mk t amount currency s"
| "settle_step s (RefundTrip t) = Inr (reverse_trip_earnings t s)"
| "settle_step s (PlatformEnd t currency earnings) = Inr (credit_platform_funded t currency earnings s)"

lemma settle_step_ok: "books_ok s \<Longrightarrow> settle_step s e = Inr s' \<Longrightarrow> books_ok s'"
  by (cases e) (auto simp: bind_res_Inr_iff intro: settle_or_defer_ok settle_paid_by_platform_ok
      reverse_trip_earnings_ok credit_platform_funded_ok)

definition settlement_key :: "settlement \<Rightarrow> int \<times> int" where
  "settlement_key r = (ts_trip r, ts_version r)"

definition settlement_at :: "int \<times> int \<Rightarrow> money_books \<Rightarrow> settlement option" where
  "settlement_at k s = find (\<lambda>r. settlement_key r = k) (mb_settlements s)"

definition grown :: "money_books \<Rightarrow> money_books \<Rightarrow> bool" where
  "grown s s' = (mb_settlements s' = mb_settlements s
     \<or> (\<exists>r. mb_settlements s' = r # mb_settlements s \<and> settlement_key r \<notin> settlement_key ` set (mb_settlements s)))"

lemma insert_settlement_grown:
  "insert_settlement r s = Some s' \<Longrightarrow> mb_settlements s = mb_settlements s0 \<Longrightarrow> grown s0 s'"
  by (auto simp: grown_def settlement_key_def dest!: insert_settlement_Some)

lemma grown_refl [simp]: "mb_settlements s' = mb_settlements s \<Longrightarrow> grown s s'"
  by (simp add: grown_def)

lemma credit_driver_wallet_grown:
  assumes "credit_driver_wallet mk t s = Inr s'" and "books_ok s"
  shows "grown s s'"
proof (cases "rd_driver t = None \<or> rd_end_rule t = ''platform_funded''")
  case True
  with assms show ?thesis by (auto simp: credit_driver_wallet_def split: option.splits)
next
  case False
  then obtain u where u: "rd_driver t = Some u" "rd_end_rule t \<noteq> ''platform_funded''" by auto
  show ?thesis
    using assms(1) u
  proof (cases rule: credit_driver_wallet_cases)
    case (again a)
    then show ?thesis by simp
  next
    case (fresh a s4 h s5)
    have s5: "grown s s5"
      using fresh(4) by (rule insert_settlement_grown) (simp add: insert_rows_fields [OF fresh(3)])
    have ok: "books_ok s5" "has_wallet u s5"
      using insert_settlement_Some [OF fresh(4)] settled_books [OF assms(2) fresh(3)] by simp_all
    have "mb_settlements s' = mb_settlements s5"
      using fresh(5) settle_promo_ok [of t "rd_method t = ''cash''" s5] ok u(1)
      by (cases "settle_promo t (rd_method t = ''cash'') s5") auto
    with s5 show ?thesis by (simp add: grown_def)
  qed
qed

lemma settle_step_grown:
  assumes "books_ok s" and "settle_step s e = Inr s'"
  shows "grown s s'"
proof (cases e)
  case (CompleteTrip mk t)
  with assms show ?thesis
    by (auto simp: bind_res_Inr_iff settle_or_defer_def intro: credit_driver_wallet_grown
        split: sum.splits settle_error.splits)
next
  case (PaidThroughPlatform mk t amount currency)
  define s0 where "s0 = (case rd_driver t of None \<Rightarrow> s | Some u \<Rightarrow> snd (get_wallet u s))"
  have s0: "books_ok s0" "mb_settlements s0 = mb_settlements s"
    using assms(1) by (auto simp: s0_def intro: get_wallet_ok split: option.splits)
  have up: "grown s0 x \<Longrightarrow> grown s x" for x using s0(2) by (simp add: grown_def)
  have run: "settle_paid_by_platform mk t amount currency s = Inr s'" using assms(2) PaidThroughPlatform by simp
  show ?thesis
  proof (cases "current_settlement (pt_id t) (mb_settlements s0)")
    case None
    then show ?thesis using run s0(1)
      by (auto simp: settle_paid_by_platform_def s0_def [symmetric] Let_def bind_res_Inr_iff settle_or_defer_def
          intro: up credit_driver_wallet_grown split: sum.splits settle_error.splits)
  next
    case (Some cur)
    obtain d s1 where c: "credit_fare_collected t amount
        (case currency of None \<Rightarrow> ts_currency cur | Some c \<Rightarrow> if c = [] then ts_currency cur else c) s0 = (d, s1)"
      by fastforce
    have s1: "mb_settlements s1 = mb_settlements s" using credit_fare_collected_ok [OF c s0(1)] s0(2) by simp
    show ?thesis using run Some c s0 s1
      by (auto simp: settle_paid_by_platform_def s0_def [symmetric] Let_def
          intro: insert_settlement_grown split: if_splits bool.splits option.splits)
  qed
next
  case (RefundTrip t)
  then have "s' = reverse_trip_earnings t s" using assms(2) by simp
  moreover have "mb_settlements (reverse_trip_earnings t s) = mb_settlements s"
    by (auto simp: reverse_trip_earnings_def Let_def post_row_Some split: option.splits prod.splits)
      (metis books_fields(5) snd_conv)+
  ultimately show ?thesis by simp
next
  case (PlatformEnd t currency earnings)
  then show ?thesis using assms(2)
    by (auto simp: credit_platform_funded_def post_row_Some split: option.splits)
qed

interpretation settlements: frozen_part settle_step books_ok "\<lambda>k s. settlement_at k s \<noteq> None" settlement_at
proof unfold_locales
  fix s :: money_books and e :: "'j settle_event" and s'
  assume "books_ok s" and "settle_step s e = Inr s'"
  then show "books_ok s'" by (rule settle_step_ok)
next
  fix k and s :: money_books and e :: "'j settle_event" and s'
  assume "books_ok s" and old: "settlement_at k s \<noteq> None" and "settle_step s e = Inr s'"
  then have g: "grown s s'" by (auto intro: settle_step_grown)
  from old have "\<exists>r \<in> set (mb_settlements s). settlement_key r = k"
    by (auto simp: settlement_at_def find_None_iff)
  then have "k \<in> settlement_key ` set (mb_settlements s)" by blast
  with g have "settlement_at k s' = settlement_at k s" by (auto simp: grown_def settlement_at_def)
  with old show "settlement_at k s' \<noteq> None \<and> settlement_at k s' = settlement_at k s" by simp
qed


section \<open>What a settlement does to the rows and the balance\<close>

lemma lift_money_Inr [simp]: "lift_money r = Inr x \<longleftrightarrow> r = Inr x"
  by (cases r) (simp_all add: lift_money_def)

definition funded_discount :: "redemption list \<Rightarrow> int" where
  "funded_discount rs = sum_by pr_amount (filter (\<lambda>r. pr_campaign r \<noteq> None) rs)"

definition committed_of :: "int \<Rightarrow> money_books \<Rightarrow> redemption list" where
  "committed_of trip s = filter (\<lambda>r. pr_trip r = trip \<and> pr_state r = PR_COMMITTED) (mb_redemptions s)"

lemma settle_redemption_effect:
  assumes "settle_redemption driver trip r s = Inr s'" and "\<And>u. driver = Some u \<Longrightarrow> has_wallet u s"
  shows "set (bk_rows s) \<subseteq> set (bk_rows s')
    \<and> balance s' v = balance s v + (if driver = Some v \<and> pr_campaign r \<noteq> None then pr_amount r else 0)
    \<and> (\<forall>u. has_wallet u s \<longrightarrow> has_wallet u s')"
proof (cases "pr_campaign r")
  case None
  with assms show ?thesis by (simp add: settle_redemption_def)
next
  case (Some cid)
  then obtain c where c: "mb_campaigns s cid = Some c"
    using assms(1) by (auto simp: settle_redemption_def split: option.splits)
  show ?thesis
  proof (cases driver)
    case None
    with assms(1) Some c show ?thesis
      by (auto simp: settle_redemption_def Let_def bind_res_Inr_iff split: if_splits)
  next
    case d: (Some u)
    with assms(2) have "has_wallet u s" by simp
    with assms(1) Some c d show ?thesis
      by (auto simp: settle_redemption_def Let_def bind_res_Inr_iff balance_move insert_row_Some
          split: if_splits option.splits)
  qed
qed

lemma settle_redemptions_effect:
  "settle_redemptions driver trip rs s = Inr s' \<Longrightarrow> (\<And>u. driver = Some u \<Longrightarrow> has_wallet u s) \<Longrightarrow>
     set (bk_rows s) \<subseteq> set (bk_rows s') \<and> (\<forall>u. has_wallet u s \<longrightarrow> has_wallet u s')
     \<and> balance s' v = balance s v + (if driver = Some v then funded_discount rs else 0)"
proof (induction rs arbitrary: s)
  case Nil
  then show ?case by (simp add: funded_discount_def)
next
  case (Cons r rs)
  then obtain s1 where s1: "settle_redemption driver trip r s = Inr s1" and s': "settle_redemptions driver trip rs s1 = Inr s'"
    by (auto simp: bind_res_Inr_iff)
  note e = settle_redemption_effect [OF s1 Cons.prems(2), of v]
  have "\<And>u. driver = Some u \<Longrightarrow> has_wallet u s1" using e Cons.prems(2) by blast
  from Cons.IH [OF s' this] e show ?case by (auto simp: funded_discount_def)
qed

lemma settle_promo_effect:
  assumes "settle_promo t is_cash s = Inr s'" and "rd_driver t = Some u" and "has_wallet u s"
    and "rd_end_rule t \<noteq> ''platform_funded''"
  shows "set (bk_rows s) \<subseteq> set (bk_rows s') \<and> has_wallet u s'
     \<and> balance s' u = balance s u + (if is_cash then funded_discount (committed_of (pt_id t) s) else 0)"
proof (cases "committed_of (pt_id t) s = []")
  case True
  then have "s' = s" using assms(1) by (simp add: settle_promo_def Let_def committed_of_def [symmetric])
  then show ?thesis using True assms(3) by (simp add: funded_discount_def)
next
  case False
  then have run: "settle_redemptions (if is_cash then rd_driver t else None) (pt_id t) (committed_of (pt_id t) s) s = Inr s'"
    using assms(1,4) by (simp add: settle_promo_def Let_def committed_of_def [symmetric])
  from settle_redemptions_effect [OF run, of u] assms(2,3) show ?thesis by auto
qed

lemma settlement_amounts_adds:
  assumes "settlement_amounts mk rs t = Inr a"
  shows "am_gross a = am_commission a + am_net a"
    and "fare_minor t < 2 ^ 63 \<Longrightarrow> 0 \<le> fare_minor t \<Longrightarrow> 0 \<le> discount_minor rs t \<Longrightarrow>
      (case pt_zone t of None \<Rightarrow> True | Some z \<Rightarrow> tax_rows_ok (mk_cards mk) z) \<Longrightarrow>
      fare_minor t = am_gross a + int_or (am_tax a) 0 + int_or (am_fee a) 0"
proof -
  obtain split rate c where
    sp: "settlement_split (mk_cards mk) (mk_zones mk) (mk_now mk) (pt_zone t) (pt_requested_vt t) (rd_snapshot t)
      (discount_minor rs t) (fare_minor t) (ride_currency t) = Inr split"
    and a: "a = \<lparr> am_gross = (case split of None \<Rightarrow> fare_minor t | Some p \<Rightarrow> sp_pretax p),
      am_tax = map_option sp_tax split, am_fee = map_option sp_fee split, am_rate = rate, am_commission = c,
      am_net = (case split of None \<Rightarrow> fare_minor t | Some p \<Rightarrow> sp_pretax p) - c \<rparr>"
    using assms unfolding settlement_amounts_def Let_def
    by (elim bind_res_elim option_res_elim) (simp only: lift_money_Inr sum.inject, rule that, assumption, rule sym)
  show "am_gross a = am_commission a + am_net a" by (simp add: a)
  assume h: "fare_minor t < 2 ^ 63" "0 \<le> fare_minor t" "0 \<le> discount_minor rs t"
    "case pt_zone t of None \<Rightarrow> True | Some z \<Rightarrow> tax_rows_ok (mk_cards mk) z"
  show "fare_minor t = am_gross a + int_or (am_tax a) 0 + int_or (am_fee a) 0"
  proof (cases split)
    case None
    then show ?thesis by (simp add: a int_or_def)
  next
    case (Some p)
    have "sp_pretax p + sp_tax p + sp_fee p = fare_minor t"
      using settlement_split_sum [OF sp [unfolded Some] h(3,2,1,4)] by blast
    with Some show ?thesis by (simp add: a int_or_def)
  qed
qed

text \<open>A settlement that writes: what it leaves.\<close>

lemma settled_once:
  assumes "credit_driver_wallet mk t s = Inr s'" and "rd_driver t = Some u"
    and "rd_end_rule t \<noteq> ''platform_funded''" and "KeyEarning (pt_id t) \<notin> lr_key ` set (bk_rows s)"
  obtains a s5 where "settlement_amounts mk (mb_redemptions s) t = Inr a"
    and "mb_settlements s5 = settlement_of u t a # mb_settlements s"
    and "balance s5 u = balance s u + settle_move a (rd_method t = ''cash'')"
    and "has_wallet u s5" and "mb_redemptions s5 = mb_redemptions s"
    and "0 \<le> am_commission a" and "0 \<le> am_gross a"
    and "bk_rows s5 = rev (settled_rows u (ride_currency t) a (rd_method t = ''cash'') (pt_id t)) @ bk_rows s"
    and "s' = after s5 (settle_promo t (rd_method t = ''cash'') s5)"
  using assms(1-3)
proof (cases rule: credit_driver_wallet_cases)
  case (again a)
  with assms(4) show ?thesis by simp
next
  case (fresh a s4 h s5)
  note i = insert_settlement_Some [OF fresh(4)]
  have w: "has_wallet u s4" using insert_rows_balance [OF fresh(3), of u] by (simp add: get_wallet_simps)
  have b: "balance s4 u = balance s u" using insert_rows_balance [OF fresh(3), of u] by (simp add: get_wallet_simps)
  show ?thesis
  proof (rule that [OF fresh(1)])
    show "mb_settlements s5 = settlement_of u t a # mb_settlements s"
      using i insert_rows_fields [OF fresh(3)] by simp
    show "balance s5 u = balance s u + settle_move a (rd_method t = ''cash'')"
      using i w b by (simp add: balance_move)
    show "has_wallet u s5" "mb_redemptions s5 = mb_redemptions s"
      using i w insert_rows_fields [OF fresh(3)] by simp_all
    show "0 \<le> am_commission a" "0 \<le> am_gross a" using i by (simp_all add: settlement_of_def)
    show "bk_rows s5 = rev (settled_rows u (ride_currency t) a (rd_method t = ''cash'') (pt_id t)) @ bk_rows s"
      using i insert_rows_rows [OF fresh(3)] by (simp add: get_wallet_simps)
  qed (rule fresh(5))
qed

lemma settled_key:
  assumes "credit_driver_wallet mk t s = Inr s'" and "rd_driver t = Some u" and "rd_end_rule t \<noteq> ''platform_funded''"
  shows "KeyEarning (pt_id t) \<in> lr_key ` set (bk_rows s') \<and> has_wallet u s'"
proof (cases "KeyEarning (pt_id t) \<in> lr_key ` set (bk_rows s)")
  case True
  show ?thesis using assms
  proof (cases rule: credit_driver_wallet_cases)
    case (again a)
    with True show ?thesis by (simp add: get_wallet_simps)
  qed (use True in simp)
next
  case False
  from assms False obtain a s5 where s5: "has_wallet u s5"
    and rows: "bk_rows s5 = rev (settled_rows u (ride_currency t) a (rd_method t = ''cash'') (pt_id t)) @ bk_rows s"
    and s': "s' = after s5 (settle_promo t (rd_method t = ''cash'') s5)" by (rule settled_once)
  have k: "KeyEarning (pt_id t) \<in> lr_key ` set (bk_rows s5)"
    by (simp add: rows settled_rows_def earning_row_def)
  show ?thesis
  proof (cases "settle_promo t (rd_method t = ''cash'') s5")
    case (Inl e)
    with s' k s5 show ?thesis by simp
  next
    case (Inr s6)
    from settle_promo_effect [OF Inr assms(2) s5 assms(3)] s' k Inr show ?thesis by (simp add: image_iff) blast
  qed
qed

end
