(* ===== verification/SettlementLaws.thy ===== *)
theory SettlementLaws
  imports Settlement
begin

text \<open>
  The laws of trip settlement, over single calls and over any history of completions, later
  payments, refunds and platform-funded ends: a trip is settled once, its amounts add up to the
  rider's charge, a cash trip paid through the platform leaves the driver the same net as an
  online one, a refund takes back what the trip gained, once, and the ledger is append-only.
\<close>

section \<open>The ledger is append-only\<close>

definition extends :: "money_books \<Rightarrow> money_books \<Rightarrow> bool" where
  "extends s s' = (set (bk_rows s) \<subseteq> set (bk_rows s') \<and> (\<forall>u. has_wallet u s \<longrightarrow> has_wallet u s'))"

lemma extends_refl [simp]: "extends s s"
  by (simp add: extends_def)

lemma extends_trans: "extends s s1 \<Longrightarrow> extends s1 s2 \<Longrightarrow> extends s s2"
  by (auto simp: extends_def)

lemma extends_wallet [simp]: "extends s (snd (get_wallet u s))"
  by (simp add: extends_def get_wallet_simps)

lemma extends_post: "post_row r s = Some s' \<Longrightarrow> extends s s'"
  by (auto simp: extends_def post_row_Some get_wallet_simps)

lemma extends_settlement: "insert_settlement r s = Some s' \<Longrightarrow> extends s s'"
  by (auto simp: extends_def dest!: insert_settlement_Some)

lemma extends_rows: "insert_rows rs s = Some s' \<Longrightarrow> extends s s'"
  by (auto simp: extends_def insert_rows_rows insert_rows_balance)

lemma extends_move [simp]: "extends s (move_balance u d s') = extends s s'"
  by (simp add: extends_def)

lemma extends_promo:
  assumes "settle_promo t is_cash s = Inr s'" and "\<And>u. rd_driver t = Some u \<Longrightarrow> has_wallet u s"
  shows "extends s s'"
proof (cases "committed_of (pt_id t) s = [] \<or> rd_end_rule t = ''platform_funded''")
  case True
  then show ?thesis using assms(1) by (auto simp: settle_promo_def Let_def committed_of_def [symmetric])
next
  case False
  then have run: "settle_redemptions (if is_cash then rd_driver t else None) (pt_id t) (committed_of (pt_id t) s) s = Inr s'"
    using assms(1) by (simp add: settle_promo_def Let_def committed_of_def [symmetric])
  have w: "(if is_cash then rd_driver t else None) = Some u \<Longrightarrow> has_wallet u s" for u
    using assms(2) by (simp split: if_splits)
  show ?thesis using settle_redemptions_effect [OF run w] by (simp add: extends_def)
qed

lemma extends_credit:
  assumes "credit_driver_wallet mk t s = Inr s'"
  shows "extends s s'"
proof (cases "rd_driver t = None \<or> rd_end_rule t = ''platform_funded''")
  case True
  with assms show ?thesis by (auto simp: credit_driver_wallet_def split: option.splits)
next
  case False
  then obtain u where u: "rd_driver t = Some u" "rd_end_rule t \<noteq> ''platform_funded''" by auto
  show ?thesis
    using assms u
  proof (cases rule: credit_driver_wallet_cases)
    case (again a)
    then show ?thesis by simp
  next
    case (fresh a s4 h s5)
    have s4: "extends s s4" using extends_trans [OF extends_wallet extends_rows [OF fresh(3)]] .
    have "extends s4 s5" using extends_settlement [OF fresh(4)] by (simp add: extends_def)
    with s4 have s5: "extends s s5" by (rule extends_trans)
    have w: "has_wallet u s5"
      using insert_settlement_Some [OF fresh(4)] insert_rows_balance [OF fresh(3), of u] by (simp add: get_wallet_simps)
    show ?thesis
    proof (cases "settle_promo t (rd_method t = ''cash'') s5")
      case (Inl e)
      with fresh(5) s5 show ?thesis by simp
    next
      case (Inr s6)
      with extends_promo [OF Inr] u(1) w s5 fresh(5) show ?thesis by (auto intro: extends_trans)
    qed
  qed
qed

lemma extends_defer: "settle_or_defer mk t s = Inr (d, s') \<Longrightarrow> extends s s'"
  by (auto simp: settle_or_defer_def intro: extends_credit split: sum.splits settle_error.splits)

lemma extends_collected: "credit_fare_collected t amount currency s = (d, s') \<Longrightarrow> extends s s'"
  by (auto simp: credit_fare_collected_def intro: extends_post split: option.splits if_splits)

lemma extends_paid:
  assumes "settle_paid_by_platform mk t amount currency s = Inr s'"
  shows "extends s s'"
proof -
  define s0 where "s0 = (case rd_driver t of None \<Rightarrow> s | Some u \<Rightarrow> snd (get_wallet u s))"
  have s0: "extends s s0" by (auto simp: s0_def split: option.splits)
  have "extends s0 s'"
  proof (cases "current_settlement (pt_id t) (mb_settlements s0)")
    case None
    then show ?thesis using assms
      by (auto simp: settle_paid_by_platform_def s0_def [symmetric] Let_def bind_res_Inr_iff intro: extends_defer)
  next
    case (Some cur)
    obtain d s1 where c: "credit_fare_collected t amount
        (case currency of None \<Rightarrow> ts_currency cur | Some c \<Rightarrow> if c = [] then ts_currency cur else c) s0 = (d, s1)"
      by fastforce
    from Some c show ?thesis using assms extends_collected [OF c]
      by (auto simp: settle_paid_by_platform_def s0_def [symmetric] Let_def
          intro: extends_trans extends_settlement split: if_splits bool.splits option.splits)
  qed
  with s0 show ?thesis by (rule extends_trans)
qed

lemma extends_reverse: "extends s (reverse_trip_earnings t s)"
proof (cases "rd_driver t")
  case None
  then show ?thesis by (simp add: reverse_trip_earnings_def)
next
  case (Some u)
  obtain w s1 where g: "get_wallet u s = (w, s1)" by fastforce
  then have "extends s s1" using extends_wallet [of s u] by simp
  with Some g show ?thesis
    by (auto simp: reverse_trip_earnings_def Let_def intro: extends_trans extends_post split: option.splits)
qed

lemma settle_step_extends: "settle_step s e = Inr s' \<Longrightarrow> extends s s'"
  by (cases e) (auto simp: bind_res_Inr_iff credit_platform_funded_def extends_reverse
      intro: extends_defer extends_paid extends_post split: option.splits)

lemma history_extends: "extends s (run_events settle_step s es)"
proof (induction es arbitrary: s)
  case Nil
  then show ?case by simp
next
  case (Cons e es)
  have "extends s (after s (settle_step s e))" by (cases "settle_step s e") (auto intro: settle_step_extends)
  with Cons.IH show ?case by (auto intro: extends_trans)
qed

lemma settled_again:
  assumes "KeyEarning (pt_id t) \<in> lr_key ` set (bk_rows s)" and "rd_driver t = Some u" and "has_wallet u s"
    and "credit_driver_wallet mk t s = Inr s'"
  shows "s' = s"
proof (cases "rd_end_rule t = ''platform_funded''")
  case True
  with assms show ?thesis by (simp add: credit_driver_wallet_def)
next
  case False
  obtain w where "bk_wallets s u = Some w" using assms(3) by (auto simp: has_wallet_def)
  note g = get_wallet_found [OF this]
  show ?thesis using assms(4,2) False
    by (cases rule: credit_driver_wallet_cases) (use assms(1) g in simp_all)
qed


lemma reversed_again:
  assumes "KeyReversal (pt_id t) \<in> lr_key ` set (bk_rows s)" and "rd_driver t = Some u" and "has_wallet u s"
  shows "reverse_trip_earnings t s = s"
proof -
  obtain w where "bk_wallets s u = Some w" using assms(3) by (auto simp: has_wallet_def)
  note g = get_wallet_found [OF this]
  have "post_row (reversal_row u (wl_currency w) n (pt_id t)) s = None" for n
    using assms(1) by (simp add: wallet_ledger.post_None reversal_row_def)
  then show ?thesis by (simp add: reverse_trip_earnings_def assms(2) g Let_def)
qed

lemma reversal_effect:
  assumes "rd_driver t = Some u" and "KeyReversal (pt_id t) \<notin> lr_key ` set (bk_rows s)"
    and "0 < trip_gain u (pt_id t) (bk_rows s)"
  shows "balance (reverse_trip_earnings t s) u = balance s u - trip_gain u (pt_id t) (bk_rows s)"
    and "KeyReversal (pt_id t) \<in> lr_key ` set (bk_rows (reverse_trip_earnings t s))"
    and "has_wallet u (reverse_trip_earnings t s)"
proof -
  obtain w s1 where g: "get_wallet u s = (w, s1)" by fastforce
  have s1: "bk_rows s1 = bk_rows s" "balance s1 u = balance s u" "has_wallet u s1"
    using get_wallet_simps [of u s] g by simp_all
  let ?r = "reversal_row u (wl_currency w) (trip_gain u (pt_id t) (bk_rows s)) (pt_id t)"
  have "post_row ?r s1 \<noteq> None" using assms(2) s1 by (simp add: wallet_ledger.post_None reversal_row_def)
  then obtain s2 where s2: "post_row ?r s1 = Some s2" by blast
  then have eq: "reverse_trip_earnings t s = s2" using assms(1,3) g s1 by (simp add: reverse_trip_earnings_def)
  show "balance (reverse_trip_earnings t s) u = balance s u - trip_gain u (pt_id t) (bk_rows s)"
    using wallet_ledger.post_funds [OF s2, of u] s1
    by (simp add: eq) (simp add: reversal_row_def weight_def counted_def signed_def)
  show "KeyReversal (pt_id t) \<in> lr_key ` set (bk_rows (reverse_trip_earnings t s))"
    using wallet_ledger.post_keys [OF s2] by (simp add: eq reversal_row_def)
  show "has_wallet u (reverse_trip_earnings t s)"
    using extends_post [OF s2] s1(3) by (simp add: eq extends_def)
qed

lemma settle_step_grown_promo: "settle_promo t is_cash s = Inr s' \<Longrightarrow> mb_settlements s' = mb_settlements s"
proof -
  have one: "mb_settlements q' = mb_settlements q" if "settle_redemption d trip r q = Inr q'" for d trip r q q'
    using that by (auto simp: settle_redemption_def Let_def bind_res_Inr_iff insert_row_Some
        split: option.splits if_splits)
  have "mb_settlements q' = mb_settlements q" if "settle_redemptions d trip rs q = Inr q'" for d trip rs q q'
    using that by (induction rs arbitrary: q) (auto simp: bind_res_Inr_iff dest: one)
  then show "settle_promo t is_cash s = Inr s' \<Longrightarrow> mb_settlements s' = mb_settlements s"
    by (auto simp: settle_promo_def Let_def split: if_splits)
qed

section \<open>Laws\<close>

text \<open>Claim C1. Settlement is exactly once: after a trip was credited to its driver, no later
  delivery of the completion, whatever the market, the method or the end rule by then and after
  whatever history of other settlements, refunds and payments, changes a row or a balance.\<close>

theorem settlement_exactly_once:
  assumes "credit_driver_wallet mk t s = Inr s1" and "rd_driver t = Some u" and "rd_end_rule t \<noteq> ''platform_funded''"
    and "h = run_events settle_step s1 es"
    and "pt_id t' = pt_id t" and "rd_driver t' = Some u" and "credit_driver_wallet mk' t' h = Inr s2"
  shows "s2 = h"
proof -
  have "KeyEarning (pt_id t') \<in> lr_key ` set (bk_rows h)" "has_wallet u h"
    using settled_key [OF assms(1-3)] history_extends [of s1 es] by (auto simp: assms(4,5) extends_def)
  from settled_again [OF this(1) assms(6) this(2) assms(7)] show ?thesis .
qed

definition demo_ride :: "int \<Rightarrow> string \<Rightarrow> unit ride" where
  "demo_ride trip method = \<lparr> pt_id = trip, pt_zone = None, pt_requested_vt = Some 7, pt_vehicle_vt = Some 7,
     pt_requested_at = Some 50, pt_percent_snapshot = Some (Dec 2000 (- 2)), pt_rule_id = Some 1,
     pt_rule_version = Some 1, rd_driver = Some 5, rd_method = method, rd_end_rule = [], rd_final = Some 20000,
     rd_estimated = Some 21000, rd_currency = Some ''INR'', rd_snapshot = None \<rparr>"

definition demo_market :: "unit market" where
  "demo_market = \<lparr> mk_rules = [], mk_cards = [], mk_zones = [], mk_found = None, mk_now = 60 \<rparr>"

definition no_books :: money_books where
  "no_books = \<lparr> bk_wallets = Map.empty, bk_rows = [], mb_settlements = [], mb_redemptions = [],
     mb_campaigns = Map.empty, mb_funded = [], mb_history = [] \<rparr>"

definition demo_amounts :: amounts where
  "demo_amounts = \<lparr> am_gross = 20000, am_tax = None, am_fee = None, am_rate = Dec 2000 (- 2),
     am_commission = 4000, am_net = 16000 \<rparr>"

lemma norm_inr: "norm_code (Some ''INR'') = ''INR''"
  by (rule norm_supported) (simp add: supported_def CURRENCIES_def)

lemma demo_ride_fields [simp]:
  "pt_id (demo_ride trip m) = trip" "rd_driver (demo_ride trip m) = Some 5" "rd_end_rule (demo_ride trip m) = []"
  "rd_method (demo_ride trip m) = m" "fare_minor (demo_ride trip m) = 20000" "pt_zone (demo_ride trip m) = None"
  "ride_currency (demo_ride trip m) = ''INR''" "discount_minor [] (demo_ride trip m) = 0"
  using norm_inr
  by (simp_all add: demo_ride_def fare_minor_def discount_minor_def ride_currency_def currency_for_trip_def
      normalize_currency_def falsy_def supported_def CURRENCIES_def)

lemma demo_settlement_amounts: "settlement_amounts demo_market [] (demo_ride trip m) = Inr demo_amounts"
proof -
  have sup: "is_supported (Some ''INR'')" using inr_exponent(1) exponent_supported by blast
  have c: "cents (of_int 20000 / 100 * dval (Dec 2000 (- 2)) / 100) = 4000"
    using cents.store_load [of 4000] by (simp add: dval_def)
  have "commission_minor 20000 (Dec 2000 (- 2)) (Some ''INR'') = Inr (Some 4000)"
    using commission_minor_value [of 20000 "Dec 2000 (- 2)" "Some ''INR''"] sup unfolding c by (simp add: fits_def)
  moreover have "commission_percent_for_trip demo_market (demo_ride trip m) = Inr (Dec 2000 (- 2))"
    by (simp add: commission_percent_for_trip_def commission_for_trip_def demo_ride_def priced_trip.defs)
  moreover have "settlement_split (mk_cards demo_market) (mk_zones demo_market) (mk_now demo_market) None
      (pt_requested_vt (demo_ride trip m)) (rd_snapshot (demo_ride trip m)) 0 20000 ''INR'' = Inr None"
    by (simp add: settlement_split_def demo_ride_def)
  ultimately show ?thesis by (simp add: settlement_amounts_def demo_amounts_def lift_money_def)
qed

lemmas demo_eval = credit_driver_wallet_def Let_def no_books_def demo_amounts_def get_wallet_def insert_row_def
  earning_row_def pass_rows_def pass_row_def move_balance_def insert_settlement_def settle_promo_def int_or_def

lemma demo_credit:
  "\<exists>s. credit_driver_wallet demo_market (demo_ride 9 m) no_books = Inr s
     \<and> balance s 5 = (if m = ''cash'' then - 4000 else 16000)"
  using demo_settlement_amounts [of 9 m]
  by (simp add: demo_eval balance_def)


theorem settlement_exactly_once_witness:
  "\<exists>s. credit_driver_wallet demo_market (demo_ride 9 ''cash'') no_books = Inr s
     \<and> (\<forall>s2. credit_driver_wallet demo_market (demo_ride 9 ''online'')
           (run_events settle_step s [RefundTrip (demo_ride 9 ''cash'')]) = Inr s2
         \<longrightarrow> s2 = run_events settle_step s [RefundTrip (demo_ride 9 ''cash'')])"
proof -
  obtain s where s: "credit_driver_wallet demo_market (demo_ride 9 ''cash'') no_books = Inr s"
    using demo_credit [of "''cash''"] by blast
  have "s2 = run_events settle_step s [RefundTrip (demo_ride 9 ''cash'')]"
    if run: "credit_driver_wallet demo_market (demo_ride 9 ''online'')
      (run_events settle_step s [RefundTrip (demo_ride 9 ''cash'')]) = Inr s2" for s2
    by (rule settlement_exactly_once [OF s _ _ refl _ _ run]) (simp_all only: demo_ride_fields, simp)
  with s show ?thesis by blast
qed

text \<open>Claim C4. What a settlement writes adds up: the gross is the commission and the driver's net,
  the rider's charge is the gross and the tax and fee lines, and the balance moves by the net of an
  online trip, or by what the driver of a cash trip owes out of the cash in hand (less the promo
  discount, when the platform pays it).\<close>

theorem settlement_adds_up:
  assumes "credit_driver_wallet mk t s = Inr s'" and "books_ok s" and "rd_driver t = Some u"
    and "rd_end_rule t \<noteq> ''platform_funded''" and "KeyEarning (pt_id t) \<notin> lr_key ` set (bk_rows s)"
    and "0 \<le> fare_minor t" and "fare_minor t < 2 ^ 63" and "0 \<le> discount_minor (mb_redemptions s) t"
    and "case pt_zone t of None \<Rightarrow> True | Some z \<Rightarrow> tax_rows_ok (mk_cards mk) z"
  shows "\<exists>r promo. mb_settlements s' = r # mb_settlements s \<and> ts_trip r = pt_id t \<and> ts_driver r = u
    \<and> ts_gross r = ts_commission r + ts_net r \<and> 0 \<le> ts_commission r
    \<and> fare_minor t = ts_gross r + int_or (ts_tax r) 0 + int_or (ts_fee r) 0
    \<and> promo \<in> {0, funded_discount (committed_of (pt_id t) s)}
    \<and> balance s' u = balance s u + (if rd_method t = ''cash''
        then promo - (ts_commission r + int_or (ts_tax r) 0 + int_or (ts_fee r) 0) else ts_net r)"
proof -
  let ?cash = "rd_method t = ''cash''"
  from assms(1,3-5) obtain a s5 where a: "settlement_amounts mk (mb_redemptions s) t = Inr a"
    and s5: "mb_settlements s5 = settlement_of u t a # mb_settlements s"
      "balance s5 u = balance s u + settle_move a ?cash" "has_wallet u s5" "mb_redemptions s5 = mb_redemptions s"
    and c: "0 \<le> am_commission a" and s': "s' = after s5 (settle_promo t ?cash s5)"
    by (rule settled_once)
  note adds = settlement_amounts_adds [OF a]
  have "mb_settlements s' = settlement_of u t a # mb_settlements s
     \<and> (\<exists>promo \<in> {0, if ?cash then funded_discount (committed_of (pt_id t) s) else 0}.
          balance s' u = balance s u + settle_move a ?cash + promo)"
  proof (cases "settle_promo t ?cash s5")
    case (Inl e)
    with s' s5 show ?thesis by simp
  next
    case (Inr s6)
    have "mb_settlements s6 = mb_settlements s5"
      using settle_step_grown_promo [OF Inr] .
    with settle_promo_effect [OF Inr assms(3) s5(3) assms(4)] s5 s' Inr show ?thesis
      by (simp add: committed_of_def)
  qed
  then obtain promo where row: "mb_settlements s' = settlement_of u t a # mb_settlements s"
    and p: "promo \<in> {0, if ?cash then funded_discount (committed_of (pt_id t) s) else 0}"
      "balance s' u = balance s u + settle_move a ?cash + promo" by blast
  show ?thesis
    by (rule exI [of _ "settlement_of u t a"], rule exI [of _ "if ?cash then promo else 0"])
      (use row p c adds assms(6-9) in \<open>auto simp: settlement_of_def settle_move_def split: if_splits\<close>)
qed

theorem settlement_adds_up_witness:
  "\<exists>s r. credit_driver_wallet demo_market (demo_ride 9 ''cash'') no_books = Inr s \<and> r \<in> set (mb_settlements s)
     \<and> ts_gross r = ts_commission r + ts_net r \<and> 20000 = ts_gross r + int_or (ts_tax r) 0 + int_or (ts_fee r) 0"
proof -
  obtain s where s: "credit_driver_wallet demo_market (demo_ride 9 ''cash'') no_books = Inr s"
    using demo_credit [of "''cash''"] by blast
  have nb: "mb_redemptions no_books = []" "bk_rows no_books = []" "books_ok no_books"
    by (simp_all add: no_books_def books_ok_def balance_def ledger_total_def)
  from settlement_adds_up [OF s, of 5] show ?thesis
    by (rule exE) (use s nb in auto)
qed

text \<open>Claim C9. After any history of completions, later payments, refunds and platform-funded ends,
  accepted or refused: every balance is the signed sum of its owner's counted rows, no idempotency
  key was used twice, no ledger row was changed or lost, and every version of every settlement is
  the row it was written as.\<close>

theorem settlement_history_sound:
  assumes "books_ok s" and "h = run_events settle_step s es"
  shows "(\<forall>u. balance h u = ledger_total h u) \<and> distinct (map lr_key (bk_rows h))
    \<and> set (bk_rows s) \<subseteq> set (bk_rows h)
    \<and> (\<forall>k. settlement_at k s \<noteq> None \<longrightarrow> settlement_at k h = settlement_at k s)"
  using settlements.run_inv [OF assms(1), of es] settlements.run_closed [OF assms(1), of _ es]
    history_extends [of s es]
  by (auto simp: books_ok_def extends_def assms(2))

theorem settlement_history_sound_witness:
  "\<exists>h. h = run_events settle_step no_books [CompleteTrip demo_market (demo_ride 9 ''cash''),
        PaidThroughPlatform demo_market (demo_ride 9 ''online'') 20000 None, RefundTrip (demo_ride 9 ''online'')]
     \<and> balance h 5 = ledger_total h 5"
proof -
  have "books_ok no_books" by (simp add: no_books_def books_ok_def balance_def ledger_total_def)
  from settlement_history_sound [OF this refl] show ?thesis by blast
qed

text \<open>Claim C25. A refund takes back exactly what the trip gained the driver, and takes it once: its
  delivery after any further history of the books changes nothing.\<close>

theorem refund_reverses_once:
  assumes "rd_driver t = Some u" and "KeyReversal (pt_id t) \<notin> lr_key ` set (bk_rows s)"
    and "0 < trip_gain u (pt_id t) (bk_rows s)"
    and "h = run_events settle_step (reverse_trip_earnings t s) es"
  shows "balance (reverse_trip_earnings t s) u = balance s u - trip_gain u (pt_id t) (bk_rows s)
    \<and> reverse_trip_earnings t h = h"
proof -
  note e = reversal_effect [OF assms(1-3)]
  have "KeyReversal (pt_id t) \<in> lr_key ` set (bk_rows h)" "has_wallet u h"
    using e(2,3) history_extends [of "reverse_trip_earnings t s" es] by (auto simp: assms(4) extends_def)
  with e(1) reversed_again [OF _ assms(1)] show ?thesis by simp
qed

theorem refund_reverses_once_witness:
  "\<exists>s. credit_driver_wallet demo_market (demo_ride 9 ''online'') no_books = Inr s
     \<and> balance s 5 = 16000 \<and> balance (reverse_trip_earnings (demo_ride 9 ''online'') s) 5 = 0"
proof -
  let ?t = "demo_ride 9 ''online''"
  obtain s where s: "credit_driver_wallet demo_market ?t no_books = Inr s" "balance s 5 = 16000"
    using demo_credit [of "''online''"] by auto
  have rows: "trip_gain 5 9 (bk_rows s) = 16000" "KeyReversal 9 \<notin> lr_key ` set (bk_rows s)"
    using s(1) demo_settlement_amounts [of 9 "''online''"]
    by (auto simp: demo_eval trip_gain_def trip_line_def trip_purpose_def signed_def)
  from refund_reverses_once [of ?t 5 s _ "[]", OF _ _ _ refl] rows s show ?thesis by auto
qed

end
