(* ===== verification/Payouts.thy ===== *)
theory Payouts
  imports Wallet Money
begin

text \<open>
  A driver's withdrawal from request to the bank: the request and the weekly run
  (\<open>driver/views.py\<close>, \<open>payments/weekly_payout.py\<close>, the recovery deductions of \<open>fraud/money.py\<close>),
  the release by a checker (\<open>approvals/executors.py\<close>), rejection and retry
  (\<open>payments/payout_actions.py\<close>), the dispatch to the gateway (\<open>driver/services.py\<close>), the provider's
  webhook (\<open>payments/views.py\<close>), reversal, conflict and its resolution by an adjustment
  (\<open>payments/payout_reversal.py\<close>, \<open>payout_conflict.py\<close>, \<open>finance_executors.py\<close>).

  Withdrawals are kept newest first, as the table orders them. What the gateway answers, the
  driver's UPI state, the fraud hold, the held rewards and the clock are arguments. \<open>failure_reason\<close>
  and the other texts, alerts and the UPI contact cache are not modelled; neither is the audit log,
  except the two facts the code reads back from it (a release, a resolution).
\<close>

datatype wd_status = WD_PENDING | WD_APPROVED | WD_REJECTED | WD_PROCESSED | WD_COMPLETED | WD_FAILED
  | WD_UNRESOLVED | WD_REVERSED | WD_CONFLICT

datatype wd_origin = ByDriver | Scheduled

record withdrawal =
  wd_id :: int
  wd_driver :: int
  wd_amount :: int
  wd_fee :: int
  wd_currency :: string
  wd_method :: string
  wd_status :: wd_status
  wd_payout_status :: "string option"
  wd_reference :: "string option"
  wd_failures :: nat
  wd_origin :: wd_origin

record recovery_debt =
  rd_id :: int
  rd_user :: int
  rd_request :: int
  rd_amount :: int
  rd_recovered :: int
  rd_uncollected :: int
  rd_currency :: string
  rd_closed :: bool

record payout_line =
  ph_withdrawal :: int
  ph_transaction :: "string option"
  ph_payment :: "string option"
  ph_status :: string
  ph_amount :: int

record payout_books = books +
  po_withdrawals :: "withdrawal list"
  po_next :: int
  po_released :: "int list"
  po_adjusted :: "(int \<times> int option) list"
  po_debts :: "recovery_debt list"
  po_lines :: "payout_line list"
  po_last :: "int \<rightharpoonup> int"

datatype payout_error = NotFound | InvalidStatus | NotFailed | NotApproved | PayoutHasReference
  | WalletBalanceTooLow | WalletNotFound | PayoutIntegrity | ManyLines | NotAvailable | PayoutOnHold
  | NoDestination | WithdrawalBlocked | InsufficientBalance | AmountBelowFee | FeeInvalid
  | BadAdjustment | CurrencyChanged | BalanceWouldGoNegative | PayoutNotFound | PayoutNotInConflict
  | ResolutionMismatch | WithdrawalNotPending | NotDue

section \<open>Reading and updating a withdrawal\<close>

definition find_wd :: "int \<Rightarrow> payout_books \<Rightarrow> withdrawal option" where
  "find_wd i s = find (\<lambda>w. wd_id w = i) (po_withdrawals s)"

definition set_wd :: "int \<Rightarrow> (withdrawal \<Rightarrow> withdrawal) \<Rightarrow> payout_books \<Rightarrow> payout_books" where
  "set_wd i f s = s\<lparr>po_withdrawals := map (\<lambda>w. if wd_id w = i then f w else w) (po_withdrawals s)\<rparr>"

definition has_open_conflict :: "int \<Rightarrow> payout_books \<Rightarrow> bool" where
  "has_open_conflict u s = (\<exists>w \<in> set (po_withdrawals s). wd_driver w = u \<and> wd_status w = WD_CONFLICT)"

definition open_status :: "wd_status \<Rightarrow> bool" where
  "open_status st = (st \<in> {WD_PENDING, WD_APPROVED, WD_PROCESSED, WD_UNRESOLVED, WD_CONFLICT})"

definition retry_key :: "int \<Rightarrow> ledger_key \<Rightarrow> bool" where
  "retry_key i k = (case k of KeyRetry j n \<Rightarrow> j = i | _ \<Rightarrow> False)"

definition retry_attempts :: "int \<Rightarrow> 'a books_scheme \<Rightarrow> nat" where
  "retry_attempts i s = length (filter (\<lambda>r. retry_key i (lr_key r)) (bk_rows s))"

section \<open>Recovery deductions\<close>

definition remaining_minor :: "recovery_debt \<Rightarrow> int" where
  "remaining_minor d = (if rd_closed d then 0 else max 0 (rd_amount d - rd_recovered d - rd_uncollected d))"

fun take_debts :: "int \<Rightarrow> recovery_debt list \<Rightarrow> (recovery_debt \<times> int) list" where
  "take_debts left [] = []"
| "take_debts left (d # ds) =
     (let take = min (remaining_minor d) left in
      if take > 0 then (d, take) # take_debts (left - take) ds else take_debts left ds)"

definition plan_deduction :: "recovery_debt list \<Rightarrow> int \<Rightarrow> int \<Rightarrow> int \<Rightarrow> int \<times> (recovery_debt \<times> int) list" where
  "plan_deduction owed payout lowest percent =
     (let debts = filter (\<lambda>d. remaining_minor d > 0) owed in
      if debts = [] \<or> payout \<le> 0 then (0, [])
      else let cap = min (payout * percent div 100) (max 0 (payout - max 0 lowest));
               plan = take_debts cap debts
           in (sum_by snd plan, plan))"

definition open_debts :: "int \<Rightarrow> payout_books \<Rightarrow> recovery_debt list" where
  "open_debts u s = sort_key rd_id (filter (\<lambda>d. rd_user d = u \<and> \<not> rd_closed d) (po_debts s))"

definition deduction_row :: "int \<Rightarrow> int \<Rightarrow> recovery_debt \<Rightarrow> int \<Rightarrow> ledger_row" where
  "deduction_row u i d amount = \<lparr> lr_user = u, lr_currency = rd_currency d, lr_amount = amount, lr_type = Debit,
     lr_status = TxnCompleted, lr_purpose = RewardRecovery, lr_ref = RefRecovery (rd_request d),
     lr_key = KeyDeduction (rd_id d) i \<rparr>"

definition collect_debt :: "int \<Rightarrow> recovery_debt \<Rightarrow> recovery_debt" where
  "collect_debt amount d = (let d1 = d\<lparr>rd_recovered := rd_recovered d + amount\<rparr> in
     if remaining_minor d1 \<le> 0 then d1\<lparr>rd_closed := True\<rparr> else d1)"

fun apply_deduction :: "int \<Rightarrow> int \<Rightarrow> (recovery_debt \<times> int) list \<Rightarrow> payout_books \<Rightarrow> payout_books option" where
  "apply_deduction u i [] s = Some s"
| "apply_deduction u i ((d, amount) # plan) s =
     (case insert_row (deduction_row u i d amount) s of
        None \<Rightarrow> None
      | Some s1 \<Rightarrow> apply_deduction u i plan
          (s1\<lparr>po_debts := map (\<lambda>q. if rd_id q = rd_id d then collect_debt amount q else q) (po_debts s1)\<rparr>))"

section \<open>Asking for a withdrawal\<close>

record payout_config =
  pc_minimum :: int
  pc_currency :: string
  pc_fee_percent :: decimal
  pc_recovery_percent :: int

definition withdrawal_fee :: "payout_config \<Rightarrow> int \<Rightarrow> int option" where
  "withdrawal_fee c amount =
     (if dec_le (pc_fee_percent c) (Dec 0 0) \<or> amount = 0 then Some 0
      else case dec_div (dec_mul (dec_of_int amount) (pc_fee_percent c)) (Dec 100 0) of
             None \<Rightarrow> None
           | Some x \<Rightarrow> map_option dec_to_int (dec_quantize x 0))"

text \<open>What the request reads about its driver: the country's rules, the fraud hold, whether there is
  a payout destination, the rewards under review, the currency a withdrawal is stamped with, the
  clock and the random part of the key.\<close>

record payout_request =
  pq_driver :: int
  pq_config :: "payout_config option"
  pq_hold :: bool
  pq_destination :: bool
  pq_held :: int
  pq_currency :: string
  pq_now :: int
  pq_nonce :: string

definition withdrawal_blocked :: "payout_request \<Rightarrow> payout_books \<Rightarrow> bool" where
  "withdrawal_blocked q s = (case po_last s (pq_driver q) of None \<Rightarrow> False
     | Some t \<Rightarrow> pq_now q < t + 7 * 24 * 3600)"

definition debit_row :: "int \<Rightarrow> string \<Rightarrow> int \<Rightarrow> int \<Rightarrow> ledger_key \<Rightarrow> ledger_row" where
  "debit_row u currency i amount key = \<lparr> lr_user = u, lr_currency = currency, lr_amount = amount, lr_type = Debit,
     lr_status = TxnPending, lr_purpose = WithdrawalDebit, lr_ref = RefWithdrawal i, lr_key = key \<rparr>"

text \<open>The rows, the balance and the deductions of a new withdrawal; the code lowers the balance by
  the gross between the two inserts.\<close>

definition open_withdrawal ::
  "payout_request \<Rightarrow> payout_config \<Rightarrow> int \<Rightarrow> string \<Rightarrow> wd_origin \<Rightarrow> int \<Rightarrow> payout_books \<Rightarrow> payout_error + payout_books" where
  "open_withdrawal q c lowest currency origin gross s =
     (let u = pq_driver q; i = po_next s;
          (deduct, plan) = plan_deduction (open_debts u s) gross lowest (pc_recovery_percent c);
          amount = gross - deduct
      in case withdrawal_fee c amount of
           None \<Rightarrow> Inl FeeInvalid
         | Some fee \<Rightarrow>
             if fee \<ge> amount then Inl AmountBelowFee
             else let w = \<lparr> wd_id = i, wd_driver = u, wd_amount = amount, wd_fee = fee, wd_currency = currency,
                      wd_method = ''upi'', wd_status = WD_PENDING, wd_payout_status = None, wd_reference = None,
                      wd_failures = 0, wd_origin = origin \<rparr>;
                    s1 = s\<lparr>po_withdrawals := w # po_withdrawals s, po_next := i + 1\<rparr>
               in case insert_row (debit_row u currency i amount (KeyWithdrawal i (pq_nonce q))) s1 of
                    None \<Rightarrow> Inl PayoutIntegrity
                  | Some s2 \<Rightarrow> (case apply_deduction u i plan (move_balance u (- gross) s2) of
                      None \<Rightarrow> Inl PayoutIntegrity | Some s3 \<Rightarrow> Inr s3))"

text \<open>\<open>driver_withdrawal_request\<close>. A refusal after the wallet was fetched leaves the wallet it
  may have created; \<open>AMOUNT_BELOW_FEE\<close> rolls back.\<close>

definition driver_withdrawal_request ::
  "payout_request \<Rightarrow> int \<Rightarrow> payout_books \<Rightarrow> (payout_error option) \<times> payout_books" where
  "driver_withdrawal_request q amount s =
     (case pq_config q of
        None \<Rightarrow> (Some NotAvailable, s)
      | Some c \<Rightarrow>
          if pq_hold q \<or> has_open_conflict (pq_driver q) s then (Some PayoutOnHold, s)
          else if \<not> pq_destination q then (Some NoDestination, s)
          else if withdrawal_blocked q s then (Some WithdrawalBlocked, s)
          else let (w, s1) = get_wallet (pq_driver q) s;
                   free = max 0 (wl_balance w - pq_held q)
               in if amount < pc_minimum c \<or> amount > free then (Some InsufficientBalance, s1)
                  else (case open_withdrawal q c (pc_minimum c) (pq_currency q) ByDriver amount s1 of
                          Inl e \<Rightarrow> (Some e, s) | Inr s2 \<Rightarrow> (None, s2)))"

text \<open>\<open>_create_one\<close> of the weekly run; \<open>pq_destination\<close> is not read there (the run skips a driver
  without a handle before), \<open>in_country\<close> compares the driver's payout country with the run's.\<close>

definition create_scheduled :: "payout_request \<Rightarrow> payout_config \<Rightarrow> bool \<Rightarrow> payout_books \<Rightarrow> payout_error + payout_books" where
  "create_scheduled q c in_country s =
     (let u = pq_driver q; lowest = max 1 (pc_minimum c) in
      case bk_wallets s u of
        None \<Rightarrow> Inl NotDue
      | Some w \<Rightarrow>
          if wl_currency w \<noteq> pc_currency c \<or> wl_balance w < lowest \<or> \<not> in_country
             \<or> (\<exists>x \<in> set (po_withdrawals s). wd_driver x = u \<and> open_status (wd_status x)) \<or> pq_hold q
          then Inl NotDue
          else let gross = wl_balance w - pq_held q
               in if gross < lowest then Inl NotDue
                  else open_withdrawal q c lowest (pc_currency c) Scheduled gross s)"

section \<open>Release, rejection, dispatch\<close>

definition approve_one :: "(int \<Rightarrow> bool) \<Rightarrow> int \<Rightarrow> payout_books \<Rightarrow> payout_error + payout_books" where
  "approve_one destination i s =
     (case find_wd i s of
        None \<Rightarrow> Inl WithdrawalNotPending
      | Some w \<Rightarrow>
          if wd_status w \<noteq> WD_PENDING then Inl WithdrawalNotPending
          else if \<not> destination (wd_driver w) then Inl NoDestination
          else if has_open_conflict (wd_driver w) s then Inl WithdrawalNotPending
          else Inr ((set_wd i (\<lambda>w. w\<lparr>wd_status := WD_APPROVED\<rparr>) s)\<lparr>po_released := i # po_released s\<rparr>))"

definition reject_row :: "withdrawal \<Rightarrow> ledger_row" where
  "reject_row w = \<lparr> lr_user = wd_driver w, lr_currency = wd_currency w, lr_amount = wd_amount w, lr_type = Credit,
     lr_status = TxnCompleted, lr_purpose = RefundRejectedWithdrawal, lr_ref = RefRejected (wd_id w),
     lr_key = KeyRejected (wd_id w) \<rparr>"

definition refunded_by :: "purpose \<Rightarrow> reference \<Rightarrow> payout_books \<Rightarrow> bool" where
  "refunded_by p ref s = (\<exists>r \<in> set (bk_rows s). lr_ref r = ref \<and> lr_purpose r = p \<and> lr_type r = Credit
     \<and> lr_status r = TxnCompleted)"

definition reject_one :: "int \<Rightarrow> payout_books \<Rightarrow> payout_error + payout_books" where
  "reject_one i s =
     (case find_wd i s of
        None \<Rightarrow> Inl NotFound
      | Some w \<Rightarrow>
          if wd_status w \<noteq> WD_PENDING then Inl InvalidStatus
          else if \<not> has_wallet (wd_driver w) s then Inl WalletNotFound
          else bind_res (if refunded_by RefundRejectedWithdrawal (RefRejected i) s then Inr s
                 else case insert_row (reject_row w) s of
                        None \<Rightarrow> Inl PayoutIntegrity
                      | Some s1 \<Rightarrow> Inr (move_balance (wd_driver w) (wd_amount w) s1))
               (\<lambda>s2. Inr (set_wd i (\<lambda>w. w\<lparr>wd_status := WD_REJECTED\<rparr>) s2)))"

text \<open>The bulk loop: each row in its own savepoint, a bad one skipped.\<close>

fun bulk_reject :: "int list \<Rightarrow> payout_books \<Rightarrow> payout_books" where
  "bulk_reject [] s = s"
| "bulk_reject (i # is) s = bulk_reject is (after s (reject_one i s))"

definition refund_failed_row :: "withdrawal \<Rightarrow> nat \<Rightarrow> ledger_row" where
  "refund_failed_row w n = \<lparr> lr_user = wd_driver w, lr_currency = wd_currency w, lr_amount = wd_amount w,
     lr_type = Credit, lr_status = TxnCompleted, lr_purpose = RefundFailedWithdrawal,
     lr_ref = RefFailed (wd_id w) n, lr_key = KeyFailed (wd_id w) n \<rparr>"

text \<open>\<open>refund_failed_withdrawal\<close> and \<open>refund_failed_payout\<close>: one refund per attempt, \<open>n\<close> the retries so
  far (\<open>failed_refund_reference\<close>). \<open>None\<close>: the wallet is missing or the key is taken.\<close>

definition refund_failed :: "withdrawal \<Rightarrow> payout_books \<Rightarrow> payout_books option" where
  "refund_failed w s =
     (let n = retry_attempts (wd_id w) s in
      if \<not> has_wallet (wd_driver w) s then None
      else if refunded_by RefundFailedWithdrawal (RefFailed (wd_id w) n) s then Some s
      else map_option (move_balance (wd_driver w) (wd_amount w)) (insert_row (refund_failed_row w n) s))"

definition RAILS :: "string list" where
  "RAILS = [''INR'']"

definition has_rail :: "string \<Rightarrow> bool" where
  "has_rail currency = (py_upper currency \<in> set RAILS)"

definition hold :: "withdrawal \<Rightarrow> withdrawal" where
  "hold w = w\<lparr>wd_payout_status := Some ''awaiting_rail''\<rparr>"

datatype upi_state = NoUpi | BadUpi | GoodUpi

datatype gateway_answer = NoGateway | Refused | NoPayoutId | Accepted string string | OutcomeUnknown | Crashed

record dispatch_env =
  de_upi :: "int \<Rightarrow> upi_state"
  de_gateway :: "int \<Rightarrow> gateway_answer"
  de_driver_currency :: "int \<Rightarrow> string"

datatype upi_result = DispatchUnknown | Sent withdrawal | NotSent withdrawal

definition one_failure :: "withdrawal \<Rightarrow> withdrawal" where
  "one_failure w = w\<lparr>wd_failures := wd_failures w + 1\<rparr>"

text \<open>\<open>initiate_upi_payout\<close>. The delay between retries is not here: its branch needs an earlier
  failure, and one failure is already the maximum.\<close>

definition upi_currency :: "dispatch_env \<Rightarrow> withdrawal \<Rightarrow> string" where
  "upi_currency env w = normalize_currency
     (Some (if wd_currency w = [] then de_driver_currency env (wd_driver w) else wd_currency w)) None"

definition send_upi :: "gateway_answer \<Rightarrow> withdrawal \<Rightarrow> upi_result" where
  "send_upi g w = (case g of
      NoGateway \<Rightarrow> NotSent (one_failure w)
    | Refused \<Rightarrow> NotSent (one_failure w)
    | NoPayoutId \<Rightarrow> NotSent (one_failure w)
    | Crashed \<Rightarrow> NotSent (one_failure w)
    | OutcomeUnknown \<Rightarrow> DispatchUnknown
    | Accepted pid st \<Rightarrow> Sent (w\<lparr>wd_reference := Some pid, wd_payout_status := Some st,
                              wd_status := WD_PROCESSED, wd_failures := 0\<rparr>))"

definition truthy_text :: "string option \<Rightarrow> bool" where
  "truthy_text t = (case t of None \<Rightarrow> False | Some x \<Rightarrow> x \<noteq> [])"

definition initiate_upi_payout :: "dispatch_env \<Rightarrow> withdrawal \<Rightarrow> upi_result" where
  "initiate_upi_payout env w =
     (if upi_currency env w \<noteq> ''INR'' then NotSent (one_failure w)
      else if de_upi env (wd_driver w) \<noteq> GoodUpi then NotSent (one_failure w)
      else if truthy_text (wd_reference w) then Sent w
      else if wd_failures w \<ge> 1 then NotSent w
      else send_upi (de_gateway env (wd_id w)) w)"

definition fail_and_refund :: "int \<Rightarrow> withdrawal \<Rightarrow> payout_books \<Rightarrow> payout_books" where
  "fail_and_refund i w s =
     (let s1 = set_wd i (\<lambda>_. w\<lparr>wd_status := WD_FAILED\<rparr>) s
      in case refund_failed w s1 of None \<Rightarrow> s1 | Some s2 \<Rightarrow> s2)"

definition trigger_payout_creation :: "dispatch_env \<Rightarrow> int \<Rightarrow> payout_books \<Rightarrow> payout_books" where
  "trigger_payout_creation env i s =
     (case find_wd i s of
        None \<Rightarrow> s
      | Some w \<Rightarrow>
          if wd_status w \<noteq> WD_APPROVED \<and> wd_status w \<noteq> WD_PROCESSED then s
          else if \<not> has_rail (wd_currency w) then set_wd i hold s
          else if wd_method w = ''bank'' then fail_and_refund i w s
          else if wd_method w = ''upi'' then
            (case initiate_upi_payout env w of
               DispatchUnknown \<Rightarrow> set_wd i (\<lambda>w. w\<lparr>wd_status := WD_UNRESOLVED\<rparr>) s
             | Sent w' \<Rightarrow> set_wd i (\<lambda>_. w'\<lparr>wd_status := WD_PROCESSED\<rparr>) s
             | NotSent w' \<Rightarrow> fail_and_refund i w' s)
          else fail_and_refund i w s)"

text \<open>\<open>execute_payout\<close>: approve each row, then dispatch each approved one.\<close>

fun approve_all :: "(int \<Rightarrow> bool) \<Rightarrow> int list \<Rightarrow> payout_books \<Rightarrow> int list \<times> payout_books" where
  "approve_all destination [] s = ([], s)"
| "approve_all destination (i # is) s =
     (case approve_one destination i s of
        Inl _ \<Rightarrow> approve_all destination is s
      | Inr s1 \<Rightarrow> (let (ids, s2) = approve_all destination is s1 in (i # ids, s2)))"

definition execute_payout ::
  "(int \<Rightarrow> bool) \<Rightarrow> dispatch_env \<Rightarrow> bool \<Rightarrow> int list \<Rightarrow> payout_books \<Rightarrow> payout_error + payout_books" where
  "execute_payout destination env single ids s =
     (let (approved, s1) = approve_all destination ids s in
      if single \<and> approved = [] then Inl WithdrawalNotPending
      else Inr (fold (trigger_payout_creation env) approved s1))"

definition release_awaiting_rail :: "dispatch_env \<Rightarrow> payout_books \<Rightarrow> payout_books" where
  "release_awaiting_rail env s =
     fold (trigger_payout_creation env)
       (map wd_id (filter (\<lambda>w. wd_status w = WD_APPROVED \<and> wd_payout_status w = Some ''awaiting_rail''
                              \<and> has_rail (wd_currency w)) (po_withdrawals s))) s"

definition retry_failed :: "dispatch_env \<Rightarrow> int \<Rightarrow> payout_books \<Rightarrow> payout_error + payout_books" where
  "retry_failed env i s =
     (case find_wd i s of
        None \<Rightarrow> Inl NotFound
      | Some w \<Rightarrow>
          if wd_status w \<noteq> WD_FAILED then Inl NotFailed
          else if i \<notin> set (po_released s) then Inl NotApproved
          else if truthy_text (wd_reference w) then Inl PayoutHasReference
          else if \<not> has_wallet (wd_driver w) s \<or> balance s (wd_driver w) < wd_amount w then Inl WalletBalanceTooLow
          else (case insert_row (debit_row (wd_driver w) (wd_currency w) i (wd_amount w)
                    (KeyRetry i (retry_attempts i s + 1))) s of
                  None \<Rightarrow> Inl PayoutIntegrity
                | Some s1 \<Rightarrow> Inr (trigger_payout_creation env i
                    (set_wd i (\<lambda>w. w\<lparr>wd_status := WD_APPROVED, wd_failures := 0\<rparr>)
                      (move_balance (wd_driver w) (- wd_amount w) s1)))))"

section \<open>The provider's webhook\<close>

text \<open>Python's \<open>int(text)\<close> on text without underscores.\<close>

definition py_int :: "string \<Rightarrow> int option" where
  "py_int t = (let (sign, ds) = split_sign (py_strip t)
     in if py_isdigit ds then Some (sign * int (digits_val ds)) else None)"

definition find_by_reference :: "string option \<Rightarrow> payout_books \<Rightarrow> withdrawal option" where
  "find_by_reference ref s = (if truthy_text ref
     then find (\<lambda>w. wd_reference w = ref) (po_withdrawals s) else None)"

definition find_by_own_reference :: "string option \<Rightarrow> payout_books \<Rightarrow> withdrawal option" where
  "find_by_own_reference ref s =
     (case ref of
        None \<Rightarrow> None
      | Some t \<Rightarrow>
          if starts_with ''withdrawal_'' t
          then (case py_int (takeWhile (\<lambda>c. c \<noteq> CHR ''_'') (drop 11 t)) of
                  None \<Rightarrow> None | Some i \<Rightarrow> find_wd i s)
          else None)"

definition webhook_withdrawal :: "string option \<Rightarrow> string option \<Rightarrow> payout_books \<Rightarrow> withdrawal option" where
  "webhook_withdrawal payout_id reference s =
     (case find_by_reference payout_id s of
        Some w \<Rightarrow> Some w
      | None \<Rightarrow> (case find_by_reference reference s of
            Some w \<Rightarrow> Some w
          | None \<Rightarrow> find_by_own_reference reference s))"

definition or_text :: "string option \<Rightarrow> string \<Rightarrow> string option" where
  "or_text t d = Some (if truthy_text t then the t else d)"

text \<open>\<open>get_or_create\<close> of a \<open>TransactionHistory\<close> line: two matching lines raise.\<close>

definition line_get_or_create ::
  "(payout_line \<Rightarrow> bool) \<Rightarrow> payout_line \<Rightarrow> payout_books \<Rightarrow> payout_error + payout_books" where
  "line_get_or_create same l s =
     (case filter same (po_lines s) of
        [] \<Rightarrow> Inr (s\<lparr>po_lines := l # po_lines s\<rparr>)
      | [_] \<Rightarrow> Inr s
      | _ \<Rightarrow> Inl ManyLines)"

text \<open>\<open>str(x)\<close> of a missing payout id is \<open>None\<close> spelt out.\<close>

definition py_str :: "string option \<Rightarrow> string" where
  "py_str t = (case t of None \<Rightarrow> ''None'' | Some x \<Rightarrow> x)"

definition refunded_status :: "wd_status \<Rightarrow> bool" where
  "refunded_status st = (st = WD_FAILED \<or> st = WD_REJECTED)"

definition freeze :: "string option \<Rightarrow> withdrawal \<Rightarrow> withdrawal" where
  "freeze status w = w\<lparr>wd_status := WD_CONFLICT, wd_payout_status := or_text status ''success''\<rparr>"

definition transfer_success ::
  "int \<Rightarrow> string option \<Rightarrow> string option \<Rightarrow> string option \<Rightarrow> withdrawal \<Rightarrow> payout_books \<Rightarrow> payout_error + payout_books" where
  "transfer_success now payout_id reference status w s =
     (let i = wd_id w in
      if wd_status w \<in> {WD_COMPLETED, WD_REVERSED, WD_CONFLICT} then Inr s
      else if refunded_status (wd_status w) then Inr (set_wd i (freeze status) s)
      else let s1 = set_wd i (\<lambda>w. w\<lparr>wd_status := WD_COMPLETED, wd_payout_status := or_text status ''success''\<rparr>) s;
               s2 = s1\<lparr>po_last := (po_last s1)(wd_driver w \<mapsto> now)\<rparr>;
               txn = (if truthy_text reference then py_str reference else py_str payout_id)
           in line_get_or_create (\<lambda>l. ph_withdrawal l = i \<and> ph_transaction l = Some txn)
                \<lparr> ph_withdrawal = i, ph_transaction = Some txn, ph_payment = Some (py_str payout_id),
                  ph_status = ''completed'', ph_amount = wd_amount w \<rparr> s2)"

text \<open>The body of a failure, shared by the two events that fail a payout.\<close>

definition fail_payout ::
  "string option \<Rightarrow> string \<Rightarrow> string option \<Rightarrow> withdrawal \<Rightarrow> payout_books \<Rightarrow> payout_error + payout_books" where
  "fail_payout status word payout_id w s =
     (let i = wd_id w;
          s1 = set_wd i (\<lambda>w. w\<lparr>wd_status := WD_FAILED, wd_payout_status := or_text status word,
                              wd_failures := wd_failures w + 1\<rparr>) s
      in case refund_failed w s1 of
           None \<Rightarrow> Inl PayoutIntegrity
         | Some s2 \<Rightarrow> line_get_or_create (\<lambda>l. ph_withdrawal l = i \<and> ph_payment l = Some (py_str payout_id))
             \<lparr> ph_withdrawal = i, ph_transaction = None, ph_payment = Some (py_str payout_id),
               ph_status = word, ph_amount = wd_amount w \<rparr> s2)"

definition transfer_failed ::
  "string option \<Rightarrow> string option \<Rightarrow> withdrawal \<Rightarrow> payout_books \<Rightarrow> payout_error + payout_books" where
  "transfer_failed payout_id status w s =
     (if wd_status w \<in> {WD_COMPLETED, WD_FAILED, WD_CONFLICT, WD_REVERSED} then Inr s
      else fail_payout status ''failed'' payout_id w s)"

definition payout_pending :: "string option \<Rightarrow> withdrawal \<Rightarrow> payout_books \<Rightarrow> payout_books" where
  "payout_pending status w s =
     (if wd_status w = WD_COMPLETED \<or> wd_status w = WD_FAILED then s
      else set_wd (wd_id w) (\<lambda>w. w\<lparr>wd_payout_status := or_text status ''pending''\<rparr>) s)"

definition reversed_row :: "withdrawal \<Rightarrow> ledger_row" where
  "reversed_row w = \<lparr> lr_user = wd_driver w, lr_currency = wd_currency w, lr_amount = wd_amount w, lr_type = Credit,
     lr_status = TxnCompleted, lr_purpose = RefundReversedWithdrawal, lr_ref = RefReversed (wd_id w),
     lr_key = KeyReversed (wd_id w) \<rparr>"

definition reverse_paid_payout :: "string option \<Rightarrow> withdrawal \<Rightarrow> payout_books \<Rightarrow> payout_books" where
  "reverse_paid_payout status w s =
     (case post_row (reversed_row w) s of
        None \<Rightarrow> snd (get_wallet (wd_driver w) s)
      | Some s1 \<Rightarrow> set_wd (wd_id w)
          (\<lambda>w. w\<lparr>wd_status := WD_REVERSED, wd_payout_status := or_text status ''reversed''\<rparr>) s1)"

definition reverse_conflict :: "string option \<Rightarrow> withdrawal \<Rightarrow> withdrawal" where
  "reverse_conflict status w = w\<lparr>wd_status := WD_FAILED, wd_payout_status := or_text status ''reversed''\<rparr>"

definition transfer_reversed ::
  "string option \<Rightarrow> string option \<Rightarrow> withdrawal \<Rightarrow> payout_books \<Rightarrow> payout_error + payout_books" where
  "transfer_reversed payout_id status w s =
     (if wd_status w = WD_COMPLETED then Inr (reverse_paid_payout status w s)
      else if wd_status w = WD_CONFLICT then Inr (set_wd (wd_id w) (reverse_conflict status) s)
      else if wd_status w = WD_FAILED \<or> wd_status w = WD_REVERSED then Inr s
      else fail_payout status ''reversed'' payout_id w s)"

datatype provider_event = EvSuccess | EvFailed | EvPending | EvReversed | EvOther

record provider_message =
  pm_event :: provider_event
  pm_payout_id :: "string option"
  pm_reference :: "string option"
  pm_status :: "string option"
  pm_now :: int

definition payout_webhook :: "provider_message \<Rightarrow> payout_books \<Rightarrow> payout_error + payout_books" where
  "payout_webhook m s =
     (if \<not> truthy_text (pm_payout_id m) \<and> \<not> truthy_text (pm_reference m) then Inr s
      else case webhook_withdrawal (pm_payout_id m) (pm_reference m) s of
             None \<Rightarrow> Inr s
           | Some w \<Rightarrow> (case pm_event m of
                 EvSuccess \<Rightarrow> transfer_success (pm_now m) (pm_payout_id m) (pm_reference m) (pm_status m) w s
               | EvFailed \<Rightarrow> transfer_failed (pm_payout_id m) (pm_status m) w s
               | EvPending \<Rightarrow> Inr (payout_pending (pm_status m) w s)
               | EvReversed \<Rightarrow> transfer_reversed (pm_payout_id m) (pm_status m) w s
               | EvOther \<Rightarrow> Inr s))"

section \<open>Adjustments and the resolution of a conflict\<close>

record adjustment =
  ad_request :: int
  ad_driver :: "int option"
  ad_amount :: int
  ad_direction :: string
  ad_currency :: string
  ad_withdrawal :: "int option"
  ad_gateway_id :: "string option"

definition adjustment_row :: "int \<Rightarrow> string \<Rightarrow> adjustment \<Rightarrow> ledger_row" where
  "adjustment_row u currency a = \<lparr> lr_user = u, lr_currency = currency, lr_amount = ad_amount a,
     lr_type = (if ad_direction a = ''credit'' then Credit else Debit), lr_status = TxnCompleted,
     lr_purpose = BalanceAdjustment, lr_ref = RefAdjustment (ad_request a), lr_key = KeyAdjustment (ad_request a) \<rparr>"

definition check_resolution :: "int \<Rightarrow> adjustment \<Rightarrow> int \<Rightarrow> payout_books \<Rightarrow> payout_error + withdrawal" where
  "check_resolution u a i s =
     (case find_wd i s of
        None \<Rightarrow> Inl PayoutNotFound
      | Some w \<Rightarrow>
          if wd_driver w \<noteq> u then Inl PayoutNotFound
          else if wd_status w \<noteq> WD_CONFLICT then Inl PayoutNotInConflict
          else if ad_direction a \<noteq> ''debit'' \<or> ad_amount a \<noteq> wd_amount w \<or> ad_currency a \<noteq> wd_currency w
          then Inl ResolutionMismatch
          else Inr w)"

definition resolve_paid :: "withdrawal \<Rightarrow> string option \<Rightarrow> payout_books \<Rightarrow> payout_books" where
  "resolve_paid w gateway_id s =
     (let s1 = set_wd (wd_id w) (\<lambda>w. w\<lparr>wd_status := WD_COMPLETED\<rparr>) s
      in s1\<lparr>po_lines := \<lparr> ph_withdrawal = wd_id w, ph_transaction = None,
            ph_payment = Some (if truthy_text gateway_id then the gateway_id
                               else if truthy_text (wd_reference w) then the (wd_reference w) else []),
            ph_status = ''completed'', ph_amount = wd_amount w \<rparr> # po_lines s1\<rparr>)"

definition truthy_int :: "int option \<Rightarrow> bool" where
  "truthy_int v = (case v of None \<Rightarrow> False | Some n \<Rightarrow> n \<noteq> 0)"

definition execute_driver_adjustment :: "adjustment \<Rightarrow> payout_books \<Rightarrow> payout_error + payout_books" where
  "execute_driver_adjustment a s =
     (if ad_amount a \<le> 0 \<or> ad_direction a \<notin> {''credit'', ''debit''} then Inl BadAdjustment
      else case ad_driver a of
        None \<Rightarrow> Inl NotFound
      | Some u \<Rightarrow>
         (case bk_wallets s u of
            None \<Rightarrow> Inl WalletNotFound
          | Some w \<Rightarrow>
              if KeyAdjustment (ad_request a) \<in> lr_key ` set (bk_rows s) then Inr s
              else if wl_currency w \<noteq> ad_currency a then Inl CurrencyChanged
              else if ad_direction a = ''debit'' \<and> wl_balance w - ad_amount a < 0 \<and> \<not> truthy_int (ad_withdrawal a)
              then Inl BalanceWouldGoNegative
              else (case post_row (adjustment_row u (wl_currency w) a) s of
                      None \<Rightarrow> Inl PayoutIntegrity
                    | Some s1 \<Rightarrow>
                        if truthy_int (ad_withdrawal a)
                        then bind_res (check_resolution u a (the (ad_withdrawal a)) s1) (\<lambda>x.
                          Inr ((resolve_paid x (ad_gateway_id a) s1)
                            \<lparr>po_adjusted := (ad_request a, Some (wd_id x)) # po_adjusted s1\<rparr>))
                        else Inr (s1\<lparr>po_adjusted := (ad_request a, None) # po_adjusted s1\<rparr>))))"

end
