(* ===== verification/PayoutLaws.thy ===== *)
theory PayoutLaws
  imports Payouts
begin

text \<open>
  The laws of payouts: over any history of requests, weekly runs, releases, rejections, dispatches,
  retries, webhooks and adjustments the rows written for a withdrawal cancel out exactly when its
  status says the money is back with the driver, and take the amount once when it does not; a
  repeated webhook changes nothing; a failure reported for a rejected withdrawal is the one message
  that breaks this.

  \<open>about_rows s i\<close> is the part of the ledger written for withdrawal \<open>i\<close>: its debits, its refunds and
  the adjustment that resolved it. Every operation is shown to touch the part of one withdrawal.
\<close>

section \<open>The rows of a withdrawal\<close>

fun about :: "(int \<times> int option) list \<Rightarrow> int \<Rightarrow> ledger_key \<Rightarrow> bool" where
  "about adj i (KeyWithdrawal j n) = (j = i)"
| "about adj i (KeyRetry j n) = (j = i)"
| "about adj i (KeyFailed j n) = (j = i)"
| "about adj i (KeyRejected j) = (j = i)"
| "about adj i (KeyReversed j) = (j = i)"
| "about adj i (KeyAdjustment q) = ((q, Some i) \<in> set adj)"
| "about adj i k = False"

definition about_rows :: "payout_books \<Rightarrow> int \<Rightarrow> ledger_row list" where
  "about_rows s i = filter (\<lambda>r. about (po_adjusted s) i (lr_key r)) (bk_rows s)"

definition attempts_in :: "int \<Rightarrow> ledger_row list \<Rightarrow> nat" where
  "attempts_in i rows = length (filter (\<lambda>r. retry_key i (lr_key r)) rows)"

definition holds_money :: "wd_status \<Rightarrow> bool" where
  "holds_money st = (st \<in> {WD_PENDING, WD_APPROVED, WD_PROCESSED, WD_COMPLETED, WD_UNRESOLVED})"

definition was_failed :: "wd_status \<Rightarrow> bool" where
  "was_failed st = (st \<in> {WD_FAILED, WD_CONFLICT, WD_COMPLETED, WD_REVERSED})"

definition wd_sound :: "withdrawal \<Rightarrow> ledger_row list \<Rightarrow> bool" where
  "wd_sound w rows =
     (sum_by weight rows = (if holds_money (wd_status w) then - wd_amount w else 0)
      \<and> (\<forall>n. KeyFailed (wd_id w) n \<in> lr_key ` set rows \<longrightarrow>
            n \<le> attempts_in (wd_id w) rows \<and> (n = attempts_in (wd_id w) rows \<longrightarrow> was_failed (wd_status w)))
      \<and> (KeyRejected (wd_id w) \<in> lr_key ` set rows \<longrightarrow> wd_status w \<noteq> WD_PENDING)
      \<and> (KeyReversed (wd_id w) \<in> lr_key ` set rows \<longrightarrow> wd_status w = WD_REVERSED))"

definition row_wf :: "ledger_row \<Rightarrow> bool" where
  "row_wf r = ((\<forall>i n. lr_ref r = RefFailed i n \<longrightarrow> lr_key r = KeyFailed i n)
     \<and> (\<forall>i. lr_ref r = RefRejected i \<longrightarrow> lr_key r = KeyRejected i))"

definition payout_inv :: "payout_books \<Rightarrow> bool" where
  "payout_inv s = (books_ok s \<and> (\<forall>r \<in> set (bk_rows s). row_wf r)
     \<and> distinct (map wd_id (po_withdrawals s))
     \<and> (\<forall>w \<in> set (po_withdrawals s). wd_id w < po_next s \<and> has_wallet (wd_driver w) s
          \<and> wd_sound w (about_rows s (wd_id w)))
     \<and> (\<forall>i \<ge> po_next s. about_rows s i = [])
     \<and> (\<forall>p \<in> set (po_adjusted s). KeyAdjustment (fst p) \<in> lr_key ` set (bk_rows s)))"

section \<open>Field facts\<close>

lemma po_extension [simp]:
  "books_ok (s\<lparr>po_withdrawals := a\<rparr>) = books_ok s" "has_wallet u (s\<lparr>po_withdrawals := a\<rparr>) = has_wallet u s"
  "books_ok (s\<lparr>po_next := b\<rparr>) = books_ok s" "has_wallet u (s\<lparr>po_next := b\<rparr>) = has_wallet u s"
  "books_ok (s\<lparr>po_released := c\<rparr>) = books_ok s" "has_wallet u (s\<lparr>po_released := c\<rparr>) = has_wallet u s"
  "books_ok (s\<lparr>po_adjusted := d\<rparr>) = books_ok s" "has_wallet u (s\<lparr>po_adjusted := d\<rparr>) = has_wallet u s"
  "books_ok (s\<lparr>po_debts := e\<rparr>) = books_ok s" "has_wallet u (s\<lparr>po_debts := e\<rparr>) = has_wallet u s"
  "books_ok (s\<lparr>po_lines := f\<rparr>) = books_ok s" "has_wallet u (s\<lparr>po_lines := f\<rparr>) = has_wallet u s"
  "books_ok (s\<lparr>po_last := g\<rparr>) = books_ok s" "has_wallet u (s\<lparr>po_last := g\<rparr>) = has_wallet u s"
  by (simp_all add: books_ok_def balance_def ledger_total_def has_wallet_def)

lemma po_balance [simp]:
  "balance (s\<lparr>po_withdrawals := a\<rparr>) u = balance s u" "balance (s\<lparr>po_next := b\<rparr>) u = balance s u"
  "balance (s\<lparr>po_released := c\<rparr>) u = balance s u" "balance (s\<lparr>po_adjusted := d\<rparr>) u = balance s u"
  "balance (s\<lparr>po_debts := e\<rparr>) u = balance s u" "balance (s\<lparr>po_lines := f\<rparr>) u = balance s u"
  "balance (s\<lparr>po_last := g\<rparr>) u = balance s u"
  by (simp_all add: balance_def)

lemma po_fields [simp]:
  "po_withdrawals (move_balance u d s) = po_withdrawals s" "po_next (move_balance u d s) = po_next s"
  "po_adjusted (move_balance u d s) = po_adjusted s" "po_withdrawals (snd (get_wallet u s)) = po_withdrawals s"
  "po_next (snd (get_wallet u s)) = po_next s" "po_adjusted (snd (get_wallet u s)) = po_adjusted s"
  by (simp_all add: move_balance_def get_wallet_def Let_def split: option.splits)

lemma set_wd_fields [simp]:
  "books_ok (set_wd i f s) = books_ok s" "has_wallet u (set_wd i f s) = has_wallet u s"
  "bk_rows (set_wd i f s) = bk_rows s" "po_next (set_wd i f s) = po_next s"
  "po_adjusted (set_wd i f s) = po_adjusted s" "balance (set_wd i f s) u = balance s u"
  "po_lines (set_wd i f s) = po_lines s" "po_lines (move_balance u d s) = po_lines s"
  "po_withdrawals (set_wd i f s) = map (\<lambda>w. if wd_id w = i then f w else w) (po_withdrawals s)"
  by (simp_all add: set_wd_def move_balance_def)

lemma attempts_about: "retry_attempts i s = attempts_in i (about_rows s i)"
proof -
  have "retry_key i k \<Longrightarrow> about adj i k" for k adj by (cases k) (simp_all add: retry_key_def)
  then have "filter (\<lambda>r. retry_key i (lr_key r)) rows
      = filter (\<lambda>r. retry_key i (lr_key r)) (filter (\<lambda>r. about adj i (lr_key r)) rows)" for rows adj
    by (auto intro!: filter_cong)
  from this [of "bk_rows s" "po_adjusted s"] show ?thesis by (simp add: retry_attempts_def attempts_in_def about_rows_def)
qed

lemma about_rows_cong [simp]:
  "about_rows (set_wd j f s) i = about_rows s i" "about_rows (move_balance u d s) i = about_rows s i"
  "about_rows (snd (get_wallet u s)) i = about_rows s i" "about_rows (s\<lparr>po_withdrawals := a\<rparr>) i = about_rows s i"
  "about_rows (s\<lparr>po_next := b\<rparr>) i = about_rows s i" "about_rows (s\<lparr>po_released := c\<rparr>) i = about_rows s i"
  "about_rows (s\<lparr>po_debts := e\<rparr>) i = about_rows s i" "about_rows (s\<lparr>po_lines := f'\<rparr>) i = about_rows s i"
  "about_rows (s\<lparr>po_last := g\<rparr>) i = about_rows s i"
  by (simp_all add: about_rows_def get_wallet_simps)

lemma about_rows_insert:
  "insert_row r s = Some s' \<Longrightarrow>
     about_rows s' i = (if about (po_adjusted s) i (lr_key r) then r # about_rows s i else about_rows s i)"
  by (auto simp: insert_row_Some about_rows_def)

lemma insert_row_po:
  "insert_row r s = Some s' \<Longrightarrow> po_withdrawals s' = po_withdrawals s \<and> po_next s' = po_next s
     \<and> po_adjusted s' = po_adjusted s \<and> (\<forall>u. has_wallet u s' = has_wallet u s)"
  by (auto simp: insert_row_Some)

lemma find_wd_mem: "find_wd i s = Some w \<Longrightarrow> w \<in> set (po_withdrawals s) \<and> wd_id w = i"
  by (auto simp: find_wd_def find_Some_iff)

lemma find_in: "find P xs = Some w \<Longrightarrow> w \<in> set xs"
  by (auto simp: find_Some_iff)

lemma webhook_wd_mem: "webhook_withdrawal p r s = Some w \<Longrightarrow> w \<in> set (po_withdrawals s)"
  by (auto simp: webhook_withdrawal_def find_by_reference_def find_by_own_reference_def
      dest: find_in find_wd_mem split: option.splits if_splits)

section \<open>Changing one withdrawal\<close>

lemma inv_update:
  assumes inv: "payout_inv s" and w: "w \<in> set (po_withdrawals s)"
    and ws: "po_withdrawals s' = map (\<lambda>x. if wd_id x = wd_id w then f x else x) (po_withdrawals s)"
    and f: "wd_id (f w) = wd_id w" "wd_driver (f w) = wd_driver w"
    and next': "po_next s' = po_next s" and ok: "books_ok s'" "\<forall>r \<in> set (bk_rows s'). row_wf r"
    and wal: "\<And>u. has_wallet u s \<Longrightarrow> has_wallet u s'"
    and others: "\<And>j. j \<noteq> wd_id w \<Longrightarrow> about_rows s' j = about_rows s j"
    and adj: "\<forall>p \<in> set (po_adjusted s'). KeyAdjustment (fst p) \<in> lr_key ` set (bk_rows s')"
    and sound: "wd_sound (f w) (about_rows s' (wd_id w))"
  shows "payout_inv s'"
proof -
  have d: "distinct (map wd_id (po_withdrawals s))" using inv by (simp add: payout_inv_def)
  have only: "x = w" if "x \<in> set (po_withdrawals s)" "wd_id x = wd_id w" for x
    using d w that by (metis distinct_map inj_onD)
  have ids: "map wd_id (po_withdrawals s') = map wd_id (po_withdrawals s)"
    unfolding ws using f(1) by (auto dest!: only)
  have lt: "wd_id w < po_next s" using inv w by (auto simp: payout_inv_def)
  have "wd_id x < po_next s' \<and> has_wallet (wd_driver x) s' \<and> wd_sound x (about_rows s' (wd_id x))"
    if "x \<in> set (po_withdrawals s')" for x
  proof -
    from that ws obtain y where y: "y \<in> set (po_withdrawals s)" "x = (if wd_id y = wd_id w then f y else y)"
      by auto
    show ?thesis
    proof (cases "wd_id y = wd_id w")
      case True
      with y only have "x = f w" by auto
      with f sound next' wal w inv show ?thesis by (auto simp: payout_inv_def)
    next
      case False
      with y have "x = y" by simp
      with False y others next' wal inv show ?thesis by (auto simp: payout_inv_def)
    qed
  qed
  moreover have "about_rows s' i = []" if "po_next s' \<le> i" for i
    using that inv lt others [of i] by (auto simp: payout_inv_def next')
  ultimately show ?thesis using ids d ok adj by (simp add: payout_inv_def)
qed

text \<open>A change of the withdrawal alone.\<close>

lemma inv_set_wd:
  assumes "payout_inv s" and "w \<in> set (po_withdrawals s)" and "wd_id w = i"
    and "wd_id (f w) = i" "wd_driver (f w) = wd_driver w" "wd_sound (f w) (about_rows s i)"
  shows "payout_inv (set_wd i f s)"
  by (rule inv_update [OF assms(1,2), where f = f]) (use assms in \<open>auto simp: payout_inv_def\<close>)

lemma inv_sound: "payout_inv s \<Longrightarrow> w \<in> set (po_withdrawals s) \<Longrightarrow> wd_sound w (about_rows s (wd_id w))"
  by (simp add: payout_inv_def)

lemma inv_wallet: "payout_inv s \<Longrightarrow> w \<in> set (po_withdrawals s) \<Longrightarrow> has_wallet (wd_driver w) s"
  by (simp add: payout_inv_def)

lemma inv_refunded:
  assumes "payout_inv s"
  shows "refunded_by p (RefFailed i n) s \<Longrightarrow> KeyFailed i n \<in> lr_key ` set (bk_rows s)"
    and "refunded_by p (RefRejected i) s \<Longrightarrow> KeyRejected i \<in> lr_key ` set (bk_rows s)"
proof -
  have wf: "r \<in> set (bk_rows s) \<Longrightarrow> row_wf r" for r using assms by (simp add: payout_inv_def)
  show "refunded_by p (RefFailed i n) s \<Longrightarrow> KeyFailed i n \<in> lr_key ` set (bk_rows s)"
    unfolding refunded_by_def row_wf_def using wf [unfolded row_wf_def] by (metis imageI)
  show "refunded_by p (RefRejected i) s \<Longrightarrow> KeyRejected i \<in> lr_key ` set (bk_rows s)"
    unfolding refunded_by_def row_wf_def using wf [unfolded row_wf_def] by (metis imageI)
qed

lemma inv_extension [simp]:
  "payout_inv (s\<lparr>po_released := c\<rparr>) = payout_inv s" "payout_inv (s\<lparr>po_debts := e\<rparr>) = payout_inv s"
  "payout_inv (s\<lparr>po_lines := f\<rparr>) = payout_inv s" "payout_inv (s\<lparr>po_last := g\<rparr>) = payout_inv s"
  by (simp_all add: payout_inv_def)

lemma inv_get_wallet: "payout_inv s \<Longrightarrow> payout_inv (snd (get_wallet u s))"
  by (auto simp: payout_inv_def get_wallet_ok get_wallet_simps)

text \<open>A row of the withdrawal and its status, moved together.\<close>

lemma inv_row:
  assumes inv: "payout_inv s" and w: "w \<in> set (po_withdrawals s)" and i: "wd_id w = i"
    and r: "insert_row r s = Some s1" "lr_user r = u" "row_wf r" "has_wallet u s"
    and key: "\<And>j. about (po_adjusted s) j (lr_key r) \<longleftrightarrow> j = i"
    and f: "wd_id (f w) = i" "wd_driver (f w) = wd_driver w" "wd_sound (f w) (r # about_rows s i)"
  shows "payout_inv (set_wd i f (move_balance u (weight r) s1))"
proof (rule inv_update [OF inv w, where f = f])
  note po = insert_row_po [OF r(1)]
  have "insert_rows [r] s = Some s1" using r(1) by simp
  then show "books_ok (set_wd i f (move_balance u (weight r) s1))"
    using post_rows_ok [of s u "[r]" s1] inv r(2,4) by (simp add: payout_inv_def)
  show "\<forall>q \<in> set (bk_rows (set_wd i f (move_balance u (weight r) s1))). row_wf q"
    using inv r(1,3) by (auto simp: payout_inv_def insert_row_Some)
  show "about_rows (set_wd i f (move_balance u (weight r) s1)) j = about_rows s j" if "j \<noteq> wd_id w" for j
    using that i key by (simp add: about_rows_insert [OF r(1)])
  show "wd_sound (f w) (about_rows (set_wd i f (move_balance u (weight r) s1)) (wd_id w))"
    using f(3) i key by (simp add: about_rows_insert [OF r(1)])
  show "\<forall>p \<in> set (po_adjusted (set_wd i f (move_balance u (weight r) s1))).
      KeyAdjustment (fst p) \<in> lr_key ` set (bk_rows (set_wd i f (move_balance u (weight r) s1)))"
    using inv po r(1) by (auto simp: payout_inv_def insert_row_Some)
qed (use f i insert_row_po [OF r(1)] in auto)

section \<open>Each operation\<close>

lemma sound_status:
  assumes "wd_sound w rows" and "wd_id w' = wd_id w" "wd_amount w' = wd_amount w"
    and "holds_money (wd_status w') = holds_money (wd_status w)"
    and "was_failed (wd_status w) \<longrightarrow> was_failed (wd_status w')"
    and "wd_status w' = WD_PENDING \<longrightarrow> wd_status w = WD_PENDING"
    and "wd_status w = WD_REVERSED \<longrightarrow> wd_status w' = WD_REVERSED"
  shows "wd_sound w' rows"
  using assms by (auto simp: wd_sound_def)

lemmas status_sets = holds_money_def was_failed_def

lemma row_weights [simp]:
  "weight (refund_failed_row w n) = wd_amount w" "weight (reject_row w) = wd_amount w"
  "weight (reversed_row w) = wd_amount w" "weight (debit_row u c i a k) = - a"
  "weight (deduction_row u i d b) = - b"
  "lr_user (refund_failed_row w n) = wd_driver w" "lr_user (reject_row w) = wd_driver w"
  "lr_user (reversed_row w) = wd_driver w" "lr_user (debit_row u c i a k) = u" "lr_user (deduction_row u i d b) = u"
  "lr_key (refund_failed_row w n) = KeyFailed (wd_id w) n" "lr_key (reject_row w) = KeyRejected (wd_id w)"
  "lr_key (reversed_row w) = KeyReversed (wd_id w)" "lr_key (debit_row u c i a k) = k"
  "lr_key (deduction_row u i d b) = KeyDeduction (rd_id d) i"
  "row_wf (refund_failed_row w n)" "row_wf (reject_row w)" "row_wf (reversed_row w)"
  "row_wf (debit_row u c i a k)" "row_wf (deduction_row u i d b)"
  by (simp_all add: weight_def counted_def signed_def refund_failed_row_def reject_row_def reversed_row_def
      debit_row_def deduction_row_def row_wf_def)

lemma insert_row_set: "insert_row r (set_wd i f s) = map_option (set_wd i f) (insert_row r s)"
  by (simp add: insert_row_def set_wd_def)

lemma move_set: "move_balance u d (set_wd i f s) = set_wd i f (move_balance u d s)"
  by (simp add: move_balance_def set_wd_def)

lemma refund_set: "refund_failed w (set_wd i f s) = map_option (set_wd i f) (refund_failed w s)"
  by (auto simp: refund_failed_def Let_def retry_attempts_def refunded_by_def insert_row_set move_set
      option.map_comp comp_def)

lemma key_in_about: "k \<in> lr_key ` set (bk_rows s) \<Longrightarrow> about (po_adjusted s) i k \<Longrightarrow> k \<in> lr_key ` set (about_rows s i)"
  by (auto simp: about_rows_def)

lemma refund_fresh:
  assumes "payout_inv s" and "w \<in> set (po_withdrawals s)" and "\<not> was_failed (wd_status w)"
  obtains s1 where "insert_row (refund_failed_row w (retry_attempts (wd_id w) s)) s = Some s1"
    and "refund_failed w s = Some (move_balance (wd_driver w) (wd_amount w) s1)"
proof -
  let ?n = "retry_attempts (wd_id w) s"
  have snd: "wd_sound w (about_rows s (wd_id w))" using assms(1,2) by (rule inv_sound)
  have "KeyFailed (wd_id w) ?n \<notin> lr_key ` set (bk_rows s)"
  proof
    assume "KeyFailed (wd_id w) ?n \<in> lr_key ` set (bk_rows s)"
    then have "KeyFailed (wd_id w) ?n \<in> lr_key ` set (about_rows s (wd_id w))" by (rule key_in_about) simp
    with snd assms(3) show False by (auto simp: wd_sound_def attempts_about)
  qed
  moreover from this have "\<not> refunded_by RefundFailedWithdrawal (RefFailed (wd_id w) ?n) s"
    using inv_refunded(1) [OF assms(1)] by blast
  ultimately show ?thesis using that inv_wallet [OF assms(1,2)]
    by (auto simp: refund_failed_def Let_def insert_row_def)
qed

lemma sound_refund:
  assumes "wd_sound w rows" and "holds_money (wd_status w)" and "\<not> was_failed (wd_status w)"
    and "wd_id w' = wd_id w" "wd_amount w' = wd_amount w" "wd_status w' = WD_FAILED"
  shows "wd_sound w' (refund_failed_row w (attempts_in (wd_id w) rows) # rows)"
  using assms by (auto simp: wd_sound_def status_sets attempts_in_def retry_key_def)

lemma fail_refund_inv:
  assumes "payout_inv s" and "w \<in> set (po_withdrawals s)" and "wd_id w = i"
    and "holds_money (wd_status w)" "\<not> was_failed (wd_status w)"
    and f: "wd_id (f w) = i" "wd_driver (f w) = wd_driver w" "wd_amount (f w) = wd_amount w"
      "wd_status (f w) = WD_FAILED"
  obtains s2 where "refund_failed w (set_wd i f s) = Some s2" and "payout_inv s2"
proof -
  obtain s1 where s1: "insert_row (refund_failed_row w (retry_attempts (wd_id w) s)) s = Some s1"
    and r: "refund_failed w s = Some (move_balance (wd_driver w) (wd_amount w) s1)"
    using assms(1,2,5) by (rule refund_fresh)
  have "payout_inv (set_wd i f (move_balance (wd_driver w) (weight (refund_failed_row w (retry_attempts (wd_id w) s))) s1))"
  proof (rule inv_row [OF assms(1-3) s1])
    show "wd_sound (f w) (refund_failed_row w (retry_attempts (wd_id w) s) # about_rows s i)"
      using sound_refund [OF inv_sound [OF assms(1,2)] assms(4,5)] f assms(3) by (simp add: attempts_about)
  qed (use assms f in \<open>auto simp: payout_inv_def\<close>)
  with r that show ?thesis by (simp add: refund_set)
qed

lemma refund_same:
  "wd_id v = wd_id w \<Longrightarrow> wd_driver v = wd_driver w \<Longrightarrow> wd_amount v = wd_amount w \<Longrightarrow> wd_currency v = wd_currency w
     \<Longrightarrow> refund_failed v s = refund_failed w s"
  by (simp add: refund_failed_def refund_failed_row_def Let_def)

lemma fail_and_refund_inv:
  assumes "payout_inv s" and "w \<in> set (po_withdrawals s)" and "wd_id w = i"
    and "holds_money (wd_status w)" "\<not> was_failed (wd_status w)"
    and v: "wd_id v = i" "wd_driver v = wd_driver w" "wd_amount v = wd_amount w" "wd_currency v = wd_currency w"
  shows "payout_inv (fail_and_refund i v s)"
proof -
  obtain s2 where "refund_failed w (set_wd i (\<lambda>_. v\<lparr>wd_status := WD_FAILED\<rparr>) s) = Some s2" "payout_inv s2"
    by (rule fail_refund_inv [OF assms(1-5), of "\<lambda>_. v\<lparr>wd_status := WD_FAILED\<rparr>"]) (use v in simp_all)
  moreover have "refund_failed v t = refund_failed w t" for t using v assms(3) by (intro refund_same) simp_all
  ultimately show ?thesis by (simp add: fail_and_refund_def Let_def)
qed

lemma upi_keeps:
  "initiate_upi_payout env w = Sent v \<or> initiate_upi_payout env w = NotSent v \<Longrightarrow>
     wd_id v = wd_id w \<and> wd_driver v = wd_driver w \<and> wd_amount v = wd_amount w \<and> wd_currency v = wd_currency w"
  by (auto simp: initiate_upi_payout_def send_upi_def one_failure_def split: if_splits gateway_answer.splits)

lemma trigger_inv:
  assumes "payout_inv s"
  shows "payout_inv (trigger_payout_creation env i s)"
proof (cases "find_wd i s")
  case None
  then show ?thesis using assms by (simp add: trigger_payout_creation_def)
next
  case (Some w)
  note w = find_wd_mem [OF Some]
  note snd = inv_sound [OF assms, of w]
  show ?thesis
  proof (cases "wd_status w = WD_APPROVED \<or> wd_status w = WD_PROCESSED")
    case False
    then show ?thesis using assms Some by (simp add: trigger_payout_creation_def)
  next
    case True
    then have st: "holds_money (wd_status w)" "\<not> was_failed (wd_status w)" by (auto simp: status_sets)
    have keep: "payout_inv (set_wd i f s)"
      if "wd_id (f w) = i" "wd_driver (f w) = wd_driver w" "wd_amount (f w) = wd_amount w"
        "holds_money (wd_status (f w))" "wd_status (f w) \<noteq> WD_PENDING" for f
      by (rule inv_set_wd [where w = w]) (use assms w snd that st True in \<open>auto intro: sound_status\<close>)
    have fail: "payout_inv (fail_and_refund i v s)"
      if "wd_id v = i" "wd_driver v = wd_driver w" "wd_amount v = wd_amount w" "wd_currency v = wd_currency w" for v
      using fail_and_refund_inv [OF assms _ _ st] w that by simp
    show ?thesis
    proof (cases "initiate_upi_payout env w")
      case DispatchUnknown
      then show ?thesis using Some True w keep fail
        by (auto simp: trigger_payout_creation_def hold_def status_sets)
    next
      case (Sent v)
      then show ?thesis using Some True w keep fail upi_keeps [of env w v]
        by (auto simp: trigger_payout_creation_def hold_def status_sets)
    next
      case (NotSent v)
      then show ?thesis using Some True w keep fail upi_keeps [of env w v]
        by (auto simp: trigger_payout_creation_def hold_def status_sets)
    qed
  qed
qed

lemma fold_trigger_inv: "payout_inv s \<Longrightarrow> payout_inv (fold (trigger_payout_creation env) is s)"
  by (induction "is" arbitrary: s) (simp_all add: trigger_inv)

lemma approve_inv:
  assumes "approve_one destination i s = Inr s'" and "payout_inv s"
  shows "payout_inv s'"
proof -
  obtain w where w: "find_wd i s = Some w" "wd_status w = WD_PENDING"
    and s': "s' = (set_wd i (\<lambda>w. w\<lparr>wd_status := WD_APPROVED\<rparr>) s)\<lparr>po_released := i # po_released s\<rparr>"
    using assms(1) by (auto simp: approve_one_def split: option.splits if_splits)
  note m = find_wd_mem [OF w(1)]
  have "payout_inv (set_wd i (\<lambda>w. w\<lparr>wd_status := WD_APPROVED\<rparr>) s)"
    by (rule inv_set_wd [where w = w])
      (use m w assms(2) inv_sound [OF assms(2), of w] in \<open>auto simp: status_sets intro: sound_status\<close>)
  with s' show ?thesis by simp
qed

lemma approve_all_inv: "approve_all destination is s = (ids, s') \<Longrightarrow> payout_inv s \<Longrightarrow> payout_inv s'"
  by (induction "is" arbitrary: s ids) (auto simp: Let_def approve_inv split: sum.splits prod.splits)

lemma execute_payout_inv:
  "execute_payout destination env single ids s = Inr s' \<Longrightarrow> payout_inv s \<Longrightarrow> payout_inv s'"
  by (auto simp: execute_payout_def Let_def intro: fold_trigger_inv approve_all_inv split: prod.splits if_splits)

lemma reject_inv:
  assumes "reject_one i s = Inr s'" and "payout_inv s"
  shows "payout_inv s'"
proof -
  obtain w where w: "find_wd i s = Some w" "wd_status w = WD_PENDING" "has_wallet (wd_driver w) s"
    using assms(1) by (auto simp: reject_one_def split: option.splits if_splits)
  note m = find_wd_mem [OF w(1)]
  have snd: "wd_sound w (about_rows s i)" using inv_sound [OF assms(2), of w] m by simp
  have "KeyRejected i \<notin> lr_key ` set (bk_rows s)"
  proof
    assume "KeyRejected i \<in> lr_key ` set (bk_rows s)"
    then have "KeyRejected i \<in> lr_key ` set (about_rows s i)" by (rule key_in_about) simp
    with snd w(2) m show False by (simp add: wd_sound_def)
  qed
  moreover from this have "\<not> refunded_by RefundRejectedWithdrawal (RefRejected i) s"
    using inv_refunded(2) [OF assms(2)] by blast
  ultimately obtain s1 where s1: "insert_row (reject_row w) s = Some s1"
    and s': "s' = set_wd i (\<lambda>w. w\<lparr>wd_status := WD_REJECTED\<rparr>) (move_balance (wd_driver w) (wd_amount w) s1)"
    using assms(1) w m by (auto simp: reject_one_def insert_row_def)
  have "payout_inv (set_wd i (\<lambda>w. w\<lparr>wd_status := WD_REJECTED\<rparr>) (move_balance (wd_driver w) (weight (reject_row w)) s1))"
    by (rule inv_row [OF assms(2) _ _ s1])
      (use m w snd in \<open>auto simp: wd_sound_def status_sets attempts_in_def retry_key_def\<close>)
  with s' show ?thesis by simp
qed

lemma bulk_reject_inv: "payout_inv s \<Longrightarrow> payout_inv (bulk_reject is s)"
  by (induction "is" arbitrary: s) (auto simp: after_def dest: reject_inv split: sum.splits)

lemma retry_inv:
  assumes "retry_failed env i s = Inr s'" and "payout_inv s"
  shows "payout_inv s'"
proof -
  obtain w where w: "find_wd i s = Some w" "wd_status w = WD_FAILED" "has_wallet (wd_driver w) s"
    using assms(1) by (auto simp: retry_failed_def split: option.splits if_splits)
  note m = find_wd_mem [OF w(1)]
  let ?r = "debit_row (wd_driver w) (wd_currency w) i (wd_amount w) (KeyRetry i (retry_attempts i s + 1))"
  let ?f = "\<lambda>w. w\<lparr>wd_status := WD_APPROVED, wd_failures := 0\<rparr>"
  obtain s1 where s1: "insert_row ?r s = Some s1"
    and s': "s' = trigger_payout_creation env i (set_wd i ?f (move_balance (wd_driver w) (- wd_amount w) s1))"
    using assms(1) w(1) by (auto simp: retry_failed_def split: option.splits if_splits)
  have snd: "wd_sound w (about_rows s i)" using inv_sound [OF assms(2), of w] m by simp
  have "payout_inv (set_wd i ?f (move_balance (wd_driver w) (weight ?r) s1))"
  proof (rule inv_row [OF assms(2) _ _ s1])
    show "wd_sound (?f w) (?r # about_rows s i)"
      using snd m w(2) by (auto simp: wd_sound_def status_sets attempts_in_def retry_key_def)
  qed (use m w in auto)
  with s' show ?thesis by (simp add: trigger_inv)
qed

section \<open>The webhook\<close>

lemma line_inv: "line_get_or_create P l s = Inr s' \<Longrightarrow> payout_inv s \<Longrightarrow> payout_inv s'"
  by (auto simp: line_get_or_create_def split: list.splits)

lemma fail_payout_inv:
  assumes "fail_payout status word p w s = Inr s'" and "payout_inv s" and "w \<in> set (po_withdrawals s)"
    and "holds_money (wd_status w)" "\<not> was_failed (wd_status w)"
  shows "payout_inv s'"
proof -
  let ?f = "\<lambda>w. w\<lparr>wd_status := WD_FAILED, wd_payout_status := or_text status word, wd_failures := wd_failures w + 1\<rparr>"
  obtain s2 where "refund_failed w (set_wd (wd_id w) ?f s) = Some s2" "payout_inv s2"
    by (rule fail_refund_inv [OF assms(2,3) refl assms(4,5), of ?f]) simp_all
  with assms(1) line_inv show ?thesis by (auto simp: fail_payout_def Let_def)
qed

lemma success_inv:
  assumes "transfer_success now p r st w s = Inr s'" and "payout_inv s" and "w \<in> set (po_withdrawals s)"
  shows "payout_inv s'"
proof -
  note snd = inv_sound [OF assms(2,3)]
  have keep: "payout_inv (set_wd (wd_id w) f s)"
    if "wd_id (f w) = wd_id w" "wd_driver (f w) = wd_driver w" "wd_amount (f w) = wd_amount w"
      "holds_money (wd_status (f w)) = holds_money (wd_status w)" "was_failed (wd_status (f w))"
      "wd_status w \<noteq> WD_REVERSED" for f
    by (rule inv_set_wd [OF assms(2,3) refl]) (use snd that in \<open>auto intro: sound_status simp: status_sets\<close>)
  show ?thesis
    using assms(1,2)
    by (cases "wd_status w")
      (auto simp: transfer_success_def Let_def freeze_def refunded_status_def status_sets
        intro!: keep elim!: line_inv)
qed

lemma reversed_inv:
  assumes "transfer_reversed p st w s = Inr s'" and "payout_inv s" and "w \<in> set (po_withdrawals s)"
    and "wd_status w \<noteq> WD_REJECTED"
  shows "payout_inv s'"
proof -
  note snd = inv_sound [OF assms(2,3)]
  consider (paid) "wd_status w = WD_COMPLETED" | (conflict) "wd_status w = WD_CONFLICT"
    | (settled) "wd_status w = WD_FAILED \<or> wd_status w = WD_REVERSED"
    | (open_) "holds_money (wd_status w)" "\<not> was_failed (wd_status w)"
    using assms(4) by (cases "wd_status w") (auto simp: status_sets)
  then show ?thesis
  proof cases
    case paid
    then have s': "s' = reverse_paid_payout st w s" using assms(1) by (simp add: transfer_reversed_def)
    show ?thesis
    proof (cases "post_row (reversed_row w) s")
      case None
      with s' assms(2) show ?thesis by (simp add: reverse_paid_payout_def inv_get_wallet)
    next
      case (Some t)
      let ?f = "\<lambda>w. w\<lparr>wd_status := WD_REVERSED, wd_payout_status := or_text st ''reversed''\<rparr>"
      obtain x where "bk_wallets s (wd_driver w) = Some x"
        using assms(2,3) by (auto simp: payout_inv_def has_wallet_def)
      note g = get_wallet_found [OF this]
      obtain s1 where s1: "insert_row (reversed_row w) s = Some s1"
        and t: "t = move_balance (wd_driver w) (weight (reversed_row w)) s1"
        using Some by (auto simp: post_row_def g)
      have "payout_inv (set_wd (wd_id w) ?f (move_balance (wd_driver w) (weight (reversed_row w)) s1))"
        by (rule inv_row [OF assms(2,3) refl s1])
          (use assms(2,3) snd paid in \<open>auto simp: payout_inv_def wd_sound_def status_sets attempts_in_def retry_key_def\<close>)
      with Some t s' show ?thesis by (simp add: reverse_paid_payout_def)
    qed
  next
    case conflict
    then have "s' = set_wd (wd_id w) (reverse_conflict st) s" using assms(1) by (simp add: transfer_reversed_def)
    moreover have "payout_inv (set_wd (wd_id w) (reverse_conflict st) s)"
      by (rule inv_set_wd [OF assms(2,3) refl])
        (use snd conflict in \<open>auto intro: sound_status simp: status_sets reverse_conflict_def\<close>)
    ultimately show ?thesis by simp
  next
    case settled
    then show ?thesis using assms(1,2) by (auto simp: transfer_reversed_def)
  next
    case open_
    then show ?thesis using assms(1) fail_payout_inv [OF _ assms(2,3)]
      by (auto simp: transfer_reversed_def status_sets)
  qed
qed

lemma failed_inv:
  assumes "transfer_failed p st w s = Inr s'" and "payout_inv s" and "w \<in> set (po_withdrawals s)"
    and "wd_status w \<noteq> WD_REJECTED"
  shows "payout_inv s'"
  using assms fail_payout_inv [OF _ assms(2,3)]
  by (cases "wd_status w") (auto simp: transfer_failed_def status_sets)

lemma pending_inv:
  assumes "payout_inv s" and "w \<in> set (po_withdrawals s)"
  shows "payout_inv (payout_pending st w s)"
proof -
  have "payout_inv (set_wd (wd_id w) (\<lambda>w. w\<lparr>wd_payout_status := or_text st ''pending''\<rparr>) s)"
    by (rule inv_set_wd [OF assms refl]) (use inv_sound [OF assms] in \<open>auto intro: sound_status\<close>)
  then show ?thesis using assms(1) by (simp add: payout_pending_def)
qed

text \<open>A failure or a reversal reported for a rejected withdrawal, which was never sent.\<close>

definition late_failure :: "provider_message \<Rightarrow> payout_books \<Rightarrow> bool" where
  "late_failure m s = ((pm_event m = EvFailed \<or> pm_event m = EvReversed) \<and>
     (case webhook_withdrawal (pm_payout_id m) (pm_reference m) s of
        None \<Rightarrow> False | Some w \<Rightarrow> wd_status w = WD_REJECTED))"

lemma webhook_inv:
  assumes "payout_webhook m s = Inr s'" and "payout_inv s" and "\<not> late_failure m s"
  shows "payout_inv s'"
proof (cases "webhook_withdrawal (pm_payout_id m) (pm_reference m) s")
  case None
  with assms show ?thesis by (auto simp: payout_webhook_def split: if_splits)
next
  case (Some w)
  note m = webhook_wd_mem [OF Some]
  show ?thesis using assms Some success_inv [OF _ assms(2) m] failed_inv [OF _ assms(2) m]
      reversed_inv [OF _ assms(2) m] pending_inv [OF assms(2) m]
    by (cases "pm_event m") (auto simp: payout_webhook_def late_failure_def split: if_splits)
qed

section \<open>A new withdrawal\<close>

lemma plan_total: "plan_deduction owed payout lowest percent = (d, plan) \<Longrightarrow> d = sum_by snd plan"
  by (auto simp: plan_deduction_def Let_def split: if_splits)

lemma apply_deduction_rows:
  "apply_deduction u i plan s = Some s' \<Longrightarrow>
     bk_rows s' = rev (map (\<lambda>p. deduction_row u i (fst p) (snd p)) plan) @ bk_rows s
     \<and> bk_wallets s' = bk_wallets s \<and> po_withdrawals s' = po_withdrawals s \<and> po_next s' = po_next s
     \<and> po_adjusted s' = po_adjusted s"
  by (induction u i plan s rule: apply_deduction.induct) (auto simp: insert_row_Some split: option.splits)

lemma apply_deduction_keys:
  "apply_deduction u i plan s = Some s' \<Longrightarrow> distinct (map lr_key (bk_rows s)) \<Longrightarrow> distinct (map lr_key (bk_rows s'))"
proof (induction plan arbitrary: s)
  case Nil
  then show ?case by simp
next
  case (Cons p plan)
  obtain d a where p: "p = (d, a)" by fastforce
  with Cons.prems obtain s1 where s1: "insert_row (deduction_row u i d a) s = Some s1"
    and rest: "apply_deduction u i plan
       (s1\<lparr>po_debts := map (\<lambda>q. if rd_id q = rd_id d then collect_debt a q else q) (po_debts s1)\<rparr>) = Some s'"
    by (auto split: option.splits)
  have "distinct (map lr_key (bk_rows s1))" using s1 Cons.prems(2) by (simp add: insert_row_Some)
  with Cons.IH [OF rest] show ?case by simp
qed

lemma open_withdrawal_inv:
  assumes "open_withdrawal q c lowest currency origin gross s = Inr s'" and inv: "payout_inv s"
    and "has_wallet (pq_driver q) s"
  shows "payout_inv s'"
proof -
  let ?u = "pq_driver q" and ?i = "po_next s"
  obtain d plan where plan: "plan_deduction (open_debts ?u s) gross lowest (pc_recovery_percent c) = (d, plan)"
    by fastforce
  let ?r = "debit_row ?u currency ?i (gross - d) (KeyWithdrawal ?i (pq_nonce q))"
  obtain fee w s2 where w: "w = \<lparr> wd_id = ?i, wd_driver = ?u, wd_amount = gross - d, wd_fee = fee,
      wd_currency = currency, wd_method = ''upi'', wd_status = WD_PENDING, wd_payout_status = None,
      wd_reference = None, wd_failures = 0, wd_origin = origin \<rparr>"
    and s2: "insert_row ?r (s\<lparr>po_withdrawals := w # po_withdrawals s, po_next := ?i + 1\<rparr>) = Some s2"
    and s': "apply_deduction ?u ?i plan (move_balance ?u (- gross) s2) = Some s'"
    using assms(1) plan by (auto simp: open_withdrawal_def Let_def split: option.splits if_splits)
  have rs2: "bk_rows s2 = ?r # bk_rows s" "po_withdrawals s2 = w # po_withdrawals s" "po_next s2 = ?i + 1"
    "po_adjusted s2 = po_adjusted s" "bk_wallets s2 = bk_wallets s" "lr_key ?r \<notin> lr_key ` set (bk_rows s)"
    using s2 by (auto simp: insert_row_Some)
  note ds = apply_deduction_rows [OF s']
  let ?ds = "rev (map (\<lambda>p. deduction_row ?u ?i (fst p) (snd p)) plan)"
  have rows: "bk_rows s' = ?ds @ ?r # bk_rows s" using ds rs2(1) by simp
  have tot: "sum_by weight (filter (\<lambda>r. lr_user r = v) ?ds) = (if v = ?u then - d else 0)" for v
    unfolding plan_total [OF plan] by (induction plan) (auto simp: sum_by_def)
  have bal: "balance s' v = balance s v + (if v = ?u then - gross else 0)" for v
  proof -
    have "has_wallet ?u s2" using assms(3) rs2(5) by (simp add: has_wallet_def)
    from balance_move [OF this, of "- gross" v] ds rs2(5) show ?thesis by (simp add: balance_def)
  qed
  have books: "books_ok s'"
    unfolding books_ok_def
  proof (intro conjI allI)
    have "distinct (map lr_key (bk_rows s))" using inv by (simp add: payout_inv_def books_ok_def)
    then have "distinct (map lr_key (bk_rows (move_balance ?u (- gross) s2)))" using rs2(1,6) by simp
    then show "distinct (map lr_key (bk_rows s'))" by (rule apply_deduction_keys [OF s'])
    show "balance s' v = ledger_total s' v" for v
      using bal [of v] tot [of v] inv by (auto simp: ledger_total_def rows payout_inv_def books_ok_def)
  qed
  have wal: "has_wallet v s' = has_wallet v s" for v
    using ds rs2(5) assms(3) by (auto simp: has_wallet_def move_balance_def)
  have adj: "po_adjusted s' = po_adjusted s" using ds rs2(4) by simp
  have "filter (\<lambda>r. about (po_adjusted s) j (lr_key r)) ?ds = []" for j by (simp add: filter_empty_conv)
  then have "about_rows s' j = (if j = ?i then ?r # about_rows s j else about_rows s j)" for j
    by (simp add: about_rows_def rows adj)
  then have view: "about_rows s' j = (if j = ?i then [?r] else about_rows s j)" for j
    using inv by (simp add: payout_inv_def)
  have fields: "po_withdrawals s' = w # po_withdrawals s" "po_next s' = ?i + 1" "po_adjusted s' = po_adjusted s"
    using ds rs2 by simp_all
  have w_ok: "wd_sound w [?r]" "wd_id w = ?i" "wd_driver w = ?u"
    by (simp_all add: w wd_sound_def status_sets attempts_in_def retry_key_def)
  have old: "wd_id x < ?i \<and> has_wallet (wd_driver x) s \<and> wd_sound x (about_rows s (wd_id x))"
    if "x \<in> set (po_withdrawals s)" for x using inv that by (simp add: payout_inv_def)
  have new: "wd_id x < po_next s' \<and> has_wallet (wd_driver x) s' \<and> wd_sound x (about_rows s' (wd_id x))"
    if "x \<in> set (po_withdrawals s')" for x
    using that old [of x] w_ok assms(3) by (cases "x = w") (simp_all add: fields wal view)
  have "distinct (map wd_id (po_withdrawals s'))"
    using inv old w_ok(2) by (fastforce simp: fields payout_inv_def)
  moreover have "\<forall>r \<in> set (bk_rows s'). row_wf r" using inv by (auto simp: rows payout_inv_def)
  moreover have "\<forall>j \<ge> po_next s'. about_rows s' j = []" using inv by (simp add: fields view payout_inv_def)
  moreover have "\<forall>p \<in> set (po_adjusted s'). KeyAdjustment (fst p) \<in> lr_key ` set (bk_rows s')"
    using inv by (auto simp: fields rows payout_inv_def)
  ultimately show ?thesis using books new unfolding payout_inv_def by blast
qed

lemma request_inv:
  assumes "payout_inv s"
  shows "payout_inv (snd (driver_withdrawal_request q amount s))"
proof (cases "pq_config q")
  case None
  then show ?thesis using assms by (simp add: driver_withdrawal_request_def)
next
  case (Some c)
  obtain w s1 where g: "get_wallet (pq_driver q) s = (w, s1)" by fastforce
  have s1: "payout_inv s1" "has_wallet (pq_driver q) s1"
    using inv_get_wallet [OF assms, of "pq_driver q"] get_wallet_simps(1) [of "pq_driver q" s] g by simp_all
  show ?thesis
    using assms s1 by (auto simp: driver_withdrawal_request_def Some g split: sum.splits dest: open_withdrawal_inv)
qed

lemma scheduled_inv:
  assumes "create_scheduled q c b s = Inr s'" and "payout_inv s"
  shows "payout_inv s'"
  using assms by (auto simp: create_scheduled_def Let_def has_wallet_def intro: open_withdrawal_inv
      split: option.splits if_splits)

section \<open>Adjustments\<close>

lemma adjusted_view:
  assumes inv: "payout_inv s" and fresh: "KeyAdjustment q \<notin> lr_key ` set (bk_rows s)"
    and r: "lr_key r = KeyAdjustment q" and rows: "bk_rows s' = r # bk_rows s"
    and adj: "po_adjusted s' = (q, target) # po_adjusted s"
  shows "about_rows s' j = (if target = Some j then r # about_rows s j else about_rows s j)"
proof -
  have new: "(q, x) \<notin> set (po_adjusted s)" for x using inv fresh by (force simp: payout_inv_def)
  have "about ((q, target) # po_adjusted s) j k = about (po_adjusted s) j k" if "k \<noteq> KeyAdjustment q" for k
    using that by (cases k) auto
  moreover have "lr_key x \<noteq> KeyAdjustment q" if "x \<in> set (bk_rows s)" for x using that fresh by (metis imageI)
  ultimately have old: "filter (\<lambda>r. about ((q, target) # po_adjusted s) j (lr_key r)) (bk_rows s) = about_rows s j"
    unfolding about_rows_def by (intro filter_cong) auto
  show ?thesis using old new r by (cases "target = Some j") (simp_all add: about_rows_def [of s'] rows adj)
qed

lemma adjustment_row_simps [simp]:
  "lr_user (adjustment_row u c a) = u" "lr_key (adjustment_row u c a) = KeyAdjustment (ad_request a)"
  "row_wf (adjustment_row u c a)"
  by (simp_all add: adjustment_row_def row_wf_def)

lemma resolve_fields [simp]:
  "bk_rows (resolve_paid w g s) = bk_rows s" "po_next (resolve_paid w g s) = po_next s"
  "po_withdrawals (resolve_paid w g s)
     = map (\<lambda>x. if wd_id x = wd_id w then x\<lparr>wd_status := WD_COMPLETED\<rparr> else x) (po_withdrawals s)"
  "po_adjusted (resolve_paid w g s) = po_adjusted s" "books_ok (resolve_paid w g s) = books_ok s"
  "has_wallet u (resolve_paid w g s) = has_wallet u s"
  by (simp_all add: resolve_paid_def Let_def)

lemma adjust_inv:
  assumes "execute_driver_adjustment a s = Inr s'" and inv: "payout_inv s"
  shows "payout_inv s'"
proof (cases "s' = s")
  case True
  with inv show ?thesis by simp
next
  case False
  let ?q = "ad_request a"
  obtain u w s1 where u: "ad_driver a = Some u" and w: "bk_wallets s u = Some w"
    and fresh: "KeyAdjustment ?q \<notin> lr_key ` set (bk_rows s)"
    and s1: "post_row (adjustment_row u (wl_currency w) a) s = Some s1"
    and s': "(if truthy_int (ad_withdrawal a)
        then bind_res (check_resolution u a (the (ad_withdrawal a)) s1) (\<lambda>x.
          Inr ((resolve_paid x (ad_gateway_id a) s1)\<lparr>po_adjusted := (?q, Some (wd_id x)) # po_adjusted s1\<rparr>))
        else Inr (s1\<lparr>po_adjusted := (?q, None) # po_adjusted s1\<rparr>)) = Inr s'"
    using assms(1) False
    by (auto simp: execute_driver_adjustment_def split: option.splits if_split_asm)
  let ?r = "adjustment_row u (wl_currency w) a"
  have books: "books_ok s1" using post_row_ok [OF _ s1] inv by (simp add: payout_inv_def)
  have rows: "bk_rows s1 = ?r # bk_rows s" and ws: "po_withdrawals s1 = po_withdrawals s"
    and nx: "po_next s1 = po_next s" and ad: "po_adjusted s1 = po_adjusted s"
    and wal: "has_wallet v s \<Longrightarrow> has_wallet v s1" for v
    using s1 by (auto simp: post_row_Some get_wallet_simps)
  have wf: "\<forall>r \<in> set (bk_rows s1). row_wf r" using inv by (simp add: rows payout_inv_def)
  have adj: "\<forall>p \<in> set ((?q, t) # po_adjusted s). KeyAdjustment (fst p) \<in> lr_key ` set (bk_rows s1)" for t
    using inv by (simp add: rows payout_inv_def)
  show ?thesis
  proof (cases "truthy_int (ad_withdrawal a)")
    case False
    then have s': "s' = s1\<lparr>po_adjusted := (?q, None) # po_adjusted s1\<rparr>" using s' by simp
    have "about_rows s' j = about_rows s j" for j
      using adjusted_view [OF inv fresh, of ?r s' None j] by (simp add: s' rows ad)
    then show ?thesis using inv books wf wal adj by (simp add: payout_inv_def s' rows ws nx ad)
  next
    case True
    then obtain x where x: "check_resolution u a (the (ad_withdrawal a)) s1 = Inr x"
      and s': "s' = (resolve_paid x (ad_gateway_id a) s1)\<lparr>po_adjusted := (?q, Some (wd_id x)) # po_adjusted s1\<rparr>"
      using s' by (auto simp: bind_res_Inr_iff)
    have c: "x \<in> set (po_withdrawals s)" "wd_status x = WD_CONFLICT" "ad_direction a = ''debit''"
      "ad_amount a = wd_amount x"
      using x ws find_wd_mem [of _ s1 x] by (auto simp: check_resolution_def split: option.splits if_splits)
    have view: "about_rows s' j = (if j = wd_id x then ?r # about_rows s j else about_rows s j)" for j
      using adjusted_view [OF inv fresh, of ?r s' "Some (wd_id x)" j] by (auto simp: s' rows ad)
    have "weight ?r = - wd_amount x" using c by (simp add: weight_def counted_def signed_def adjustment_row_def)
    then have sound: "wd_sound (x\<lparr>wd_status := WD_COMPLETED\<rparr>) (?r # about_rows s (wd_id x))"
      using inv_sound [OF inv c(1)] c(2) by (auto simp: wd_sound_def status_sets attempts_in_def retry_key_def)
    show ?thesis
      by (rule inv_update [OF inv c(1), where f = "\<lambda>w. w\<lparr>wd_status := WD_COMPLETED\<rparr>"])
        (use books wf wal adj ws nx ad sound view in \<open>simp_all add: s'\<close>)
  qed
qed

section \<open>The machine\<close>

text \<open>Rows of the other components (earnings, rewards, reversals) arrive on the same ledger.\<close>

definition foreign_row :: "ledger_row \<Rightarrow> bool" where
  "foreign_row r = ((case lr_key r of KeyWithdrawal _ _ \<Rightarrow> False | KeyRetry _ _ \<Rightarrow> False | KeyFailed _ _ \<Rightarrow> False
      | KeyRejected _ \<Rightarrow> False | KeyReversed _ \<Rightarrow> False | KeyAdjustment _ \<Rightarrow> False | _ \<Rightarrow> True)
    \<and> (case lr_ref r of RefFailed _ _ \<Rightarrow> False | RefRejected _ \<Rightarrow> False | _ \<Rightarrow> True))"

datatype payout_event =
    AskWithdrawal payout_request int
  | WeeklyRun payout_request payout_config bool
  | ReleasePayouts "int \<Rightarrow> bool" dispatch_env bool "int list"
  | RejectPayout int
  | RejectMany "int list"
  | ReleaseHeld dispatch_env
  | RetryPayout dispatch_env int
  | ProviderSays provider_message
  | AdjustBalance adjustment
  | OtherRow ledger_row

fun payout_step :: "payout_books \<Rightarrow> payout_event \<Rightarrow> payout_error + payout_books" where
  "payout_step s (AskWithdrawal q amount) = Inr (snd (driver_withdrawal_request q amount s))"
| "payout_step s (WeeklyRun q c here) = create_scheduled q c here s"
| "payout_step s (ReleasePayouts destination env single is) = execute_payout destination env single is s"
| "payout_step s (RejectPayout i) = reject_one i s"
| "payout_step s (RejectMany is) = Inr (bulk_reject is s)"
| "payout_step s (ReleaseHeld env) = Inr (release_awaiting_rail env s)"
| "payout_step s (RetryPayout env i) = retry_failed env i s"
| "payout_step s (ProviderSays m) = payout_webhook m s"
| "payout_step s (AdjustBalance a) = execute_driver_adjustment a s"
| "payout_step s (OtherRow r) = (if foreign_row r
     then (case post_row r s of None \<Rightarrow> Inl PayoutIntegrity | Some s' \<Rightarrow> Inr s') else Inl InvalidStatus)"

definition is_late :: "payout_event \<Rightarrow> payout_books \<Rightarrow> bool" where
  "is_late e s = (case e of ProviderSays m \<Rightarrow> late_failure m s | _ \<Rightarrow> False)"

text \<open>The provider only reports on payouts it was given: a rejected one never was.\<close>

definition provider_step :: "payout_books \<Rightarrow> payout_event \<Rightarrow> payout_error + payout_books" where
  "provider_step s e = (if is_late e s then Inl InvalidStatus else payout_step s e)"

lemma other_row_inv:
  assumes "post_row r s = Some s'" and "foreign_row r" and inv: "payout_inv s"
  shows "payout_inv s'"
proof -
  have no: "\<not> about adj j (lr_key r)" for adj j using assms(2) by (cases "lr_key r") (simp_all add: foreign_row_def)
  have "row_wf r" using assms(2) by (auto simp: foreign_row_def row_wf_def)
  moreover have "books_ok s'" using post_row_ok [OF _ assms(1)] inv by (simp add: payout_inv_def)
  moreover have s': "bk_rows s' = r # bk_rows s" "po_withdrawals s' = po_withdrawals s" "po_next s' = po_next s"
    "po_adjusted s' = po_adjusted s" "\<And>u. has_wallet u s \<Longrightarrow> has_wallet u s'"
    using assms(1) by (auto simp: post_row_Some get_wallet_simps)
  moreover have "about_rows s' j = about_rows s j" for j by (simp add: about_rows_def s' no)
  ultimately show ?thesis using inv by (simp add: payout_inv_def)
qed

lemma payout_step_inv:
  assumes "payout_inv s" and "provider_step s e = Inr s'"
  shows "payout_inv s'"
  using assms
  by (cases e) (auto simp: provider_step_def is_late_def release_awaiting_rail_def
      intro: request_inv scheduled_inv execute_payout_inv reject_inv bulk_reject_inv fold_trigger_inv retry_inv
        webhook_inv adjust_inv other_row_inv split: if_splits option.splits)

interpretation payouts: guarded_system provider_step payout_inv
  by unfold_locales (rule payout_step_inv)


section \<open>A message delivered twice\<close>

lemma find_map: "(\<And>x. P (g x) = P x) \<Longrightarrow> find P (map g xs) = map_option g (find P xs)"
  by (induction xs) auto

lemma webhook_withdrawal_map:
  assumes "\<And>x. wd_id (g x) = wd_id x" and "\<And>x. wd_reference (g x) = wd_reference x"
    and "po_withdrawals s' = map g (po_withdrawals s)"
  shows "webhook_withdrawal p r s' = map_option g (webhook_withdrawal p r s)"
proof -
  have "find_by_reference x s' = map_option g (find_by_reference x s)" for x
    by (simp add: find_by_reference_def assms find_map)
  moreover have "find_wd i s' = map_option g (find_wd i s)" for i
    by (simp add: find_wd_def assms find_map)
  ultimately show ?thesis
    by (auto simp: webhook_withdrawal_def find_by_own_reference_def split: option.splits)
qed

lemma found_after:
  assumes "webhook_withdrawal p r s = Some w" and "\<And>x. wd_id (f x) = wd_id x" "\<And>x. wd_reference (f x) = wd_reference x"
    and "po_withdrawals s' = po_withdrawals (set_wd (wd_id w) f s)"
  shows "webhook_withdrawal p r s' = Some (f w)"
  using webhook_withdrawal_map [of "\<lambda>x. if wd_id x = wd_id w then f x else x" s' s p r] assms by simp

lemma line_keeps: "line_get_or_create P l s = Inr s' \<Longrightarrow> po_withdrawals s' = po_withdrawals s"
  by (auto simp: line_get_or_create_def split: list.splits)

lemma refund_keeps: "refund_failed w s = Some s' \<Longrightarrow> po_withdrawals s' = po_withdrawals s"
  by (auto simp: refund_failed_def Let_def insert_row_Some split: if_splits)

lemma fail_payout_after:
  assumes "fail_payout st word p w s = Inr s'" and "webhook_withdrawal pid ref s = Some w"
  shows "\<exists>v. webhook_withdrawal pid ref s' = Some v \<and> wd_status v = WD_FAILED"
proof -
  let ?f = "\<lambda>w. w\<lparr>wd_status := WD_FAILED, wd_payout_status := or_text st word, wd_failures := wd_failures w + 1\<rparr>"
  have "po_withdrawals s' = po_withdrawals (set_wd (wd_id w) ?f s)"
    using assms(1) line_keeps refund_keeps by (fastforce simp: fail_payout_def Let_def split: option.splits)
  from found_after [OF assms(2) _ _ this] show ?thesis by simp
qed

lemma success_after:
  assumes "transfer_success now p r st w s = Inr s'" and "webhook_withdrawal pid ref s = Some w"
  shows "\<exists>v. webhook_withdrawal pid ref s' = Some v \<and> wd_status v \<in> {WD_COMPLETED, WD_REVERSED, WD_CONFLICT}"
proof (cases "wd_status w \<in> {WD_COMPLETED, WD_REVERSED, WD_CONFLICT}")
  case True
  with assms show ?thesis by (auto simp: transfer_success_def)
next
  case open_: False
  show ?thesis
  proof (cases "refunded_status (wd_status w)")
    case True
    then have "s' = set_wd (wd_id w) (freeze st) s" using assms(1) open_ by (simp add: transfer_success_def Let_def)
    then have "webhook_withdrawal pid ref s' = Some (freeze st w)"
      by (intro found_after [OF assms(2)]) (simp_all add: freeze_def)
    then show ?thesis by (simp add: freeze_def)
  next
    case False
    let ?f = "\<lambda>w. w\<lparr>wd_status := WD_COMPLETED, wd_payout_status := or_text st ''success''\<rparr>"
    have "po_withdrawals s' = po_withdrawals (set_wd (wd_id w) ?f s)"
      using assms(1) open_ False by (auto simp: transfer_success_def Let_def dest!: line_keeps)
    from found_after [OF assms(2) _ _ this] show ?thesis by simp
  qed
qed

lemma get_wallet_twice: "snd (get_wallet u (snd (get_wallet u s))) = snd (get_wallet u s)"
  by (simp add: get_wallet_def Let_def split: option.splits)

lemma post_after_wallet: "post_row r s = None \<Longrightarrow> post_row r (snd (get_wallet u s)) = None"
  by (simp add: wallet_ledger.post_None get_wallet_simps)

lemma reversed_after:
  assumes "transfer_reversed p st w s = Inr s'" and "webhook_withdrawal pid ref s = Some w"
  shows "\<exists>v. webhook_withdrawal pid ref s' = Some v \<and> transfer_reversed p st v s' = Inr s'"
proof (cases "wd_status w = WD_COMPLETED")
  case True
  then have s': "s' = reverse_paid_payout st w s" using assms(1) by (simp add: transfer_reversed_def)
  show ?thesis
  proof (cases "post_row (reversed_row w) s")
    case None
    then have "s' = snd (get_wallet (wd_driver w) s)" using s' by (simp add: reverse_paid_payout_def)
    moreover from this have "webhook_withdrawal pid ref s' = Some w"
      using webhook_withdrawal_map [of id s' s pid ref] assms(2) by simp
    ultimately show ?thesis using None True
      by (auto simp: transfer_reversed_def reverse_paid_payout_def post_after_wallet get_wallet_twice)
  next
    case (Some s1)
    let ?f = "\<lambda>w. w\<lparr>wd_status := WD_REVERSED, wd_payout_status := or_text st ''reversed''\<rparr>"
    have "po_withdrawals s1 = po_withdrawals s" using Some by (auto simp: post_row_Some)
    then have "po_withdrawals s' = po_withdrawals (set_wd (wd_id w) ?f s)"
      using s' Some by (simp add: reverse_paid_payout_def)
    from found_after [OF assms(2) _ _ this] show ?thesis by (simp add: transfer_reversed_def)
  qed
next
  case not_paid: False
  show ?thesis
  proof (cases "wd_status w = WD_CONFLICT")
    case True
    then have "s' = set_wd (wd_id w) (reverse_conflict st) s" using assms(1) by (simp add: transfer_reversed_def)
    then have "webhook_withdrawal pid ref s' = Some (reverse_conflict st w)"
      by (intro found_after [OF assms(2)]) (simp_all add: reverse_conflict_def)
    then show ?thesis by (simp add: transfer_reversed_def reverse_conflict_def)
  next
    case False
    with not_paid assms show ?thesis
      by (auto simp: transfer_reversed_def dest: fail_payout_after split: if_splits)
  qed
qed

section \<open>Laws\<close>


definition opening_books :: payout_books where
  "opening_books = \<lparr> bk_wallets = [5 \<mapsto> \<lparr> wl_balance = 0, wl_currency = ''INR'' \<rparr>], bk_rows = [],
     po_withdrawals = [], po_next = 1, po_released = [], po_adjusted = [], po_debts = [], po_lines = [],
     po_last = Map.empty \<rparr>"

definition demo_config :: payout_config where
  "demo_config = \<lparr> pc_minimum = 500, pc_currency = ''INR'', pc_fee_percent = Dec 0 0, pc_recovery_percent = 20 \<rparr>"

definition demo_request :: payout_request where
  "demo_request = \<lparr> pq_driver = 5, pq_config = Some demo_config, pq_hold = False, pq_destination = True, pq_held = 0,
     pq_currency = ''INR'', pq_now = 100, pq_nonce = ''a'' \<rparr>"

definition demo_earning :: ledger_row where
  "demo_earning = \<lparr> lr_user = 5, lr_currency = ''INR'', lr_amount = 9000, lr_type = Credit, lr_status = TxnCompleted,
     lr_purpose = TripEarnings, lr_ref = RefTrip 9, lr_key = KeyEarning 9 \<rparr>"

definition demo_message :: "provider_event \<Rightarrow> provider_message" where
  "demo_message e = \<lparr> pm_event = e, pm_payout_id = Some ''p1'', pm_reference = Some ''withdrawal_1_driver_5'',
     pm_status = None, pm_now = 200 \<rparr>"

lemma opening_inv: "payout_inv opening_books"
  by (simp add: payout_inv_def opening_books_def books_ok_def about_rows_def balance_def ledger_total_def)

lemmas payout_eval = opening_books_def demo_request_def demo_config_def demo_earning_def provider_step_def is_late_def
  foreign_row_def post_row_def get_wallet_def insert_row_def move_balance_def driver_withdrawal_request_def
  has_open_conflict_def withdrawal_blocked_def open_withdrawal_def plan_deduction_def open_debts_def
  withdrawal_fee_def dec_le_def dval_def debit_row_def weight_def counted_def signed_def Let_def

lemma demo_history:
  "\<exists>w. po_withdrawals (run_events provider_step opening_books [OtherRow demo_earning, AskWithdrawal demo_request 4000]) = [w]
     \<and> wd_id w = 1 \<and> wd_amount w = 4000 \<and> wd_status w = WD_PENDING \<and> wd_driver w = 5 \<and> wd_reference w = None
     \<and> po_lines (run_events provider_step opening_books [OtherRow demo_earning, AskWithdrawal demo_request 4000]) = []"
  by (simp add: payout_eval)

lemma demo_rejected:
  "\<exists>w. po_withdrawals (run_events provider_step opening_books
        [OtherRow demo_earning, AskWithdrawal demo_request 4000, RejectPayout 1]) = [w]
     \<and> wd_id w = 1 \<and> wd_amount w = 4000 \<and> wd_status w = WD_REJECTED \<and> wd_driver w = 5 \<and> wd_reference w = None
     \<and> po_lines (run_events provider_step opening_books
        [OtherRow demo_earning, AskWithdrawal demo_request 4000, RejectPayout 1]) = []"
  by (simp add: payout_eval reject_one_def find_wd_def has_wallet_def refunded_by_def reject_row_def set_wd_def)

lemma demo_lookup:
  "po_withdrawals s = [w] \<Longrightarrow> wd_id w = 1 \<Longrightarrow> wd_reference w = None \<Longrightarrow>
     webhook_withdrawal (Some ''p1'') (Some ''withdrawal_1_driver_5'') s = Some w"
  by (simp add: webhook_withdrawal_def find_by_reference_def find_by_own_reference_def find_wd_def truthy_text_def
      py_int_def split_sign_def py_strip_def py_space_def py_isdigit_def is_digit_def digits_val_def digit_val_def
      code_of_def)


text \<open>Claim C30. A provider message may be delivered any number of times: in any state of the books,
  the second delivery of the same message, whatever it reports, changes nothing.\<close>

theorem webhook_delivered_once:
  assumes "payout_webhook m s = Inr s'"
  shows "payout_webhook m s' = Inr s'"
proof (cases "webhook_withdrawal (pm_payout_id m) (pm_reference m) s")
  case None
  with assms show ?thesis by (auto simp: payout_webhook_def split: if_splits)
next
  case (Some w)
  let ?found = "webhook_withdrawal (pm_payout_id m) (pm_reference m)"
  show ?thesis
  proof (cases "truthy_text (pm_payout_id m) \<or> truthy_text (pm_reference m)")
    case False
    with assms show ?thesis by (simp add: payout_webhook_def)
  next
    case named: True
    show ?thesis
    proof (cases "pm_event m")
      case EvSuccess
      with named Some assms success_after [OF _ Some] show ?thesis
        by (fastforce simp: payout_webhook_def transfer_success_def)
    next
      case EvFailed
      with named Some assms fail_payout_after [OF _ Some] show ?thesis
        by (fastforce simp: payout_webhook_def transfer_failed_def split: if_splits)
    next
      case EvPending
      let ?f = "\<lambda>w. w\<lparr>wd_payout_status := or_text (pm_status m) ''pending''\<rparr>"
      have "?found (set_wd (wd_id w) ?f s) = Some (?f w)" by (rule found_after [OF Some]) simp_all
      with EvPending named Some assms show ?thesis
        by (auto simp: payout_webhook_def payout_pending_def set_wd_def)
    next
      case EvReversed
      with named Some assms reversed_after [OF _ Some] show ?thesis by (fastforce simp: payout_webhook_def)
    next
      case EvOther
      with named Some assms show ?thesis by (auto simp: payout_webhook_def)
    qed
  qed
qed

theorem webhook_delivered_once_witness:
  "\<exists>s'. payout_webhook (demo_message EvSuccess)
        (run_events provider_step opening_books [OtherRow demo_earning, AskWithdrawal demo_request 4000]) = Inr s'
     \<and> payout_webhook (demo_message EvSuccess) s' = Inr s'"
proof -
  let ?s = "run_events provider_step opening_books [OtherRow demo_earning, AskWithdrawal demo_request 4000]"
  obtain w where w: "po_withdrawals ?s = [w]" "wd_id w = 1" "wd_status w = WD_PENDING" "wd_reference w = None"
    "po_lines ?s = []" using demo_history by blast
  have "\<exists>s'. payout_webhook (demo_message EvSuccess) ?s = Inr s'"
    using demo_lookup [OF w(1,2,4)] w(3,5)
    by (simp add: demo_message_def payout_webhook_def truthy_text_def transfer_success_def
        refunded_status_def line_get_or_create_def Let_def set_wd_def del: run_events.simps)
  then show ?thesis using webhook_delivered_once by blast
qed

text \<open>Claim C33. The failure message the guards of the webhook forget: reported for a rejected
  withdrawal, whose amount was returned at the rejection, it fails the withdrawal and returns the
  amount a second time.\<close>

theorem rejected_then_failed_pays_twice:
  assumes "payout_inv s" and "webhook_withdrawal (pm_payout_id m) (pm_reference m) s = Some w"
    and "wd_status w = WD_REJECTED" and "pm_event m = EvFailed" and "payout_webhook m s = Inr s'"
    and "truthy_text (pm_payout_id m) \<or> truthy_text (pm_reference m)"
  shows "balance s' (wd_driver w) = balance s (wd_driver w) + wd_amount w
    \<and> sum_by weight (about_rows s (wd_id w)) = 0 \<and> sum_by weight (about_rows s' (wd_id w)) = wd_amount w"
proof -
  note w = webhook_wd_mem [OF assms(2)]
  let ?f = "\<lambda>w. w\<lparr>wd_status := WD_FAILED, wd_payout_status := or_text (pm_status m) ''failed'',
      wd_failures := wd_failures w + 1\<rparr>"
  let ?r = "refund_failed_row w (retry_attempts (wd_id w) s)"
  have "\<not> was_failed (wd_status w)" by (simp add: was_failed_def assms(3))
  then obtain s1 where s1: "insert_row ?r s = Some s1"
    and r: "refund_failed w s = Some (move_balance (wd_driver w) (wd_amount w) s1)"
    by (rule refund_fresh [OF assms(1) w])
  have run: "fail_payout (pm_status m) ''failed'' (pm_payout_id m) w s = Inr s'"
    using assms(2-6) by (auto simp: payout_webhook_def transfer_failed_def)
  let ?t = "set_wd (wd_id w) ?f (move_balance (wd_driver w) (wd_amount w) s1)"
  have same: "bk_rows s' = bk_rows ?t" "balance s' v = balance ?t v" "po_adjusted s' = po_adjusted ?t" for v
    using run r by (auto simp: fail_payout_def Let_def refund_set line_get_or_create_def split: list.splits)
  have "has_wallet (wd_driver w) s1" using inv_wallet [OF assms(1) w] insert_row_po [OF s1] by simp
  from balance_move [OF this, of "wd_amount w" "wd_driver w"]
  have "balance s' (wd_driver w) = balance s (wd_driver w) + wd_amount w"
    using same(2) s1 by (auto simp: insert_row_Some)
  moreover have "sum_by weight (about_rows s (wd_id w)) = 0"
    using inv_sound [OF assms(1) w] by (simp add: wd_sound_def status_sets assms(3))
  moreover have "about_rows s' (wd_id w) = ?r # about_rows s (wd_id w)"
    using same(1,3) s1 by (auto simp: about_rows_def insert_row_Some)
  ultimately show ?thesis by simp
qed

lemma late_run:
  assumes "payout_inv s" and "webhook_withdrawal (pm_payout_id m) (pm_reference m) s = Some w"
    and "wd_status w = WD_REJECTED" and "pm_event m = EvFailed" and "truthy_text (pm_payout_id m)" and "po_lines s = []"
  shows "\<exists>s'. payout_webhook m s = Inr s'"
proof -
  have "\<not> was_failed (wd_status w)" by (simp add: was_failed_def assms(3))
  then obtain s1 where "insert_row (refund_failed_row w (retry_attempts (wd_id w) s)) s = Some s1"
    and "refund_failed w s = Some (move_balance (wd_driver w) (wd_amount w) s1)"
    by (rule refund_fresh [OF assms(1) webhook_wd_mem [OF assms(2)]])
  then show ?thesis using assms(2-6)
    by (auto simp: payout_webhook_def transfer_failed_def fail_payout_def refund_set line_get_or_create_def Let_def
        insert_row_Some)
qed

theorem rejected_then_failed_pays_twice_witness:
  "\<exists>s s'. s = run_events provider_step opening_books
        [OtherRow demo_earning, AskWithdrawal demo_request 4000, RejectPayout 1]
     \<and> payout_webhook (demo_message EvFailed) s = Inr s'
     \<and> balance s' 5 = balance s 5 + 4000"
proof -
  let ?s = "run_events provider_step opening_books [OtherRow demo_earning, AskWithdrawal demo_request 4000, RejectPayout 1]"
  have inv: "payout_inv ?s" by (rule payouts.run_inv [OF opening_inv])
  obtain w where w: "po_withdrawals ?s = [w]" "wd_id w = 1" "wd_status w = WD_REJECTED" "wd_reference w = None"
    "wd_driver w = 5" "wd_amount w = 4000" "po_lines ?s = []" using demo_rejected by blast
  have found: "webhook_withdrawal (pm_payout_id (demo_message EvFailed)) (pm_reference (demo_message EvFailed)) ?s = Some w"
    using demo_lookup [OF w(1,2,4)] by (simp add: demo_message_def del: run_events.simps)
  have t: "truthy_text (pm_payout_id (demo_message EvFailed))" "pm_event (demo_message EvFailed) = EvFailed"
    by (simp_all add: demo_message_def truthy_text_def)
  obtain s' where run: "payout_webhook (demo_message EvFailed) ?s = Inr s'"
    using late_run [OF inv found w(3) t(2,1) w(7)] by blast
  have "balance s' (wd_driver w) = balance ?s (wd_driver w) + wd_amount w"
    using rejected_then_failed_pays_twice [OF inv found w(3) t(2) run] t(1) by blast
  with w(5,6) have b: "balance s' 5 = balance ?s 5 + 4000" by (simp only:)
  have "?s = ?s \<and> payout_webhook (demo_message EvFailed) ?s = Inr s' \<and> balance s' 5 = balance ?s 5 + 4000"
    by (intro conjI refl run b)
  then show ?thesis by (intro exI)
qed

text \<open>A payout the gateway accepted is never sent again: while the withdrawal carries the
  provider's reference, neither a release nor a retry depends on the gateway's answer, and a retry is
  refused.\<close>

theorem accepted_payout_never_resent:
  assumes "find_wd i s = Some w" and "truthy_text (wd_reference w)"
  shows "trigger_payout_creation env i s = trigger_payout_creation (env\<lparr>de_gateway := g\<rparr>) i s
    \<and> (\<exists>e. retry_failed env i s = Inl e)
    \<and> (\<forall>v. initiate_upi_payout env w = Sent v \<longrightarrow> v = w)"
proof -
  have "initiate_upi_payout env w = initiate_upi_payout (env\<lparr>de_gateway := g\<rparr>) w"
    using assms(2) by (simp add: initiate_upi_payout_def upi_currency_def)
  then show ?thesis using assms
    by (auto simp: trigger_payout_creation_def retry_failed_def initiate_upi_payout_def split: if_splits)
qed

definition demo_env :: dispatch_env where
  "demo_env = \<lparr> de_upi = \<lambda>_. GoodUpi, de_gateway = \<lambda>_. Accepted ''p2'' ''created'',
     de_driver_currency = \<lambda>_. ''INR'' \<rparr>"

theorem accepted_payout_never_resent_witness:
  "\<exists>e. retry_failed demo_env 1 (opening_books\<lparr>po_withdrawals := [\<lparr> wd_id = 1, wd_driver = 5, wd_amount = 4000, wd_fee = 0,
      wd_currency = ''INR'', wd_method = ''upi'', wd_status = WD_FAILED, wd_payout_status = None,
      wd_reference = Some ''p1'', wd_failures = 1, wd_origin = ByDriver \<rparr>]\<rparr>) = Inl e"
  (is "\<exists>e. retry_failed demo_env 1 ?s = Inl e")
proof -
  obtain w where "find_wd 1 ?s = Some w" "truthy_text (wd_reference w)"
    by (simp add: find_wd_def truthy_text_def)
  from accepted_payout_never_resent [OF this] show ?thesis by blast
qed

end
