(* ===== verification/AuditChain.thy ===== *)
theory AuditChain
  imports Money
begin

text \<open>
  The tamper-evident audit log (\<open>servers/admin_audit/hashchain.py\<close>, \<open>AdminAuditLog.save\<close>): the
  canonical form of a row, the chain of hashes, the anchor for rows older than the chain and the
  verifier. \<open>H\<close> is SHA-256 over the text, in hex; the one thing assumed of it is that it has 64
  characters. A datetime is its ISO text, a dict its pairs. The table is its rows in id order.
\<close>

section \<open>The canonical form\<close>

datatype json = JNull | JBool bool | JInt int | JStr string | JArr "json list" | JObj "(string \<times> json) list"

definition hex_digit :: "nat \<Rightarrow> char" where
  "hex_digit n = ''0123456789abcdef'' ! n"

text \<open>\<open>json.dumps\<close> of a string: quotes, backslashes and everything outside printable ASCII escaped.\<close>

definition json_escape :: "char \<Rightarrow> string" where
  "json_escape c = (let n = code_of c in
     if n = 34 then [CHR 0x5C, CHR 0x22] else if n = 92 then [CHR 0x5C, CHR 0x5C]
     else if n = 10 then [CHR 0x5C, CHR ''n''] else if n = 13 then [CHR 0x5C, CHR ''r'']
     else if n = 9 then [CHR 0x5C, CHR ''t''] else if n = 8 then [CHR 0x5C, CHR ''b'']
     else if n = 12 then [CHR 0x5C, CHR ''f'']
     else if 32 \<le> n \<and> n \<le> 126 then [c]
     else [CHR 0x5C, CHR ''u'', CHR ''0'', CHR ''0'', hex_digit (n div 16), hex_digit (n mod 16)])"

definition json_string :: "string \<Rightarrow> string" where
  "json_string s = CHR 0x22 # concat (map json_escape s) @ [CHR 0x22]"

fun join_with :: "string \<Rightarrow> string list \<Rightarrow> string" where
  "join_with sep [] = []"
| "join_with sep [x] = x"
| "join_with sep (x # y # ys) = x @ sep @ join_with sep (y # ys)"

definition py_int_text :: "int \<Rightarrow> string" where
  "py_int_text n = (if n < 0 then CHR ''-'' # show_nat (nat (- n)) else show_nat (nat n))"

definition sorted_pairs :: "(string \<times> string) list \<Rightarrow> (string \<times> string) list" where
  "sorted_pairs kvs = sort_key (\<lambda>p. map code_of (fst p)) kvs"

definition json_object :: "(string \<times> string) list \<Rightarrow> string" where
  "json_object kvs = ''{'' @ join_with '','' (map (\<lambda>p. json_string (fst p) @ '':'' @ snd p) kvs) @ ''}''"

fun dumps :: "json \<Rightarrow> string" where
  "dumps JNull = ''null''"
| "dumps (JBool b) = (if b then ''true'' else ''false'')"
| "dumps (JInt n) = py_int_text n"
| "dumps (JStr s) = json_string s"
| "dumps (JArr xs) = ''['' @ join_with '','' (map dumps xs) @ '']''"
| "dumps (JObj kvs) = json_object (sorted_pairs (map (\<lambda>p. (fst p, dumps (snd p))) kvs))"

record audit_entry =
  au_id :: int
  au_actor_id :: "int option"
  au_actor_label :: string
  au_action :: string
  au_target_type :: string
  au_target_id :: string
  au_before :: "(string \<times> json) list"
  au_after :: "(string \<times> json) list"
  au_reason :: string
  au_ip :: "string option"
  au_agent :: string
  au_created :: string
  au_email :: string
  au_role :: string
  au_previous :: string
  au_hash :: string

definition or_empty :: "string option \<Rightarrow> string" where
  "or_empty v = (case v of None \<Rightarrow> [] | Some s \<Rightarrow> s)"

text \<open>\<open>HASHED_FIELDS\<close> with their normalised values, in the order of the tuple.\<close>

definition hashed_fields :: "audit_entry \<Rightarrow> (string \<times> string) list" where
  "hashed_fields e =
     [(''actor_id'', case au_actor_id e of None \<Rightarrow> [] | Some n \<Rightarrow> py_int_text n),
      (''actor_label'', au_actor_label e), (''action'', au_action e), (''target_type'', au_target_type e),
      (''target_id'', au_target_id e), (''before'', dumps (JObj (au_before e))), (''after'', dumps (JObj (au_after e))),
      (''reason'', au_reason e), (''ip_address'', or_empty (au_ip e)), (''user_agent'', au_agent e),
      (''created_at'', au_created e), (''actor_email'', au_email e), (''actor_role'', au_role e)]"

definition OPTIONAL_FIELDS :: "string list" where
  "OPTIONAL_FIELDS = [''actor_email'', ''actor_role'']"

definition canonical_parts :: "audit_entry \<Rightarrow> (string \<times> string) list" where
  "canonical_parts e = filter (\<lambda>p. \<not> (fst p \<in> set OPTIONAL_FIELDS \<and> snd p = [])) (hashed_fields e)"

definition canonical_content :: "audit_entry \<Rightarrow> string" where
  "canonical_content e = json_object (map (\<lambda>p. (fst p, json_string (snd p))) (sorted_pairs (canonical_parts e)))"

section \<open>The chain\<close>

definition GENESIS :: string where
  "GENESIS = replicate 64 (CHR ''0'')"

definition text_or :: "string \<Rightarrow> string \<Rightarrow> string" where
  "text_or s d = (if s = [] then d else s)"

definition compute_hash :: "(string \<Rightarrow> string) \<Rightarrow> string \<Rightarrow> audit_entry \<Rightarrow> string" where
  "compute_hash H previous e = H (text_or previous GENESIS @ canonical_content e)"

definition is_anchor :: "audit_entry \<Rightarrow> bool" where
  "is_anchor e = (au_action e = ''chain_anchor'' \<and> au_target_type e = ''audit_chain'')"

definition covered_bytes :: "audit_entry list \<Rightarrow> string" where
  "covered_bytes rows = concat (map (\<lambda>r. canonical_content r @ [CHR 0x0A]) rows)"

definition pre_chain_digest :: "(string \<Rightarrow> string) \<Rightarrow> audit_entry list \<Rightarrow> string" where
  "pre_chain_digest H rows = H (covered_bytes rows)"

text \<open>\<open>_link_into_chain\<close> and the insert: the row takes the next id and links to the last row.\<close>

definition tail_hash :: "audit_entry list \<Rightarrow> string" where
  "tail_hash rows = (if rows = [] then GENESIS else text_or (au_hash (last rows)) GENESIS)"

definition next_id :: "audit_entry list \<Rightarrow> int" where
  "next_id rows = (if rows = [] then 1 else au_id (last rows) + 1)"

definition link :: "(string \<Rightarrow> string) \<Rightarrow> audit_entry list \<Rightarrow> audit_entry \<Rightarrow> audit_entry" where
  "link H rows e = (let prev = tail_hash rows; e1 = e\<lparr>au_id := next_id rows, au_previous := prev\<rparr>
     in e1\<lparr>au_hash := compute_hash H prev e1\<rparr>)"

definition save_entry :: "(string \<Rightarrow> string) \<Rightarrow> audit_entry \<Rightarrow> audit_entry list \<Rightarrow> audit_entry list" where
  "save_entry H e rows = rows @ [link H rows e]"

datatype chain_error = AlreadyAnchored | UnhashedAfterHashed

definition anchor_row :: "(string \<Rightarrow> string) \<Rightarrow> string \<Rightarrow> string \<Rightarrow> string \<Rightarrow> audit_entry list \<Rightarrow> audit_entry" where
  "anchor_row H label now reason unhashed =
     \<lparr> au_id = 0, au_actor_id = None, au_actor_label = label, au_action = ''chain_anchor'',
       au_target_type = ''audit_chain'', au_target_id = [], au_before = [],
       au_after = [(''pre_chain_rows'', JInt (int (length unhashed))),
                   (''pre_chain_first_id'', JInt (au_id (hd unhashed))),
                   (''pre_chain_max_id'', JInt (au_id (last unhashed))),
                   (''pre_chain_digest'', JStr (pre_chain_digest H unhashed)),
                   (''digest'', JStr ''sha256 over canonical_content of each row in id order, newline-terminated'')],
       au_reason = reason, au_ip = None, au_agent = [], au_created = now, au_email = [], au_role = [],
       au_previous = [], au_hash = [] \<rparr>"

definition write_anchor ::
  "(string \<Rightarrow> string) \<Rightarrow> string \<Rightarrow> string \<Rightarrow> string \<Rightarrow> audit_entry list \<Rightarrow> chain_error + audit_entry list" where
  "write_anchor H label now reason rows =
     (if \<exists>r \<in> set rows. is_anchor r then Inl AlreadyAnchored
      else let unhashed = filter (\<lambda>r. au_hash r = []) rows; hashed = filter (\<lambda>r. au_hash r \<noteq> []) rows in
        if unhashed = [] then Inr rows
        else if hashed \<noteq> [] \<and> au_id (last unhashed) > au_id (hd hashed) then Inl UnhashedAfterHashed
        else Inr (save_entry H (anchor_row H label now reason unhashed) rows))"

section \<open>The verifier\<close>

datatype chain_issue = UnhashedRow int | BrokenLink int | ContentAltered int | SecondAnchor int
  | AnchorMismatch int | UnanchoredRows "int option"

record chain_scan =
  sc_expected :: string
  sc_pre :: "audit_entry list"
  sc_started :: bool
  sc_anchor :: "int option"
  sc_problems :: "chain_issue list"

definition start_scan :: chain_scan where
  "start_scan = \<lparr> sc_expected = GENESIS, sc_pre = [], sc_started = False, sc_anchor = None, sc_problems = [] \<rparr>"

definition stored :: "audit_entry \<Rightarrow> string \<Rightarrow> json" where
  "stored e key = (case map_of (au_after e) key of None \<Rightarrow> JNull | Some v \<Rightarrow> v)"

definition last_id :: "audit_entry list \<Rightarrow> json" where
  "last_id pre = (if pre = [] then JNull else JInt (au_id (last pre)))"

definition anchor_matches :: "(string \<Rightarrow> string) \<Rightarrow> audit_entry \<Rightarrow> audit_entry list \<Rightarrow> bool" where
  "anchor_matches H e pre = (stored e ''pre_chain_rows'' = JInt (int (length pre))
     \<and> stored e ''pre_chain_max_id'' = last_id pre \<and> stored e ''pre_chain_digest'' = JStr (pre_chain_digest H pre))"

definition hashed_issues :: "(string \<Rightarrow> string) \<Rightarrow> audit_entry \<Rightarrow> chain_scan \<Rightarrow> chain_issue list" where
  "hashed_issues H e sc =
     (if au_previous e \<noteq> sc_expected sc then [BrokenLink (au_id e)] else [])
   @ (if compute_hash H (au_previous e) e \<noteq> au_hash e then [ContentAltered (au_id e)] else [])
   @ (if \<not> is_anchor e then [] else if sc_anchor sc \<noteq> None then [SecondAnchor (au_id e)]
      else if \<not> anchor_matches H e (sc_pre sc) then [AnchorMismatch (au_id e)] else [])"

definition scan_row :: "(string \<Rightarrow> string) \<Rightarrow> audit_entry \<Rightarrow> chain_scan \<Rightarrow> chain_scan" where
  "scan_row H e sc =
     (if au_hash e = [] then
        if sc_started sc then sc\<lparr>sc_problems := sc_problems sc @ [UnhashedRow (au_id e)]\<rparr>
        else sc\<lparr>sc_pre := sc_pre sc @ [e]\<rparr>
      else sc\<lparr>sc_problems := sc_problems sc @ hashed_issues H e sc,
              sc_anchor := (if is_anchor e \<and> sc_anchor sc = None then Some (au_id e) else sc_anchor sc),
              sc_started := True, sc_expected := au_hash e\<rparr>)"

record chain_report =
  cr_checked :: nat
  cr_problems :: "chain_issue list"
  cr_pre_chain :: "(nat \<times> int \<times> int \<times> int option) option"

definition inspect_chain :: "(string \<Rightarrow> string) \<Rightarrow> nat option \<Rightarrow> audit_entry list \<Rightarrow> chain_report" where
  "inspect_chain H limit table =
     (let cut = (case limit of None \<Rightarrow> None | Some n \<Rightarrow> if n = 0 then None else Some n);
          rows = (case cut of None \<Rightarrow> table | Some n \<Rightarrow> take n table);
          sc = fold (scan_row H) rows start_scan; pre = sc_pre sc;
          walked_past = (\<not> (cut \<noteq> None \<and> length pre = length rows))
      in \<lparr> cr_checked = length rows,
           cr_problems = sc_problems sc
             @ (if pre \<noteq> [] \<and> sc_anchor sc = None \<and> walked_past then [UnanchoredRows (Some (au_id (last pre)))] else []),
           cr_pre_chain = (if pre = [] then None
             else Some (length pre, au_id (hd pre), au_id (last pre), sc_anchor sc)) \<rparr>)"

definition verify_chain :: "(string \<Rightarrow> string) \<Rightarrow> nat option \<Rightarrow> audit_entry list \<Rightarrow> nat \<times> chain_issue list" where
  "verify_chain H limit table = (let r = inspect_chain H limit table in (cr_checked r, cr_problems r))"

end
