(* ===== verification/AuditLaws.thy ===== *)
theory AuditLaws
  imports AuditChain
begin

text \<open>
  What the audit chain promises: the canonical bytes determine the recorded fields, a table that
  verifies is determined by its last hash, what the application writes always verifies, and the two
  things the verifier cannot see or the lock does not prevent.
\<close>

section \<open>The canonical bytes are uniquely readable\<close>

definition hex_value :: "char \<Rightarrow> nat" where
  "hex_value c = (if code_of c \<le> 57 then code_of c - 48 else code_of c - 87)"

text \<open>Reading one escaped character back.\<close>

fun read_char :: "string \<Rightarrow> (char \<times> string) option" where
  "read_char [] = None"
| "read_char (c # r) =
     (if code_of c = 34 then None
      else if code_of c \<noteq> 92 then Some (c, r)
      else (case r of
          [] \<Rightarrow> None
        | k # r1 \<Rightarrow>
            if k = CHR ''n'' then Some (char_of (10::nat), r1) else if k = CHR ''r'' then Some (char_of (13::nat), r1)
            else if k = CHR ''t'' then Some (char_of (9::nat), r1) else if k = CHR ''b'' then Some (char_of (8::nat), r1)
            else if k = CHR ''f'' then Some (char_of (12::nat), r1)
            else if k = CHR ''u'' then (case r1 of
                 _ # _ # a # b # r2 \<Rightarrow> Some (char_of (16 * hex_value a + hex_value b), r2) | _ \<Rightarrow> None)
            else Some (k, r1)))"

lemma hex_value_digit [simp]: "n < 16 \<Longrightarrow> hex_value (hex_digit n) = n"
proof -
  have "\<forall>k \<in> set [0..<16]. hex_value (hex_digit k) = k" by code_simp
  then show "n < 16 \<Longrightarrow> hex_value (hex_digit n) = n" by simp
qed

lemma code_of_inject: "code_of c = code_of d \<Longrightarrow> c = d"
  by (simp add: code_of_def)

lemma code_of_chars:
  "code_of (CHR 0x5C) = 92" "code_of (CHR 0x22) = 34"
  by (simp_all add: code_of_def)

lemma read_char_escape: "read_char (json_escape c @ r) = Some (c, r)"
proof -
  have lt: "code_of c < 256" by (simp add: code_of_def)
  have char_back: "char_of (code_of c) = c" by (simp add: code_of_def)
  consider "code_of c \<in> {34, 92, 10, 13, 9, 8, 12}"
    | "code_of c \<notin> {34, 92, 10, 13, 9, 8, 12}" "32 \<le> code_of c \<and> code_of c \<le> 126"
    | "code_of c \<notin> {34, 92, 10, 13, 9, 8, 12}" "\<not> (32 \<le> code_of c \<and> code_of c \<le> 126)" by blast
  then show ?thesis
  proof cases
    case 1
    then have "c \<in> (\<lambda>n. char_of n) ` {34::nat, 92, 10, 13, 9, 8, 12}" using char_back by (metis imageI)
    moreover have "CHR 0x22 = char_of (34::nat)" "CHR 0x5C = char_of (92::nat)"
      by (rule code_of_inject, simp add: code_of_def)+
    ultimately show ?thesis by (auto simp: json_escape_def code_of_def)
  next
    case 2
    then show ?thesis by (simp add: json_escape_def Let_def)
  next
    case 3
    have "16 * (code_of c div 16) + code_of c mod 16 = code_of c" by simp
    moreover have "code_of c div 16 < 16" using lt by auto
    ultimately show ?thesis using 3 char_back
      by (simp add: json_escape_def Let_def code_of_chars)
  qed
qed

lemma read_char_quote: "read_char (CHR 0x22 # r) = None"
  by (simp add: code_of_chars)

lemma escaped_unique:
  "concat (map json_escape s) @ CHR 0x22 # r = concat (map json_escape t) @ CHR 0x22 # q \<Longrightarrow> s = t \<and> r = q"
proof (induction s arbitrary: t)
  case Nil
  then show ?case
  proof (cases t)
    case (Cons c cs)
    with Nil have "read_char (CHR 0x22 # r) = read_char (json_escape c @ concat (map json_escape cs) @ CHR 0x22 # q)" by simp
    then show ?thesis unfolding read_char_quote read_char_escape by simp
  qed simp
next
  case (Cons c s)
  show ?case
  proof (cases t)
    case Nil
    with Cons.prems have "read_char (CHR 0x22 # q) = read_char (json_escape c @ concat (map json_escape s) @ CHR 0x22 # r)" by simp
    then show ?thesis unfolding read_char_quote read_char_escape by simp
  next
    case (Cons d ds)
    with Cons.prems have "read_char (json_escape c @ concat (map json_escape s) @ CHR 0x22 # r)
        = read_char (json_escape d @ concat (map json_escape ds) @ CHR 0x22 # q)" by simp
    then have "c = d" "concat (map json_escape s) @ CHR 0x22 # r = concat (map json_escape ds) @ CHR 0x22 # q"
      by (simp_all add: read_char_escape)
    with Cons.IH Cons show ?thesis by blast
  qed
qed

lemma json_string_unique: "json_string s @ r = json_string t @ q \<Longrightarrow> s = t \<and> r = q"
  using escaped_unique [of s r t q] by (simp add: json_string_def)

definition quoted_pair :: "string \<times> string \<Rightarrow> string" where
  "quoted_pair p = json_string (fst p) @ '':'' @ json_string (snd p)"

lemma quoted_pair_unique: "quoted_pair p @ r = quoted_pair p' @ q \<Longrightarrow> p = p' \<and> r = q"
  by (cases p, cases p') (auto simp: quoted_pair_def dest!: json_string_unique)

lemma join_with_Cons: "join_with sep (x # xs) = x @ concat (map (\<lambda>y. sep @ y) xs)"
  by (induction xs arbitrary: x) simp_all

lemma commas_unique:
  "concat (map (\<lambda>p. '','' @ quoted_pair p) ps) @ ''}'' @ r = concat (map (\<lambda>p. '','' @ quoted_pair p) qs) @ ''}'' @ u
   \<Longrightarrow> ps = qs \<and> r = u"
proof (induction ps arbitrary: qs)
  case Nil
  then show ?case by (cases qs) simp_all
next
  case (Cons p ps)
  then show ?case by (cases qs) (auto dest!: quoted_pair_unique)
qed

lemma quoted_pair_start: "quoted_pair p = CHR 0x22 # tl (quoted_pair p)"
  by (simp add: quoted_pair_def json_string_def)

definition quoted_object :: "(string \<times> string) list \<Rightarrow> string" where
  "quoted_object ps = ''{'' @ join_with '','' (map quoted_pair ps) @ ''}''"

lemma quoted_object_unique:
  assumes "quoted_object ps @ r = quoted_object qs @ u" shows "ps = qs \<and> r = u"
proof (cases ps)
  case Nil
  show ?thesis
  proof (cases qs)
    case (Cons q qs')
    have "\<exists>s. quoted_object qs @ u = ''{'' @ CHR 0x22 # s"
      unfolding quoted_object_def Cons list.map join_with_Cons by (subst quoted_pair_start) simp
    then show ?thesis using assms Nil by (auto simp: quoted_object_def)
  qed (use assms Nil in \<open>simp add: quoted_object_def\<close>)
next
  case (Cons p ps')
  show ?thesis
  proof (cases qs)
    case Nil
    have "\<exists>s. quoted_object ps @ r = ''{'' @ CHR 0x22 # s"
      unfolding quoted_object_def Cons list.map join_with_Cons by (subst quoted_pair_start) simp
    then show ?thesis using assms Nil by (auto simp: quoted_object_def)
  next
    case (Cons q qs')
    have "quoted_pair p @ concat (map (\<lambda>p. '','' @ quoted_pair p) ps') @ ''}'' @ r
        = quoted_pair q @ concat (map (\<lambda>p. '','' @ quoted_pair p) qs') @ ''}'' @ u"
      using assms \<open>ps = p # ps'\<close> Cons by (simp add: quoted_object_def join_with_Cons comp_def)
    then show ?thesis using \<open>ps = p # ps'\<close> Cons commas_unique by (blast dest: quoted_pair_unique)
  qed
qed

lemma canonical_quoted: "canonical_content e = quoted_object (sorted_pairs (canonical_parts e))"
proof -
  have "quoted_pair = (\<lambda>p. json_string (fst p) @ '':'' @ json_string (snd p))"
    by (rule ext) (simp add: quoted_pair_def)
  then show ?thesis by (simp add: canonical_content_def json_object_def quoted_object_def comp_def)
qed

lemma sorted_pairs_set [simp]: "set (sorted_pairs xs) = set xs"
  by (simp add: sorted_pairs_def)

definition HASHED_FIELDS :: "string list" where
  "HASHED_FIELDS = [''actor_id'', ''actor_label'', ''action'', ''target_type'', ''target_id'', ''before'', ''after'',
     ''reason'', ''ip_address'', ''user_agent'', ''created_at'', ''actor_email'', ''actor_role'']"

lemma hashed_names: "map fst (hashed_fields e) = HASHED_FIELDS"
  by (simp add: hashed_fields_def HASHED_FIELDS_def)

lemma hashed_distinct: "distinct (map fst (hashed_fields e))"
  unfolding hashed_names HASHED_FIELDS_def by simp

lemma fields_by_lookup:
  assumes "map fst xs = map fst ys" "distinct (map fst xs)" "\<And>k v. map_of xs k = Some v \<Longrightarrow> map_of ys k = Some v"
  shows "xs = ys"
  using assms
proof (induction xs ys rule: list_induct2')
  case (4 x xs y ys)
  have "snd y = snd x" using "4.prems"(3) [of "fst x" "snd x"] "4.prems"(1) by simp
  then have "x = y" using "4.prems"(1) by (simp add: prod_eq_iff)
  moreover have "xs = ys"
  proof (rule "4.IH")
    show "map fst xs = map fst ys" "distinct (map fst xs)" using "4.prems" by simp_all
    show "map_of ys k = Some v" if "map_of xs k = Some v" for k v
    proof -
      have "k \<in> fst ` set xs" using that by (metis domI dom_map_of_conv_image_fst)
      then have "k \<noteq> fst x" using "4.prems"(2) by (metis distinct.simps(2) list.set_map list.simps(9))
      then show ?thesis using "4.prems"(3) [of k v] that \<open>x = y\<close> by simp
    qed
  qed
  ultimately show ?case by simp
qed simp_all

lemma part_lookup:
  "(k, v) \<in> set (canonical_parts e) \<longleftrightarrow>
     map_of (hashed_fields e) k = Some v \<and> \<not> (k \<in> set OPTIONAL_FIELDS \<and> v = [])"
  by (auto simp: canonical_parts_def hashed_distinct)

lemma parts_determine_fields:
  assumes eq: "set (canonical_parts e) = set (canonical_parts e')" shows "hashed_fields e = hashed_fields e'"
proof (rule fields_by_lookup)
  show "map fst (hashed_fields e) = map fst (hashed_fields e')" by (simp add: hashed_names)
  show "distinct (map fst (hashed_fields e))" by (rule hashed_distinct)
  fix k v assume v: "map_of (hashed_fields e) k = Some v"
  then have "k \<in> set HASHED_FIELDS"
    by (metis domI dom_map_of_conv_image_fst hashed_names list.set_map)
  then obtain w where w: "map_of (hashed_fields e') k = Some w"
    by (metis hashed_names list.set_map dom_map_of_conv_image_fst domD)
  show "map_of (hashed_fields e') k = Some v"
  proof (cases "k \<in> set OPTIONAL_FIELDS \<and> v = []")
    case False
    then show ?thesis using v eq part_lookup by blast
  next
    case True
    have "w = []"
    proof (rule ccontr)
      assume "w \<noteq> []"
      then have "(k, w) \<in> set (canonical_parts e)" using w eq by (simp add: part_lookup)
      then show False using v True \<open>w \<noteq> []\<close> by (simp add: part_lookup)
    qed
    then show ?thesis using w True by simp
  qed
qed

lemma canonical_determines_fields:
  "canonical_content e = canonical_content e' \<longleftrightarrow> hashed_fields e = hashed_fields e'"
proof
  assume "canonical_content e = canonical_content e'"
  then have "quoted_object (sorted_pairs (canonical_parts e)) @ [] = quoted_object (sorted_pairs (canonical_parts e')) @ []"
    by (simp add: canonical_quoted)
  then have "sorted_pairs (canonical_parts e) = sorted_pairs (canonical_parts e')"
    using quoted_object_unique by blast
  then show "hashed_fields e = hashed_fields e'"
    by (metis parts_determine_fields sorted_pairs_set)
qed (simp add: canonical_content_def canonical_parts_def)

lemma show_nat_value: "foldl (\<lambda>n c. 10 * n + digit_val c) 0 (show_nat n) = n"
proof (induction n rule: show_nat.induct)
  case (1 n)
  show ?case
  proof (cases "n < 10")
    case True
    then show ?thesis by (simp add: show_nat.simps digit_val_def code_of_def)
  next
    case False
    then have "show_nat n = show_nat (n div 10) @ [char_of (48 + n mod 10)]" by (simp add: show_nat.simps)
    with 1 False show ?thesis by (simp add: digit_val_def code_of_def)
  qed
qed

lemma show_nat_digits: "list_all is_digit (show_nat n) \<and> show_nat n \<noteq> []"
proof (induction n rule: show_nat.induct)
  case (1 n)
  show ?case
  proof (cases "n < 10")
    case True
    then show ?thesis by (simp add: show_nat.simps is_digit_def code_of_def)
  next
    case False
    then have "show_nat n = show_nat (n div 10) @ [char_of (48 + n mod 10)]" by (simp add: show_nat.simps)
    with 1 False show ?thesis by (simp add: is_digit_def code_of_def)
  qed
qed

lemma show_nat_inject [simp]: "show_nat m = show_nat n \<longleftrightarrow> m = n"
  by (metis show_nat_value)

lemma show_nat_not_minus: "show_nat n \<noteq> CHR ''-'' # s"
proof
  assume "show_nat n = CHR ''-'' # s"
  then have "is_digit (CHR ''-'')" using show_nat_digits [of n] by simp
  then show False by (simp add: is_digit_def code_of_def)
qed

lemma py_int_text_inject [simp]: "py_int_text m = py_int_text n \<longleftrightarrow> m = n"
  using show_nat_not_minus show_nat_not_minus [symmetric]
  by (auto simp: py_int_text_def)

lemma py_int_text_nonempty [simp]: "py_int_text m \<noteq> []" "[] \<noteq> py_int_text m"
proof -
  have "show_nat n \<noteq> []" for n using show_nat_digits by blast
  then show "py_int_text m \<noteq> []" by (auto simp: py_int_text_def)
  then show "[] \<noteq> py_int_text m" by metis
qed


section \<open>Tables that verify\<close>

fun chained :: "(string \<Rightarrow> string) \<Rightarrow> string \<Rightarrow> audit_entry list \<Rightarrow> bool" where
  "chained H p [] = True"
| "chained H p (e # es) =
     (au_hash e \<noteq> [] \<and> au_previous e = p \<and> compute_hash H p e = au_hash e \<and> chained H (au_hash e) es)"

definition chain_end :: "string \<Rightarrow> audit_entry list \<Rightarrow> string" where
  "chain_end p rows = (if rows = [] then p else au_hash (last rows))"

lemma chained_snoc:
  "chained H p (es @ [e]) \<longleftrightarrow> chained H p es \<and> chained H (chain_end p es) [e]"
  by (induction es arbitrary: p) (auto simp: chain_end_def)

lemma chained_append:
  "chained H p (es @ fs) \<longleftrightarrow> chained H p es \<and> chained H (chain_end p es) fs"
  by (induction es arbitrary: p) (auto simp: chain_end_def)

lemma problems_grow: "\<exists>ps. sc_problems (fold (scan_row H) rows sc) = sc_problems sc @ ps"
proof (induction rows arbitrary: sc)
  case (Cons e rows)
  have "\<exists>qs. sc_problems (scan_row H e sc) = sc_problems sc @ qs" by (simp add: scan_row_def)
  with Cons [of "scan_row H e sc"] show ?case by auto
qed simp

lemma clean_before: "sc_problems (fold (scan_row H) rows sc) = [] \<Longrightarrow> sc_problems sc = []"
  using problems_grow [of H rows sc] by auto

lemma clean_started:
  "sc_problems (fold (scan_row H) rows sc) = [] \<Longrightarrow> sc_started sc \<Longrightarrow> chained H (sc_expected sc) rows"
proof (induction rows arbitrary: sc)
  case (Cons e rows)
  then have "sc_problems (scan_row H e sc) = []" by (auto dest: clean_before)
  then have h: "au_hash e \<noteq> []" "hashed_issues H e sc = []"
    using Cons.prems(2) by (auto simp: scan_row_def split: if_splits)
  then have "chained H (au_hash e) rows" using Cons.IH [of "scan_row H e sc"] Cons.prems(1)
    by (simp add: scan_row_def)
  then show ?case using h by (auto simp: hashed_issues_def split: if_splits)
qed simp

lemma clean_split:
  "sc_problems (fold (scan_row H) rows sc) = [] \<Longrightarrow> \<not> sc_started sc \<Longrightarrow>
   \<exists>pre hs. rows = pre @ hs \<and> (\<forall>r \<in> set pre. au_hash r = []) \<and> chained H (sc_expected sc) hs"
proof (induction rows arbitrary: sc)
  case (Cons e rows)
  show ?case
  proof (cases "au_hash e = []")
    case True
    then obtain pre hs where "rows = pre @ hs" "\<forall>r \<in> set pre. au_hash r = []" "chained H (sc_expected sc) hs"
      using Cons.IH [of "scan_row H e sc"] Cons.prems by (auto simp: scan_row_def)
    then show ?thesis using True by (intro exI [of _ "e # pre"] exI [of _ hs]) simp
  next
    case False
    have "hashed_issues H e sc = []"
      using clean_before [of H rows "scan_row H e sc"] Cons.prems(1) False
      by (simp add: scan_row_def [of H e sc])
    moreover have "chained H (au_hash e) rows"
      using clean_started [of H rows "scan_row H e sc"] Cons.prems(1) False
      by (simp add: scan_row_def [of H e sc])
    ultimately have "chained H (sc_expected sc) (e # rows)"
      using False by (auto simp: hashed_issues_def split: if_splits)
    then show ?thesis by (intro exI [of _ "[]"] exI [of _ "e # rows"]) simp
  qed
qed simp

text \<open>What goes into the hash of a row.\<close>

definition hashed_text :: "audit_entry \<Rightarrow> string" where
  "hashed_text e = text_or (au_previous e) GENESIS @ canonical_content e"

lemma GENESIS_facts [simp]: "length GENESIS = 64" "GENESIS \<noteq> []"
  by (simp_all add: GENESIS_def)

lemma chain_end_length:
  assumes "\<And>s. length (H s) = 64" "length p = 64" "chained H p es"
  shows "length (chain_end p es) = 64"
  using assms(2,3)
proof (induction es arbitrary: p)
  case (Cons e es)
  have "au_hash e = H (text_or p GENESIS @ canonical_content e)" using Cons.prems(2) by (simp add: compute_hash_def)
  then have "length (au_hash e) = 64" by (simp only: assms(1))
  then show ?case using Cons.IH [of "au_hash e"] Cons.prems(2) by (auto simp: chain_end_def split: if_splits)
qed (simp add: chain_end_def)

lemma hashed_text_plain: "length (au_previous e) = 64 \<Longrightarrow> hashed_text e = au_previous e @ canonical_content e"
  by (auto simp: hashed_text_def text_or_def)

lemma chains_with_equal_end:
  assumes len: "\<And>s. length (H s) = 64"
    and "chained H GENESIS xs" "chained H GENESIS ys" "chain_end GENESIS xs = chain_end GENESIS ys"
    and "inj_on H (hashed_text ` (set xs \<union> set ys))" "GENESIS \<notin> H ` hashed_text ` (set xs \<union> set ys)"
  shows "map canonical_content xs = map canonical_content ys"
  using assms(2-)
proof (induction xs arbitrary: ys rule: rev_induct)
  case Nil
  show ?case
  proof (cases ys rule: rev_cases)
    case (snoc zs z)
    then have "H (hashed_text z) = GENESIS"
      using Nil.prems by (auto simp: chained_snoc chain_end_def compute_hash_def hashed_text_def)
    then show ?thesis using Nil.prems(5) snoc by force
  qed simp
next
  case outer: (snoc x xs)
  show ?case
  proof (cases ys rule: rev_cases)
    case Nil
    then have "H (hashed_text x) = GENESIS"
      using outer.prems by (auto simp: chained_snoc chain_end_def compute_hash_def hashed_text_def)
    then show ?thesis using outer.prems(5) by force
  next
    case (snoc zs z)
    note ch = outer.prems(1,2)
    have "hashed_text x \<in> hashed_text ` (set (xs @ [x]) \<union> set ys)"
      "hashed_text z \<in> hashed_text ` (set (xs @ [x]) \<union> set ys)" using \<open>ys = zs @ [z]\<close> by simp_all
    note inj = inj_onD [OF outer.prems(4) _ this]
    have "H (hashed_text x) = H (hashed_text z)"
      using ch outer.prems(3) \<open>ys = zs @ [z]\<close>
      by (auto simp: chained_snoc chain_end_def compute_hash_def hashed_text_def)
    then have "hashed_text x = hashed_text z" by (rule inj)
    moreover have prev: "au_previous x = chain_end GENESIS xs" "au_previous z = chain_end GENESIS zs"
      using ch \<open>ys = zs @ [z]\<close> by (simp_all add: chained_snoc)
    moreover have l: "length (chain_end GENESIS xs) = 64" "length (chain_end GENESIS zs) = 64"
      using ch \<open>ys = zs @ [z]\<close> by (auto intro!: chain_end_length [OF len] simp: chained_snoc)
    ultimately have "au_previous x @ canonical_content x = au_previous z @ canonical_content z"
      "length (au_previous x) = length (au_previous z)"
      by (simp_all only: hashed_text_plain)
    then have "au_previous x = au_previous z \<and> canonical_content x = canonical_content z"
      by (metis append_eq_append_conv)
    then have eqs: "chain_end GENESIS xs = chain_end GENESIS zs" "canonical_content x = canonical_content z"
      using prev by metis+
    have "map canonical_content xs = map canonical_content zs"
    proof (rule outer.IH)
      show "chained H GENESIS xs" "chained H GENESIS zs" using ch \<open>ys = zs @ [z]\<close> by (simp_all add: chained_snoc)
      show "inj_on H (hashed_text ` (set xs \<union> set zs))"
        using outer.prems(4) by (rule inj_on_subset) (auto simp: \<open>ys = zs @ [z]\<close>)
      show "GENESIS \<notin> H ` hashed_text ` (set xs \<union> set zs)"
        using outer.prems(5) by (auto simp: \<open>ys = zs @ [z]\<close>)
    qed (fact eqs)
    then show ?thesis using \<open>ys = zs @ [z]\<close> eqs by simp
  qed
qed

lemma verify_chain_whole:
  "snd (verify_chain H None table) =
     sc_problems (fold (scan_row H) table start_scan)
     @ (let sc = fold (scan_row H) table start_scan
        in if sc_pre sc \<noteq> [] \<and> sc_anchor sc = None then [UnanchoredRows (Some (au_id (last (sc_pre sc))))] else [])"
  by (simp add: verify_chain_def inspect_chain_def Let_def)

lemma clean_table:
  assumes "snd (verify_chain H None table) = []"
  obtains pre hs where "table = pre @ hs" "\<forall>r \<in> set pre. au_hash r = []" "chained H GENESIS hs"
  using clean_split [of H table start_scan] assms by (auto simp: verify_chain_whole start_scan_def)

lemma unhashed_run: "\<forall>r \<in> set pre. au_hash r = [] \<Longrightarrow> \<not> sc_started sc \<Longrightarrow>
    fold (scan_row H) pre sc = sc\<lparr>sc_pre := sc_pre sc @ pre\<rparr>"
proof (induction pre arbitrary: sc)
  case (Cons e pre)
  then show ?case using Cons.IH [of "scan_row H e sc"] by (simp add: scan_row_def)
qed simp

lemma all_hashed_split: "\<forall>r \<in> set table. au_hash r \<noteq> [] \<Longrightarrow> table = pre @ hs \<Longrightarrow> \<forall>r \<in> set pre. au_hash r = [] \<Longrightarrow> pre = []"
  by (cases pre) auto

lemma canonical_link [simp]: "canonical_content (e\<lparr>au_id := i, au_previous := p, au_hash := h\<rparr>) = canonical_content e"
  "canonical_content (e\<lparr>au_id := i, au_previous := p\<rparr>) = canonical_content e"
  by (simp_all add: canonical_content_def canonical_parts_def hashed_fields_def)

lemma link_form: "link H rows e = e\<lparr>au_id := next_id rows, au_previous := tail_hash rows,
    au_hash := compute_hash H (tail_hash rows) e\<rparr>"
  by (simp add: link_def Let_def compute_hash_def)

definition toy_hash :: "string \<Rightarrow> string" where
  "toy_hash s = CHR ''h'' # take 63 (s @ replicate 63 (CHR ''x''))"

definition sample_entry :: "string \<Rightarrow> string \<Rightarrow> audit_entry" where
  "sample_entry action agent =
     \<lparr> au_id = 0, au_actor_id = Some 7, au_actor_label = ''Asha'', au_action = action, au_target_type = ''driver'',
       au_target_id = ''12'', au_before = [(''a'', JInt 1), (''b'', JNull)], au_after = [(''a'', JInt 2)], au_reason = [],
       au_ip = None, au_agent = agent, au_created = ''2026-11-01'', au_email = ''a@b'', au_role = [], au_previous = [], au_hash = [] \<rparr>"

definition sample_log :: "(string \<times> json) list \<Rightarrow> audit_entry list" where
  "sample_log extra = save_entry toy_hash (sample_entry ''approve'' ''web'')
     (save_entry toy_hash ((sample_entry ''open'' ''app'')\<lparr>au_before := extra\<rparr>) [])"

lemma sample_orders:
  "dumps (JObj [(''a'', JInt 1), (''b'', JNull)]) = dumps (JObj [(''b'', JNull), (''a'', JInt 1)])"
  by code_simp

section \<open>What the application writes\<close>

text \<open>A run of the application over a table that already had rows: entries it records, and the anchor.\<close>

datatype log_op = Record audit_entry | Anchor string string string

definition log_step :: "(string \<Rightarrow> string) \<Rightarrow> audit_entry list \<Rightarrow> log_op \<Rightarrow> audit_entry list" where
  "log_step H rows op = (case op of
     Record e \<Rightarrow> save_entry H e rows
   | Anchor label now reason \<Rightarrow> (case write_anchor H label now reason rows of Inl _ \<Rightarrow> rows | Inr rows' \<Rightarrow> rows'))"

definition run_log :: "(string \<Rightarrow> string) \<Rightarrow> audit_entry list \<Rightarrow> log_op list \<Rightarrow> audit_entry list" where
  "run_log H rows ops = foldl (log_step H) rows ops"

definition first_anchor :: "audit_entry list \<Rightarrow> int option" where
  "first_anchor rows = map_option au_id (find is_anchor rows)"

text \<open>The state of the log: the old rows, then a chain, with at most one anchor, which vouches for the old rows.\<close>

definition log_ok :: "(string \<Rightarrow> string) \<Rightarrow> audit_entry list \<Rightarrow> audit_entry list \<Rightarrow> bool" where
  "log_ok H pre hs = ((\<forall>r \<in> set pre. au_hash r = []) \<and> chained H GENESIS hs
     \<and> length (filter is_anchor hs) \<le> 1 \<and> (\<forall>r \<in> set hs. is_anchor r \<longrightarrow> anchor_matches H r pre))"

lemma scan_chain:
  assumes "chained H (sc_expected sc) hs"
    "length (filter is_anchor hs) \<le> (if sc_anchor sc = None then 1 else 0)"
    "\<forall>r \<in> set hs. is_anchor r \<longrightarrow> anchor_matches H r (sc_pre sc)"
  shows "sc_problems (fold (scan_row H) hs sc) = sc_problems sc \<and> sc_pre (fold (scan_row H) hs sc) = sc_pre sc
    \<and> sc_anchor (fold (scan_row H) hs sc) = (if sc_anchor sc = None then first_anchor hs else sc_anchor sc)"
  using assms
proof (induction hs arbitrary: sc)
  case (Cons e hs)
  have ok: "hashed_issues H e sc = []" using Cons.prems by (auto simp: hashed_issues_def split: if_splits)
  have step: "scan_row H e sc = sc\<lparr>sc_anchor := (if is_anchor e \<and> sc_anchor sc = None then Some (au_id e) else sc_anchor sc),
      sc_started := True, sc_expected := au_hash e\<rparr>"
    using Cons.prems(1) ok by (simp add: scan_row_def)
  show ?case
  proof (cases "is_anchor e")
    case True
    then have none: "sc_anchor sc = None" "filter is_anchor hs = []" using Cons.prems(2) by (auto split: if_splits)
    show ?thesis using Cons.IH [of "scan_row H e sc"] Cons.prems(1,3) True none
      by (simp add: step first_anchor_def)
  next
    case False
    then show ?thesis using Cons.IH [of "scan_row H e sc"] Cons.prems
      by (simp add: step first_anchor_def)
  qed
qed (simp add: first_anchor_def)

lemma scan_log:
  assumes "log_ok H pre hs"
  shows "snd (verify_chain H None (pre @ hs)) =
    (if pre \<noteq> [] \<and> first_anchor hs = None then [UnanchoredRows (Some (au_id (last pre)))] else [])"
proof -
  define sc where "sc = start_scan\<lparr>sc_pre := pre\<rparr>"
  have sc: "sc_expected sc = GENESIS" "sc_pre sc = pre" "sc_anchor sc = None" "sc_problems sc = []"
    by (simp_all add: sc_def start_scan_def)
  have "fold (scan_row H) pre start_scan = sc"
    using assms unfolding sc_def by (subst unhashed_run) (simp_all add: log_ok_def start_scan_def)
  then have "fold (scan_row H) (pre @ hs) start_scan = fold (scan_row H) hs sc" by simp
  moreover have "sc_problems (fold (scan_row H) hs sc) = [] \<and> sc_pre (fold (scan_row H) hs sc) = pre
      \<and> sc_anchor (fold (scan_row H) hs sc) = first_anchor hs"
    using scan_chain [of H sc hs] assms by (simp add: log_ok_def sc)
  ultimately show ?thesis by (simp only: verify_chain_whole Let_def append_Nil)
qed


lemma tail_of_log:
  assumes "log_ok H pre hs" shows "tail_hash (pre @ hs) = chain_end GENESIS hs"
proof (cases "hs = []")
  case True
  then show ?thesis using assms by (cases pre rule: rev_cases) (auto simp: log_ok_def tail_hash_def text_or_def chain_end_def)
next
  case False
  have "au_hash (last hs) \<noteq> []"
    using assms False by (cases hs rule: rev_cases) (auto simp: log_ok_def chained_snoc)
  then show ?thesis using False by (simp add: tail_hash_def text_or_def chain_end_def)
qed

lemma is_anchor_link [simp]: "is_anchor (e\<lparr>au_id := i, au_previous := p, au_hash := h\<rparr>) = is_anchor e"
  by (simp add: is_anchor_def)

lemma matches_link [simp]:
  "anchor_matches H (e\<lparr>au_id := i, au_previous := p, au_hash := h\<rparr>) pre = anchor_matches H e pre"
  by (simp add: anchor_matches_def stored_def)

lemma save_chain:
  assumes len: "\<And>s. length (H s) = 64" and "log_ok H pre hs"
    "is_anchor e \<Longrightarrow> filter is_anchor hs = [] \<and> anchor_matches H e pre"
  shows "\<exists>hs'. save_entry H e (pre @ hs) = pre @ hs' \<and> log_ok H pre hs' \<and> length hs' = Suc (length hs)"
proof -
  define r where "r = link H (pre @ hs) e"
  have "compute_hash H p e \<noteq> []" for p using len [of "text_or p GENESIS @ canonical_content e"] by (auto simp: compute_hash_def)
  then have "chained H (chain_end GENESIS hs) [r]"
    using assms(2) by (simp add: r_def link_form tail_of_log compute_hash_def)
  moreover have "is_anchor r = is_anchor e" "anchor_matches H r pre = anchor_matches H e pre"
    by (simp_all add: r_def link_form)
  ultimately have "log_ok H pre (hs @ [r])" using assms(2,3) by (auto simp: log_ok_def chained_append)
  then show ?thesis by (intro exI [of _ "hs @ [r]"]) (simp add: save_entry_def r_def)
qed

lemma unhashed_of_log:
  "log_ok H pre hs \<Longrightarrow> filter (\<lambda>r. au_hash r = []) (pre @ hs) = pre \<and> filter (\<lambda>r. au_hash r \<noteq> []) (pre @ hs) = hs"
proof -
  have "chained H p hs \<Longrightarrow> (\<forall>r \<in> set hs. au_hash r \<noteq> [])" for p by (induction hs arbitrary: p) auto
  then show "log_ok H pre hs \<Longrightarrow> ?thesis" by (auto simp: log_ok_def filter_id_conv filter_empty_conv)
qed

lemma anchor_row_facts:
  "is_anchor (anchor_row H label now reason pre)"
  "pre \<noteq> [] \<Longrightarrow> anchor_matches H (anchor_row H label now reason pre) pre"
  by (simp_all add: is_anchor_def anchor_row_def anchor_matches_def stored_def last_id_def)

definition numbered_after :: "audit_entry list \<Rightarrow> audit_entry list \<Rightarrow> bool" where
  "numbered_after pre hs = (pre \<noteq> [] \<and> hs \<noteq> [] \<longrightarrow> au_id (hd hs) = au_id (last pre) + 1)"

lemma save_numbered:
  "numbered_after pre hs \<Longrightarrow> save_entry H e (pre @ hs) = pre @ hs' \<Longrightarrow> numbered_after pre hs'"
  by (cases hs) (auto simp: numbered_after_def save_entry_def link_form next_id_def)

lemma save_anchors: "save_entry H e (pre @ hs) = pre @ hs' \<Longrightarrow>
    (\<exists>r \<in> set hs'. is_anchor r) \<longleftrightarrow> is_anchor e \<or> (\<exists>r \<in> set hs. is_anchor r)"
  by (auto simp: save_entry_def link_form)

definition is_anchor_op :: "log_op \<Rightarrow> bool" where
  "is_anchor_op op = (case op of Record _ \<Rightarrow> False | Anchor _ _ _ \<Rightarrow> True)"

definition log_state :: "(string \<Rightarrow> string) \<Rightarrow> audit_entry list \<Rightarrow> bool \<Rightarrow> audit_entry list \<Rightarrow> bool" where
  "log_state H pre anchored hs = (log_ok H pre hs \<and> numbered_after pre hs
     \<and> ((\<exists>r \<in> set hs. is_anchor r) \<longleftrightarrow> pre \<noteq> [] \<and> anchored))"

lemma step_keeps_log:
  assumes len: "\<And>s. length (H s) = 64" and st: "log_state H pre a hs"
    and rec: "\<And>e. op = Record e \<Longrightarrow> \<not> is_anchor e" and pre: "\<forall>r \<in> set pre. \<not> is_anchor r"
  shows "\<exists>hs'. log_step H (pre @ hs) op = pre @ hs' \<and> log_state H pre (a \<or> is_anchor_op op) hs'"
proof -
  have ok: "log_ok H pre hs" using st by (simp add: log_state_def)
  have save: "\<exists>hs'. save_entry H e (pre @ hs) = pre @ hs' \<and> log_ok H pre hs' \<and> numbered_after pre hs'
      \<and> ((\<exists>r \<in> set hs'. is_anchor r) \<longleftrightarrow> is_anchor e \<or> (\<exists>r \<in> set hs. is_anchor r))"
    if c: "is_anchor e \<Longrightarrow> filter is_anchor hs = [] \<and> anchor_matches H e pre" for e
  proof -
    obtain hs' where hs': "save_entry H e (pre @ hs) = pre @ hs'" "log_ok H pre hs'"
      using save_chain [OF len ok c] by blast
    then show ?thesis using save_numbered [OF _ hs'(1)] save_anchors [OF hs'(1)] st by (auto simp: log_state_def)
  qed
  show ?thesis
  proof (cases op)
    case (Record e)
    then show ?thesis using save [of e] rec [OF Record] st by (auto simp: log_step_def log_state_def is_anchor_op_def)
  next
    case (Anchor label now reason)
    note parts = conjunct1 [OF unhashed_of_log [OF ok]] conjunct2 [OF unhashed_of_log [OF ok]]
    show ?thesis
    proof (cases "(\<exists>r \<in> set hs. is_anchor r) \<or> pre = []")
      case True
      then have "log_step H (pre @ hs) op = pre @ hs" unfolding Anchor log_step_def write_anchor_def Let_def parts by auto
      then show ?thesis using st True by (auto simp: log_state_def)
    next
      case False
      then have fresh: "filter is_anchor hs = []" "pre \<noteq> []" by (auto simp: filter_empty_conv)
      have "\<not> (hs \<noteq> [] \<and> au_id (last pre) > au_id (hd hs))"
        using st fresh by (auto simp: log_state_def numbered_after_def)
      then have "log_step H (pre @ hs) op = save_entry H (anchor_row H label now reason pre) (pre @ hs)"
        using False pre unfolding Anchor log_step_def write_anchor_def Let_def parts by auto
      then show ?thesis
        using save [of "anchor_row H label now reason pre"] fresh
        by (auto simp: anchor_row_facts log_state_def is_anchor_op_def Anchor)
    qed
  qed
qed

lemma run_keeps_log:
  assumes "\<And>s. length (H s) = 64" "\<forall>r \<in> set pre. \<not> is_anchor r" "log_state H pre a hs"
    "\<forall>op \<in> set ops. \<forall>e. op = Record e \<longrightarrow> \<not> is_anchor e"
  shows "\<exists>hs'. run_log H (pre @ hs) ops = pre @ hs' \<and> log_state H pre (a \<or> (\<exists>op \<in> set ops. is_anchor_op op)) hs'"
  using assms(3,4)
proof (induction ops arbitrary: a hs)
  case (Cons op ops)
  obtain hs1 where hs1: "log_step H (pre @ hs) op = pre @ hs1" "log_state H pre (a \<or> is_anchor_op op) hs1"
    using step_keeps_log [OF assms(1) Cons.prems(1) _ assms(2), of op] Cons.prems(2) by auto
  then show ?case using Cons.IH [OF hs1(2)] Cons.prems(2) by (auto simp: run_log_def disj_assoc)
qed (auto simp: run_log_def)

lemma recorded_log_clean:
  assumes "\<And>s. length (H s) = 64" "\<forall>e \<in> set es. \<not> is_anchor e"
  shows "snd (verify_chain H None (run_log H [] (map Record es))) = []"
proof -
  have "log_state H [] False []" by (simp add: log_state_def log_ok_def numbered_after_def)
  then obtain hs where "run_log H [] (map Record es) = hs" "log_ok H [] hs"
    using run_keeps_log [where H = H and pre = "[]" and a = False and hs = "[]" and ops = "map Record es"] assms
    by (auto simp: log_state_def)
  then show ?thesis using scan_log [of H "[]" hs] by simp
qed

lemma toy_hash_length: "length (toy_hash s) = 64"
  by (simp add: toy_hash_def)

lemma sample_log_clean: "snd (verify_chain toy_hash None (sample_log extra)) = []"
proof -
  have "sample_log extra = run_log toy_hash [] (map Record
      [(sample_entry ''open'' ''app'')\<lparr>au_before := extra\<rparr>, sample_entry ''approve'' ''web''])"
    by (simp add: sample_log_def run_log_def log_step_def)
  then show ?thesis
    using recorded_log_clean [OF toy_hash_length, of "[(sample_entry ''open'' ''app'')\<lparr>au_before := extra\<rparr>, sample_entry ''approve'' ''web'']"]
    by (simp add: is_anchor_def sample_entry_def)
qed

text \<open>Claim C20. Tamper evidence: if two tables of hashed rows both verify without a problem and end in the same
  hash, then they record the same thing row by row, so a rewritten history that still verifies
  cannot keep the last hash. Relied on: SHA-256 gives 64 characters, and neither collides on the texts of
  these rows nor gives the genesis value for one of them.
\<close>

theorem equal_tail_equal_history:
  assumes "\<And>s. length (H s) = 64"
    and "inj_on H (hashed_text ` (set xs \<union> set ys))" "GENESIS \<notin> H ` hashed_text ` (set xs \<union> set ys)"
    and "\<forall>r \<in> set xs \<union> set ys. au_hash r \<noteq> []"
    and "snd (verify_chain H None xs) = []" "snd (verify_chain H None ys) = []"
    and "tail_hash xs = tail_hash ys"
  shows "map canonical_content xs = map canonical_content ys"
proof -
  have ch: "chained H GENESIS xs" if "\<forall>r \<in> set xs. au_hash r \<noteq> []" "snd (verify_chain H None xs) = []" for xs
  proof -
    obtain pre hs where "xs = pre @ hs" "\<forall>r \<in> set pre. au_hash r = []" "chained H GENESIS hs"
      using \<open>snd (verify_chain H None xs) = []\<close> by (rule clean_table)
    then show ?thesis using all_hashed_split [of xs pre hs] that(1) by simp
  qed
  have tl: "chain_end GENESIS zs = tail_hash zs" if "\<forall>r \<in> set zs. au_hash r \<noteq> []" for zs
    using that by (simp add: chain_end_def tail_hash_def text_or_def)
  show ?thesis
  proof (rule chains_with_equal_end [OF assms(1)])
    show "chained H GENESIS xs" "chained H GENESIS ys" using assms(4-6) by (blast intro: ch)+
    show "chain_end GENESIS xs = chain_end GENESIS ys" using assms(4,7) by (simp add: tl)
  qed (use assms in blast)+
qed

abbreviation log_ab :: "audit_entry list" where
  "log_ab \<equiv> sample_log [(''a'', JInt 1), (''b'', JNull)]"

abbreviation log_ba :: "audit_entry list" where
  "log_ba \<equiv> sample_log [(''b'', JNull), (''a'', JInt 1)]"

theorem equal_tail_equal_history_witness:
  "log_ab \<noteq> log_ba \<and> map canonical_content log_ab = map canonical_content log_ba"
proof
  show "log_ab \<noteq> log_ba" by (simp add: sample_log_def save_entry_def link_def Let_def sample_entry_def)
  show "map canonical_content log_ab = map canonical_content log_ba"
  proof (rule equal_tail_equal_history)
    have same: "canonical_content ((sample_entry ''open'' ''app'')\<lparr>au_before := [(''a'', JInt 1), (''b'', JNull)]\<rparr>)
        = canonical_content ((sample_entry ''open'' ''app'')\<lparr>au_before := [(''b'', JNull), (''a'', JInt 1)]\<rparr>)"
      unfolding canonical_determines_fields hashed_fields_def by (simp add: sample_orders sample_entry_def del: dumps.simps)
    then have eq: "map hashed_text log_ba = map hashed_text log_ab"
      by (simp add: sample_log_def save_entry_def link_form tail_hash_def hashed_text_def compute_hash_def)
    have img: "hashed_text ` (set log_ab \<union> set log_ba) = set (map hashed_text log_ab)"
      by (simp only: image_Un set_map [symmetric] eq Un_absorb)
    obtain s t where st: "map hashed_text log_ab = [GENESIS @ s, CHR ''h'' # t]"
      by (auto simp: sample_log_def save_entry_def link_form tail_hash_def hashed_text_def compute_hash_def text_or_def toy_hash_def)
    have distinct: "toy_hash (GENESIS @ s) \<noteq> toy_hash (CHR ''h'' # t)"
      by (simp add: toy_hash_def GENESIS_def numeral_eq_Suc)
    show "inj_on toy_hash (hashed_text ` (set log_ab \<union> set log_ba))"
      unfolding img st using distinct by (simp add: inj_on_def)
    show "GENESIS \<notin> toy_hash ` hashed_text ` (set log_ab \<union> set log_ba)"
      unfolding img st by (auto simp: toy_hash_def GENESIS_def numeral_eq_Suc)
    show "\<forall>r \<in> set log_ab \<union> set log_ba. au_hash r \<noteq> []"
      by (auto simp: sample_log_def save_entry_def link_form compute_hash_def toy_hash_def)
    show "length (toy_hash s) = 64" for s by (simp add: toy_hash_def)
    show "snd (verify_chain toy_hash None log_ab) = []" "snd (verify_chain toy_hash None log_ba) = []"
      by (rule sample_log_clean)+
    show "tail_hash log_ab = tail_hash log_ba"
      using same by (simp add: sample_log_def save_entry_def link_form tail_hash_def hashed_text_def compute_hash_def)
  qed
qed


definition old_rows :: "audit_entry list" where
  "old_rows = [(sample_entry ''ban'' [])\<lparr>au_id := 1\<rparr>, (sample_entry ''unban'' [])\<lparr>au_id := 2\<rparr>]"


section \<open>Rows older than the chain\<close>

lemma clean_anchor_matches:
  assumes "sc_problems (fold (scan_row H) hs sc) = []" "sc_anchor sc = None" "\<forall>r \<in> set hs. au_hash r \<noteq> []"
    "find is_anchor hs = Some a"
  shows "anchor_matches H a (sc_pre sc)"
  using assms
proof (induction hs arbitrary: sc)
  case (Cons e hs)
  have clean: "sc_problems (fold (scan_row H) hs (scan_row H e sc)) = []" using Cons.prems(1) by simp
  then have "hashed_issues H e sc = []"
    using clean_before [OF clean] Cons.prems(3) by (simp add: scan_row_def)
  moreover have "sc_pre (scan_row H e sc) = sc_pre sc"
    "\<not> is_anchor e \<Longrightarrow> sc_anchor (scan_row H e sc) = None"
    using Cons.prems(2,3) by (simp_all add: scan_row_def)
  ultimately show ?case
    using Cons.IH [OF clean] Cons.prems(2-4) by (auto simp: hashed_issues_def split: if_splits)
qed simp

lemma covered_unique: "covered_bytes xs = covered_bytes ys \<Longrightarrow> map canonical_content xs = map canonical_content ys"
proof (induction xs arbitrary: ys)
  case Nil
  then show ?case by (cases ys) (simp_all add: covered_bytes_def)
next
  case (Cons x xs)
  then obtain y zs where ys: "ys = y # zs" by (cases ys) (simp_all add: covered_bytes_def)
  have "canonical_content x @ CHR 0x0A # covered_bytes xs = canonical_content y @ CHR 0x0A # covered_bytes zs"
    using Cons.prems ys by (simp add: covered_bytes_def)
  then have "canonical_content x = canonical_content y" "covered_bytes xs = covered_bytes zs"
    unfolding canonical_quoted by (auto dest!: quoted_object_unique)
  then show ?case using Cons.IH ys by simp
qed

lemma anchor_seen:
  assumes "\<forall>r \<in> set pre. au_hash r = []" "\<forall>r \<in> set hs. au_hash r \<noteq> []" "find is_anchor hs = Some a"
    "snd (verify_chain H None (pre @ hs)) = []"
  shows "anchor_matches H a pre"
proof -
  have "fold (scan_row H) pre start_scan = start_scan\<lparr>sc_pre := pre\<rparr>"
    using assms(1) by (subst unhashed_run) (simp_all add: start_scan_def)
  then show ?thesis
    using clean_anchor_matches [of H hs "start_scan\<lparr>sc_pre := pre\<rparr>" a] assms
    by (simp add: verify_chain_whole) (simp add: start_scan_def)
qed

text \<open>The rows older than the chain are protected by the anchor: with the same hashed rows and
  an anchor among them, two runs of old rows that both verify have the same number of rows, the same last
  id and the same canonical content row by row. Relied on: SHA-256 does not collide on the two
  texts the digest is taken over.
\<close>

theorem anchor_protects_old_rows:
  assumes "\<forall>r \<in> set old \<union> set old'. au_hash r = []" "\<forall>r \<in> set hs. au_hash r \<noteq> []" "\<exists>a \<in> set hs. is_anchor a"
    and "snd (verify_chain H None (old @ hs)) = []" "snd (verify_chain H None (old' @ hs)) = []"
    and "inj_on H {covered_bytes old, covered_bytes old'}"
  shows "map canonical_content old = map canonical_content old' \<and> last_id old = last_id old'"
proof -
  obtain a where a: "find is_anchor hs = Some a" using assms(3) by (metis find_None_iff not_Some_eq)
  have m: "anchor_matches H a old" "anchor_matches H a old'"
    using assms(1) by (auto intro!: anchor_seen [OF _ assms(2) a assms(4)] anchor_seen [OF _ assms(2) a assms(5)])
  then have "pre_chain_digest H old = pre_chain_digest H old'" "last_id old = last_id old'"
    by (auto simp: anchor_matches_def)
  moreover have "covered_bytes old = covered_bytes old'"
    using assms(6) calculation(1) unfolding pre_chain_digest_def by (rule inj_onD) simp_all
  ultimately show ?thesis using covered_unique by blast
qed

definition anchored_rows :: "audit_entry list" where
  "anchored_rows = [link toy_hash old_rows (anchor_row toy_hash ''migration'' ''2026-11-02'' ''start'' old_rows)]"

definition old_rows_copy :: "audit_entry list" where
  "old_rows_copy = map (\<lambda>e. e\<lparr>au_before := rev (au_before e)\<rparr>) old_rows"

lemma copy_reads_same: "map canonical_content old_rows_copy = map canonical_content old_rows"
  unfolding old_rows_copy_def old_rows_def
  by (simp add: canonical_determines_fields hashed_fields_def sample_entry_def sample_orders del: dumps.simps)

lemma covered_by_content: "covered_bytes rows = concat (map (\<lambda>c. c @ [CHR 0x0A]) (map canonical_content rows))"
  by (simp add: covered_bytes_def comp_def)

lemma copy_covers_same: "covered_bytes old_rows_copy = covered_bytes old_rows"
  by (simp only: covered_by_content copy_reads_same)

lemma copy_digest: "pre_chain_digest toy_hash old_rows_copy = pre_chain_digest toy_hash old_rows"
  by (simp only: pre_chain_digest_def copy_covers_same)

lemma old_rows_facts:
  "\<forall>r \<in> set old_rows. au_hash r = []" "\<forall>r \<in> set old_rows_copy. au_hash r = []"
  "old_rows \<noteq> []" "length old_rows_copy = length old_rows" "last_id old_rows_copy = last_id old_rows"
  "tail_hash old_rows = GENESIS"
  by (simp_all add: old_rows_def old_rows_copy_def sample_entry_def last_id_def tail_hash_def text_or_def)

lemma anchored_ok: "log_ok toy_hash old_rows anchored_rows" "log_ok toy_hash old_rows_copy anchored_rows"
proof -
  have m: "anchor_matches toy_hash (anchor_row toy_hash l n r old_rows) old_rows" for l n r
    by (simp add: anchor_row_facts old_rows_facts)
  then have "anchor_matches toy_hash (anchor_row toy_hash l n r old_rows) old_rows_copy" for l n r
    by (simp add: anchor_matches_def copy_digest old_rows_facts)
  moreover have "chained toy_hash GENESIS anchored_rows"
    by (simp add: anchored_rows_def link_form old_rows_facts compute_hash_def toy_hash_def)
  ultimately show "log_ok toy_hash old_rows anchored_rows" "log_ok toy_hash old_rows_copy anchored_rows"
    using m by (simp_all add: log_ok_def old_rows_facts(1,2)) (simp_all add: anchored_rows_def link_form)
qed

theorem anchor_protects_old_rows_witness:
  "old_rows \<noteq> old_rows_copy \<and> map canonical_content old_rows = map canonical_content old_rows_copy"
proof
  show "old_rows \<noteq> old_rows_copy" by (simp add: old_rows_def old_rows_copy_def sample_entry_def)
  have a: "first_anchor anchored_rows \<noteq> None" "\<exists>a \<in> set anchored_rows. is_anchor a"
    "\<forall>r \<in> set anchored_rows. au_hash r \<noteq> []"
    by (simp_all add: anchored_rows_def link_form first_anchor_def anchor_row_facts compute_hash_def toy_hash_def)
  have "map canonical_content old_rows = map canonical_content old_rows_copy \<and> last_id old_rows = last_id old_rows_copy"
  proof (rule anchor_protects_old_rows)
    show "\<forall>r \<in> set old_rows \<union> set old_rows_copy. au_hash r = []" using old_rows_facts(1,2) by blast
    show "snd (verify_chain toy_hash None (old_rows @ anchored_rows)) = []"
      "snd (verify_chain toy_hash None (old_rows_copy @ anchored_rows)) = []"
      using a(1) by (simp_all only: scan_log [OF anchored_ok(1)] scan_log [OF anchored_ok(2)] simp_thms if_False)
    show "inj_on toy_hash {covered_bytes old_rows, covered_bytes old_rows_copy}"
      by (simp only: copy_covers_same) simp
  qed (rule a)+
  then show "map canonical_content old_rows = map canonical_content old_rows_copy" ..
qed

section \<open>What the verifier cannot see\<close>

lemma scan_row_keeps:
  "sc_started sc \<Longrightarrow> sc_started (scan_row H e sc) \<and> sc_pre (scan_row H e sc) = sc_pre sc"
  "sc_anchor sc \<noteq> None \<Longrightarrow> sc_anchor (scan_row H e sc) \<noteq> None"
  by (auto simp: scan_row_def)

lemma scan_keeps_pre:
  "sc_started sc \<Longrightarrow> sc_pre (fold (scan_row H) rows sc) = sc_pre sc"
  by (induction rows arbitrary: sc) (simp_all add: scan_row_keeps)

lemma scan_keeps_anchor:
  "sc_anchor sc \<noteq> None \<Longrightarrow> sc_anchor (fold (scan_row H) rows sc) \<noteq> None"
proof (induction rows arbitrary: sc)
  case (Cons e rows)
  show ?case using Cons.IH [OF scan_row_keeps(2) [OF Cons.prems]] by simp
qed simp

lemma scan_finds_anchor:
  "\<exists>r \<in> set rows. is_anchor r \<and> au_hash r \<noteq> [] \<Longrightarrow> sc_anchor (fold (scan_row H) rows sc) \<noteq> None"
proof (induction rows arbitrary: sc)
  case (Cons e rows)
  show ?case
  proof (cases "is_anchor e \<and> au_hash e \<noteq> []")
    case True
    then have "sc_anchor (scan_row H e sc) \<noteq> None" by (auto simp: scan_row_def)
    then show ?thesis using scan_keeps_anchor by simp
  next
    case False
    then have "\<exists>r \<in> set rows. is_anchor r \<and> au_hash r \<noteq> []" using Cons.prems by auto
    then show ?thesis using Cons.IH by simp
  qed
qed simp

text \<open>The verifier does not see rows missing from the end: cutting any number of the newest rows off a
  table that verifies leaves a table that verifies, as long as the anchor, where there are old
  rows, is among the rows kept. (The module's description says that removing a row is detected; that needs
  the last hash to be kept somewhere else.)
\<close>

theorem truncation_undetected:
  assumes "verify_chain H None (kept @ newer) = (n, [])"
    and "au_hash (hd kept) \<noteq> [] \<and> kept \<noteq> [] \<or> (\<exists>r \<in> set kept. is_anchor r \<and> au_hash r \<noteq> [])"
  shows "verify_chain H None kept = (length kept, [])"
proof -
  have clean: "sc_problems (fold (scan_row H) (kept @ newer) start_scan) = []"
    using assms(1) verify_chain_whole [of H "kept @ newer"] by simp
  have none: "sc_problems (fold (scan_row H) kept start_scan) = []"
    using clean clean_before [of H newer] by simp
  have "sc_pre (fold (scan_row H) kept start_scan) = [] \<or> sc_anchor (fold (scan_row H) kept start_scan) \<noteq> None"
  proof (cases "\<exists>r \<in> set kept. is_anchor r \<and> au_hash r \<noteq> []")
    case False
    then obtain e es where e: "kept = e # es" "au_hash e \<noteq> []" using assms(2) by (cases kept) auto
    then have "sc_started (scan_row H e start_scan)" "sc_pre (scan_row H e start_scan) = []"
      by (simp_all add: scan_row_def start_scan_def)
    then show ?thesis using e scan_keeps_pre [of "scan_row H e start_scan" H es] by simp
  qed (simp add: scan_finds_anchor)
  then have "snd (verify_chain H None kept) = []" unfolding verify_chain_whole none Let_def by simp
  then show ?thesis by (simp add: prod_eq_iff verify_chain_def inspect_chain_def Let_def)
qed

theorem truncation_undetected_witness:
  "verify_chain toy_hash None (take 1 (sample_log [])) = (1, [])"
proof -
  have "take 1 (sample_log []) @ drop 1 (sample_log []) = sample_log []" by (rule append_take_drop_id)
  moreover have "fst (verify_chain toy_hash None (sample_log [])) = 2"
    by (simp add: verify_chain_def inspect_chain_def Let_def sample_log_def save_entry_def)
  ultimately have "verify_chain toy_hash None (take 1 (sample_log []) @ drop 1 (sample_log [])) = (2, [])"
    using sample_log_clean [of "[]"] by (simp add: prod_eq_iff)
  from truncation_undetected [OF this] show ?thesis
    by (simp add: sample_log_def save_entry_def link_form compute_hash_def toy_hash_def)
qed

section \<open>Two writers at the same time\<close>

text \<open>
  \<open>save\<close> links the row in one transaction (\<open>_link_into_chain\<close>, under a lock on the last row) and inserts
  it after that transaction has ended; another writer may link in between.
\<close>

datatype writer_step = LinkRow nat | InsertRow nat

definition write_step :: "(string \<Rightarrow> string) \<Rightarrow> (nat \<Rightarrow> audit_entry) \<Rightarrow>
    writer_step \<Rightarrow> audit_entry list \<times> (nat \<Rightarrow> audit_entry option) \<Rightarrow> audit_entry list \<times> (nat \<Rightarrow> audit_entry option)" where
  "write_step H entries st s = (case st of
     LinkRow w \<Rightarrow> (fst s, (snd s)(w \<mapsto> link H (fst s) (entries w)))
   | InsertRow w \<Rightarrow> (case snd s w of None \<Rightarrow> s
       | Some e \<Rightarrow> (fst s @ [e\<lparr>au_id := next_id (fst s)\<rparr>], (snd s)(w := None))))"

definition run_writers :: "(string \<Rightarrow> string) \<Rightarrow> (nat \<Rightarrow> audit_entry) \<Rightarrow> writer_step list \<Rightarrow> audit_entry list \<Rightarrow> audit_entry list" where
  "run_writers H entries steps rows = fst (fold (write_step H entries) steps (rows, Map.empty))"

lemma link_numbered [simp]: "(link H rows e)\<lparr>au_id := next_id rows\<rparr> = link H rows e"
  by (simp add: link_form)

lemma problems_persist: "p \<in> set (sc_problems sc) \<Longrightarrow> p \<in> set (sc_problems (fold (scan_row H) rows sc))"
  using problems_grow [of H rows sc] by auto

text \<open>Claim C35. Two writers that link before either inserts fork the chain: the second row claims the same
  predecessor, and from then on every verification reports a broken link at it, whatever is written later.
  Linking and inserting one after the other is what \<open>save_entry\<close> does twice.
\<close>

theorem interleaved_writers_fork:
  assumes "\<And>s. length (H s) = 64"
    and "compute_hash H (tail_hash rows) (entries v) \<noteq> tail_hash rows" "v \<noteq> w"
  defines "forked \<equiv> run_writers H entries [LinkRow v, LinkRow w, InsertRow v, InsertRow w] rows"
  shows "BrokenLink (next_id rows + 1) \<in> set (snd (verify_chain H None (forked @ later)))
    \<and> run_writers H entries [LinkRow v, InsertRow v, LinkRow w, InsertRow w] rows
        = save_entry H (entries w) (save_entry H (entries v) rows)"
proof
  define r1 where "r1 = link H rows (entries v)"
  define r2 where "r2 = (link H rows (entries w))\<lparr>au_id := next_id rows + 1\<rparr>"
  have forked: "forked = rows @ [r1, r2]"
    using \<open>v \<noteq> w\<close> by (simp add: forked_def run_writers_def write_step_def r1_def r2_def link_form next_id_def)
  have filled: "compute_hash H p e \<noteq> []" for p e
    using assms(1) [of "text_or p GENESIS @ canonical_content e"] by (auto simp: compute_hash_def)
  define sc where "sc = scan_row H r1 (fold (scan_row H) rows start_scan)"
  have "sc_expected sc = compute_hash H (tail_hash rows) (entries v)"
    using filled by (simp add: sc_def scan_row_def r1_def link_form)
  then have "BrokenLink (next_id rows + 1) \<in> set (sc_problems (scan_row H r2 sc))"
    using assms(2) filled by (auto simp: scan_row_def r2_def link_form hashed_issues_def)
  then have "BrokenLink (next_id rows + 1) \<in> set (sc_problems (fold (scan_row H) later (scan_row H r2 sc)))"
    by (rule problems_persist)
  then show "BrokenLink (next_id rows + 1) \<in> set (snd (verify_chain H None (forked @ later)))"
    by (simp add: forked verify_chain_whole sc_def)
  show "run_writers H entries [LinkRow v, InsertRow v, LinkRow w, InsertRow w] rows
      = save_entry H (entries w) (save_entry H (entries v) rows)"
    using \<open>v \<noteq> w\<close> by (simp add: run_writers_def write_step_def save_entry_def)
qed

theorem interleaved_writers_fork_witness:
  "BrokenLink 2 \<in> set (snd (verify_chain toy_hash None (run_writers toy_hash (\<lambda>w. sample_entry ''open'' (show_nat w))
      [LinkRow 0, LinkRow 1, InsertRow 0, InsertRow 1] [] @ [])))"
  using interleaved_writers_fork [where H = toy_hash and v = 0 and w = 1 and rows = "[]" and later = "[]"
      and entries = "\<lambda>w. sample_entry ''open'' (show_nat w)"]
  by (simp add: toy_hash_length next_id_def tail_hash_def compute_hash_def GENESIS_def numeral_eq_Suc) (simp add: toy_hash_def)

end
