(* ===== verification/Approvals.thy ===== *)
theory Approvals
  imports Access Countries AuditChain
begin

text \<open>
  Maker-checker (\<open>servers/approvals\<close>): the catalogue of actions (\<open>actions.py\<close>), the versioned
  policies and the requests (\<open>models.py\<close>), the decision, raising, approving, rejecting, cancelling and
  expiring a request and the writer of policies (\<open>service.py\<close>), the registry and the policy-change
  executor (\<open>registry.py\<close>, \<open>executors.py\<close>) and the seed command.

  An executor of another module is a parameter: a function of the request and of the rest of the
  database (the type \<open>'w\<close>) that answers with a result, a refusal or an exception. Every operation
  returns its reply (\<open>Inl\<close> the exception) and the books after it; a transaction that is
  rolled back returns the books it started from. \<open>ab_calls\<close> records which requests an executor
  was called for. Times are seconds; a payload is a JSON object as its pairs.
\<close>

section \<open>Actions\<close>

record action_spec =
  ac_key :: string
  ac_capability :: string
  ac_always :: bool
  ac_multi :: string
  ac_force :: string

definition action :: "string \<Rightarrow> string \<Rightarrow> bool \<Rightarrow> string \<Rightarrow> string \<Rightarrow> action_spec" where
  "action k c a m f = \<lparr> ac_key = k, ac_capability = c, ac_always = a, ac_multi = m, ac_force = f \<rparr>"

definition POLICY_CHANGE :: string where
  "POLICY_CHANGE = ''approvals.policy_change''"

definition ACTIONS :: "action_spec list" where
  "ACTIONS =
    [action ''support.refund'' ''support.refund'' False [] [],
     action ''finance.refund'' ''support.refund'' False [] [],
     action ''finance.adjust'' ''finance.adjust'' False [] ''requires_checker'',
     action ''finance.payout'' ''finance.payout'' False ''withdrawal_ids'' [],
     action ''pricing.change'' ''pricing.write'' False [] [],
     action ''driver.deactivate'' ''driver.deactivate'' False [] [],
     action ''bulk.action'' ''admin.manage'' False [] [],
     action POLICY_CHANGE ''platform.settings'' True [] [],
     action ''command_centre.threshold_change'' ''platform.settings'' True [] [],
     action ''support.sla_change'' ''support.sla'' False [] [],
     action ''finance.payout_config_change'' ''finance.config'' False [] [],
     action ''finance.wallet_credit'' ''finance.adjust'' False [] [],
     action ''zone.change'' ''zone.write'' False [] [],
     action ''notification.template_change'' ''notify.template'' False [] [],
     action ''notification.campaign_send'' ''notify.campaign'' False [] [],
     action ''promotion.launch'' ''promo.read'' False [] [],
     action ''promotion.budget_increase'' ''promo.read'' False [] [],
     action ''fraud.rule_change'' ''fraud.rules'' False [] [],
     action ''finance.payout_hold'' ''finance.payout'' True [] [],
     action ''platform.city_status'' ''platform.settings'' False [] [],
     action ''platform.flag_change'' ''platform.settings'' False [] [],
     action ''platform.app_version'' ''platform.settings'' False [] [],
     action ''platform.setting_change'' ''platform.settings'' False [] [],
     action ''privacy.erasure'' ''privacy.manage'' True [] []]"

definition action_for :: "string \<Rightarrow> action_spec option" where
  "action_for key = find (\<lambda>a. ac_key a = key) ACTIONS"

section \<open>Policies and requests\<close>

datatype limit_kind = MoneyLimit | CountLimit | AlwaysLimit

definition limit_kind_of :: "string \<Rightarrow> limit_kind option" where
  "limit_kind_of k = (if k = ''money'' then Some MoneyLimit else if k = ''count'' then Some CountLimit
     else if k = ''always'' then Some AlwaysLimit else None)"

record snapshot =
  sn_id :: "int option"
  sn_label :: string
  sn_email :: string
  sn_role :: string

definition empty_snapshot :: snapshot where
  "empty_snapshot = \<lparr> sn_id = None, sn_label = [], sn_email = [], sn_role = [] \<rparr>"

record policy =
  pl_id :: int
  pl_country :: string
  pl_action :: string
  pl_kind :: limit_kind
  pl_currency :: string
  pl_limit :: "int option"
  pl_active :: bool
  pl_version :: nat
  pl_from :: int
  pl_to :: "int option"
  pl_reason :: string
  pl_created_by :: snapshot
  pl_changed_via :: "int option"

datatype request_status = Requested | Approved | Rejected | Executed | Failed | Cancelled | Expired

definition KEY_HELD_STATUSES :: "request_status list" where
  "KEY_HELD_STATUSES = [Requested, Approved, Executed]"

definition TERMINAL_STATUSES :: "request_status list" where
  "TERMINAL_STATUSES = [Rejected, Executed, Failed, Cancelled, Expired]"

type_synonym payload = "(string \<times> json) list"

record request =
  rq_id :: int
  rq_action :: string
  rq_country :: string
  rq_scope :: "geo_node option"
  rq_amount :: "int option"
  rq_currency :: string
  rq_policy :: "int option"
  rq_target_type :: string
  rq_target_id :: string
  rq_payload :: payload
  rq_reason :: string
  rq_maker :: snapshot
  rq_status :: request_status
  rq_requested_at :: int
  rq_expires_at :: int
  rq_checker :: snapshot
  rq_decision_reason :: string
  rq_decided_at :: "int option"
  rq_self_approved :: bool
  rq_executed_at :: "int option"
  rq_result :: payload
  rq_error_code :: string
  rq_error :: string
  rq_key :: string

record operator = user_acct +
  op_label :: string
  op_email :: string
  op_role_text :: string
  op_break_glass :: bool
  op_active :: bool

definition acct :: "operator \<Rightarrow> user_acct" where
  "acct u = user_acct.truncate u"

definition actor_snapshot :: "operator option \<Rightarrow> snapshot" where
  "actor_snapshot u = (case u of None \<Rightarrow> empty_snapshot
     | Some v \<Rightarrow> if \<not> authenticated v then empty_snapshot
         else \<lparr> sn_id = Some (user_pk v), sn_label = op_label v, sn_email = take 254 (op_email v), sn_role = op_role_text v \<rparr>)"

record 'w approval_books =
  ab_policies :: "policy list"
  ab_requests :: "request list"
  ab_calls :: "int list"
  ab_audit :: "(string \<times> int \<times> int option) list"
  ab_closed :: "(int \<times> request_status) list"
  ab_world :: 'w

record approval_env =
  en_now :: int
  en_ttl :: int
  en_strict :: bool
  en_solo :: bool
  en_db :: assignments
  en_users :: "operator list"
  en_country_node :: "string \<Rightarrow> geo_node option"

datatype approval_error = ThresholdNotConfigured | InvalidRequest string | NotPermitted string | NotInScope
  | WrongState string | NoExecutor | IntegrityRaised | NoSuchRequest | CatalogueError

datatype exec_outcome = ExecResult json | ExecRefused string string | ExecRaised string

datatype 'w executor = Module "request \<Rightarrow> 'w \<Rightarrow> exec_outcome \<times> 'w" | PolicyChange

type_synonym 'w registry = "string \<Rightarrow> (request \<Rightarrow> 'w \<Rightarrow> exec_outcome \<times> 'w) option"

definition executor_for :: "'w registry \<Rightarrow> string \<Rightarrow> 'w executor option" where
  "executor_for reg key = (if key = POLICY_CHANGE then Some PolicyChange else map_option Module (reg key))"

section \<open>The decision\<close>

definition active_policy :: "policy list \<Rightarrow> string \<Rightarrow> string \<Rightarrow> policy option" where
  "active_policy ps country key =
     find (\<lambda>p. pl_country p = country \<and> pl_action p = key \<and> pl_active p) (sort_key (\<lambda>p. - int (pl_version p)) ps)"

definition clean_code :: "string \<Rightarrow> string" where
  "clean_code c = py_strip (py_upper c)"

definition check_country :: "string \<Rightarrow> approval_error + string" where
  "check_country country = (let c = clean_code country
     in if c \<notin> set (map ct_code COUNTRIES) then Inl (InvalidRequest ''UNKNOWN_COUNTRY'') else Inr c)"

definition check_amount :: "int \<Rightarrow> approval_error + int" where
  "check_amount amount = (if amount < 0 then Inl (InvalidRequest ''AMOUNT_NEGATIVE'') else Inr amount)"

definition decide ::
  "policy list \<Rightarrow> string \<Rightarrow> string \<Rightarrow> int option \<Rightarrow> string \<Rightarrow> approval_error + bool \<times> policy option" where
  "decide ps key country_arg amount currency = (case action_for key of
      None \<Rightarrow> Inl (InvalidRequest ''UNKNOWN_ACTION'')
    | Some a \<Rightarrow> bind_res (check_country country_arg) (\<lambda>country.
        if ac_always a then Inr (True, None)
        else case active_policy ps country key of
            None \<Rightarrow> Inl ThresholdNotConfigured
          | Some p \<Rightarrow>
              (case pl_limit p of
                 None \<Rightarrow> Inr (True, Some p)
               | Some limit \<Rightarrow>
                   if pl_kind p = AlwaysLimit then Inr (True, Some p)
                   else case amount of
                       None \<Rightarrow> Inl (InvalidRequest ''AMOUNT_REQUIRED'')
                     | Some v \<Rightarrow> bind_res (check_amount v) (\<lambda>am.
                         if pl_kind p = MoneyLimit \<and> clean_code currency \<noteq> pl_currency p
                         then Inl (InvalidRequest ''CURRENCY_MISMATCH'')
                         else Inr (am > limit, Some p)))))"

section \<open>Writing policies\<close>

text \<open>\<open>_validate_policy_fields\<close>; the currency argument is the empty text when there is none.\<close>

definition validate_policy_fields ::
  "string \<Rightarrow> string \<Rightarrow> string \<Rightarrow> string \<Rightarrow> int option \<Rightarrow> approval_error + string \<times> limit_kind \<times> string \<times> int option" where
  "validate_policy_fields country_arg key kind_arg currency_arg limit =
     bind_res (check_country country_arg) (\<lambda>country. case action_for key of
         None \<Rightarrow> Inl (InvalidRequest ''UNKNOWN_ACTION'')
       | Some a \<Rightarrow>
           if ac_always a then Inl (InvalidRequest ''ACTION_HAS_NO_POLICY'')
           else case limit_kind_of kind_arg of
             None \<Rightarrow> Inl (InvalidRequest ''INVALID_LIMIT_KIND'')
           | Some kind \<Rightarrow>
               (let cur = clean_code currency_arg; local_cur = ct_currency (get_country (Some country)) in
                 if kind = MoneyLimit \<and> cur \<noteq> local_cur then Inl (InvalidRequest ''CURRENCY_NOT_LOCAL'')
                 else if kind \<noteq> MoneyLimit \<and> cur \<noteq> [] then Inl (InvalidRequest ''CURRENCY_NOT_ALLOWED'')
                 else if kind = AlwaysLimit then
                   (if limit \<noteq> None then Inl (InvalidRequest ''LIMIT_NOT_ALLOWED'') else Inr (country, kind, cur, limit))
                 else case limit of None \<Rightarrow> Inr (country, kind, cur, limit)
                   | Some l \<Rightarrow> bind_res (check_amount l) (\<lambda>_. Inr (country, kind, cur, limit))))"

text \<open>The table's constraints, checked when a row is inserted.\<close>

definition policy_allowed :: "policy \<Rightarrow> policy list \<Rightarrow> bool" where
  "policy_allowed p ps = (
     \<not> (pl_active p \<and> (\<exists>q \<in> set ps. pl_country q = pl_country p \<and> pl_action q = pl_action p \<and> pl_active q))
     \<and> \<not> (\<exists>q \<in> set ps. pl_country q = pl_country p \<and> pl_action q = pl_action p \<and> pl_version q = pl_version p)
     \<and> ((pl_kind p = MoneyLimit) = (pl_currency p \<noteq> []))
     \<and> (pl_kind p = AlwaysLimit \<longrightarrow> pl_limit p = None)
     \<and> (case pl_limit p of None \<Rightarrow> True | Some l \<Rightarrow> 0 \<le> l))"

definition latest_version :: "policy list \<Rightarrow> string \<Rightarrow> string \<Rightarrow> nat" where
  "latest_version ps country key =
     fold max (map pl_version (filter (\<lambda>p. pl_country p = country \<and> pl_action p = key) ps)) 0"

definition close_policy :: "int \<Rightarrow> int \<Rightarrow> policy \<Rightarrow> policy" where
  "close_policy now pid p = (if pl_id p = pid then p\<lparr>pl_active := False, pl_to := Some now\<rparr> else p)"

definition next_policy_id :: "policy list \<Rightarrow> int" where
  "next_policy_id ps = 1 + fold max (map pl_id ps) 0"

definition new_policy ::
  "int \<Rightarrow> string \<Rightarrow> string \<Rightarrow> limit_kind \<Rightarrow> string \<Rightarrow> int option \<Rightarrow> snapshot \<Rightarrow> string \<Rightarrow> int option \<Rightarrow> policy list \<Rightarrow> policy" where
  "new_policy now country key kind cur limit author reason via ps =
     \<lparr> pl_id = next_policy_id ps, pl_country = country, pl_action = key, pl_kind = kind, pl_currency = cur,
       pl_limit = limit, pl_active = True, pl_version = latest_version ps country key + 1, pl_from = now, pl_to = None,
       pl_reason = take 10000 reason, pl_created_by = author, pl_changed_via = via \<rparr>"

definition close_current :: "int \<Rightarrow> string \<Rightarrow> string \<Rightarrow> policy list \<Rightarrow> policy list" where
  "close_current now country key ps = (case active_policy ps country key of
      None \<Rightarrow> ps | Some c \<Rightarrow> map (close_policy now (pl_id c)) ps)"

definition write_policy_version ::
  "int \<Rightarrow> string \<Rightarrow> string \<Rightarrow> string \<Rightarrow> string \<Rightarrow> int option \<Rightarrow> snapshot \<Rightarrow> string \<Rightarrow> int option \<Rightarrow> policy list \<Rightarrow>
   approval_error + policy \<times> policy option \<times> policy list" where
  "write_policy_version now country_arg key kind_arg currency_arg limit_arg author reason via ps =
     bind_res (validate_policy_fields country_arg key kind_arg currency_arg limit_arg) (\<lambda>(country, kind, cur, limit).
       let current = active_policy ps country key; ps1 = close_current now country key ps;
           p = new_policy now country key kind cur limit author reason via ps
       in if policy_allowed p ps1 then Inr (p, current, ps1 @ [p]) else Inl IntegrityRaised)"

section \<open>Running an executor\<close>

text \<open>\<open>str(value or '')\<close> of a payload value, and \<open>p[key]\<close>.\<close>

fun json_truthy :: "json \<Rightarrow> bool" where
  "json_truthy JNull = False"
| "json_truthy (JBool b) = b"
| "json_truthy (JInt n) = (n \<noteq> 0)"
| "json_truthy (JStr s) = (s \<noteq> [])"
| "json_truthy (JArr xs) = (xs \<noteq> [])"
| "json_truthy (JObj kvs) = (kvs \<noteq> [])"

definition json_text :: "json \<Rightarrow> string" where
  "json_text v = (case v of JStr s \<Rightarrow> s | _ \<Rightarrow> if json_truthy v then dumps v else [])"

definition payload_get :: "payload \<Rightarrow> string \<Rightarrow> json" where
  "payload_get p k = (case map_of p k of None \<Rightarrow> JNull | Some v \<Rightarrow> v)"

definition payload_limit :: "json \<Rightarrow> approval_error + int option" where
  "payload_limit v = (case v of JNull \<Rightarrow> Inr None | JInt n \<Rightarrow> Inr (Some n)
     | _ \<Rightarrow> Inl (InvalidRequest ''AMOUNT_NOT_INTEGER''))"

definition execute_policy_change :: "int \<Rightarrow> request \<Rightarrow> 'w approval_books \<Rightarrow> exec_outcome \<times> 'w approval_books" where
  "execute_policy_change now row b =
     (let p = rq_payload row in
      case (map_of p ''country'', map_of p ''action_key'', map_of p ''limit_kind'') of
        (Some c, Some k, Some lk) \<Rightarrow>
          (case bind_res (payload_limit (payload_get p ''maker_limit'')) (\<lambda>limit.
              write_policy_version now (json_text c) (json_text k) (json_text lk) (json_text (payload_get p ''currency''))
                limit (rq_maker row) (rq_reason row) (Some (rq_id row)) (ab_policies b)) of
             Inl e \<Rightarrow> (ExecRaised ''ApprovalError'', b)
           | Inr (q, old, ps) \<Rightarrow>
               (ExecResult (JObj [(''policy_id'', JInt (pl_id q)), (''version'', JInt (int (pl_version q))),
                  (''superseded_policy_id'', case old of None \<Rightarrow> JNull | Some o1 \<Rightarrow> JInt (pl_id o1))]),
                b\<lparr>ab_policies := ps, ab_audit := ab_audit b @ [(''approval_policy_changed'', pl_id q, None)]\<rparr>))
      | _ \<Rightarrow> (ExecRaised ''KeyError'', b))"

definition call_executor :: "int \<Rightarrow> 'w executor \<Rightarrow> request \<Rightarrow> 'w approval_books \<Rightarrow> exec_outcome \<times> 'w approval_books" where
  "call_executor now ex row b =
     (let b1 = b\<lparr>ab_calls := ab_calls b @ [rq_id row]\<rparr> in case ex of
        PolicyChange \<Rightarrow> execute_policy_change now row b1
      | Module f \<Rightarrow> (case f row (ab_world b1) of (out, w) \<Rightarrow> (out, b1\<lparr>ab_world := w\<rparr>)))"

definition find_request :: "int \<Rightarrow> 'w approval_books \<Rightarrow> request option" where
  "find_request rid b = find (\<lambda>r. rq_id r = rid) (ab_requests b)"

definition store_request :: "request \<Rightarrow> 'w approval_books \<Rightarrow> 'w approval_books" where
  "store_request row b = b\<lparr>ab_requests := map (\<lambda>r. if rq_id r = rq_id row then row else r) (ab_requests b)\<rparr>"

definition audit :: "string \<Rightarrow> int \<Rightarrow> int option \<Rightarrow> 'w approval_books \<Rightarrow> 'w approval_books" where
  "audit what rid who b = b\<lparr>ab_audit := ab_audit b @ [(what, rid, who)]\<rparr>"

text \<open>\<open>_finish\<close>: a conditional update, then the row is read back.\<close>

definition finish ::
  "int \<Rightarrow> int \<Rightarrow> request_status \<Rightarrow> payload \<Rightarrow> string \<Rightarrow> string \<Rightarrow> 'w approval_books \<Rightarrow> 'w approval_books" where
  "finish now rid st result ecode etext b = b\<lparr>ab_requests := map (\<lambda>r.
      if rq_id r = rid \<and> rq_status r = Approved
      then r\<lparr>rq_status := st, rq_executed_at := Some now, rq_result := result, rq_error_code := ecode, rq_error := etext\<rparr>
      else r) (ab_requests b)\<rparr>"

definition result_payload :: "json \<Rightarrow> payload" where
  "result_payload v = (case v of JObj kvs \<Rightarrow> kvs | _ \<Rightarrow> [(''result'', v)])"

definition run_executor :: "int \<Rightarrow> 'w executor \<Rightarrow> int option \<Rightarrow> request \<Rightarrow> 'w approval_books \<Rightarrow> 'w approval_books" where
  "run_executor now ex actor row b = (case call_executor now ex row b of
      (ExecRefused c m, b1) \<Rightarrow> audit ''approval_failed'' (rq_id row) actor (finish now (rq_id row) Failed [] c m b1)
    | (ExecRaised m, b1) \<Rightarrow>
        audit ''approval_failed'' (rq_id row) actor (finish now (rq_id row) Failed [] ''EXECUTOR_ERROR'' (take 2000 m) b1)
    | (ExecResult v, b1) \<Rightarrow>
        audit ''approval_executed'' (rq_id row) actor (finish now (rq_id row) Executed (result_payload v) [] [] b1))"

section \<open>Raising a request\<close>

record 'w raise_args =
  ra_action :: string
  ra_actor :: "operator option"
  ra_country :: string
  ra_amount :: "int option"
  ra_currency :: string
  ra_scope :: "geo_node option"
  ra_target :: "(string \<times> string) option"
  ra_target_type :: string
  ra_target_id :: string
  ra_payload :: payload
  ra_execute :: "(request \<Rightarrow> 'w \<Rightarrow> exec_outcome \<times> 'w) option"
  ra_key :: string
  ra_reason :: string
  ra_system :: string

record outcome =
  oc_request :: request
  oc_executed :: bool
  oc_duplicate :: bool

definition existing :: "string \<Rightarrow> 'w approval_books \<Rightarrow> request option" where
  "existing key b = find (\<lambda>r. rq_key r = key \<and> rq_status r \<in> set KEY_HELD_STATUSES) (rev (ab_requests b))"

definition anchor_for :: "approval_env \<Rightarrow> geo_node option \<Rightarrow> string \<Rightarrow> geo_node option" where
  "anchor_for env node country = (case node of Some n \<Rightarrow> Some n | None \<Rightarrow> en_country_node env country)"

definition target_fields :: "(string \<times> string) option \<Rightarrow> string \<Rightarrow> string \<Rightarrow> string \<times> string" where
  "target_fields target ty tid = (case target of
      None \<Rightarrow> (ty, tid)
    | Some (model, pk) \<Rightarrow> (if ty = [] then model else ty, if tid = [] then pk else tid))"

definition next_request_id :: "'w approval_books \<Rightarrow> int" where
  "next_request_id b = 1 + fold max (map rq_id (ab_requests b)) 0"

text \<open>The constraints of the request table, for a new row.\<close>

definition request_allowed :: "request \<Rightarrow> 'w approval_books \<Rightarrow> bool" where
  "request_allowed r b = (\<not> (rq_status r \<in> set KEY_HELD_STATUSES
       \<and> (\<exists>q \<in> set (ab_requests b). rq_key q = rq_key r \<and> rq_status q \<in> set KEY_HELD_STATUSES))
     \<and> (sn_id (rq_checker r) = None \<or> sn_id (rq_checker r) \<noteq> sn_id (rq_maker r) \<or> rq_self_approved r)
     \<and> (case rq_amount r of None \<Rightarrow> True | Some a \<Rightarrow> 0 \<le> a))"

definition system_maker :: "'w raise_args \<Rightarrow> bool" where
  "system_maker a = (ra_actor a = None \<and> ra_system a \<noteq> [])"

text \<open>The decision with the three rules that force a checker.\<close>

definition needs_checker :: "'w raise_args \<Rightarrow> bool \<Rightarrow> bool" where
  "needs_checker a decided = (case action_for (ra_action a) of None \<Rightarrow> decided | Some spec \<Rightarrow>
     decided \<or> system_maker a
     \<or> (ac_multi spec \<noteq> [] \<and> payload_get (ra_payload a) (ac_multi spec) \<noteq> JNull)
     \<or> (ac_force spec \<noteq> [] \<and> json_truthy (payload_get (ra_payload a) (ac_force spec))))"

definition new_request ::
  "approval_env \<Rightarrow> 'w raise_args \<Rightarrow> string \<Rightarrow> string \<Rightarrow> int option \<Rightarrow> policy option \<Rightarrow> bool \<Rightarrow> 'w approval_books \<Rightarrow> request" where
  "new_request env a country currency amount pol checker b =
     (let (kind, ident) = target_fields (ra_target a) (ra_target_type a) (ra_target_id a) in
      \<lparr> rq_id = next_request_id b, rq_action = ra_action a, rq_country = country,
        rq_scope = anchor_for env (ra_scope a) country, rq_amount = amount, rq_currency = currency,
        rq_policy = map_option pl_id pol, rq_target_type = take 64 kind, rq_target_id = take 64 ident,
        rq_payload = ra_payload a, rq_reason = take 10000 (ra_reason a),
        rq_maker = (if system_maker a
          then \<lparr> sn_id = Some 0, sn_label = take 255 (ra_system a), sn_email = [], sn_role = ''system'' \<rparr>
          else actor_snapshot (ra_actor a)),
        rq_status = (if checker then Requested else Approved),
        rq_requested_at = en_now env, rq_expires_at = en_now env + en_ttl env, rq_checker = empty_snapshot,
        rq_decision_reason = (if checker then [] else ''within maker limit''),
        rq_decided_at = (if checker then None else Some (en_now env)), rq_self_approved = False,
        rq_executed_at = None, rq_result = [], rq_error_code = [], rq_error = [], rq_key = take 200 (ra_key a) \<rparr>)"

text \<open>Up to the insert; the second component is the executor the caller still has to run.\<close>

definition raise_request ::
  "approval_env \<Rightarrow> 'w registry \<Rightarrow> 'w raise_args \<Rightarrow> 'w approval_books \<Rightarrow>
   (approval_error + outcome \<times> 'w executor option) \<times> 'w approval_books" where
  "raise_request env reg a b =
     (if \<not> system_maker a \<and> (case ra_actor a of None \<Rightarrow> True | Some u \<Rightarrow> \<not> is_operator (acct u))
      then (Inl (NotPermitted ''NOT_AN_OPERATOR''), b)
      else if ra_key a = [] then (Inl (InvalidRequest ''IDEMPOTENCY_KEY_REQUIRED''), b)
      else case decide (ab_policies b) (ra_action a) (ra_country a) (ra_amount a) (ra_currency a) of
        Inl e \<Rightarrow> (Inl e, b)
      | Inr (decided, pol) \<Rightarrow>
          (let checker = needs_checker a decided; country = clean_code (ra_country a);
               currency = (if ra_currency a = [] then [] else clean_code (ra_currency a)) in
           if ra_currency a \<noteq> [] \<and> \<not> is_supported (Some currency)
           then (Inl (InvalidRequest ''UNSUPPORTED_CURRENCY''), b)
           else case executor_for reg (ra_action a) of
               None \<Rightarrow> (Inl NoExecutor, b)
             | Some registered \<Rightarrow>
                 (let ex = (case ra_execute a of None \<Rightarrow> registered | Some f \<Rightarrow> Module f) in
                  case existing (ra_key a) b of
                    Some r \<Rightarrow> (Inr (\<lparr> oc_request = r, oc_executed = False, oc_duplicate = True \<rparr>, None), b)
                  | None \<Rightarrow>
                      (case (case ra_amount a of None \<Rightarrow> Inr () | Some v \<Rightarrow> map_sum id (\<lambda>_. ()) (check_amount v)) of
                         Inl e \<Rightarrow> (Inl e, b)
                       | Inr _ \<Rightarrow>
                           (let row = new_request env a country currency (ra_amount a) pol checker b;
                                b1 = b\<lparr>ab_requests := ab_requests b @ [row]\<rparr>;
                                who = (if system_maker a then None else map_option user_pk (ra_actor a)) in
                            if \<not> request_allowed row b then
                              (case existing (ra_key a) b of
                                 None \<Rightarrow> (Inl IntegrityRaised, b)
                               | Some r \<Rightarrow> (Inr (\<lparr> oc_request = r, oc_executed = False, oc_duplicate = True \<rparr>, None), b))
                            else if checker then
                              (Inr (\<lparr> oc_request = row, oc_executed = False, oc_duplicate = False \<rparr>, None),
                               audit ''approval_requested'' (rq_id row) who b1)
                            else
                              (Inr (\<lparr> oc_request = row, oc_executed = True, oc_duplicate = False \<rparr>, Some ex),
                               audit ''approval_within_maker_limit'' (rq_id row) who b1))))))"

definition require_approval_or_execute ::
  "approval_env \<Rightarrow> 'w registry \<Rightarrow> 'w raise_args \<Rightarrow> 'w approval_books \<Rightarrow>
   (approval_error + outcome) \<times> 'w approval_books" where
  "require_approval_or_execute env reg a b = (case raise_request env reg a b of
      (Inl e, b1) \<Rightarrow> (Inl e, b1)
    | (Inr (oc, None), b1) \<Rightarrow> (Inr oc, b1)
    | (Inr (oc, Some ex), b1) \<Rightarrow>
        (let b2 = run_executor (en_now env) ex (map_option user_pk (ra_actor a)) (oc_request oc) b1 in
         (Inr (oc\<lparr>oc_request := (case find_request (rq_id (oc_request oc)) b2 of None \<Rightarrow> oc_request oc | Some r \<Rightarrow> r)\<rparr>), b2)))"

section \<open>Who may decide\<close>

definition may_check :: "approval_env \<Rightarrow> request \<Rightarrow> operator \<Rightarrow> approval_error + unit" where
  "may_check env row u = (case granted (en_strict env) (en_db env) (acct u) ''approval.check'' None of
      Inl _ \<Rightarrow> Inl CatalogueError
    | Inr (ok, _) \<Rightarrow>
        if \<not> ok then Inl (NotPermitted ''CHECKER_LACKS_CAPABILITY'')
        else case may_act (en_strict env) (en_db env) (acct u) ''approval.check'' (rq_scope row) of
          Inl _ \<Rightarrow> Inl CatalogueError
        | Inr here \<Rightarrow>
            if \<not> here then Inl NotInScope
            else case action_for (rq_action row) of
              None \<Rightarrow> Inl CatalogueError
            | Some a \<Rightarrow> (case may_act (en_strict env) (en_db env) (acct u) (ac_capability a) (rq_scope row) of
                Inl _ \<Rightarrow> Inl CatalogueError
              | Inr able \<Rightarrow> if able then Inr () else Inl (NotPermitted ''CHECKER_LACKS_ACTION_CAPABILITY'')))"

definition SELF_APPROVAL_MIN_REASON :: nat where
  "SELF_APPROVAL_MIN_REASON = 10"

definition is_maker :: "request \<Rightarrow> operator \<Rightarrow> bool" where
  "is_maker row u = (sn_id (rq_maker row) = Some (user_pk u))"

definition possible_checkers :: "approval_env \<Rightarrow> request \<Rightarrow> operator list" where
  "possible_checkers env row =
     (let active_pks = map user_pk (filter op_active (en_users env));
          holders = map as_admin (filter (\<lambda>a. as_active a \<and> role_active (as_role a) \<and> as_admin a \<in> set active_pks
            \<and> ''approval.check'' \<in> set (role_permissions (as_role a))) (en_db env))
      in filter (\<lambda>u. \<not> op_break_glass u \<and> may_check env row u = Inr ())
           (filter (\<lambda>u. op_active u \<and> \<not> is_maker row u \<and> (user_pk u \<in> set holders \<or> is_superuser u)) (en_users env)))"

definition self_approval_allowed :: "approval_env \<Rightarrow> request \<Rightarrow> operator \<Rightarrow> bool" where
  "self_approval_allowed env row u =
     (en_solo env \<and> is_maker row u \<and> is_super_admin (en_db env) (acct u) \<and> \<not> op_break_glass u
      \<and> possible_checkers env row = [])"

definition check_checker :: "approval_env \<Rightarrow> request \<Rightarrow> operator \<Rightarrow> approval_error + unit" where
  "check_checker env row u = bind_res (may_check env row u) (\<lambda>_.
     if is_maker row u \<and> \<not> self_approval_allowed env row u then Inl (NotPermitted ''SELF_APPROVAL'') else Inr ())"

section \<open>Deciding\<close>

definition is_overdue :: "approval_env \<Rightarrow> request \<Rightarrow> bool" where
  "is_overdue env row = (rq_status row = Requested \<and> en_now env \<ge> rq_expires_at row)"

text \<open>\<open>_expire_if_due\<close> on the locked row, with \<open>notify_closed\<close>.\<close>

definition expire_if_due :: "approval_env \<Rightarrow> int \<Rightarrow> 'w approval_books \<Rightarrow> bool \<times> 'w approval_books" where
  "expire_if_due env rid b = (case find_request rid b of
      None \<Rightarrow> (False, b)
    | Some row \<Rightarrow>
        if \<not> is_overdue env row then (False, b)
        else let b1 = audit ''approval_expired'' rid None (store_request (row\<lparr>rq_status := Expired\<rparr>) b)
             in (True, b1\<lparr>ab_closed := ab_closed b1 @ [(rid, Expired)]\<rparr>))"

definition require_self_reason :: "request \<Rightarrow> bool \<Rightarrow> string \<Rightarrow> approval_error + unit" where
  "require_self_reason row own reason =
     refuse_if (own \<and> rq_status row = Requested \<and> length (py_strip reason) < SELF_APPROVAL_MIN_REASON)
       (InvalidRequest ''REASON_REQUIRED'')"

definition decided_error :: "request \<Rightarrow> approval_error" where
  "decided_error row = WrongState (case sn_id (rq_checker row) of None \<Rightarrow> ''NOT_OPEN''
     | Some n \<Rightarrow> if n = 0 then ''NOT_OPEN'' else ''ALREADY_DECIDED'')"

definition decided :: "approval_env \<Rightarrow> request_status \<Rightarrow> snapshot \<Rightarrow> bool \<Rightarrow> string \<Rightarrow> request \<Rightarrow> request" where
  "decided env st who own reason row = row\<lparr>rq_status := st, rq_checker := who, rq_self_approved := own,
      rq_decided_at := Some (en_now env), rq_decision_reason := take 10000 reason\<rparr>"

definition closed_by :: "int \<Rightarrow> request_status \<Rightarrow> 'w approval_books \<Rightarrow> 'w approval_books" where
  "closed_by rid st b = b\<lparr>ab_closed := ab_closed b @ [(rid, st)]\<rparr>"

text \<open>The locked part of \<open>approve\<close>: \<open>True\<close> when this caller made the transition.\<close>

definition approve_lock ::
  "approval_env \<Rightarrow> int \<Rightarrow> operator \<Rightarrow> string \<Rightarrow> 'w approval_books \<Rightarrow> (approval_error + bool \<times> request) \<times> 'w approval_books" where
  "approve_lock env rid u reason b = (case find_request rid b of
      None \<Rightarrow> (Inl NoSuchRequest, b)
    | Some row \<Rightarrow>
        (case check_checker env row u of
           Inl e \<Rightarrow> (Inl e, b)
         | Inr _ \<Rightarrow>
             (let own = is_maker row u in
              case require_self_reason row own reason of
                Inl e \<Rightarrow> (Inl e, b)
              | Inr _ \<Rightarrow>
                  if is_overdue env row then (Inl (WrongState ''EXPIRED''), snd (expire_if_due env rid b))
                  else if rq_status row \<noteq> Requested then
                    (if sn_id (rq_checker row) = Some (user_pk u) \<and> rq_status row \<in> {Approved, Executed, Failed}
                     then (Inr (False, row), b) else (Inl (decided_error row), b))
                  else
                    (let row1 = decided env Approved (actor_snapshot (Some u)) own reason row
                     in (Inr (True, row1),
                         audit (if own then ''approval_self_approved'' else ''approval_approved'') rid (Some (user_pk u))
                           (store_request row1 b))))))"

text \<open>What the caller that made the transition does next.\<close>

definition run_approved :: "int \<Rightarrow> 'w registry \<Rightarrow> int \<Rightarrow> request \<Rightarrow> 'w approval_books \<Rightarrow> 'w approval_books" where
  "run_approved now reg pk row b = (case executor_for reg (rq_action row) of
      None \<Rightarrow> audit ''approval_failed'' (rq_id row) (Some pk) (finish now (rq_id row) Failed [] ''NO_EXECUTOR'' ''no executor'' b)
    | Some ex \<Rightarrow> run_executor now ex (Some pk) row b)"

definition approve ::
  "approval_env \<Rightarrow> 'w registry \<Rightarrow> int \<Rightarrow> operator \<Rightarrow> string \<Rightarrow> 'w approval_books \<Rightarrow> (approval_error + request) \<times> 'w approval_books" where
  "approve env reg rid u reason b = (case approve_lock env rid u reason b of
      (Inl e, b1) \<Rightarrow> (Inl e, b1)
    | (Inr (mine, row), b1) \<Rightarrow>
        if \<not> mine then (Inr row, b1)
        else let b2 = run_approved (en_now env) reg (user_pk u) row b1
             in (Inr (case find_request rid b2 of None \<Rightarrow> row | Some r \<Rightarrow> r), b2))"

definition reject ::
  "approval_env \<Rightarrow> int \<Rightarrow> operator \<Rightarrow> string \<Rightarrow> 'w approval_books \<Rightarrow> (approval_error + request) \<times> 'w approval_books" where
  "reject env rid u reason b =
     (if py_strip reason = [] then (Inl (InvalidRequest ''REASON_REQUIRED''), b)
      else case find_request rid b of
        None \<Rightarrow> (Inl NoSuchRequest, b)
      | Some row \<Rightarrow>
          (case check_checker env row u of
             Inl e \<Rightarrow> (Inl e, b)
           | Inr _ \<Rightarrow>
               (let own = is_maker row u in
                case require_self_reason row own reason of
                  Inl e \<Rightarrow> (Inl e, b)
                | Inr _ \<Rightarrow>
                    if is_overdue env row then (Inl (WrongState ''EXPIRED''), snd (expire_if_due env rid b))
                    else if rq_status row \<noteq> Requested then
                      (if sn_id (rq_checker row) = Some (user_pk u) \<and> rq_status row = Rejected
                       then (Inr row, b) else (Inl (decided_error row), b))
                    else
                      (let row1 = decided env Rejected (actor_snapshot (Some u)) own reason row
                       in (Inr row1, closed_by rid Rejected (audit ''approval_rejected'' rid (Some (user_pk u)) (store_request row1 b)))))))"

definition cancel ::
  "approval_env \<Rightarrow> int \<Rightarrow> operator \<Rightarrow> string \<Rightarrow> 'w approval_books \<Rightarrow> (approval_error + request) \<times> 'w approval_books" where
  "cancel env rid u reason b = (case find_request rid b of
      None \<Rightarrow> (Inl NoSuchRequest, b)
    | Some row \<Rightarrow>
        if \<not> is_maker row u then (Inl (NotPermitted ''NOT_MAKER''), b)
        else if is_overdue env row then (Inl (WrongState ''EXPIRED''), snd (expire_if_due env rid b))
        else if rq_status row \<noteq> Requested then
          (if rq_status row = Cancelled then (Inr row, b) else (Inl (WrongState ''NOT_OPEN''), b))
        else
          (let row1 = row\<lparr>rq_status := Cancelled, rq_decided_at := Some (en_now env), rq_decision_reason := take 10000 reason\<rparr>
           in (Inr row1, closed_by rid Cancelled (audit ''approval_cancelled'' rid (Some (user_pk u)) (store_request row1 b)))))"

text \<open>\<open>expire_stale\<close>: the count and the books after the sweep.\<close>

fun expire_each :: "approval_env \<Rightarrow> int list \<Rightarrow> nat \<times> 'w approval_books \<Rightarrow> nat \<times> 'w approval_books" where
  "expire_each env [] acc = acc"
| "expire_each env (rid # rids) (n, b) =
     (case expire_if_due env rid b of (hit, b1) \<Rightarrow> expire_each env rids (if hit then n + 1 else n, b1))"

definition expire_stale :: "approval_env \<Rightarrow> 'w approval_books \<Rightarrow> nat \<times> 'w approval_books" where
  "expire_stale env b = expire_each env
     (map rq_id (filter (\<lambda>r. rq_status r = Requested \<and> rq_expires_at r \<le> en_now env) (ab_requests b))) (0, b)"

section \<open>Changing a policy\<close>

definition int_text :: "int option \<Rightarrow> string" where
  "int_text v = (case v of None \<Rightarrow> ''none'' | Some n \<Rightarrow> py_int_text n)"

definition policy_change_args ::
  "approval_env \<Rightarrow> operator \<Rightarrow> string \<Rightarrow> string \<Rightarrow> string \<Rightarrow> string \<Rightarrow> int option \<Rightarrow> string \<Rightarrow> 'w raise_args" where
  "policy_change_args env u country key kind_arg currency limit reason =
     \<lparr> ra_action = POLICY_CHANGE, ra_actor = Some u, ra_country = country, ra_amount = None, ra_currency = [],
       ra_scope = en_country_node env country, ra_target = None, ra_target_type = ''approval_policy'',
       ra_target_id = country @ '':'' @ key,
       ra_payload = [(''country'', JStr country), (''action_key'', JStr key), (''limit_kind'', JStr kind_arg),
          (''currency'', JStr currency), (''maker_limit'', case limit of None \<Rightarrow> JNull | Some l \<Rightarrow> JInt l)],
       ra_execute = None,
       ra_key = ''policy_change:'' @ country @ '':'' @ key @ '':'' @ kind_arg @ '':''
          @ (if currency = [] then ''-'' else currency) @ '':'' @ int_text limit,
       ra_reason = reason, ra_system = [] \<rparr>"

definition propose_policy_change ::
  "approval_env \<Rightarrow> 'w registry \<Rightarrow> operator \<Rightarrow> string \<Rightarrow> string \<Rightarrow> string \<Rightarrow> string \<Rightarrow> int option \<Rightarrow> string \<Rightarrow>
   'w approval_books \<Rightarrow> (approval_error + outcome) \<times> 'w approval_books" where
  "propose_policy_change env reg u country_arg key kind_arg currency_arg limit_arg reason b =
     (case validate_policy_fields country_arg key kind_arg currency_arg limit_arg of
        Inl e \<Rightarrow> (Inl e, b)
      | Inr (country, _, currency, limit) \<Rightarrow>
          if py_strip reason = [] then (Inl (InvalidRequest ''REASON_REQUIRED''), b)
          else case may_act (en_strict env) (en_db env) (acct u) ''platform.settings'' (en_country_node env country) of
            Inl _ \<Rightarrow> (Inl CatalogueError, b)
          | Inr ok \<Rightarrow>
              if \<not> ok then (Inl (NotPermitted ''SCOPE_NOT_HELD''), b)
              else require_approval_or_execute env reg
                (policy_change_args env u country key kind_arg currency limit reason) b)"

end
