(* ===== verification/ApprovalLaws.thy ===== *)
theory ApprovalLaws
  imports Approvals
begin

text \<open>
  What maker-checker promises, over every interleaving of makers, checkers, executors, crashes and
  the expiry sweep: the status machine, one executor call per request, a second person for every
  call outside the maker's limit, one live request per key, decided requests never changing
  again, and one active policy per country and action, its versions counting up from one.
\<close>

section \<open>The status machine\<close>

inductive status_step :: "request_status \<Rightarrow> request_status \<Rightarrow> bool" where
  approve_step: "status_step Requested Approved"
| reject_step: "status_step Requested Rejected"
| cancel_step: "status_step Requested Cancelled"
| expire_step: "status_step Requested Expired"
| execute_step: "status_step Approved Executed"
| fail_step: "status_step Approved Failed"

code_pred status_step .

inductive_simps status_step_from [simp]:
  "status_step Requested st" "status_step Approved st" "status_step Rejected st" "status_step Executed st"
  "status_step Failed st" "status_step Cancelled st" "status_step Expired st"

inductive_cases status_step_cases: "status_step s t"

text \<open>What the maker asked for, without what happened to it.\<close>

definition ask :: "request \<Rightarrow> request" where
  "ask r = r\<lparr>rq_status := Requested, rq_checker := empty_snapshot, rq_decision_reason := [], rq_decided_at := None,
     rq_self_approved := False, rq_executed_at := None, rq_result := [], rq_error_code := [], rq_error := []\<rparr>"

lemma ask_keeps: "ask r = ask q \<Longrightarrow>
    rq_id r = rq_id q \<and> rq_key r = rq_key q \<and> rq_maker r = rq_maker q \<and> rq_amount r = rq_amount q \<and> rq_action r = rq_action q
    \<and> rq_country r = rq_country q \<and> rq_currency r = rq_currency q \<and> rq_policy r = rq_policy q \<and> rq_expires_at r = rq_expires_at q"
  by (cases r, cases q) (simp add: ask_def)

definition signed_off :: "request \<Rightarrow> bool" where
  "signed_off r = (sn_id (rq_checker r) \<noteq> None \<and> (sn_id (rq_checker r) \<noteq> sn_id (rq_maker r) \<or> rq_self_approved r))"

definition key_held :: "request \<Rightarrow> bool" where
  "key_held r = (rq_status r \<in> set KEY_HELD_STATUSES)"

text \<open>The row was decided alone, within the limit of a policy for its country and action.\<close>

definition within_limit :: "policy list \<Rightarrow> request \<Rightarrow> bool" where
  "within_limit ps r = (\<exists>p \<in> set ps. rq_policy r = Some (pl_id p) \<and> pl_country p = rq_country r \<and> pl_action p = rq_action r
     \<and> pl_kind p \<noteq> AlwaysLimit \<and> (pl_kind p = MoneyLimit \<longrightarrow> rq_currency r = pl_currency p)
     \<and> (\<exists>l v. pl_limit p = Some l \<and> rq_amount r = Some v \<and> 0 \<le> v \<and> v \<le> l))"

text \<open>One change of the request table: nothing, a new row, or one row moved along the machine.\<close>

definition replace_row :: "request \<Rightarrow> request list \<Rightarrow> request list" where
  "replace_row row rs = map (\<lambda>r. if rq_id r = rq_id row then row else r) rs"

inductive table_step :: "policy list \<Rightarrow> request list \<Rightarrow> request list \<Rightarrow> bool" for ps where
  same_table: "table_step ps rs rs"
| new_row: "\<lbrakk> \<forall>r \<in> set rs. rq_id r \<noteq> rq_id row; rq_status row = Requested \<or> rq_status row = Approved;
     \<forall>r \<in> set rs. key_held r \<longrightarrow> rq_key r \<noteq> rq_key row;
     rq_status row = Approved \<longrightarrow> within_limit ps row \<rbrakk> \<Longrightarrow> table_step ps rs (rs @ [row])"
| move_row: "\<lbrakk> row \<in> set rs; ask row' = ask row; status_step (rq_status row) (rq_status row');
     rq_status row' = Approved \<longrightarrow> signed_off row';
     rq_status row = Approved \<longrightarrow> rq_checker row' = rq_checker row \<and> rq_self_approved row' = rq_self_approved row \<rbrakk>
     \<Longrightarrow> table_step ps rs (replace_row row' rs)"

inductive_cases table_step_cases: "table_step ps rs rs'"

section \<open>Each operation is a change of the table\<close>

definition table_ok :: "request list \<Rightarrow> bool" where
  "table_ok rs = (distinct (map rq_id rs) \<and> distinct (map rq_key (filter key_held rs)))"

lemma replace_ids: "ask row' = ask row \<Longrightarrow> map rq_id (replace_row row' rs) = map rq_id rs"
  by (induction rs) (auto simp: replace_row_def)

lemma replace_same: "distinct (map rq_id rs) \<Longrightarrow> row \<in> set rs \<Longrightarrow> replace_row row rs = rs"
  unfolding replace_row_def by (rule map_idI) (auto dest: eq_key_imp_eq_value simp: distinct_map inj_on_def)

lemma replace_held:
  assumes "distinct (map rq_id rs)" "row \<in> set rs" "ask row' = ask row" "key_held row' \<longrightarrow> key_held row"
    "distinct (map rq_key (filter key_held rs))"
  shows "distinct (map rq_key (filter key_held (replace_row row' rs)))"
proof -
  have "\<exists>sel. map rq_key (filter key_held (replace_row row' rs)) = map rq_key (filter sel rs)
      \<and> (\<forall>r \<in> set rs. sel r \<longrightarrow> key_held r)"
  proof (intro exI conjI)
    let ?sel = "\<lambda>r. if rq_id r = rq_id row then key_held row' else key_held r"
    have id: "rq_id row' = rq_id row" "rq_key row' = rq_key row" using ask_keeps [OF assms(3)] by simp_all
    have one: "\<forall>r \<in> set rs. rq_id r = rq_id row \<longrightarrow> r = row"
      using assms(1,2) by (auto simp: distinct_map inj_on_def)
    then have "\<forall>r \<in> set rs. rq_id r = rq_id row \<longrightarrow> rq_key r = rq_key row'" using id by auto
    then show "map rq_key (filter key_held (replace_row row' rs)) = map rq_key (filter ?sel rs)"
      unfolding replace_row_def using id(1) by (induction rs) auto
    show "\<forall>r \<in> set rs. ?sel r \<longrightarrow> key_held r" using one assms(4) by auto
  qed
  then obtain sel where sel: "map rq_key (filter key_held (replace_row row' rs)) = map rq_key (filter sel rs)"
    "\<forall>r \<in> set rs. sel r \<longrightarrow> key_held r" by blast
  have "filter sel rs = filter sel (filter key_held rs)" using sel(2) by (simp add: filter_filter) (rule filter_cong, auto)
  then show ?thesis using assms(5) by (simp only: sel(1)) (rule distinct_map_filter)
qed

lemma step_held: "status_step s t \<Longrightarrow> t \<in> set KEY_HELD_STATUSES \<Longrightarrow> s \<in> set KEY_HELD_STATUSES"
  by (auto simp: KEY_HELD_STATUSES_def elim: status_step_cases)

lemma table_step_ok: "table_step ps rs rs' \<Longrightarrow> table_ok rs \<Longrightarrow> table_ok rs'"
proof (induction rule: table_step.induct)
  case (move_row row rs row')
  then show ?case using replace_held [of rs row row'] step_held [OF move_row(3)]
    by (simp add: table_ok_def replace_ids key_held_def)
qed (auto simp: table_ok_def)

text \<open>A row that the machine cannot move is never changed.\<close>

lemma table_step_frozen:
  "table_step ps rs rs' \<Longrightarrow> table_ok rs \<Longrightarrow> r \<in> set rs \<Longrightarrow> rq_status r \<in> set TERMINAL_STATUSES \<Longrightarrow> r \<in> set rs'"
proof (induction rule: table_step.induct)
  case (move_row row rs row')
  have "r \<noteq> row" using move_row by (auto simp: TERMINAL_STATUSES_def)
  then have "rq_id r \<noteq> rq_id row" using move_row by (auto simp: table_ok_def distinct_map inj_on_def)
  then show ?case using move_row ask_keeps [OF move_row(2)] by (auto simp: replace_row_def image_iff)
qed auto

lemma find_request_member: "find_request rid b = Some row \<Longrightarrow> row \<in> set (ab_requests b) \<and> rq_id row = rid"
  by (auto simp: find_request_def find_Some_iff)

lemma find_request_here: "distinct (map rq_id (ab_requests b)) \<Longrightarrow> row \<in> set (ab_requests b) \<Longrightarrow>
    find_request (rq_id row) b = Some row"
proof -
  assume d: "distinct (map rq_id (ab_requests b))" and m: "row \<in> set (ab_requests b)"
  obtain r where r: "find_request (rq_id row) b = Some r"
    using m by (metis (mono_tags, lifting) find_None_iff find_request_def not_None_eq)
  then have "r = row" using d m find_request_member [OF r] by (auto simp: distinct_map inj_on_def)
  with r show ?thesis by simp
qed

lemma max_bound: "x \<in> set xs \<Longrightarrow> x \<le> fold max xs (a :: 'a :: linorder)"
proof -
  have start: "a \<le> fold max ys a" for ys :: "'a list" and a :: 'a
    by (induction ys arbitrary: a) (auto intro: order_trans [OF max.cobounded2])
  show "x \<in> set xs \<Longrightarrow> x \<le> fold max xs a"
  proof (induction xs arbitrary: a)
    case (Cons y ys)
    then show ?case using order_trans [OF max.cobounded1 [of y a] start] by auto
  qed simp
qed

lemma next_id_fresh: "r \<in> set (ab_requests b) \<Longrightarrow> rq_id r \<noteq> next_request_id b"
  using max_bound [of "rq_id r" "map rq_id (ab_requests b)" 0] by (force simp: next_request_id_def)

lemma store_requests [simp]: "ab_requests (store_request row b) = replace_row row (ab_requests b)"
  by (simp add: store_request_def replace_row_def)

lemma small_requests [simp]:
  "ab_requests (audit w i a b) = ab_requests b" "ab_requests (closed_by i st b) = ab_requests b"
  "ab_requests (fst_b\<lparr>ab_closed := cl\<rparr>) = ab_requests fst_b"
  by (simp_all add: audit_def closed_by_def)

lemma call_requests: "call_executor now ex row b = (out, b1) \<Longrightarrow> ab_requests b1 = ab_requests b \<and> ab_calls b1 = ab_calls b @ [rq_id row]"
  by (cases ex) (auto simp: call_executor_def execute_policy_change_def Let_def
      split: option.splits prod.splits sum.splits)

definition finished :: "int \<Rightarrow> request_status \<Rightarrow> payload \<Rightarrow> string \<Rightarrow> string \<Rightarrow> request \<Rightarrow> request" where
  "finished now st result ecode etext r = r\<lparr>rq_status := st, rq_executed_at := Some now, rq_result := result,
     rq_error_code := ecode, rq_error := etext\<rparr>"

lemma finish_replace:
  assumes "distinct (map rq_id (ab_requests b))" "row \<in> set (ab_requests b)" "rq_status row = Approved"
  shows "ab_requests (finish now (rq_id row) st result ecode etext b)
       = replace_row (finished now st result ecode etext row) (ab_requests b)"
proof -
  have "r = row" if "r \<in> set (ab_requests b)" "rq_id r = rq_id row" for r
    using that assms by (auto simp: distinct_map inj_on_def)
  then show ?thesis using assms(3) by (auto simp: finish_def replace_row_def finished_def intro!: map_cong)
qed

lemma finish_table:
  assumes "table_ok (ab_requests b)" "row \<in> set (ab_requests b)" "rq_status row = Approved" "st = Executed \<or> st = Failed"
  shows "table_step ps (ab_requests b) (ab_requests (finish now (rq_id row) st result ecode etext b))"
proof -
  have "distinct (map rq_id (ab_requests b))" using assms(1) by (simp add: table_ok_def)
  then show ?thesis using assms(2-4)
    by (auto simp: finish_replace intro!: move_row) (auto simp: finished_def ask_def)
qed

lemma run_executor_form:
  obtains b1 st result ecode etext what where "ab_requests b1 = ab_requests b" "ab_calls b1 = ab_calls b @ [rq_id row]"
    "st = Executed \<or> st = Failed"
    "run_executor now ex actor row b = audit what (rq_id row) actor (finish now (rq_id row) st result ecode etext b1)"
proof -
  obtain out b1 where c: "call_executor now ex row b = (out, b1)" by (cases "call_executor now ex row b")
  have b1: "ab_requests b1 = ab_requests b" "ab_calls b1 = ab_calls b @ [rq_id row]" using call_requests [OF c] by simp_all
  show thesis
  proof (cases out)
    case (ExecResult v)
    with c have "run_executor now ex actor row b = audit ''approval_executed'' (rq_id row) actor
      (finish now (rq_id row) Executed (result_payload v) [] [] b1)" by (simp add: run_executor_def)
    then show thesis using that [OF b1, of Executed] by blast
  next
    case (ExecRefused ec m)
    with c have "run_executor now ex actor row b = audit ''approval_failed'' (rq_id row) actor
      (finish now (rq_id row) Failed [] ec m b1)" by (simp add: run_executor_def)
    then show thesis using that [OF b1, of Failed] by blast
  next
    case (ExecRaised m)
    with c have "run_executor now ex actor row b = audit ''approval_failed'' (rq_id row) actor
      (finish now (rq_id row) Failed [] ''EXECUTOR_ERROR'' (take 2000 m) b1)" by (simp add: run_executor_def)
    then show thesis using that [OF b1, of Failed] by blast
  qed
qed

lemma finish_calls [simp]: "ab_calls (finish now i st result ecode etext b) = ab_calls b"
  "ab_calls (audit w i a b) = ab_calls b" "ab_calls (store_request row b) = ab_calls b" "ab_calls (closed_by i st b) = ab_calls b"
  by (simp_all add: finish_def audit_def store_request_def closed_by_def)

lemma run_executor_calls: "ab_calls (run_executor now ex actor row b) = ab_calls b @ [rq_id row]"
  by (rule run_executor_form [of b row now ex actor]) simp

lemma run_executor_step:
  assumes "table_ok (ab_requests b)" "row' \<in> set (ab_requests b)" "rq_id row' = rq_id row" "rq_status row' = Approved"
  shows "table_step ps (ab_requests b) (ab_requests (run_executor now ex actor row b))"
proof (rule run_executor_form [of b row now ex actor])
  fix b1 st result ecode etext what
  assume r: "ab_requests b1 = ab_requests b" "st = Executed \<or> st = Failed"
    "run_executor now ex actor row b = audit what (rq_id row) actor (finish now (rq_id row) st result ecode etext b1)"
  have "table_step ps (ab_requests b1) (ab_requests (finish now (rq_id row') st result ecode etext b1))"
    using assms r by (intro finish_table) simp_all
  then show ?thesis using r assms(3) by simp
qed

lemma expire_table: "table_step ps (ab_requests b) (ab_requests (snd (expire_if_due env rid b)))"
proof (cases "find_request rid b")
  case (Some row)
  then show ?thesis using find_request_member [OF Some]
    by (auto simp: expire_if_due_def is_overdue_def Let_def audit_def ask_def intro: same_table intro!: move_row)
qed (simp add: expire_if_due_def same_table)

lemma may_check_operator: "may_check env row u = Inr () \<Longrightarrow> authenticated u"
  by (auto simp: may_check_def granted_def is_operator_def acct_def user_acct.defs split: sum.splits if_splits)

lemma check_checker_facts:
  assumes "check_checker env row u = Inr v"
  shows "authenticated u \<and> may_check env row u = Inr () \<and> (is_maker row u \<longrightarrow> self_approval_allowed env row u)"
  using assms by (auto simp: check_checker_def may_check_operator elim!: bind_res_elim split: if_splits)

lemma actor_id: "authenticated u \<Longrightarrow> sn_id (actor_snapshot (Some u)) = Some (user_pk u)"
  by (simp add: actor_snapshot_def)

lemma decided_facts:
  "ask (decided env st who own reason row) = ask row" "rq_status (decided env st who own reason row) = st"
  "rq_checker (decided env st who own reason row) = who" "rq_self_approved (decided env st who own reason row) = own"
  "rq_maker (decided env st who own reason row) = rq_maker row" "rq_id (decided env st who own reason row) = rq_id row"
  by (simp_all add: decided_def ask_def)

text \<open>The cases of a locked decision.\<close>

lemma approve_lock_cases:
  assumes "approve_lock env rid u reason b = (reply, b1)"
  obtains (unchanged) "b1 = b" "\<And>row. reply \<noteq> Inr (True, row)"
  | (lapsed) "b1 = snd (expire_if_due env rid b)" "reply = Inl (WrongState ''EXPIRED'')"
  | (moved) row where "row \<in> set (ab_requests b)" "find_request rid b = Some row" "rq_id row = rid" "rq_status row = Requested" "\<not> is_overdue env row"
      "check_checker env row u = Inr ()"
      "reply = Inr (True, decided env Approved (actor_snapshot (Some u)) (is_maker row u) reason row)"
      "ab_requests b1 = replace_row (decided env Approved (actor_snapshot (Some u)) (is_maker row u) reason row) (ab_requests b)"
      "ab_calls b1 = ab_calls b" "ab_policies b1 = ab_policies b"
proof (cases "find_request rid b")
  case None
  with assms have "b1 = b" "reply = Inl NoSuchRequest" by (simp_all add: approve_lock_def)
  then show thesis by (intro unchanged) simp_all
next
  case (Some row)
  note row = find_request_member [OF Some]
  show thesis
  proof (cases "check_checker env row u")
    case (Inl e)
    with assms Some have "b1 = b" "reply = Inl e" by (simp_all add: approve_lock_def)
    then show thesis by (intro unchanged) simp_all
  next
    case (Inr v)
    show thesis
    proof (cases "require_self_reason row (is_maker row u) reason")
      case (Inl e)
      with assms Some \<open>check_checker env row u = Inr v\<close> have "b1 = b" "reply = Inl e" by (simp_all add: approve_lock_def)
      then show thesis by (intro unchanged) simp_all
    next
      case (Inr w)
      note form = assms [unfolded approve_lock_def Some option.case \<open>check_checker env row u = Inr v\<close> sum.case Let_def Inr]
      show thesis
      proof (cases "is_overdue env row")
        case True
        with form show thesis by (intro lapsed) simp_all
      next
        case False
        show thesis
        proof (cases "rq_status row = Requested")
          case True
          show thesis
            using form row Some True False \<open>check_checker env row u = Inr v\<close>
            by (intro moved [of row]) (auto simp: audit_def store_request_def replace_row_def)
        next
          case False
          with form \<open>\<not> is_overdue env row\<close> have "b1 = b" "\<And>row. reply \<noteq> Inr (True, row)" by (auto split: if_splits)
          then show thesis by (rule unchanged)
        qed
      qed
    qed
  qed
qed

lemma decide_move:
  assumes "row \<in> set (ab_requests b)" "rq_status row = Requested" "check_checker env row u = Inr v" "st = Approved \<or> st = Rejected"
  shows "table_step ps (ab_requests b) (replace_row (decided env st (actor_snapshot (Some u)) (is_maker row u) reason row) (ab_requests b))"
  using assms check_checker_facts [OF assms(3)] actor_id
  by (intro move_row) (auto simp: decided_facts signed_off_def is_maker_def)

lemma approve_lock_table:
  "approve_lock env rid u reason b = (reply, b1) \<Longrightarrow> table_step ps (ab_requests b) (ab_requests b1)"
  by (erule approve_lock_cases) (auto intro: same_table expire_table decide_move)

lemma reject_table: "table_step ps (ab_requests b) (ab_requests (snd (reject env rid u reason b)))"
proof -
  have "table_step ps (ab_requests b)
      (replace_row (decided env Rejected (actor_snapshot (Some u)) (is_maker row u) reason row) (ab_requests b))"
    if "find_request rid b = Some row" "check_checker env row u = Inr ()" "rq_status row = Requested" for row
    using that find_request_member [OF that(1)] by (intro decide_move) auto
  then show ?thesis
    by (auto simp: reject_def Let_def same_table expire_table split: option.splits sum.splits)
qed

lemma cancel_table: "table_step ps (ab_requests b) (ab_requests (snd (cancel env rid u reason b)))"
proof -
  have "table_step ps (ab_requests b) (replace_row (row\<lparr>rq_status := Cancelled, rq_decided_at := Some (en_now env),
      rq_decision_reason := take 10000 reason\<rparr>) (ab_requests b))"
    if "find_request rid b = Some row" "rq_status row = Requested" for row
    using that find_request_member [OF that(1)] by (intro move_row [of row]) (auto simp: ask_def)
  then show ?thesis
    by (auto simp: cancel_def Let_def same_table expire_table split: option.splits)
qed

lemma existing_none: "existing key b = None \<Longrightarrow> r \<in> set (ab_requests b) \<Longrightarrow> key_held r \<Longrightarrow> rq_key r \<noteq> key"
  by (auto simp: existing_def find_None_iff key_held_def)

lemma new_request_fields:
  "rq_id (new_request env a country currency amount pol checker b) = next_request_id b"
  "rq_key (new_request env a country currency amount pol checker b) = take 200 (ra_key a)"
  "rq_status (new_request env a country currency amount pol checker b) = (if checker then Requested else Approved)"
  "rq_amount (new_request env a country currency amount pol checker b) = amount"
  "rq_policy (new_request env a country currency amount pol checker b) = map_option pl_id pol"
  "rq_action (new_request env a country currency amount pol checker b) = ra_action a"
  "rq_country (new_request env a country currency amount pol checker b) = country"
  "rq_currency (new_request env a country currency amount pol checker b) = currency"
  "sn_id (rq_checker (new_request env a country currency amount pol checker b)) = None"
  by (simp_all add: new_request_def empty_snapshot_def split: prod.splits)

text \<open>The cases of raising a request.\<close>

lemma raise_request_cases:
  assumes "raise_request env reg a b = (reply, b1)"
  obtains (unchanged) "b1 = b" "\<And>oc ex. reply \<noteq> Inr (oc, Some ex)"
  | (inserted) row yes pol ex where
      "decide (ab_policies b) (ra_action a) (ra_country a) (ra_amount a) (ra_currency a) = Inr (yes, pol)"
      "row = new_request env a (clean_code (ra_country a)) (if ra_currency a = [] then [] else clean_code (ra_currency a))
        (ra_amount a) pol (needs_checker a yes) b"
      "request_allowed row b"
      "ab_requests b1 = ab_requests b @ [row]" "ab_calls b1 = ab_calls b" "ab_policies b1 = ab_policies b"
      "reply = Inr (\<lparr> oc_request = row, oc_executed = \<not> needs_checker a yes, oc_duplicate = False \<rparr>,
         if needs_checker a yes then None else Some ex)"
proof (cases "decide (ab_policies b) (ra_action a) (ra_country a) (ra_amount a) (ra_currency a)")
  case (Inl e)
  with assms that(1) show thesis by (auto simp: raise_request_def split: if_splits)
next
  case (Inr d)
  obtain yes pol where d: "d = (yes, pol)" by (cases d)
  note form = assms [unfolded raise_request_def Inr d sum.case prod.case Let_def]
  have "b1 = b \<and> (\<forall>oc ex. reply \<noteq> Inr (oc, Some ex)) \<or>
    (\<exists>row ex. row = new_request env a (clean_code (ra_country a))
        (if ra_currency a = [] then [] else clean_code (ra_currency a)) (ra_amount a) pol (needs_checker a yes) b
      \<and> request_allowed row b \<and> ab_requests b1 = ab_requests b @ [row] \<and> ab_calls b1 = ab_calls b \<and> ab_policies b1 = ab_policies b
      \<and> reply = Inr (\<lparr> oc_request = row, oc_executed = \<not> needs_checker a yes, oc_duplicate = False \<rparr>,
         if needs_checker a yes then None else Some ex))"
    using form unfolding audit_def by (simp split: if_splits option.splits sum.splits) (auto)
  then show thesis using unchanged inserted Inr d by blast
qed

lemma find_found: "find P xs = Some x \<Longrightarrow> x \<in> set xs \<and> P x"
  by (auto simp: find_Some_iff)

lemma active_policy_facts:
  assumes "active_policy ps c k = Some p" shows "p \<in> set ps \<and> pl_country p = c \<and> pl_action p = k \<and> pl_active p"
  using find_found [OF assms [unfolded active_policy_def]] by simp

lemma decide_alone:
  assumes "decide ps key c amount cur = Inr (False, pol)"
  shows "\<exists>p l v. pol = Some p \<and> active_policy ps (clean_code c) key = Some p \<and> pl_limit p = Some l \<and> amount = Some v
    \<and> 0 \<le> v \<and> v \<le> l \<and> pl_kind p \<noteq> AlwaysLimit \<and> (pl_kind p = MoneyLimit \<longrightarrow> clean_code cur = pl_currency p)"
  using assms by (auto simp: decide_def check_country_def check_amount_def Let_def split: option.splits if_splits elim!: bind_res_elim)

lemma decided_alone:
  assumes "decide (ab_policies b) (ra_action a) (ra_country a) (ra_amount a) (ra_currency a) = Inr (yes, pol)"
    "\<not> needs_checker a yes"
  shows "within_limit (ab_policies b) (new_request env a (clean_code (ra_country a))
    (if ra_currency a = [] then [] else clean_code (ra_currency a)) (ra_amount a) pol False b)"
proof -
  have "\<not> yes" using assms(2) by (auto simp: needs_checker_def split: option.splits)
  then obtain p l v where "pol = Some p" "active_policy (ab_policies b) (clean_code (ra_country a)) (ra_action a) = Some p"
    "pl_limit p = Some l" "ra_amount a = Some v" "0 \<le> v" "v \<le> l" "pl_kind p \<noteq> AlwaysLimit"
    "pl_kind p = MoneyLimit \<longrightarrow> clean_code (ra_currency a) = pl_currency p"
    using assms(1) decide_alone [of "ab_policies b" "ra_action a" "ra_country a" "ra_amount a" "ra_currency a" pol] by auto
  moreover have "clean_code [] = []" by (simp add: clean_code_def py_strip_def py_upper_def)
  ultimately show ?thesis using active_policy_facts unfolding within_limit_def new_request_fields by (intro bexI [of _ p]) auto
qed

lemma raise_table:
  assumes "raise_request env reg a b = (reply, b1)" shows "table_step (ab_policies b) (ab_requests b) (ab_requests b1)"
  using assms
proof (cases rule: raise_request_cases)
  case (inserted row yes pol ex)
  have "table_step (ab_policies b) (ab_requests b) (ab_requests b @ [row])"
  proof (rule new_row)
    show "\<forall>r \<in> set (ab_requests b). rq_id r \<noteq> rq_id row"
      using inserted(2) by (auto simp: new_request_fields dest: next_id_fresh)
    show "rq_status row = Requested \<or> rq_status row = Approved"
      using inserted(2) by (simp add: new_request_fields)
    then show "\<forall>r \<in> set (ab_requests b). key_held r \<longrightarrow> rq_key r \<noteq> rq_key row"
      using inserted(3) by (auto simp: request_allowed_def key_held_def KEY_HELD_STATUSES_def)
    show "rq_status row = Approved \<longrightarrow> within_limit (ab_policies b) row"
      using decided_alone [OF inserted(1)] inserted(2) by (auto simp: new_request_fields)
  qed
  then show ?thesis using inserted(4) by simp
qed (simp add: same_table)

lemma table_steps_ok: "(table_step ps)\<^sup>*\<^sup>* rs rs' \<Longrightarrow> table_ok rs \<Longrightarrow> table_ok rs'"
  by (induction rule: rtranclp_induct) (auto intro: table_step_ok)

lemma table_steps_frozen:
  "(table_step ps)\<^sup>*\<^sup>* rs rs' \<Longrightarrow> table_ok rs \<Longrightarrow> r \<in> set rs \<Longrightarrow> rq_status r \<in> set TERMINAL_STATUSES \<Longrightarrow> r \<in> set rs'"
  by (induction rule: rtranclp_induct) (auto intro: table_step_frozen table_steps_ok)

lemma expire_each_table: "(table_step ps)\<^sup>*\<^sup>* (ab_requests b) (ab_requests (snd (expire_each env rids (n, b))))"
proof (induction rids arbitrary: n b)
  case (Cons rid rids)
  obtain hit b1 where e: "expire_if_due env rid b = (hit, b1)" by (cases "expire_if_due env rid b")
  have "table_step ps (ab_requests b) (ab_requests b1)" using expire_table [where b = b and env = env and rid = rid] e by simp
  then show ?case using Cons.IH [of b1] e by (simp add: converse_rtranclp_into_rtranclp)
qed simp

lemma sweep_table: "(table_step ps)\<^sup>*\<^sup>* (ab_requests b) (ab_requests (snd (expire_stale env b)))"
  by (simp add: expire_stale_def expire_each_table)

section \<open>Every interleaving\<close>

text \<open>
  A thread that made the transition to approved holds a token: the request, the executor it was
  given, and who it acts for. It runs later, or never.
\<close>

record 'w run_token =
  tk_row :: request
  tk_executor :: "'w executor option"
  tk_actor :: "int option"

datatype 'w approval_event =
    RaiseEvent approval_env "'w raise_args"
  | ApproveEvent approval_env int operator string
  | RunEvent int nat
  | CrashEvent nat
  | RejectEvent approval_env int operator string
  | CancelEvent approval_env int operator string
  | SweepEvent approval_env

definition drop_nth :: "nat \<Rightarrow> 'a list \<Rightarrow> 'a list" where
  "drop_nth n xs = take n xs @ drop (Suc n) xs"

definition run_token :: "int \<Rightarrow> 'w registry \<Rightarrow> 'w run_token \<Rightarrow> 'w approval_books \<Rightarrow> 'w approval_books" where
  "run_token now reg t b = (case tk_executor t of
      None \<Rightarrow> run_approved now reg (case tk_actor t of None \<Rightarrow> 0 | Some pk \<Rightarrow> pk) (tk_row t) b
    | Some ex \<Rightarrow> run_executor now ex (tk_actor t) (tk_row t) b)"

fun approval_step ::
  "'w registry \<Rightarrow> 'w approval_books \<times> 'w run_token list \<Rightarrow> 'w approval_event \<Rightarrow>
   approval_error + 'w approval_books \<times> 'w run_token list" where
  "approval_step reg (b, ts) (RaiseEvent env a) = (case raise_request env reg a b of
      (Inr (oc, Some ex), b1) \<Rightarrow>
        Inr (b1, ts @ [\<lparr> tk_row = oc_request oc, tk_executor = Some ex, tk_actor = map_option user_pk (ra_actor a) \<rparr>])
    | (_, b1) \<Rightarrow> Inr (b1, ts))"
| "approval_step reg (b, ts) (ApproveEvent env rid u reason) = (case approve_lock env rid u reason b of
      (Inr (True, row), b1) \<Rightarrow> Inr (b1, ts @ [\<lparr> tk_row = row, tk_executor = None, tk_actor = Some (user_pk u) \<rparr>])
    | (_, b1) \<Rightarrow> Inr (b1, ts))"
| "approval_step reg (b, ts) (RunEvent now n) =
     (if n < length ts then Inr (run_token now reg (ts ! n) b, drop_nth n ts) else Inr (b, ts))"
| "approval_step reg (b, ts) (CrashEvent n) = Inr (b, drop_nth n ts)"
| "approval_step reg (b, ts) (RejectEvent env rid u reason) = Inr (snd (reject env rid u reason b), ts)"
| "approval_step reg (b, ts) (CancelEvent env rid u reason) = Inr (snd (cancel env rid u reason b), ts)"
| "approval_step reg (b, ts) (SweepEvent env) = Inr (snd (expire_stale env b), ts)"

section \<open>One run per request\<close>

definition may_have_run :: "request list \<Rightarrow> int \<Rightarrow> bool" where
  "may_have_run rs rid = (\<exists>r \<in> set rs. rq_id r = rid \<and> rq_status r \<in> {Approved, Executed, Failed})"

lemma ran_grows: "table_step ps rs rs' \<Longrightarrow> table_ok rs \<Longrightarrow> may_have_run rs rid \<Longrightarrow> may_have_run rs' rid"
proof (induction rule: table_step.induct)
  case (move_row row rs row')
  then obtain r where r: "r \<in> set rs" "rq_id r = rid" "rq_status r \<in> {Approved, Executed, Failed}"
    by (auto simp: may_have_run_def)
  have id: "rq_id row' = rq_id row" using ask_keeps [OF move_row(2)] by simp
  show ?case
  proof (cases "rid = rq_id row")
    case False
    then show ?thesis using r id by (auto simp: may_have_run_def replace_row_def image_iff)
  next
    case True
    then have "r = row" using r move_row by (auto simp: table_ok_def distinct_map inj_on_def)
    then have "rq_status row' \<in> {Approved, Executed, Failed}" using r(3) move_row(3) by auto
    moreover have "row' \<in> set (replace_row row' rs)" using move_row(1) id by (auto simp: replace_row_def image_iff)
    ultimately show ?thesis using True id by (auto simp: may_have_run_def)
  qed
qed (auto simp: may_have_run_def)

lemma ran_grows_many: "(table_step ps)\<^sup>*\<^sup>* rs rs' \<Longrightarrow> table_ok rs \<Longrightarrow> may_have_run rs rid \<Longrightarrow> may_have_run rs' rid"
  by (induction rule: rtranclp_induct) (auto intro: ran_grows table_steps_ok)

definition runs_of :: "int \<Rightarrow> 'w approval_books \<Rightarrow> 'w run_token list \<Rightarrow> nat" where
  "runs_of rid b ts = count_list (ab_calls b) rid + length (filter (\<lambda>t. rq_id (tk_row t) = rid) ts)"

definition run_inv :: "'w approval_books \<times> 'w run_token list \<Rightarrow> bool" where
  "run_inv s = (table_ok (ab_requests (fst s))
     \<and> (\<forall>rid. runs_of rid (fst s) (snd s) \<le> (if may_have_run (ab_requests (fst s)) rid then 1 else 0)))"

lemma run_inv_calm:
  assumes "run_inv (b, ts)" "(table_step ps)\<^sup>*\<^sup>* (ab_requests b) (ab_requests b')" "\<And>rid. runs_of rid b' ts' \<le> runs_of rid b ts"
  shows "run_inv (b', ts')"
  unfolding run_inv_def
proof (intro conjI allI)
  show "table_ok (ab_requests (fst (b', ts')))" using assms table_steps_ok by (auto simp: run_inv_def)
  fix rid
  have "runs_of rid b ts \<le> (if may_have_run (ab_requests b) rid then 1 else 0)"
    using assms(1) unfolding run_inv_def fst_conv snd_conv by blast
  moreover have "may_have_run (ab_requests b) rid \<longrightarrow> may_have_run (ab_requests b') rid"
    using assms(1,2) ran_grows_many by (auto simp: run_inv_def)
  ultimately show "runs_of rid (fst (b', ts')) (snd (b', ts')) \<le> (if may_have_run (ab_requests (fst (b', ts'))) rid then 1 else 0)"
    using assms(3) [of rid] by (auto split: if_splits)
qed

lemma run_inv_new:
  assumes "run_inv (b, ts)" "table_step ps (ab_requests b) (ab_requests b')" "ab_calls b' = ab_calls b"
    "\<not> may_have_run (ab_requests b) (rq_id (tk_row t))" "may_have_run (ab_requests b') (rq_id (tk_row t))"
  shows "run_inv (b', ts @ [t])"
  unfolding run_inv_def
proof (intro conjI allI)
  show "table_ok (ab_requests (fst (b', ts @ [t])))" using assms table_step_ok by (auto simp: run_inv_def)
  fix rid
  have "runs_of rid b ts \<le> (if may_have_run (ab_requests b) rid then 1 else 0)"
    using assms(1) unfolding run_inv_def fst_conv snd_conv by blast
  moreover have "may_have_run (ab_requests b) rid \<longrightarrow> may_have_run (ab_requests b') rid"
    using assms(1,2) ran_grows by (auto simp: run_inv_def)
  ultimately show "runs_of rid (fst (b', ts @ [t])) (snd (b', ts @ [t])) \<le> (if may_have_run (ab_requests (fst (b', ts @ [t]))) rid then 1 else 0)"
    using assms(3-5) by (cases "rid = rq_id (tk_row t)") (auto simp: runs_of_def split: if_splits)
qed

lemma finish_any:
  assumes "table_ok (ab_requests b)" "st = Executed \<or> st = Failed"
  shows "table_step ps (ab_requests b) (ab_requests (finish now rid st result ecode etext b))"
proof (cases "\<exists>row \<in> set (ab_requests b). rq_id row = rid \<and> rq_status row = Approved")
  case True
  then show ?thesis using finish_table [OF assms(1) _ _ assms(2)] by blast
next
  case False
  then have "ab_requests (finish now rid st result ecode etext b) = ab_requests b"
    by (auto simp: finish_def intro!: map_idI)
  then show ?thesis by (simp add: same_table)
qed

lemma run_executor_any: "table_ok (ab_requests b) \<Longrightarrow> table_step ps (ab_requests b) (ab_requests (run_executor now ex actor row b))"
  by (rule run_executor_form [of b row now ex actor]) (metis finish_any small_requests(1))

lemma run_token_effect:
  assumes "table_ok (ab_requests b)"
  shows "table_step ps (ab_requests b) (ab_requests (run_token now reg t b))"
    "ab_calls (run_token now reg t b) = ab_calls b @ [rq_id (tk_row t)] \<or> ab_calls (run_token now reg t b) = ab_calls b"
  using assms by (auto simp: run_token_def run_approved_def run_executor_any run_executor_calls finish_any split: option.splits)

lemma filter_drop_nth:
  assumes "n < length ts"
  shows "length (filter P ts) = length (filter P (drop_nth n ts)) + (if P (ts ! n) then 1 else 0)"
proof -
  have "filter P ts = filter P (take n ts @ ts ! n # drop (Suc n) ts)"
    using id_take_nth_drop [OF assms] by simp
  then show ?thesis by (simp add: drop_nth_def)
qed

lemma drop_nth_le: "length (filter P (drop_nth n ts)) \<le> length (filter P ts)"
proof -
  have "filter P ts = filter P (take n ts) @ filter P (drop n ts)" by (metis append_take_drop_id filter_append)
  moreover have "length (filter P (drop (Suc n) ts)) \<le> length (filter P (drop n ts))"
    by (cases "drop n ts") (auto simp: drop_Suc drop_tl)
  ultimately show ?thesis by (simp add: drop_nth_def)
qed

lemma simple_calls:
  "ab_calls (snd (expire_if_due env rid b)) = ab_calls b" "ab_calls (snd (reject env rid u reason b)) = ab_calls b"
  "ab_calls (snd (cancel env rid u reason b)) = ab_calls b"
  by (auto simp: expire_if_due_def reject_def cancel_def Let_def split: option.splits sum.splits)

lemma sweep_calls: "ab_calls (snd (expire_stale env b)) = ab_calls b"
proof -
  have "ab_calls (snd (expire_each env rids (n, b))) = ab_calls b" for rids n and b :: "'a approval_books"
  proof (induction rids arbitrary: n b)
    case (Cons rid rids)
    then show ?case using simple_calls(1) [of env rid b] by (simp split: prod.split) (metis snd_conv)
  qed simp
  then show ?thesis by (simp add: expire_stale_def)
qed

definition policies_extend :: "policy list \<Rightarrow> policy list \<Rightarrow> bool" where
  "policies_extend ps qs = (\<forall>p \<in> set ps. \<exists>q \<in> set qs. pl_id q = pl_id p \<and> pl_country q = pl_country p \<and> pl_action q = pl_action p
     \<and> pl_kind q = pl_kind p \<and> pl_currency q = pl_currency p \<and> pl_limit q = pl_limit p)"

lemma policies_extend_refl [simp]: "policies_extend ps ps"
  by (auto simp: policies_extend_def)

lemma within_limit_extends: "within_limit ps r \<Longrightarrow> policies_extend ps qs \<Longrightarrow> within_limit qs r"
  unfolding within_limit_def policies_extend_def by metis

lemma write_extends:
  assumes "write_policy_version now c k lk cur lmt author reason via ps = Inr (p, old, qs)"
  shows "policies_extend ps qs"
proof -
  obtain f where f: "qs = map f ps @ [p]" "\<And>q. pl_id (f q) = pl_id q \<and> pl_country (f q) = pl_country q \<and> pl_action (f q) = pl_action q
      \<and> pl_kind (f q) = pl_kind q \<and> pl_currency (f q) = pl_currency q \<and> pl_limit (f q) = pl_limit q"
  proof (cases old)
    case None
    then show thesis using assms
      by (intro that [of id]) (auto simp: write_policy_version_def close_current_def Let_def split: if_splits elim!: bind_res_elim)
  next
    case (Some o1)
    then show thesis using assms
      by (intro that [of "close_policy now (pl_id o1)"])
        (auto simp: write_policy_version_def close_current_def Let_def close_policy_def split: if_splits elim!: bind_res_elim)
  qed
  then show ?thesis unfolding policies_extend_def by auto
qed

lemma policy_change_extends: "policies_extend (ab_policies b) (ab_policies (snd (execute_policy_change now row b)))"
  by (auto simp: execute_policy_change_def Let_def split: option.splits sum.splits elim!: bind_res_elim intro: write_extends)

lemma call_policies: "policies_extend (ab_policies b) (ab_policies (snd (call_executor now ex row b)))"
  using policy_change_extends [of "b\<lparr>ab_calls := ab_calls b @ [rq_id row]\<rparr>" now row]
  by (cases ex) (auto simp: call_executor_def Let_def split: prod.splits)

lemma kept_policies [simp]:
  "ab_policies (audit w i a b) = ab_policies b" "ab_policies (finish now i st result ecode etext b) = ab_policies b"
  "ab_policies (store_request row b) = ab_policies b" "ab_policies (closed_by i st b) = ab_policies b"
  by (simp_all add: audit_def finish_def store_request_def closed_by_def)

lemma run_policies: "policies_extend (ab_policies b) (ab_policies (run_executor now ex actor row b))"
  using call_policies [of b now ex row] by (auto simp: run_executor_def split: prod.splits exec_outcome.splits)

lemma run_token_policies: "policies_extend (ab_policies b) (ab_policies (run_token now reg t b))"
  by (auto simp: run_token_def run_approved_def run_policies split: option.splits)

lemma simple_policies:
  "ab_policies (snd (expire_if_due env rid b)) = ab_policies b" "ab_policies (snd (reject env rid u reason b)) = ab_policies b"
  "ab_policies (snd (cancel env rid u reason b)) = ab_policies b"
  by (auto simp: expire_if_due_def reject_def cancel_def Let_def split: option.splits sum.splits)

lemma sweep_policies: "ab_policies (snd (expire_stale env b)) = ab_policies b"
proof -
  have "ab_policies (snd (expire_each env rids (n, b))) = ab_policies b" for rids n and b :: "'a approval_books"
  proof (induction rids arbitrary: n b)
    case (Cons rid rids)
    then show ?case using simple_policies(1) [of env rid b] by (simp split: prod.split) (metis snd_conv)
  qed simp
  then show ?thesis by (simp add: expire_stale_def)
qed

lemma call_exec_keeps: "ab_requests (snd (call_executor now ex row b)) = ab_requests b"
  using call_requests [of now ex row b] by (cases "call_executor now ex row b") simp

text \<open>Raising: nothing, a row waiting for a checker, or an approved row and a token for it.\<close>

lemma raise_effect:
  assumes "approval_step reg (b, ts) (RaiseEvent env a) = Inr s'"
  obtains (calm) b' where "s' = (b', ts)" "table_step (ab_policies b) (ab_requests b) (ab_requests b')"
      "ab_calls b' = ab_calls b" "ab_policies b' = ab_policies b"
  | (token) b' t where "s' = (b', ts @ [t])" "table_step (ab_policies b) (ab_requests b) (ab_requests b')"
      "ab_calls b' = ab_calls b" "ab_policies b' = ab_policies b"
      "\<not> may_have_run (ab_requests b) (rq_id (tk_row t))" "may_have_run (ab_requests b') (rq_id (tk_row t))"
proof -
  obtain reply b1 where r: "raise_request env reg a b = (reply, b1)" by (cases "raise_request env reg a b")
  from r show thesis
  proof (cases rule: raise_request_cases)
    case unchanged
    then have "s' = (b, ts)" using assms r by (auto split: sum.splits prod.splits option.splits)
    then show thesis by (rule calm) (simp_all add: same_table)
  next
    case (inserted row yes pol ex)
    show thesis
    proof (cases "needs_checker a yes")
      case True
      then have "s' = (b1, ts)" using assms r inserted(7) by simp
      then show thesis using calm raise_table [OF r] inserted(5,6) by blast
    next
      case False
      let ?t = "\<lparr> tk_row = row, tk_executor = Some ex, tk_actor = map_option user_pk (ra_actor a) \<rparr>"
      have "rq_status row = Approved" using False inserted(2) by (simp add: new_request_fields)
      then have "may_have_run (ab_requests b1) (rq_id row)" using inserted(4) by (simp add: may_have_run_def)
      moreover have "\<not> may_have_run (ab_requests b) (rq_id row)"
        using inserted(2) by (auto simp: new_request_fields may_have_run_def dest: next_id_fresh)
      moreover have "s' = (b1, ts @ [?t])" using assms r inserted(7) False by simp
      ultimately show thesis using token [of b1 ?t] raise_table [OF r] inserted(5,6) by simp
    qed
  qed
qed

lemma approve_effect:
  assumes "approval_step reg (b, ts) (ApproveEvent env rid u reason) = Inr s'" "table_ok (ab_requests b)"
  obtains (calm) b' where "s' = (b', ts)" "table_step (ab_policies b) (ab_requests b) (ab_requests b')"
      "ab_calls b' = ab_calls b" "ab_policies b' = ab_policies b"
  | (token) b' t where "s' = (b', ts @ [t])" "table_step (ab_policies b) (ab_requests b) (ab_requests b')"
      "ab_calls b' = ab_calls b" "ab_policies b' = ab_policies b"
      "\<not> may_have_run (ab_requests b) (rq_id (tk_row t))" "may_have_run (ab_requests b') (rq_id (tk_row t))"
proof -
  obtain reply b1 where r: "approve_lock env rid u reason b = (reply, b1)" by (cases "approve_lock env rid u reason b")
  from r show thesis
  proof (cases rule: approve_lock_cases)
    case unchanged
    then have "s' = (b, ts)" using assms r by (auto split: sum.splits prod.splits bool.splits)
    then show thesis by (rule calm) (simp_all add: same_table)
  next
    case lapsed
    then have "s' = (b1, ts)" using assms r by simp
    then show thesis using calm approve_lock_table [OF r] lapsed(1) simple_calls(1) simple_policies(1) by blast
  next
    case (moved row)
    define row1 where "row1 = decided env Approved (actor_snapshot (Some u)) (is_maker row u) reason row"
    let ?t = "\<lparr> tk_row = row1, tk_executor = None, tk_actor = Some (user_pk u) \<rparr>"
    have id: "rq_id row1 = rid" "rq_status row1 = Approved" using moved by (simp_all add: row1_def decided_facts)
    have "\<not> may_have_run (ab_requests b) rid"
      using moved assms(2) by (auto simp: may_have_run_def table_ok_def distinct_map inj_on_def)
    moreover have "may_have_run (ab_requests b1) rid"
      using moved id by (auto simp: may_have_run_def replace_row_def row1_def image_iff)
    moreover have "s' = (b1, ts @ [?t])" using assms r moved(7) by (simp add: row1_def)
    ultimately show thesis using token [of b1 ?t] approve_lock_table [OF r] moved(9,10) id by simp
  qed
qed

lemma run_inv_step: "run_inv s \<Longrightarrow> approval_step reg s e = Inr s' \<Longrightarrow> run_inv s'"
proof -
  assume inv: "run_inv s" and st: "approval_step reg s e = Inr s'"
  obtain b ts where s: "s = (b, ts)" by (cases s)
  have ok: "table_ok (ab_requests b)" using inv s by (simp add: run_inv_def)
  have calm: "run_inv (b', ts)" if "(table_step ps)\<^sup>*\<^sup>* (ab_requests b) (ab_requests b')" "ab_calls b' = ab_calls b" for b' ps
    using inv s that by (intro run_inv_calm [where b = b and ts = ts and b' = b']) (simp_all add: runs_of_def)
  have calm1: "run_inv (b', ts)" if "table_step [] (ab_requests b) (ab_requests b')" "ab_calls b' = ab_calls b" for b'
    using that by (intro calm [of "[]"]) auto
  show ?thesis
  proof (cases e)
    case (RaiseEvent env a)
    show ?thesis using raise_effect [OF st [unfolded s RaiseEvent]] calm run_inv_new inv s
      by (metis (no_types, lifting) r_into_rtranclp)
  next
    case (ApproveEvent env rid u reason)
    show ?thesis using approve_effect [OF st [unfolded s ApproveEvent] ok] calm run_inv_new inv s
      by (metis (no_types, lifting) r_into_rtranclp)
  next
    case (RunEvent now n)
    show ?thesis
    proof (cases "n < length ts")
      case True
      then have s': "s' = (run_token now reg (ts ! n) b, drop_nth n ts)" using st s RunEvent by simp
      have "runs_of rid (run_token now reg (ts ! n) b) (drop_nth n ts) \<le> runs_of rid b ts" for rid
        using run_token_effect(2) [OF ok, of now reg "ts ! n"] filter_drop_nth [OF True, of "\<lambda>t. rq_id (tk_row t) = rid"]
        by (auto simp: runs_of_def)
      moreover have "run_inv (b, ts)" using inv s by simp
      ultimately show ?thesis unfolding s'
        using run_inv_calm r_into_rtranclp [of "table_step []", OF run_token_effect(1) [OF ok, of "[]" now reg "ts ! n"]] by blast
    qed (use st s RunEvent inv in simp)
  next
    case (CrashEvent n)
    then show ?thesis using st s inv drop_nth_le
      by (auto intro!: run_inv_calm [where b = b and ts = ts and b' = b] simp: runs_of_def)
  next
    case (RejectEvent env rid u reason)
    then show ?thesis using st s by (auto intro!: calm1 reject_table simp: simple_calls)
  next
    case (CancelEvent env rid u reason)
    then show ?thesis using st s by (auto intro!: calm1 cancel_table simp: simple_calls)
  next
    case (SweepEvent env)
    then show ?thesis using st s by (auto intro!: calm [of "[]"] sweep_table simp: sweep_calls)
  qed
qed

text \<open>The effect of any event on the table and the policies.\<close>

lemma step_effect:
  assumes "approval_step reg (b, ts) e = Inr (b', ts')" "table_ok (ab_requests b)"
  shows "(table_step (ab_policies b))\<^sup>*\<^sup>* (ab_requests b) (ab_requests b') \<and> policies_extend (ab_policies b) (ab_policies b')"
proof (cases e)
  case (RaiseEvent env a)
  show ?thesis using raise_effect [OF assms(1) [unfolded RaiseEvent]]
    by (metis policies_extend_refl prod.inject r_into_rtranclp)
next
  case (ApproveEvent env rid u reason)
  show ?thesis using approve_effect [OF assms(1) [unfolded ApproveEvent] assms(2)]
    by (metis policies_extend_refl prod.inject r_into_rtranclp)
next
  case (RunEvent now n)
  then show ?thesis using assms run_token_effect(1) [OF assms(2)] run_token_policies
    by (auto split: if_splits)
qed (use assms in \<open>auto simp: simple_policies sweep_policies intro: reject_table cancel_table sweep_table\<close>)

definition decided_properly :: "policy list \<Rightarrow> request list \<Rightarrow> bool" where
  "decided_properly ps rs = (\<forall>r \<in> set rs. rq_status r \<in> {Approved, Executed, Failed} \<longrightarrow> signed_off r \<or> within_limit ps r)"

lemma table_step_properly:
  "table_step ps rs rs' \<Longrightarrow> table_ok rs \<Longrightarrow> decided_properly ps rs \<Longrightarrow> decided_properly ps rs'"
proof (induction rule: table_step.induct)
  case (move_row row rs row')
  have "signed_off row' \<or> within_limit ps row'" if "rq_status row' \<in> {Approved, Executed, Failed}"
  proof (cases "rq_status row' = Approved")
    case False
    then have "rq_status row = Approved" using that move_row(3) by (auto elim: status_step_cases)
    then have "signed_off row \<or> within_limit ps row" "rq_checker row' = rq_checker row" "rq_self_approved row' = rq_self_approved row"
      using move_row by (auto simp: decided_properly_def)
    then show ?thesis using ask_keeps [OF move_row(2)] by (simp add: signed_off_def within_limit_def)
  qed (use move_row(4) in simp)
  then show ?case using move_row(7) by (auto simp: decided_properly_def replace_row_def)
qed (auto simp: decided_properly_def)

lemma table_steps_properly:
  "(table_step ps)\<^sup>*\<^sup>* rs rs' \<Longrightarrow> table_ok rs \<Longrightarrow> decided_properly ps rs \<Longrightarrow> decided_properly ps rs'"
  by (induction rule: rtranclp_induct) (auto intro: table_step_properly table_steps_ok)

lemma properly_extends: "decided_properly ps rs \<Longrightarrow> policies_extend ps qs \<Longrightarrow> decided_properly qs rs"
  unfolding decided_properly_def using within_limit_extends by blast

definition approval_inv :: "'w approval_books \<times> 'w run_token list \<Rightarrow> bool" where
  "approval_inv s = (run_inv s \<and> decided_properly (ab_policies (fst s)) (ab_requests (fst s)))"

lemma approval_inv_step: "approval_inv s \<Longrightarrow> approval_step reg s e = Inr s' \<Longrightarrow> approval_inv s'"
proof -
  assume inv: "approval_inv s" and st: "approval_step reg s e = Inr s'"
  have r: "run_inv s'" using run_inv_step [OF _ st] inv by (simp add: approval_inv_def)
  obtain b ts b' ts' where s: "s = (b, ts)" "s' = (b', ts')" by (cases s, cases s')
  have ok: "table_ok (ab_requests b)" "decided_properly (ab_policies b) (ab_requests b)"
    using inv s by (auto simp: approval_inv_def run_inv_def)
  then have "decided_properly (ab_policies b) (ab_requests b')" "policies_extend (ab_policies b) (ab_policies b')"
    using step_effect [OF st [unfolded s] ok(1)] table_steps_properly by blast+
  then show "approval_inv s'" using r s properly_extends by (auto simp: approval_inv_def)
qed

interpretation approvals: guarded_system "approval_step reg" approval_inv for reg
  by unfold_locales (rule approval_inv_step)

text \<open>A request in a terminal status is never changed again.\<close>

definition request_closed :: "int \<Rightarrow> 'w approval_books \<times> 'w run_token list \<Rightarrow> bool" where
  "request_closed rid s = (\<exists>r. find_request rid (fst s) = Some r \<and> rq_status r \<in> set TERMINAL_STATUSES)"

lemma closed_step:
  assumes "approval_inv s" "request_closed rid s" "approval_step reg s e = Inr s'"
  shows "request_closed rid s' \<and> find_request rid (fst s') = find_request rid (fst s)"
proof -
  obtain b ts b' ts' where s: "s = (b, ts)" "s' = (b', ts')" by (cases s, cases s')
  have ok: "table_ok (ab_requests b)" using assms(1) s by (auto simp: approval_inv_def run_inv_def)
  obtain r where r: "find_request rid b = Some r" "rq_status r \<in> set TERMINAL_STATUSES"
    using assms(2) s by (auto simp: request_closed_def)
  have steps: "(table_step (ab_policies b))\<^sup>*\<^sup>* (ab_requests b) (ab_requests b')"
    using step_effect [OF assms(3) [unfolded s] ok] by blast
  have "r \<in> set (ab_requests b')" "rq_id r = rid" "distinct (map rq_id (ab_requests b'))"
    using table_steps_frozen [OF steps ok _ r(2)] find_request_member [OF r(1)] table_steps_ok [OF steps ok]
    by (auto simp: table_ok_def)
  then have "find_request rid b' = Some r" using find_request_here by blast
  then show ?thesis using r s by (simp add: request_closed_def)
qed

interpretation closed_requests: frozen_part "approval_step reg" approval_inv request_closed "\<lambda>rid s. find_request rid (fst s)" for reg
  by unfold_locales (rule closed_step)

section \<open>The promises\<close>

definition fresh_desk :: "policy list \<Rightarrow> 'w \<Rightarrow> 'w approval_books \<times> 'w run_token list" where
  "fresh_desk ps w = (\<lparr> ab_policies = ps, ab_requests = [], ab_calls = [], ab_audit = [], ab_closed = [], ab_world = w \<rparr>, [])"

definition books_after :: "'w registry \<Rightarrow> policy list \<Rightarrow> 'w \<Rightarrow> 'w approval_event list \<Rightarrow> 'w approval_books" where
  "books_after reg ps w es = fst (run_events (approval_step reg) (fresh_desk ps w) es)"

lemma fresh_desk_inv: "approval_inv (fresh_desk ps w)"
  by (simp add: approval_inv_def run_inv_def fresh_desk_def table_ok_def runs_of_def decided_properly_def)

lemma history_inv: "approval_inv (run_events (approval_step reg) (fresh_desk ps w) es)"
  by (rule approvals.run_inv [OF fresh_desk_inv])

lemma history_table: "table_ok (ab_requests (books_after reg ps w es))"
  using history_inv [of reg ps w es] by (simp add: approval_inv_def run_inv_def books_after_def)

text \<open>Claim C3. Exactly once: after every interleaving of makers, checkers, executors, crashes, cancellations and
  sweeps, the executor of a request has been called at most once, and never for a request that is still
  waiting or was rejected, cancelled or expired.\<close>

theorem executor_runs_once:
  "count_list (ab_calls (books_after reg ps w es)) rid \<le>
     (case find_request rid (books_after reg ps w es) of None \<Rightarrow> 0
      | Some r \<Rightarrow> if rq_status r \<in> {Approved, Executed, Failed} then 1 else 0)"
proof -
  obtain b ts where s: "run_events (approval_step reg) (fresh_desk ps w) es = (b, ts)"
    by (cases "run_events (approval_step reg) (fresh_desk ps w) es")
  have inv: "run_inv (b, ts)" using history_inv [of reg ps w es] s by (simp add: approval_inv_def)
  then have ok: "distinct (map rq_id (ab_requests b))" by (simp add: run_inv_def table_ok_def)
  have "runs_of rid b ts \<le> (if may_have_run (ab_requests b) rid then 1 else 0)"
    using inv unfolding run_inv_def fst_conv snd_conv by blast
  then have le: "count_list (ab_calls b) rid \<le> (if may_have_run (ab_requests b) rid then 1 else 0)"
    by (simp add: runs_of_def split: if_splits)
  have "\<exists>r. find_request rid b = Some r \<and> rq_status r \<in> {Approved, Executed, Failed}" if "may_have_run (ab_requests b) rid"
    using that find_request_here [OF ok] by (auto simp: may_have_run_def)
  then show ?thesis using le s by (auto simp: books_after_def split: if_splits)
qed

text \<open>Claim C10. A second person: after every such interleaving there is no request in the status approved, executed
  or failed that neither carries the decision of a checker other than its maker (or the mark of a
  self-approval) nor is within the limit of a policy version for its country and action.\<close>

theorem second_person_or_within_limit:
  "filter (\<lambda>r. rq_status r \<in> {Approved, Executed, Failed} \<and> \<not> signed_off r
      \<and> \<not> within_limit (ab_policies (books_after reg ps w es)) r) (ab_requests (books_after reg ps w es)) = []"
  using history_inv [of reg ps w es]
  by (auto simp: filter_empty_conv approval_inv_def decided_properly_def books_after_def)

text \<open>Claim C36. The tables stay well formed: request ids are distinct, and at most one request that is waiting, approved
  or executed carries a given idempotency key, whatever happened before.\<close>

theorem one_live_request_per_key:
  "distinct (map rq_id (ab_requests (books_after reg ps w es)))
   \<and> distinct (map rq_key (filter key_held (ab_requests (books_after reg ps w es))))"
  using history_table [of reg ps w es] by (simp add: table_ok_def)

lemma table_step_machine:
  assumes "table_step ps rs rs'" "table_ok rs" "r \<in> set rs"
  shows "\<exists>r' \<in> set rs'. ask r' = ask r \<and> status_step\<^sup>*\<^sup>* (rq_status r) (rq_status r')"
  using assms
proof (induction rule: table_step.induct)
  case (move_row row rs row')
  show ?case
  proof (cases "r = row")
    case True
    have "row' \<in> set (replace_row row' rs)" using move_row(1) ask_keeps [OF move_row(2)]
      by (auto simp: replace_row_def image_iff)
    then show ?thesis using True move_row(2,3) by auto
  next
    case False
    then have "rq_id r \<noteq> rq_id row" using move_row by (auto simp: table_ok_def distinct_map inj_on_def)
    then have "r \<in> set (replace_row row' rs)" using move_row ask_keeps [OF move_row(2)]
      by (auto simp: replace_row_def image_iff)
    then show ?thesis by blast
  qed
qed auto

lemma table_steps_machine:
  assumes "(table_step ps)\<^sup>*\<^sup>* rs rs'" "table_ok rs" "r \<in> set rs"
  shows "\<exists>r' \<in> set rs'. ask r' = ask r \<and> status_step\<^sup>*\<^sup>* (rq_status r) (rq_status r')"
  using assms
proof (induction rule: rtranclp_induct)
  case (step ys zs)
  then obtain r1 where r1: "r1 \<in> set ys" "ask r1 = ask r" "status_step\<^sup>*\<^sup>* (rq_status r) (rq_status r1)" by blast
  obtain r2 where "r2 \<in> set zs" "ask r2 = ask r1" "status_step\<^sup>*\<^sup>* (rq_status r1) (rq_status r2)"
    using table_step_machine [OF step.hyps(2) table_steps_ok [OF step.hyps(1)] r1(1)] step.prems by blast
  then show ?case using r1 by (metis rtranclp_trans)
qed auto

lemma step_machine:
  assumes "approval_inv (b, ts)" "find_request rid b = Some r" "approval_step reg (b, ts) e = Inr (b1, ts1)"
  shows "\<exists>r1. find_request rid b1 = Some r1 \<and> ask r1 = ask r \<and> status_step\<^sup>*\<^sup>* (rq_status r) (rq_status r1)"
proof -
  have ok: "table_ok (ab_requests b)" using assms(1) by (simp add: approval_inv_def run_inv_def)
  note r = find_request_member [OF assms(2)]
  have steps: "(table_step (ab_policies b))\<^sup>*\<^sup>* (ab_requests b) (ab_requests b1)"
    using step_effect [OF assms(3) ok] by blast
  obtain r1 where r1: "r1 \<in> set (ab_requests b1)" "ask r1 = ask r" "status_step\<^sup>*\<^sup>* (rq_status r) (rq_status r1)"
    using table_steps_machine [OF steps ok] r by blast
  have "distinct (map rq_id (ab_requests b1))" using table_steps_ok [OF steps ok] by (simp add: table_ok_def)
  then have "find_request (rq_id r1) b1 = Some r1" using r1(1) by (rule find_request_here)
  then show ?thesis using r1 r ask_keeps [OF r1(2)] by auto
qed

lemma history_machine:
  assumes "approval_inv s" "find_request rid (fst s) = Some r"
  shows "\<exists>r'. find_request rid (fst (run_events (approval_step reg) s es)) = Some r' \<and> ask r' = ask r
    \<and> status_step\<^sup>*\<^sup>* (rq_status r) (rq_status r')"
  using assms
proof (induction es arbitrary: s r)
  case (Cons e es)
  have inv: "approval_inv (after s (approval_step reg s e))" by (rule approvals.after_inv [OF Cons.prems(1)])
  have "\<exists>r1. find_request rid (fst (after s (approval_step reg s e))) = Some r1 \<and> ask r1 = ask r
      \<and> status_step\<^sup>*\<^sup>* (rq_status r) (rq_status r1)"
  proof (cases "approval_step reg s e")
    case (Inr s1)
    then show ?thesis using step_machine [of "fst s" "snd s" rid r reg e "fst s1" "snd s1"] Cons.prems by simp
  qed (use Cons.prems in simp)
  then obtain r1 where r1: "find_request rid (fst (after s (approval_step reg s e))) = Some r1" "ask r1 = ask r"
    "status_step\<^sup>*\<^sup>* (rq_status r) (rq_status r1)" by blast
  obtain r2 where "find_request rid (fst (run_events (approval_step reg) s (e # es))) = Some r2" "ask r2 = ask r1"
    "status_step\<^sup>*\<^sup>* (rq_status r1) (rq_status r2)"
    using Cons.IH [OF inv r1(1)] by auto
  then show ?case using r1(2,3) by (intro exI [of _ r2]) (simp add: rtranclp_trans)
qed auto

definition desk_operator :: "int \<Rightarrow> operator" where
  "desk_operator pk = \<lparr> user_pk = pk, authenticated = True, is_superuser = True, is_staff = True, user_role = ''admin'', ops_role = [],
     op_label = ''Asha'', op_email = ''asha@example'', op_role_text = ''admin'', op_break_glass = False, op_active = True \<rparr>"

definition desk_env :: "int \<Rightarrow> approval_env" where
  "desk_env now = \<lparr> en_now = now, en_ttl = 100, en_strict = True, en_solo = False, en_db = [], en_users = [],
     en_country_node = (\<lambda>_. None) \<rparr>"

definition desk_registry :: "nat registry" where
  "desk_registry key = Some (\<lambda>r w. (ExecResult (JObj []), Suc w))"

definition hold_args :: "string \<Rightarrow> nat raise_args" where
  "hold_args key = \<lparr> ra_action = ''finance.payout_hold'', ra_actor = Some (desk_operator 1), ra_country = ''IN'', ra_amount = None,
     ra_currency = [], ra_scope = None, ra_target = None, ra_target_type = ''driver'', ra_target_id = ''9'', ra_payload = [],
     ra_execute = None, ra_key = key, ra_reason = [], ra_system = [] \<rparr>"

definition desk_events :: "nat approval_event list" where
  "desk_events = [RaiseEvent (desk_env 0) (hold_args ''hold:9''), ApproveEvent (desk_env 1) 1 (desk_operator 2) [],
     ApproveEvent (desk_env 1) 1 (desk_operator 3) [], RunEvent 2 0, RunEvent 2 0]"

lemma desk_run: "map_option rq_status (find_request 1 (books_after desk_registry [] 0 desk_events)) = Some Executed
    \<and> ab_calls (books_after desk_registry [] 0 desk_events) = [1]"
  by code_simp

text \<open>Claim C22. Requests follow the status machine of the documentation: whatever happens between two moments, a
  request keeps everything its maker asked for, and its status at the later moment is reached from the
  earlier one by the steps requested to approved, rejected, cancelled or expired, and approved to executed or
  failed.\<close>

theorem requests_follow_the_machine:
  assumes "find_request rid (books_after reg ps w es) = Some r"
  shows "\<exists>r'. find_request rid (books_after reg ps w (es @ fs)) = Some r' \<and> ask r' = ask r
    \<and> status_step\<^sup>*\<^sup>* (rq_status r) (rq_status r')"
  using history_machine [OF history_inv [of reg ps w es], of rid r reg fs] assms
  by (simp add: books_after_def run_events_append)

theorem requests_follow_the_machine_witness:
  "\<exists>r r'. find_request 1 (books_after desk_registry [] 0 desk_events) = Some r
     \<and> find_request 1 (books_after desk_registry [] 0 (desk_events @ desk_events)) = Some r'
     \<and> ask r' = ask r \<and> status_step\<^sup>*\<^sup>* Executed (rq_status r')"
proof -
  obtain r where r: "find_request 1 (books_after desk_registry [] 0 desk_events) = Some r" "rq_status r = Executed"
    using desk_run by auto
  show ?thesis using requests_follow_the_machine [OF r(1), of desk_events] r by auto
qed

text \<open>A decision is final: once a request is rejected, executed, failed, cancelled or expired, its row (the
  people, the reasons, the result) is the same after any later events.\<close>

theorem decided_requests_final:
  assumes "find_request rid (books_after reg ps w es) = Some r" "rq_status r \<in> set TERMINAL_STATUSES"
  shows "find_request rid (books_after reg ps w (es @ fs)) = Some r"
proof -
  have "request_closed rid (run_events (approval_step reg) (fresh_desk ps w) es)"
    using assms by (simp add: request_closed_def books_after_def)
  from closed_requests.run_closed [OF history_inv this, of reg fs]
  show ?thesis using assms(1) by (simp add: books_after_def run_events_append)
qed

theorem decided_requests_final_witness:
  "\<exists>r. rq_status r = Executed
     \<and> find_request 1 (books_after desk_registry [] 0 (desk_events @ [CancelEvent (desk_env 3) 1 (desk_operator 1) []])) = Some r"
proof -
  obtain r where r: "find_request 1 (books_after desk_registry [] 0 desk_events) = Some r" "rq_status r = Executed"
    using desk_run by auto
  show ?thesis using decided_requests_final [OF r(1)] r(2) by (auto simp: TERMINAL_STATUSES_def)
qed

section \<open>The sweep and the self-approval\<close>

definition lapse :: "approval_env \<Rightarrow> request \<Rightarrow> request" where
  "lapse env r = (if is_overdue env r then r\<lparr>rq_status := Expired\<rparr> else r)"

lemma lapse_facts: "rq_id (lapse env r) = rq_id r" "\<not> is_overdue env (lapse env r)" "lapse env (lapse env r) = lapse env r"
  by (simp_all add: lapse_def is_overdue_def)

lemma expire_if_due_map:
  assumes "distinct (map rq_id (ab_requests b))"
  shows "ab_requests (snd (expire_if_due env rid b)) = map (\<lambda>r. if rq_id r = rid then lapse env r else r) (ab_requests b)"
    "fst (expire_if_due env rid b) = (\<exists>r \<in> set (ab_requests b). rq_id r = rid \<and> is_overdue env r)"
proof -
  have "ab_requests (snd (expire_if_due env rid b)) = map (\<lambda>r. if rq_id r = rid then lapse env r else r) (ab_requests b)
      \<and> fst (expire_if_due env rid b) = (\<exists>r \<in> set (ab_requests b). rq_id r = rid \<and> is_overdue env r)"
  proof (cases "find_request rid b")
    case None
    then have "\<forall>r \<in> set (ab_requests b). rq_id r \<noteq> rid" by (simp add: find_request_def find_None_iff)
    then show ?thesis using None by (auto simp: expire_if_due_def intro!: map_idI [symmetric])
  next
    case (Some row)
    note row = find_request_member [OF Some]
    have only: "r = row" if "r \<in> set (ab_requests b)" "rq_id r = rid" for r
      using that row assms by (auto simp: distinct_map inj_on_def)
    show ?thesis
    proof (cases "is_overdue env row")
      case True
      have "replace_row (row\<lparr>rq_status := Expired\<rparr>) (ab_requests b)
          = map (\<lambda>r. if rq_id r = rid then lapse env r else r) (ab_requests b)"
        unfolding replace_row_def using row True only by (intro map_cong) (auto simp: lapse_def)
      then show ?thesis using Some True row by (auto simp: expire_if_due_def Let_def)
    next
      case False
      have "map (\<lambda>r. if rq_id r = rid then lapse env r else r) (ab_requests b) = ab_requests b"
        using False only by (intro map_idI) (auto simp: lapse_def)
      then show ?thesis using Some False only by (auto simp: expire_if_due_def)
    qed
  qed
  then show "ab_requests (snd (expire_if_due env rid b)) = map (\<lambda>r. if rq_id r = rid then lapse env r else r) (ab_requests b)"
    "fst (expire_if_due env rid b) = (\<exists>r \<in> set (ab_requests b). rq_id r = rid \<and> is_overdue env r)" by simp_all
qed

lemma expire_each_map:
  assumes "distinct (map rq_id (ab_requests b))" "distinct rids"
  shows "ab_requests (snd (expire_each env rids (n, b))) = map (\<lambda>r. if rq_id r \<in> set rids then lapse env r else r) (ab_requests b)
    \<and> fst (expire_each env rids (n, b))
       = n + length (filter (\<lambda>rid. \<exists>r \<in> set (ab_requests b). rq_id r = rid \<and> is_overdue env r) rids)"
  using assms
proof (induction rids arbitrary: n b)
  case (Cons rid rids)
  obtain hit b1 where e: "expire_if_due env rid b = (hit, b1)" by (cases "expire_if_due env rid b")
  have b1: "ab_requests b1 = map (\<lambda>r. if rq_id r = rid then lapse env r else r) (ab_requests b)"
    "hit = (\<exists>r \<in> set (ab_requests b). rq_id r = rid \<and> is_overdue env r)"
    using expire_if_due_map [OF Cons.prems(1), of env rid] e by simp_all
  have ids: "map rq_id (ab_requests b1) = map rq_id (ab_requests b)" by (simp add: b1 lapse_facts)
  have rest: "(\<exists>r \<in> set (ab_requests b1). rq_id r = i \<and> is_overdue env r)
      = (\<exists>r \<in> set (ab_requests b). rq_id r = i \<and> is_overdue env r)" if "i \<in> set rids" for i
    using that Cons.prems(2) by (auto simp: b1 lapse_facts)
  have "filter (\<lambda>i. \<exists>r \<in> set (ab_requests b1). rq_id r = i \<and> is_overdue env r) rids
      = filter (\<lambda>i. \<exists>r \<in> set (ab_requests b). rq_id r = i \<and> is_overdue env r) rids"
    using rest by (rule filter_cong [OF refl])
  moreover have "map (\<lambda>r. if rq_id r \<in> set rids then lapse env r else r) (ab_requests b1)
      = map (\<lambda>r. if rq_id r \<in> set (rid # rids) then lapse env r else r) (ab_requests b)"
    by (auto simp: b1 lapse_facts)
  ultimately show ?case
    using Cons.IH [of b1 "if hit then n + 1 else n"] Cons.prems ids e b1(2) by (simp add: ids)
qed simp

lemma sweep_exact:
  assumes "distinct (map rq_id (ab_requests b))"
  shows "ab_requests (snd (expire_stale env b)) = map (lapse env) (ab_requests b)
    \<and> fst (expire_stale env b) = length (filter (is_overdue env) (ab_requests b))"
proof -
  have due: "filter (\<lambda>r. rq_status r = Requested \<and> rq_expires_at r \<le> en_now env) (ab_requests b)
      = filter (is_overdue env) (ab_requests b)"
    by (rule filter_cong) (auto simp: is_overdue_def)
  let ?ids = "map rq_id (filter (is_overdue env) (ab_requests b))"
  have d: "distinct ?ids" using assms by (rule distinct_map_filter)
  have "map (\<lambda>r. if rq_id r \<in> set ?ids then lapse env r else r) (ab_requests b) = map (lapse env) (ab_requests b)"
    by (rule map_cong) (auto simp: lapse_def)
  moreover have "filter (\<lambda>rid. \<exists>r \<in> set (ab_requests b). rq_id r = rid \<and> is_overdue env r) ?ids = ?ids"
    by (auto simp: filter_id_conv)
  ultimately show ?thesis
    using expire_each_map [OF assms d, of env 0] unfolding expire_stale_def due by simp
qed

text \<open>Claim C37. The expiry sweep is complete: run at any moment of any history, it expires every waiting request whose
  time has come, changes no other row, and returns how many it expired, so none is left waiting.\<close>

theorem sweep_expires_every_overdue:
  "filter (is_overdue env) (ab_requests (snd (expire_stale env (books_after reg ps w es)))) = []
   \<and> ab_requests (snd (expire_stale env (books_after reg ps w es)))
       = map (\<lambda>r. if is_overdue env r then r\<lparr>rq_status := Expired\<rparr> else r) (ab_requests (books_after reg ps w es))
   \<and> fst (expire_stale env (books_after reg ps w es)) = length (filter (is_overdue env) (ab_requests (books_after reg ps w es)))"
proof -
  have "distinct (map rq_id (ab_requests (books_after reg ps w es)))" using history_table [of reg ps w es] by (simp add: table_ok_def)
  note sw = sweep_exact [OF this, of env]
  have "lapse env = (\<lambda>r. if is_overdue env r then r\<lparr>rq_status := Expired\<rparr> else r)" by (rule ext) (simp add: lapse_def)
  then show ?thesis using sw by (auto simp: filter_empty_conv is_overdue_def)
qed

text \<open>A maker approves their own request only alone and with a reason: if the maker's approval makes the
  transition, the solo setting is on, they are a super admin and not the break-glass account, the reason has ten
  characters, and no other active operator could have decided that request.\<close>

theorem self_approval_only_alone:
  assumes "fst (approve_lock env rid u reason b) = Inr (True, row)" "sn_id (rq_maker row) = Some (user_pk u)"
  shows "en_solo env \<and> is_super_admin (en_db env) (acct u) \<and> \<not> op_break_glass u \<and> 10 \<le> length (py_strip reason)
    \<and> rq_self_approved row \<and> (\<exists>r. find_request rid b = Some r \<and> possible_checkers env r = [])"
proof -
  obtain reply b1 where l: "approve_lock env rid u reason b = (reply, b1)" by (cases "approve_lock env rid u reason b")
  from l show ?thesis
  proof (cases rule: approve_lock_cases)
    case (moved r)
    then have row: "row = decided env Approved (actor_snapshot (Some u)) (is_maker r u) reason r" using assms(1) l by simp
    then have own: "is_maker r u" using assms(2) by (simp add: decided_facts is_maker_def)
    then have "self_approval_allowed env r u" using check_checker_facts [OF moved(6)] by blast
    moreover have "10 \<le> length (py_strip reason)"
      using l moved own by (auto simp: approve_lock_def Let_def require_self_reason_def SELF_APPROVAL_MIN_REASON_def refuse_if_def
          split: if_splits)
    ultimately show ?thesis using moved(2) own row by (auto simp: self_approval_allowed_def decided_facts)
  qed (use assms(1) l in auto)
qed

theorem self_approval_only_alone_witness:
  "en_solo (desk_env 1\<lparr>en_solo := True\<rparr>) \<and> possible_checkers (desk_env 1\<lparr>en_solo := True\<rparr>)
     (the (find_request 1 (books_after desk_registry [] 0 (take 1 desk_events)))) = []"
proof -
  let ?env = "desk_env 1\<lparr>en_solo := True\<rparr>" and ?b = "books_after desk_registry [] 0 (take 1 desk_events)"
  have "(case fst (approve_lock ?env 1 (desk_operator 1) ''nobody else is here'' ?b) of Inl _ \<Rightarrow> False
     | Inr (mine, row) \<Rightarrow> mine \<and> sn_id (rq_maker row) = Some (user_pk (desk_operator 1)))" by code_simp
  then obtain row where "fst (approve_lock ?env 1 (desk_operator 1) ''nobody else is here'' ?b) = Inr (True, row)"
    "sn_id (rq_maker row) = Some (user_pk (desk_operator 1))" by (auto split: sum.splits)
  from self_approval_only_alone [OF this] show ?thesis by auto
qed

end
