(* ===== verification/PolicyLaws.thy ===== *)
theory PolicyLaws
  imports ApprovalLaws
begin

text \<open>
  The versioned approval policies: a country without a policy is refused, every valid change succeeds
  and opens the next version, one version is active at a time, a closed version is never edited; and
  the seed command (\<open>management/commands/seed_approval_policies.py\<close>).
\<close>

section \<open>Unconfigured countries\<close>

lemma active_policy_none:
  "active_policy ps c k = None \<longleftrightarrow> (\<forall>p \<in> set ps. \<not> (pl_country p = c \<and> pl_action p = k \<and> pl_active p))"
  by (auto simp: active_policy_def find_None_iff)

text \<open>A country with no policy is refused, never defaulted: an action that is not always checked, asked for in a known
  country without an active policy for it, raises ThresholdNotConfigured and writes nothing, whatever the amount,
  and whoever the operator is.\<close>

theorem unconfigured_country_refused:
  assumes "action_for (ra_action a) = Some spec" "\<not> ac_always spec" "clean_code (ra_country a) \<in> set (map ct_code COUNTRIES)"
    and "\<forall>p \<in> set (ab_policies b). pl_active p \<longrightarrow> (pl_country p, pl_action p) \<noteq> (clean_code (ra_country a), ra_action a)"
    and "ra_actor a = Some u" "is_operator (acct u)" "ra_key a \<noteq> []"
  shows "require_approval_or_execute env reg a b = (Inl ThresholdNotConfigured, b)"
proof -
  have "active_policy (ab_policies b) (clean_code (ra_country a)) (ra_action a) = None"
    unfolding active_policy_none using assms(4) by auto
  then have "decide (ab_policies b) (ra_action a) (ra_country a) (ra_amount a) (ra_currency a) = Inl ThresholdNotConfigured"
    using assms(1-3) by (simp add: decide_def check_country_def Let_def)
  then show ?thesis using assms(5-7) by (simp add: require_approval_or_execute_def raise_request_def)
qed

definition us_refund :: "nat raise_args" where
  "us_refund = \<lparr> ra_action = ''finance.refund'', ra_actor = Some \<lparr> user_pk = 1, authenticated = True, is_superuser = True,
     is_staff = True, user_role = ''admin'', ops_role = [], op_label = [], op_email = [], op_role_text = [],
     op_break_glass = False, op_active = True \<rparr>, ra_country = '' us '', ra_amount = Some 5, ra_currency = ''usd'', ra_scope = None,
     ra_target = None, ra_target_type = [], ra_target_id = [], ra_payload = [], ra_execute = None, ra_key = ''refund:1'',
     ra_reason = [], ra_system = [] \<rparr>"

definition no_policies :: "nat approval_books" where
  "no_policies = \<lparr> ab_policies = [], ab_requests = [], ab_calls = [], ab_audit = [], ab_closed = [], ab_world = 0 \<rparr>"

theorem unconfigured_country_refused_witness:
  "require_approval_or_execute (desk_env 0) desk_registry us_refund no_policies = (Inl ThresholdNotConfigured, no_policies)"
proof (rule unconfigured_country_refused)
  show "action_for (ra_action us_refund) = Some (action ''finance.refund'' ''support.refund'' False [] [])" by code_simp
  show "clean_code (ra_country us_refund) \<in> set (map ct_code COUNTRIES)" by code_simp
  show "is_operator (acct (the (ra_actor us_refund)))" by code_simp
qed (simp_all add: us_refund_def no_policies_def action_def)

section \<open>Versions\<close>

definition cell :: "string \<Rightarrow> string \<Rightarrow> policy list \<Rightarrow> policy list" where
  "cell c k ps = filter (\<lambda>p. pl_country p = c \<and> pl_action p = k) ps"

text \<open>In the order they were written, the versions count up from 1, and exactly the last is open.\<close>

definition cell_ok :: "policy list \<Rightarrow> bool" where
  "cell_ok qs = (map pl_version qs = [1..<Suc (length qs)]
     \<and> (\<forall>q \<in> set qs. pl_active q = (pl_version q = length qs) \<and> (pl_to q = None) = pl_active q))"

definition policies_ok :: "policy list \<Rightarrow> bool" where
  "policies_ok ps = (distinct (map pl_id ps) \<and> (\<forall>c k. cell_ok (cell c k ps)))"

lemma cell_ok_last:
  assumes "cell_ok qs" "qs \<noteq> []"
  shows "pl_active (last qs) \<and> pl_version (last qs) = length qs \<and> (\<forall>q \<in> set qs. pl_active q \<longrightarrow> q = last qs)"
proof -
  have v: "pl_version (qs ! i) = Suc i" if "i < length qs" for i
  proof -
    have "map pl_version qs = [1..<Suc (length qs)]" using assms(1) unfolding cell_ok_def by blast
    then have "map pl_version qs ! i = [1..<Suc (length qs)] ! i" by (rule arg_cong)
    moreover have "[1..<Suc (length qs)] ! i = Suc i" using that nth_upt [of 1 i "Suc (length qs)"] by simp
    ultimately show ?thesis using that by (simp only: nth_map)
  qed
  have n: "length qs - 1 < length qs" "Suc (length qs - 1) = length qs" using assms(2) by (cases qs, simp_all)+
  have l: "pl_version (last qs) = length qs" using v [OF n(1)] unfolding last_conv_nth [OF assms(2)] n(2) .
  moreover have "q = last qs" if q: "q \<in> set qs" "pl_version q = length qs" for q
  proof -
    obtain i where i: "i < length qs" "qs ! i = q" using q(1) by (auto simp: in_set_conv_nth)
    then have "Suc i = length qs" using v [OF i(1)] q(2) by simp
    then have "i = length qs - 1" by simp
    then show ?thesis using i(2) unfolding last_conv_nth [OF assms(2)] by simp
  qed
  ultimately show ?thesis using assms by (auto simp: cell_ok_def)
qed

lemma max_of_versions: "fold max [1..<Suc n] 0 = n"
  by (induction n) simp_all

lemma latest_is_length: "cell_ok (cell c k ps) \<Longrightarrow> latest_version ps c k = length (cell c k ps)"
  using max_of_versions [of "length (cell c k ps)"] by (simp add: latest_version_def cell_def [symmetric] cell_ok_def)

lemma current_policy:
  assumes "policies_ok ps"
  shows "active_policy ps c k = (if cell c k ps = [] then None else Some (last (cell c k ps)))"
proof (cases "cell c k ps = []")
  case True
  then have "active_policy ps c k = None" unfolding active_policy_none by (auto simp: cell_def filter_empty_conv)
  then show ?thesis using True by simp
next
  case False
  note l = cell_ok_last [OF _ False]
  have ok: "cell_ok (cell c k ps)" using assms by (simp add: policies_ok_def)
  have "last (cell c k ps) \<in> set (cell c k ps)" using False by simp
  then have "active_policy ps c k \<noteq> None" unfolding active_policy_none using l [OF ok] by (auto simp: cell_def)
  then obtain p where p: "active_policy ps c k = Some p" by auto
  then have "p \<in> set (cell c k ps)" "pl_active p" using active_policy_facts [OF p] by (simp_all add: cell_def)
  then show ?thesis using l [OF ok] p False by auto
qed

lemma countries_have_currency: "ct_currency (get_country v) \<noteq> []"
proof -
  have all: "list_all (\<lambda>c. ct_currency c \<noteq> []) COUNTRIES" by code_simp
  have "lookup_country c = Some x \<Longrightarrow> x \<in> set COUNTRIES" for c x
    unfolding lookup_country_def by (rule conjunct1 [OF find_found])
  then have "get_country v \<in> set COUNTRIES" by (auto simp: get_country_def COUNTRIES_def split: option.splits)
  then show ?thesis using all by (auto simp: list_all_iff)
qed

lemma validated_fields:
  assumes "validate_policy_fields ca k lk cu lmt = Inr (c, kind, cur, limit)"
  shows "((kind = MoneyLimit) = (cur \<noteq> [])) \<and> (kind = AlwaysLimit \<longrightarrow> limit = None)
    \<and> (case limit of None \<Rightarrow> True | Some l \<Rightarrow> 0 \<le> l) \<and> c = clean_code ca"
  using assms countries_have_currency countries_have_currency [symmetric]
  by (auto simp: validate_policy_fields_def check_country_def check_amount_def Let_def
      split: option.splits if_splits elim!: bind_res_elim)

text \<open>Closing the open version of one cell leaves every other cell alone.\<close>

lemma cell_close: "cell c k (map (close_policy now pid) ps) = map (close_policy now pid) (cell c k ps)"
  by (induction ps) (auto simp: cell_def close_policy_def)

lemma close_elsewhere: "\<forall>q \<in> set qs. pl_id q \<noteq> pid \<Longrightarrow> map (close_policy now pid) qs = qs"
  by (rule map_idI) (simp add: close_policy_def)

lemma close_last:
  assumes "cell_ok qs" "qs \<noteq> []" "distinct (map pl_id qs)"
  shows "\<forall>q \<in> set (map (close_policy now (pl_id (last qs))) qs). \<not> pl_active q \<and> pl_to q \<noteq> None"
    "map pl_version (map (close_policy now (pl_id (last qs))) qs) = map pl_version qs"
proof -
  note l = cell_ok_last [OF assms(1,2)]
  have "\<not> pl_active (close_policy now (pl_id (last qs)) q) \<and> pl_to (close_policy now (pl_id (last qs)) q) \<noteq> None"
    if "q \<in> set qs" for q
  proof (cases "pl_id q = pl_id (last qs)")
    case False
    then have "\<not> pl_active q" using l that by metis
    moreover have "(pl_to q = None) = pl_active q" using assms(1) that unfolding cell_ok_def by blast
    ultimately show ?thesis using False by (simp add: close_policy_def)
  qed (simp add: close_policy_def)
  then show "\<forall>q \<in> set (map (close_policy now (pl_id (last qs))) qs). \<not> pl_active q \<and> pl_to q \<noteq> None" by simp
qed (simp add: close_policy_def)

lemma cell_ok_snoc:
  assumes "map pl_version qs = [1..<Suc (length qs)]" "\<forall>q \<in> set qs. \<not> pl_active q \<and> pl_to q \<noteq> None"
    "pl_version p = Suc (length qs)" "pl_active p" "pl_to p = None"
  shows "cell_ok (qs @ [p])"
proof -
  have "pl_version q \<noteq> Suc (length qs)" if "q \<in> set qs" for q
  proof -
    have "pl_version q \<in> set [1..<Suc (length qs)]" using that assms(1) by (metis list.set_map imageI)
    then show ?thesis by (auto simp del: upt_Suc)
  qed
  then show ?thesis using assms by (auto simp: cell_ok_def)
qed

lemma fresh_policy_id: "\<forall>q \<in> set ps. pl_id q \<noteq> next_policy_id ps"
  using max_bound [of _ "map pl_id ps" 0] by (force simp: next_policy_id_def)

lemma new_policy_fields [simp]:
  "pl_id (new_policy now c k kind cur limit author reason via ps) = next_policy_id ps"
  "pl_country (new_policy now c k kind cur limit author reason via ps) = c"
  "pl_action (new_policy now c k kind cur limit author reason via ps) = k"
  "pl_kind (new_policy now c k kind cur limit author reason via ps) = kind"
  "pl_currency (new_policy now c k kind cur limit author reason via ps) = cur"
  "pl_limit (new_policy now c k kind cur limit author reason via ps) = limit"
  "pl_active (new_policy now c k kind cur limit author reason via ps)"
  "pl_to (new_policy now c k kind cur limit author reason via ps) = None"
  "pl_version (new_policy now c k kind cur limit author reason via ps) = Suc (latest_version ps c k)"
  by (simp_all add: new_policy_def)

lemma closed_ids: "map pl_id (close_current now c k ps) = map pl_id ps"
  by (simp add: close_current_def close_policy_def split: option.split)

lemma closed_cell:
  assumes "policies_ok ps"
  shows "map pl_version (cell c k (close_current now c k ps)) = [1..<Suc (length (cell c k ps))]
    \<and> length (cell c k (close_current now c k ps)) = length (cell c k ps)
    \<and> (\<forall>q \<in> set (cell c k (close_current now c k ps)). \<not> pl_active q \<and> pl_to q \<noteq> None)"
proof (cases "cell c k ps = []")
  case True
  then show ?thesis using current_policy [OF assms, of c k] by (simp add: close_current_def)
next
  case False
  have d: "distinct (map pl_id (cell c k ps))" using assms by (auto simp: policies_ok_def cell_def distinct_map_filter)
  have ok: "cell_ok (cell c k ps)" using assms by (simp add: policies_ok_def)
  have eq: "cell c k (close_current now c k ps) = map (close_policy now (pl_id (last (cell c k ps)))) (cell c k ps)"
    using current_policy [OF assms, of c k] False by (simp add: close_current_def cell_close)
  have v: "map pl_version (cell c k (close_current now c k ps)) = map pl_version (cell c k ps)"
    unfolding eq by (rule close_last(2) [OF ok False d])
  have u: "map pl_version (cell c k ps) = [1..<Suc (length (cell c k ps))]" using ok unfolding cell_ok_def by blast
  show ?thesis
    unfolding v u using close_last(1) [OF ok False d, of now] eq length_map by metis
qed

lemma other_cell:
  assumes "policies_ok ps" "(c', k') \<noteq> (c, k)"
  shows "cell c' k' (close_current now c k ps) = cell c' k' ps"
proof (cases "active_policy ps c k")
  case (Some p)
  note p = active_policy_facts [OF Some]
  have "\<forall>q \<in> set (cell c' k' ps). pl_id q \<noteq> pl_id p"
    using p assms by (auto simp: cell_def policies_ok_def distinct_map inj_on_def)
  then show ?thesis using Some by (simp add: close_current_def cell_close close_elsewhere)
qed (simp add: close_current_def)

lemma closed_keeps:
  assumes "q \<in> set ps" "\<not> pl_active q" "policies_ok ps" shows "q \<in> set (close_current now c k ps)"
proof (cases "active_policy ps c k")
  case (Some p)
  note p = active_policy_facts [OF Some]
  have "pl_id q \<noteq> pl_id p" using p assms by (auto simp: policies_ok_def distinct_map inj_on_def)
  then show ?thesis using Some assms(1) by (force simp: close_current_def close_policy_def)
qed (use assms in \<open>simp add: close_current_def\<close>)

lemma valid_write:
  fixes now author reason via
  assumes ok: "policies_ok ps" and v: "validate_policy_fields ca k lk cu lmt = Inr (c, kind, cur, limit)"
  defines "p \<equiv> new_policy now c k kind cur limit author reason via ps"
  shows "write_policy_version now ca k lk cu lmt author reason via ps
      = Inr (p, active_policy ps c k, close_current now c k ps @ [p])"
    "policies_ok (close_current now c k ps @ [p])" "pl_version p = Suc (length (cell c k ps))"
proof -
  have okc: "cell_ok (cell c' k' ps)" for c' k' using ok by (simp add: policies_ok_def)
  show len: "pl_version p = Suc (length (cell c k ps))" using latest_is_length [OF okc] by (simp add: p_def)
  let ?qs = "cell c k (close_current now c k ps)"
  note cl = closed_cell [OF ok, of c k now]
  have vs: "pl_version q \<noteq> pl_version p \<and> \<not> pl_active q"
    if "q \<in> set (close_current now c k ps)" "pl_country q = c" "pl_action q = k" for q
  proof -
    have q: "q \<in> set ?qs" using that by (simp add: cell_def)
    then have "pl_version q \<in> set [1..<Suc (length (cell c k ps))]" using cl by (metis list.set_map imageI)
    then show ?thesis using q cl len by (auto simp del: upt_Suc)
  qed
  then have "policy_allowed p (close_current now c k ps)"
    using validated_fields [OF v] by (auto simp: policy_allowed_def p_def split: option.splits)
  then show "write_policy_version now ca k lk cu lmt author reason via ps
      = Inr (p, active_policy ps c k, close_current now c k ps @ [p])"
    using v by (simp add: write_policy_version_def Let_def p_def)
  have "cell_ok (cell c' k' (close_current now c k ps @ [p]))" for c' k'
  proof (cases "(c', k') = (c, k)")
    case True
    then have "cell c' k' (close_current now c k ps @ [p]) = ?qs @ [p]" by (simp add: cell_def p_def)
    then show ?thesis using cl len by (simp only:) (rule cell_ok_snoc, simp_all add: p_def)
  next
    case False
    then have "cell c' k' (close_current now c k ps @ [p]) = cell c' k' ps"
      using other_cell [OF ok False] by (auto simp: cell_def p_def)
    then show ?thesis using okc by simp
  qed
  moreover have "distinct (map pl_id (close_current now c k ps @ [p]))"
    using ok fresh_policy_id [of ps] by (auto simp: closed_ids policies_ok_def p_def)
  ultimately show "policies_ok (close_current now c k ps @ [p])" by (simp add: policies_ok_def)
qed

text \<open>A valid policy change always succeeds: it opens the next version for its country and action, that version becomes the active
  one, the table keeps its shape (distinct ids, versions 1 to n in each cell, only the last one active and without
  an end), and no closed version is edited.\<close>

theorem policy_change_opens_next_version:
  assumes "policies_ok ps" "validate_policy_fields ca k lk cu lmt = Inr (c, kind, cur, limit)"
  shows "\<exists>p qs. write_policy_version now ca k lk cu lmt author reason via ps = Inr (p, active_policy ps c k, qs)
    \<and> policies_ok qs \<and> active_policy qs c k = Some p \<and> pl_version p = Suc (length (cell c k ps))
    \<and> pl_kind p = kind \<and> pl_currency p = cur \<and> pl_limit p = limit \<and> (\<forall>q \<in> set ps. \<not> pl_active q \<longrightarrow> q \<in> set qs)"
proof -
  define p where "p = new_policy now c k kind cur limit author reason via ps"
  note w = valid_write [OF assms, of now author reason via, folded p_def]
  let ?qs = "close_current now c k ps @ [p]"
  have "cell c k ?qs \<noteq> []" "last (cell c k ?qs) = p" by (simp_all add: cell_def p_def)
  then have "active_policy ?qs c k = Some p" using current_policy [OF w(2), of c k] by simp
  then show ?thesis using w closed_keeps [OF _ _ assms(1)] by (intro exI [of _ p] exI [of _ ?qs]) (simp add: p_def)
qed

definition first_policy :: policy where
  "first_policy = new_policy 0 ''IN'' ''bulk.action'' CountLimit [] (Some 50) empty_snapshot [] None []"

lemma first_policy_ok: "policies_ok [first_policy]"
proof -
  have "cell_ok (cell c k [first_policy])" for c k
    by (cases "c = ''IN'' \<and> k = ''bulk.action''")
      (auto simp: cell_def first_policy_def cell_ok_def latest_version_def)
  then show ?thesis by (simp add: policies_ok_def)
qed

theorem policy_change_opens_next_version_witness:
  "\<exists>p qs. write_policy_version 7 ''in'' ''bulk.action'' ''always'' [] None empty_snapshot ''two people'' (Some 3) [first_policy]
      = Inr (p, Some first_policy, qs) \<and> policies_ok qs \<and> pl_version p = 2"
proof -
  have v: "validate_policy_fields ''in'' ''bulk.action'' ''always'' [] None = Inr (''IN'', AlwaysLimit, [], None)" by code_simp
  have "active_policy [first_policy] ''IN'' ''bulk.action'' = Some first_policy" "cell ''IN'' ''bulk.action'' [first_policy] = [first_policy]"
    by (simp_all add: active_policy_def cell_def first_policy_def)
  then show ?thesis
    using policy_change_opens_next_version [OF first_policy_ok v, of 7 empty_snapshot "''two people''" "Some 3"] by auto
qed

section \<open>Over every history of maker-checker\<close>

lemma write_keeps_ok:
  assumes "policies_ok ps" "write_policy_version now ca k lk cu lmt author reason via ps = Inr (p, old, qs)"
  shows "policies_ok qs"
proof -
  obtain c kind cur limit where "validate_policy_fields ca k lk cu lmt = Inr (c, kind, cur, limit)"
    using assms(2) by (auto simp: write_policy_version_def elim!: bind_res_elim)
  from valid_write [OF assms(1) this] show ?thesis using assms(2) by (metis old.sum.inject(2) prod.inject)
qed

lemma run_keeps_ok:
  assumes "policies_ok (ab_policies b)" shows "policies_ok (ab_policies (run_executor now ex actor row b))"
proof -
  have "policies_ok (ab_policies (snd (execute_policy_change now row b1)))" if "policies_ok (ab_policies b1)" for b1 :: "'a approval_books"
    using that by (auto simp: execute_policy_change_def Let_def split: option.splits sum.splits elim!: bind_res_elim intro: write_keeps_ok)
  then have "policies_ok (ab_policies (snd (call_executor now ex row b)))"
    using assms by (cases ex) (auto simp: call_executor_def Let_def split: prod.splits)
  then show ?thesis by (auto simp: run_executor_def split: prod.splits exec_outcome.splits)
qed

lemma step_keeps_ok:
  assumes "approval_step reg (b, ts) e = Inr (b', ts')" "table_ok (ab_requests b)" "policies_ok (ab_policies b)"
  shows "policies_ok (ab_policies b')"
proof (cases e)
  case (RaiseEvent env a)
  show ?thesis using raise_effect [OF assms(1) [unfolded RaiseEvent]] assms(3) by (metis prod.inject)
next
  case (ApproveEvent env rid u reason)
  show ?thesis using approve_effect [OF assms(1) [unfolded ApproveEvent] assms(2)] assms(3) by (metis prod.inject)
next
  case (RunEvent now n)
  have "policies_ok (ab_policies (run_token now reg t b))" for t
    using assms(3) by (auto simp: run_token_def run_approved_def run_keeps_ok split: option.splits)
  then show ?thesis using assms RunEvent by (auto split: if_splits)
qed (use assms in \<open>auto simp: simple_policies sweep_policies\<close>)

definition policy_inv :: "'w approval_books \<times> 'w run_token list \<Rightarrow> bool" where
  "policy_inv s = (approval_inv s \<and> policies_ok (ab_policies (fst s)))"

interpretation policy_table: guarded_system "approval_step reg" policy_inv for reg
proof unfold_locales
  fix s e and s' :: "'a approval_books \<times> 'a run_token list"
  assume inv: "policy_inv s" and st: "approval_step reg s e = Inr s'"
  have a: "approval_inv s'" using inv by (intro approval_inv_step [OF _ st]) (simp add: policy_inv_def)
  have "table_ok (ab_requests (fst s))" "policies_ok (ab_policies (fst s))"
    using inv by (simp_all add: policy_inv_def approval_inv_def run_inv_def)
  then have "policies_ok (ab_policies (fst s'))"
    using step_keeps_ok [of reg "fst s" "snd s" e "fst s'" "snd s'"] st by simp
  then show "policy_inv s'" using a by (simp add: policy_inv_def)
qed

text \<open>Claim C28. The policy table keeps its shape over every history of maker-checker: starting from a well-formed table (the
  seed's, or an empty one), whatever is raised, decided, run or crashed, ids stay distinct and each country and
  action has versions 1 to n in order of writing, of which exactly the last is active and open-ended.\<close>

theorem policy_history_sound:
  assumes "policies_ok ps"
  shows "policies_ok (ab_policies (books_after reg ps w es))"
proof -
  have "policy_inv (fresh_desk ps w)" using assms fresh_desk_inv by (simp add: policy_inv_def) (simp add: fresh_desk_def)
  from policy_table.run_inv [OF this, of reg es] show ?thesis by (simp add: policy_inv_def books_after_def)
qed

definition policy_events :: "nat approval_event list" where
  "policy_events = [RaiseEvent (desk_env 0) (policy_change_args (desk_env 0) (desk_operator 1) ''IN'' ''bulk.action'' ''count'' [] (Some 9) ''tighter''),
     ApproveEvent (desk_env 1) 1 (desk_operator 2) [], RunEvent 2 0]"

theorem policy_history_sound_witness:
  "policies_ok (ab_policies (books_after desk_registry [first_policy] 0 policy_events))
   \<and> map pl_version (ab_policies (books_after desk_registry [first_policy] 0 policy_events)) = [1, 2]"
proof
  show "policies_ok (ab_policies (books_after desk_registry [first_policy] 0 policy_events))"
    by (rule policy_history_sound [OF first_policy_ok])
qed code_simp

section \<open>The seed\<close>

text \<open>\<open>INDIA_DEFAULTS\<close> and \<open>US_DEFAULTS\<close>.\<close>

definition INDIA_DEFAULTS :: "(string \<times> string \<times> string \<times> string \<times> int option) list" where
  "INDIA_DEFAULTS = [
     (''IN'', ''support.refund'', ''money'', ''INR'', Some 50000),
     (''IN'', ''finance.refund'', ''money'', ''INR'', Some 500000),
     (''IN'', ''finance.adjust'', ''money'', ''INR'', Some 200000),
     (''IN'', ''finance.payout'', ''always'', [], None),
     (''IN'', ''pricing.change'', ''always'', [], None),
     (''IN'', ''driver.deactivate'', ''always'', [], None),
     (''IN'', ''bulk.action'', ''count'', [], Some 50),
     (''IN'', ''support.sla_change'', ''always'', [], None),
     (''IN'', ''finance.payout_config_change'', ''always'', [], None),
     (''IN'', ''finance.wallet_credit'', ''always'', [], None),
     (''IN'', ''zone.change'', ''always'', [], None),
     (''IN'', ''notification.template_change'', ''always'', [], None),
     (''IN'', ''notification.campaign_send'', ''always'', [], None),
     (''IN'', ''promotion.launch'', ''always'', [], None),
     (''IN'', ''promotion.budget_increase'', ''always'', [], None),
     (''IN'', ''fraud.rule_change'', ''always'', [], None),
     (''IN'', ''platform.city_status'', ''always'', [], None),
     (''IN'', ''platform.flag_change'', ''always'', [], None),
     (''IN'', ''platform.app_version'', ''always'', [], None),
     (''IN'', ''platform.setting_change'', ''always'', [], None)]"

definition US_DEFAULTS :: "(string \<times> string \<times> string \<times> string \<times> int option) list" where
  "US_DEFAULTS = [
     (''US'', ''support.refund'', ''money'', ''USD'', Some 1500),
     (''US'', ''finance.refund'', ''money'', ''USD'', Some 15000),
     (''US'', ''finance.adjust'', ''always'', [], None),
     (''US'', ''finance.wallet_credit'', ''always'', [], None),
     (''US'', ''finance.payout'', ''money'', ''USD'', Some 100000),
     (''US'', ''bulk.action'', ''always'', [], None),
     (''US'', ''pricing.change'', ''always'', [], None),
     (''US'', ''driver.deactivate'', ''always'', [], None),
     (''US'', ''support.sla_change'', ''always'', [], None),
     (''US'', ''finance.payout_config_change'', ''always'', [], None),
     (''US'', ''zone.change'', ''always'', [], None),
     (''US'', ''notification.template_change'', ''always'', [], None),
     (''US'', ''notification.campaign_send'', ''always'', [], None),
     (''US'', ''promotion.launch'', ''always'', [], None),
     (''US'', ''promotion.budget_increase'', ''always'', [], None),
     (''US'', ''fraud.rule_change'', ''always'', [], None),
     (''US'', ''platform.city_status'', ''always'', [], None),
     (''US'', ''platform.flag_change'', ''always'', [], None),
     (''US'', ''platform.app_version'', ''always'', [], None),
     (''US'', ''platform.setting_change'', ''always'', [], None)]"

fun seed_each ::
  "int \<Rightarrow> snapshot \<Rightarrow> string \<Rightarrow> (string \<times> string \<times> string \<times> string \<times> int option) list \<Rightarrow> policy list \<Rightarrow> approval_error + policy list \<times> policy list" where
  "seed_each now author reason [] ps = Inr ([], ps)"
| "seed_each now author reason ((c, k, kind, cur, limit) # rows) ps =
     (if active_policy ps c k \<noteq> None then seed_each now author reason rows ps
      else bind_res (write_policy_version now c k kind cur limit author reason None ps) (\<lambda>(p, _, qs).
        bind_res (seed_each now author reason rows qs) (\<lambda>(created, rs). Inr (p # created, rs))))"

definition seed_approval_policies :: "int \<Rightarrow> snapshot \<Rightarrow> string \<Rightarrow> policy list \<Rightarrow> approval_error + policy list \<times> policy list" where
  "seed_approval_policies now author reason ps = seed_each now author reason (INDIA_DEFAULTS @ US_DEFAULTS) ps"

definition seed_row_valid :: "string \<times> string \<times> string \<times> string \<times> int option \<Rightarrow> bool" where
  "seed_row_valid = (\<lambda>(c, k, kind, cur, limit). case validate_policy_fields c k kind cur limit of
      Inl _ \<Rightarrow> False | Inr (c', _) \<Rightarrow> c' = c)"

lemma seed_rows_valid: "list_all seed_row_valid (INDIA_DEFAULTS @ US_DEFAULTS)"
  by code_simp

definition configured :: "(string \<times> string \<times> string \<times> string \<times> int option) list \<Rightarrow> policy list \<Rightarrow> bool" where
  "configured rows ps = (\<forall>(c, k, _) \<in> set rows. active_policy ps c k \<noteq> None)"

lemma active_stays: "active_policy ps c k \<noteq> None \<Longrightarrow> set ps \<subseteq> set qs \<Longrightarrow> active_policy qs c k \<noteq> None"
  unfolding active_policy_none by blast

lemma seed_each_works:
  assumes "list_all seed_row_valid rows" "policies_ok ps"
  shows "\<exists>created qs. seed_each now author reason rows ps = Inr (created, qs) \<and> policies_ok qs \<and> set ps \<subseteq> set qs \<and> configured rows qs
    \<and> (configured rows ps \<longrightarrow> created = [] \<and> qs = ps)"
  using assms
proof (induction rows arbitrary: ps)
  case (Cons row rows)
  obtain c k kind cur limit where row: "row = (c, k, kind, cur, limit)" by (cases row)
  show ?case
  proof (cases "active_policy ps c k = None")
    case False
    obtain created qs where "seed_each now author reason rows ps = Inr (created, qs)" "policies_ok qs" "set ps \<subseteq> set qs"
      "configured rows qs" "configured rows ps \<longrightarrow> created = [] \<and> qs = ps"
      using Cons.IH [OF _ Cons.prems(2)] Cons.prems(1) by auto
    then show ?thesis using False active_stays [OF False] by (auto simp: row configured_def)
  next
    case True
    obtain lk cur' limit' where v: "validate_policy_fields c k kind cur limit = Inr (c, lk, cur', limit')"
      using Cons.prems(1) by (auto simp: seed_row_valid_def row split: sum.splits)
    define p where "p = new_policy now c k lk cur' limit' author reason None ps"
    have same: "close_current now c k ps = ps" using True by (simp add: close_current_def)
    have w: "write_policy_version now c k kind cur limit author reason None ps = Inr (p, None, ps @ [p])" "policies_ok (ps @ [p])"
      using valid_write [OF Cons.prems(2) v, of now author reason None] True by (simp_all add: p_def same)
    have act: "active_policy (ps @ [p]) c k \<noteq> None" unfolding active_policy_none by (auto simp: p_def)
    obtain created qs where rest: "seed_each now author reason rows (ps @ [p]) = Inr (created, qs)" "policies_ok qs" "set (ps @ [p]) \<subseteq> set qs"
      "configured rows qs"
      using Cons.IH [OF _ w(2)] Cons.prems(1) by auto
    then show ?thesis using True w(1) active_stays [OF act rest(3)] by (auto simp: row configured_def)
  qed
qed (simp add: configured_def)

text \<open>The seed is complete and idempotent: on any well-formed policy table it succeeds, afterwards every action it lists,
  for India and for the United States, has an active policy, no existing row was changed, the table is well
  formed, and a second run creates nothing. (The command's help says it writes nothing for the US.)\<close>

theorem seed_complete_and_idempotent:
  assumes "policies_ok ps"
  shows "\<exists>created qs. seed_approval_policies now author reason ps = Inr (created, qs) \<and> policies_ok qs \<and> set ps \<subseteq> set qs
    \<and> (\<forall>(c, k, _) \<in> set (INDIA_DEFAULTS @ US_DEFAULTS). active_policy qs c k \<noteq> None)
    \<and> seed_approval_policies later author' reason' qs = Inr ([], qs)"
proof -
  obtain created qs where s: "seed_approval_policies now author reason ps = Inr (created, qs)" "policies_ok qs" "set ps \<subseteq> set qs"
    "configured (INDIA_DEFAULTS @ US_DEFAULTS) qs"
    using seed_each_works [OF seed_rows_valid assms] unfolding seed_approval_policies_def by blast
  then have "seed_approval_policies later author' reason' qs = Inr ([], qs)"
    using seed_each_works [OF seed_rows_valid s(2), of later author' reason'] unfolding seed_approval_policies_def by auto
  then show ?thesis using s unfolding configured_def by blast
qed

theorem seed_complete_and_idempotent_witness:
  "\<exists>created qs. seed_approval_policies 0 empty_snapshot [] [] = Inr (created, qs) \<and> active_policy qs ''US'' ''finance.payout'' \<noteq> None"
proof -
  have "policies_ok []" by (simp add: policies_ok_def cell_ok_def cell_def)
  moreover have "list_ex (\<lambda>(c, k, _). c = ''US'' \<and> k = ''finance.payout'') (INDIA_DEFAULTS @ US_DEFAULTS)" by code_simp
  ultimately show ?thesis using seed_complete_and_idempotent [of "[]" 0 empty_snapshot "[]" 0 empty_snapshot "[]"]
    by (fastforce simp: list_ex_iff)
qed

end
