(* ===== verification/Fatigue.thy ===== *)
theory Fatigue
  imports PyDecimal
begin

text \<open>
  Who may drive (\<open>servers/driver/qa_eligibility.py\<close>) and for how long
  (\<open>servers/driver/fatigue.py\<close>): the sessions of a driver, the twelve hours in any
  twenty-four, the penalty of a driver who cancels, and the lockout both of them write.

  Times are microseconds. A driver is named by the id of their user, which is unique among the
  drivers. The rows of a table are in the order of their ids, the oldest first.
\<close>

record driver_row =
  dv_approved :: bool
  dv_qa :: bool
  dv_status :: string
  dv_vehicle :: "int option"
  dv_lockout :: "int option"
  dv_ratings :: decimal
  dv_trips :: int

section \<open>Eligibility\<close>

record deployment =
  dp_environment :: string
  dp_production :: bool

definition qa_simulation_allowed :: "deployment \<Rightarrow> bool" where
  "qa_simulation_allowed dp =
     (if py_lower (py_strip (dp_environment dp)) \<noteq> ''qa'' then False else \<not> dp_production dp)"

definition is_qa_test_driver :: "driver_row option \<Rightarrow> bool" where
  "is_qa_test_driver d = (case d of None \<Rightarrow> False | Some r \<Rightarrow> dv_qa r)"

definition may_operate :: "deployment \<Rightarrow> driver_row option \<Rightarrow> bool" where
  "may_operate dp d = (case d of None \<Rightarrow> False
     | Some r \<Rightarrow> if dv_approved r then True else is_qa_test_driver d \<and> qa_simulation_allowed dp)"

definition blocked :: "driver_row \<Rightarrow> bool" where
  "blocked d = (py_lower (py_strip (dv_status d)) = ''blocked'')"

section \<open>The limits\<close>

definition second :: int where
  "second = 1000000"

definition FATIGUE_CAP_SECONDS :: int where
  "FATIGUE_CAP_SECONDS = 12 * 3600"

definition FATIGUE_WINDOW_SECONDS :: int where
  "FATIGUE_WINDOW_SECONDS = 24 * 3600"

definition FATIGUE_LOCKOUT_SECONDS :: int where
  "FATIGUE_LOCKOUT_SECONDS = 8 * 3600"

definition CANCEL_WINDOW_SECONDS :: int where
  "CANCEL_WINDOW_SECONDS = 24 * 3600"

definition CANCEL_PENALTY_THRESHOLD :: nat where
  "CANCEL_PENALTY_THRESHOLD = 3"

definition CANCEL_LOCKOUT_SECONDS :: int where
  "CANCEL_LOCKOUT_SECONDS = 60 * 60"

definition CANCEL_RATING_PENALTY :: decimal where
  "CANCEL_RATING_PENALTY = Dec 10 (- 2)"

section \<open>Time online\<close>

record driver_session =
  ss_id :: int
  ss_driver :: int
  ss_started :: int
  ss_ended :: "int option"
  ss_seconds :: int
  ss_reason :: string

definition in_window :: "int \<Rightarrow> int \<Rightarrow> driver_session \<Rightarrow> bool" where
  "in_window d now s = (ss_driver s = d \<and> ss_started s < now
     \<and> (case ss_ended s of None \<Rightarrow> True | Some e \<Rightarrow> now - FATIGUE_WINDOW_SECONDS * second < e))"

definition session_seconds :: "int \<Rightarrow> driver_session \<Rightarrow> int" where
  "session_seconds now s =
     (let seg_start = max (ss_started s) (now - FATIGUE_WINDOW_SECONDS * second);
          seg_end = (case ss_ended s of Some e \<Rightarrow> e | None \<Rightarrow> now)
      in if seg_end \<le> seg_start then 0 else (seg_end - seg_start) div second)"

definition compute_active_seconds_24h :: "int \<Rightarrow> int \<Rightarrow> driver_session list \<Rightarrow> int" where
  "compute_active_seconds_24h d now ss = sum_by (session_seconds now) (filter (in_window d now) ss)"

record fatigue_status =
  fs_locked :: bool
  fs_reason :: string
  fs_until :: "int option"
  fs_active :: int
  fs_minutes :: int

text \<open>The status, and the driver row with the lockout it may have stamped.\<close>

definition get_fatigue_status ::
  "int \<Rightarrow> int \<Rightarrow> driver_session list \<Rightarrow> driver_row \<Rightarrow> fatigue_status \<times> driver_row" where
  "get_fatigue_status d now ss row =
     (let active = compute_active_seconds_24h d now ss in
      if (case dv_lockout row of Some until \<Rightarrow> now < until | None \<Rightarrow> False)
      then (\<lparr> fs_locked = True, fs_reason = ''lockout'', fs_until = dv_lockout row, fs_active = active,
              fs_minutes = 0 \<rparr>, row)
      else if active \<ge> FATIGUE_CAP_SECONDS
      then let until = now + FATIGUE_LOCKOUT_SECONDS * second
           in (\<lparr> fs_locked = True, fs_reason = ''cap_reached'', fs_until = Some until, fs_active = active,
                 fs_minutes = 0 \<rparr>, row\<lparr>dv_lockout := Some until\<rparr>)
      else (\<lparr> fs_locked = False, fs_reason = [], fs_until = None, fs_active = active,
              fs_minutes = max 0 ((FATIGUE_CAP_SECONDS - active) div 60) \<rparr>, row))"

definition is_locked_out :: "int \<Rightarrow> int \<Rightarrow> driver_session list \<Rightarrow> driver_row \<Rightarrow> bool \<times> driver_row" where
  "is_locked_out d now ss row = (let (st, row') = get_fatigue_status d now ss row in (fs_locked st, row'))"






section \<open>The penalty of a cancellation\<close>

record cancellation =
  cn_driver :: int
  cn_trip :: int
  cn_reason :: string
  cn_note :: string
  cn_at :: int

record cancel_penalty =
  cp_recent :: nat
  cp_locked :: bool
  cp_until :: "int option"
  cp_delta :: decimal

definition apply_cancellation_penalty ::
  "int \<Rightarrow> int \<Rightarrow> string \<Rightarrow> string \<Rightarrow> int \<Rightarrow> cancellation list \<Rightarrow> driver_row
     \<Rightarrow> cancel_penalty \<times> cancellation list \<times> driver_row" where
  "apply_cancellation_penalty d trip reason note now cs row =
     (let cs' = cs @ [\<lparr> cn_driver = d, cn_trip = trip, cn_reason = reason, cn_note = note, cn_at = now \<rparr>];
          recent = length (filter (\<lambda>c. cn_driver c = d \<and> now - CANCEL_WINDOW_SECONDS * second \<le> cn_at c) cs')
      in if recent \<ge> CANCEL_PENALTY_THRESHOLD
         then let until = now + CANCEL_LOCKOUT_SECONDS * second;
                  lock = (case dv_lockout row of None \<Rightarrow> Some until
                          | Some cur \<Rightarrow> if cur < until then Some until else Some cur)
              in (\<lparr> cp_recent = recent, cp_locked = True, cp_until = Some until, cp_delta = CANCEL_RATING_PENALTY \<rparr>, cs',
                  row\<lparr>dv_lockout := lock,
                      dv_ratings := dec_max (Dec 0 (- 2)) (dec_sub (dv_ratings row) CANCEL_RATING_PENALTY)\<rparr>)
         else (\<lparr> cp_recent = recent, cp_locked = False, cp_until = None, cp_delta = Dec 0 (- 2) \<rparr>, cs', row))"


section \<open>The sessions of a driver never overlap\<close>

text \<open>The driver's sessions from \<open>lo\<close> on, one after the other, only the last one open.\<close>

fun orderly :: "int \<Rightarrow> int \<Rightarrow> driver_session list \<Rightarrow> bool" where
  "orderly lo now [] = True"
| "orderly lo now (s # ss) = (lo \<le> ss_started s \<and> ss_started s \<le> now
     \<and> (case ss_ended s of None \<Rightarrow> ss = [] | Some e \<Rightarrow> ss_started s \<le> e \<and> e \<le> now \<and> orderly e now ss))"






lemma second_pos [simp]: "0 < second"
  by (simp add: second_def)



lemma orderly_weaken: "orderly lo now ss \<Longrightarrow> lo' \<le> lo \<Longrightarrow> orderly lo' now ss"
  by (cases ss) auto













end
