(* ===== verification/RiderWallet.thy ===== *)
theory RiderWallet
  imports Wallet Money
begin

text \<open>
  The rider's closed-loop wallet: the currency a ledger row is stamped with
  (\<open>base/currency_stamp.py\<close>, \<open>WalletTransaction._derive_currency\<close> in \<open>servers/rider/models.py\<close>), the
  credits of \<open>servers/rider/credits.py\<close>, the wallet credit an operator had approved
  (\<open>servers/payments/finance_executors.py\<close>), \<open>wallet_payment\<close> of \<open>base/utils.py\<close>, and the rewards held for
  review (\<open>held_minor\<close> in \<open>servers/fraud/money.py\<close>).

  An idempotency key is the constructor of the text the code writes, with its id; \<open>CallerKey\<close> is a
  text a caller chose, none of the other forms. A reference \<open>TRIP_<id>\<close> is \<open>RefRide\<close>. A transaction
  is named by its key. The database refuses an integer that does not fit its 64-bit column.
\<close>

datatype rider_key = KeyTripPayment int | KeyEndRefund int | KeyAdminCredit int | CallerKey string

datatype rider_ref = RefRide int | RefAdminCredit int | RefText string

record rider_txn =
  rt_user :: int
  rt_currency :: string
  rt_amount :: int
  rt_type :: txn_type
  rt_purpose :: string
  rt_ref :: rider_ref
  rt_key :: rider_key

record reward_hold =
  rh_user :: int
  rh_role :: string
  rh_amount :: int
  rh_currency :: string
  rh_held :: bool

record rider_books =
  rb_wallets :: "int \<rightharpoonup> wallet"
  rb_rows :: "rider_txn list"
  rb_holds :: "reward_hold list"
  rb_drivers :: "int \<Rightarrow> bool"

datatype rider_error = RiderMoney money_error | RiderIntegrity | OutOfRange

definition bigint :: "int \<Rightarrow> rider_error + int" where
  "bigint m = (if - (2 ^ 63) \<le> m \<and> m < 2 ^ 63 then Inr m else Inl OutOfRange)"

definition lift_rider :: "money_error + 'a \<Rightarrow> rider_error + 'a" where
  "lift_rider r = (case r of Inl e \<Rightarrow> Inl (RiderMoney e) | Inr x \<Rightarrow> Inr x)"

section \<open>The currency of a row\<close>

text \<open>What the row's other tables say: the currency of a trip, and the currency of the user's first
  wallet, in either role.\<close>

record row_context =
  rc_trip_currency :: "int \<Rightarrow> string option"
  rc_first_wallet :: "int \<Rightarrow> string option"

definition derive_txn_currency :: "row_context \<Rightarrow> int \<Rightarrow> rider_ref \<Rightarrow> string option" where
  "derive_txn_currency rc u ref =
     (let home = (if falsy (rc_first_wallet rc u) then None
                  else Some (normalize_currency (rc_first_wallet rc u) None))
      in case ref of
           RefRide t \<Rightarrow> if falsy (rc_trip_currency rc t) then home
             else Some (normalize_currency (rc_trip_currency rc t) None)
         | _ \<Rightarrow> home)"

definition stamp_currency :: "string \<Rightarrow> string option \<Rightarrow> string" where
  "stamp_currency explicit derived =
     (if explicit = [] \<or> explicit = DEFAULT_CURRENCY
      then (case derived of
              Some c \<Rightarrow> if c \<noteq> [] then c else if explicit = [] then DEFAULT_CURRENCY else explicit
            | None \<Rightarrow> if explicit = [] then DEFAULT_CURRENCY else explicit)
      else explicit)"

section \<open>Balances\<close>

definition wallet_code :: "wallet \<Rightarrow> string" where
  "wallet_code w = (if wl_currency w = [] then DEFAULT_CURRENCY else wl_currency w)"

definition role_of :: "rider_books \<Rightarrow> int \<Rightarrow> string" where
  "role_of s u = (if rb_drivers s u then ''driver'' else ''rider'')"

definition held_minor :: "rider_books \<Rightarrow> int \<Rightarrow> string option \<Rightarrow> int" where
  "held_minor s u currency = sum_by rh_amount (filter (\<lambda>h. rh_user h = u \<and> rh_held h \<and> rh_role h = role_of s u
     \<and> (falsy currency \<or> Some (rh_currency h) = currency)) (rb_holds s))"

definition get_rider_wallet :: "int \<Rightarrow> rider_books \<Rightarrow> wallet \<times> rider_books" where
  "get_rider_wallet u s = (case rb_wallets s u of
      Some w \<Rightarrow> (w, s)
    | None \<Rightarrow> let w = \<lparr> wl_balance = 0, wl_currency = ''INR'' \<rparr>
              in (w, s\<lparr>rb_wallets := (rb_wallets s)(u \<mapsto> w)\<rparr>))"

definition set_balance :: "int \<Rightarrow> wallet \<Rightarrow> int \<Rightarrow> rider_books \<Rightarrow> rider_books" where
  "set_balance u w m s = s\<lparr>rb_wallets := (rb_wallets s)(u \<mapsto> w\<lparr>wl_balance := m\<rparr>)\<rparr>"

definition find_txn :: "rider_key \<Rightarrow> rider_books \<Rightarrow> rider_txn option" where
  "find_txn key s = find (\<lambda>r. rt_key r = key) (rb_rows s)"

section \<open>Credits\<close>

datatype credit_reason = Credited | CapExceeded | Duplicate | InvalidAmount

record credit_result =
  cr_ok :: bool
  cr_txn :: "rider_key option"
  cr_balance :: decimal
  cr_reason :: credit_reason

definition rider_currency :: "int \<Rightarrow> rider_books \<Rightarrow> string" where
  "rider_currency u s = (case rb_wallets s u of None \<Rightarrow> DEFAULT_CURRENCY | Some w \<Rightarrow> wallet_code w)"

definition to_credit_amount :: "pyval \<Rightarrow> int \<Rightarrow> rider_books \<Rightarrow> decimal option" where
  "to_credit_amount amount u s =
     (case bind_res (parse_input amount) (\<lambda>d. quantize_money (VDec (Finite d)) (Some (rider_currency u s))) of
        Inr (Some v) \<Rightarrow> if dec_le v (Dec 0 0) then None else Some v
      | _ \<Rightarrow> None)"

text \<open>The row of a credit: the amount is converted with the currency the row derives, then stamped.\<close>

definition credit_row ::
  "row_context \<Rightarrow> int \<Rightarrow> decimal \<Rightarrow> string \<Rightarrow> rider_ref \<Rightarrow> rider_key \<Rightarrow> rider_error + rider_txn" where
  "credit_row rc u amount purpose ref key =
     (let derived = derive_txn_currency rc u ref in
      bind_res (lift_rider (amount_set (VDec (Finite amount)) \<lparr> mr_currency = [], mr_derive = derived, mr_minor = None \<rparr>)) (\<lambda>r.
      case mr_minor r of None \<Rightarrow> Inl RiderIntegrity
      | Some m \<Rightarrow> bind_res (bigint m) (\<lambda>m'.
          Inr \<lparr> rt_user = u, rt_currency = stamp_currency (mr_currency r) derived, rt_amount = m', rt_type = Credit,
                rt_purpose = purpose, rt_ref = ref, rt_key = key \<rparr>)))"

definition balance_of :: "wallet \<Rightarrow> rider_error + decimal" where
  "balance_of w = bind_res (lift_rider (from_minor (VInt (wl_balance w)) (Some (wallet_code w))))
     (\<lambda>d. case d of None \<Rightarrow> Inl RiderIntegrity | Some x \<Rightarrow> Inr x)"

definition store_balance :: "int \<Rightarrow> wallet \<Rightarrow> decimal \<Rightarrow> rider_books \<Rightarrow> rider_error + rider_books" where
  "store_balance u w d s = bind_res (lift_rider (to_minor (VDec (Finite d)) (Some (wallet_code w)))) (\<lambda>m.
     case m of None \<Rightarrow> Inl RiderIntegrity | Some n \<Rightarrow> bind_res (bigint n) (\<lambda>n'. Inr (set_balance u w n' s)))"

definition issue_credit ::
  "row_context \<Rightarrow> decimal \<Rightarrow> int \<Rightarrow> decimal \<Rightarrow> string \<Rightarrow> rider_key \<Rightarrow> rider_ref \<Rightarrow> rider_books
     \<Rightarrow> rider_error + credit_result \<times> rider_books" where
  "issue_credit rc cap u amount purpose key ref s0 =
     (let (w, s) = get_rider_wallet u s0 in
      bind_res (balance_of w) (\<lambda>current.
      let projected = dec_add current amount in
      if dec_lt cap projected
      then Inr (\<lparr> cr_ok = False, cr_txn = None, cr_balance = current, cr_reason = CapExceeded \<rparr>, s)
      else bind_res (credit_row rc u amount purpose ref key) (\<lambda>r.
        case find_txn key s of
          Some old \<Rightarrow> if rt_user old = u
            then Inr (\<lparr> cr_ok = True, cr_txn = Some key, cr_balance = current, cr_reason = Duplicate \<rparr>, s)
            else Inl RiderIntegrity
        | None \<Rightarrow> bind_res (store_balance u w projected (s\<lparr>rb_rows := r # rb_rows s\<rparr>)) (\<lambda>s'.
            Inr (\<lparr> cr_ok = True, cr_txn = Some key, cr_balance = projected, cr_reason = Credited \<rparr>, s')))))"

definition credit_invalid :: credit_result where
  "credit_invalid = \<lparr> cr_ok = False, cr_txn = None, cr_balance = Dec 0 (- 2), cr_reason = InvalidAmount \<rparr>"

definition issue_refund_credit ::
  "row_context \<Rightarrow> decimal \<Rightarrow> int \<Rightarrow> pyval \<Rightarrow> int \<Rightarrow> rider_key \<Rightarrow> rider_books \<Rightarrow> rider_error + credit_result \<times> rider_books" where
  "issue_refund_credit rc cap u amount trip key s = (case to_credit_amount amount u s of
      None \<Rightarrow> Inr (credit_invalid, s)
    | Some a \<Rightarrow> issue_credit rc cap u a ''refund'' key (RefRide trip) s)"

definition issue_promo_credit ::
  "row_context \<Rightarrow> decimal \<Rightarrow> int \<Rightarrow> pyval \<Rightarrow> string \<Rightarrow> rider_key \<Rightarrow> rider_books \<Rightarrow> rider_error + credit_result \<times> rider_books" where
  "issue_promo_credit rc cap u amount campaign key s = (case to_credit_amount amount u s of
      None \<Rightarrow> Inr (credit_invalid, s)
    | Some a \<Rightarrow> issue_credit rc cap u a (''promo:'' @ campaign) key (RefText campaign) s)"

definition issue_support_credit ::
  "row_context \<Rightarrow> decimal \<Rightarrow> int \<Rightarrow> pyval \<Rightarrow> string \<Rightarrow> rider_key \<Rightarrow> rider_books \<Rightarrow> rider_error + credit_result \<times> rider_books" where
  "issue_support_credit rc cap u amount ticket key s = (case to_credit_amount amount u s of
      None \<Rightarrow> Inr (credit_invalid, s)
    | Some a \<Rightarrow> issue_credit rc cap u a (''support:'' @ ticket) key (RefText ticket) s)"

definition issue_admin_credit ::
  "row_context \<Rightarrow> decimal \<Rightarrow> int \<Rightarrow> int \<Rightarrow> string \<Rightarrow> int \<Rightarrow> rider_books \<Rightarrow> rider_error + credit_result \<times> rider_books" where
  "issue_admin_credit rc cap u amount currency request s =
     bind_res (lift_rider (from_minor (VInt amount) (Some currency))) (\<lambda>d. case d of
        None \<Rightarrow> Inl RiderIntegrity
      | Some a \<Rightarrow> if dec_le a (Dec 0 0) then Inr (credit_invalid, s)
          else issue_credit rc cap u a ''admin_credit'' (KeyAdminCredit request) (RefAdminCredit request) s)"

text \<open>The executor of an approved credit. \<open>rider\<close> is the user of the rider the request names.\<close>

datatype credit_refusal = RiderNotFound | CurrencyChanged | WalletRefused credit_reason | CreditRaised rider_error

definition execute_wallet_credit ::
  "row_context \<Rightarrow> decimal \<Rightarrow> int option \<Rightarrow> int \<Rightarrow> string \<Rightarrow> int \<Rightarrow> rider_books
     \<Rightarrow> credit_refusal + bool \<times> rider_books" where
  "execute_wallet_credit rc cap rider amount currency request s = (case rider of
      None \<Rightarrow> Inl RiderNotFound
    | Some u \<Rightarrow> (case rb_wallets s u of
        None \<Rightarrow> Inl CurrencyChanged
      | Some w \<Rightarrow> if wl_currency w \<noteq> currency then Inl CurrencyChanged
          else (case issue_admin_credit rc cap u amount (wl_currency w) request s of
              Inl e \<Rightarrow> Inl (CreditRaised e)
            | Inr (r, s') \<Rightarrow> if \<not> cr_ok r then Inl (WalletRefused (cr_reason r))
                else Inr (cr_reason r = Duplicate, s'))))"

section \<open>Paying from the wallet\<close>

datatype payment_error = NotPositive | BadAmount | NoWallet | Insufficient | PaymentRaised rider_error

datatype payment_result = Charged | ChargedBefore | NotCharged payment_error

definition payment_row :: "row_context \<Rightarrow> int \<Rightarrow> string \<Rightarrow> int \<Rightarrow> string \<Rightarrow> rider_ref \<Rightarrow> rider_key \<Rightarrow> rider_txn" where
  "payment_row rc u currency m purpose ref key =
     \<lparr> rt_user = u, rt_currency = stamp_currency currency (derive_txn_currency rc u ref), rt_amount = m,
       rt_type = Debit, rt_purpose = purpose, rt_ref = ref, rt_key = key \<rparr>"

text \<open>The charge inside the transaction; an exception there is the answer of the function.\<close>

definition charge_wallet ::
  "row_context \<Rightarrow> int \<Rightarrow> decimal \<Rightarrow> string \<Rightarrow> rider_ref \<Rightarrow> rider_key \<Rightarrow> rider_books \<Rightarrow> payment_error + rider_books" where
  "charge_wallet rc u amount purpose ref key s = (case rb_wallets s u of
      None \<Rightarrow> Inl NoWallet
    | Some w \<Rightarrow> (case to_minor (VDec (Finite amount)) (Some (wl_currency w)) of
        Inl e \<Rightarrow> Inl (PaymentRaised (RiderMoney e))
      | Inr None \<Rightarrow> Inl (PaymentRaised RiderIntegrity)
      | Inr (Some m) \<Rightarrow>
          if wl_balance w - held_minor s u (Some (wl_currency w)) < m then Inl Insufficient
          else (case bigint (wl_balance w - m) of
              Inl e \<Rightarrow> Inl (PaymentRaised e)
            | Inr b \<Rightarrow> Inr (set_balance u w b (s\<lparr>rb_rows := payment_row rc u (wl_currency w) m purpose ref key # rb_rows s\<rparr>)))))"

definition wallet_payment ::
  "row_context \<Rightarrow> int \<Rightarrow> pyval \<Rightarrow> string \<Rightarrow> rider_ref \<Rightarrow> rider_key \<Rightarrow> rider_books \<Rightarrow> payment_result \<times> rider_books" where
  "wallet_payment rc u amount purpose ref key s = (case parse_input amount of
      Inl _ \<Rightarrow> (NotCharged BadAmount, s)
    | Inr d \<Rightarrow>
        if dec_le d (Dec 0 0) then (NotCharged NotPositive, s)
        else if find_txn key s \<noteq> None then (ChargedBefore, s)
        else (case charge_wallet rc u d purpose ref key s of
            Inl e \<Rightarrow> (NotCharged e, s) | Inr s' \<Rightarrow> (Charged, s')))"



section \<open>The invariant\<close>

definition rweight :: "rider_txn \<Rightarrow> int" where
  "rweight r = (case rt_type r of Credit \<Rightarrow> rt_amount r | Debit \<Rightarrow> - rt_amount r)"

definition rider_balance :: "rider_books \<Rightarrow> int \<Rightarrow> int" where
  "rider_balance s u = (case rb_wallets s u of None \<Rightarrow> 0 | Some w \<Rightarrow> wl_balance w)"

definition rider_total :: "rider_books \<Rightarrow> int \<Rightarrow> int" where
  "rider_total s u = sum_by rweight (filter (\<lambda>r. rt_user r = u) (rb_rows s))"

definition holds_ok :: "reward_hold list \<Rightarrow> bool" where
  "holds_ok hs = (\<forall>h \<in> set hs. 0 < rh_amount h)"

definition rider_ok :: "rider_books \<Rightarrow> bool" where
  "rider_ok s = (distinct (map rt_key (rb_rows s)) \<and> holds_ok (rb_holds s)
     \<and> (\<forall>u. rider_total s u = rider_balance s u) \<and> (\<forall>u. 0 \<le> rider_balance s u \<and> rider_balance s u < 2 ^ 63))"

datatype rider_event =
    RefundCredit row_context decimal int pyval int rider_key
  | PromoCredit row_context decimal int pyval string rider_key
  | SupportCredit row_context decimal int pyval string rider_key
  | AdminCredit row_context decimal "int option" int string int
  | WalletPayment row_context int pyval string rider_ref rider_key
  | SetHolds "reward_hold list"

text \<open>One request. The table of holds is written by the fraud module; its check constraint keeps
  the amounts positive.\<close>

fun rider_step :: "rider_books \<Rightarrow> rider_event \<Rightarrow> rider_error + rider_books" where
  "rider_step s (RefundCredit rc cap u amount trip key) = bind_res (issue_refund_credit rc cap u amount trip key s) (\<lambda>r. Inr (snd r))"
| "rider_step s (PromoCredit rc cap u amount campaign key) = bind_res (issue_promo_credit rc cap u amount campaign key s) (\<lambda>r. Inr (snd r))"
| "rider_step s (SupportCredit rc cap u amount ticket key) = bind_res (issue_support_credit rc cap u amount ticket key s) (\<lambda>r. Inr (snd r))"
| "rider_step s (AdminCredit rc cap rider amount currency request) =
     (case execute_wallet_credit rc cap rider amount currency request s of Inl _ \<Rightarrow> Inr s | Inr (_, s') \<Rightarrow> Inr s')"
| "rider_step s (WalletPayment rc u amount purpose ref key) = Inr (snd (wallet_payment rc u amount purpose ref key s))"
| "rider_step s (SetHolds hs) = (if holds_ok hs then Inr (s\<lparr>rb_holds := hs\<rparr>) else Inl RiderIntegrity)"

lemma bigint_Inr [simp]: "bigint m = Inr n \<longleftrightarrow> n = m \<and> - (2 ^ 63) \<le> m \<and> m < 2 ^ 63"
  by (auto simp: bigint_def)

lemma lift_rider_Inr [simp]: "lift_rider r = Inr x \<longleftrightarrow> r = Inr x"
  by (cases r) (simp_all add: lift_rider_def)

lemma bigint_fits: "- (2 ^ 63) \<le> m \<Longrightarrow> m < 2 ^ 63 \<Longrightarrow> fits (m :: int)"
  by (rule fits_bound [of _ "2 ^ 63"]) simp_all

lemma rider_wallet_facts:
  "rider_balance (snd (get_rider_wallet u s)) v = rider_balance s v" "rb_rows (snd (get_rider_wallet u s)) = rb_rows s"
  "rb_holds (snd (get_rider_wallet u s)) = rb_holds s" "rider_total (snd (get_rider_wallet u s)) v = rider_total s v"
  "wl_balance (fst (get_rider_wallet u s)) = rider_balance s u"
  "rb_wallets (snd (get_rider_wallet u s)) u = Some (fst (get_rider_wallet u s))"
  by (auto simp: rider_balance_def rider_total_def get_rider_wallet_def Let_def split: option.splits)

lemma get_rider_wallet_ok: "rider_ok s \<Longrightarrow> rider_ok (snd (get_rider_wallet u s))"
  by (simp add: rider_ok_def rider_wallet_facts)

lemma find_txn_None: "find_txn key s = None \<longleftrightarrow> key \<notin> rt_key ` set (rb_rows s)"
  by (auto simp: find_txn_def find_None_iff)

lemma post_rider:
  assumes "rider_ok s" and "rb_wallets s0 u = Some w" and "wl_balance w = rider_balance s u"
    and "rb_rows s0 = r # rb_rows s" "rb_holds s0 = rb_holds s" "\<And>v. v \<noteq> u \<Longrightarrow> rider_balance s0 v = rider_balance s v"
    and "rt_user r = u" "rt_key r \<notin> rt_key ` set (rb_rows s)"
    and "m = rider_balance s u + rweight r" "0 \<le> m" "m < 2 ^ 63"
  shows "rider_ok (set_balance u w m s0)"
proof -
  have "rider_balance (set_balance u w m s0) v = (if v = u then m else rider_balance s v)" for v
    using assms(6) [of v] by (simp add: rider_balance_def set_balance_def)
  moreover have "rider_total (set_balance u w m s0) v = rider_total s v + (if v = u then rweight r else 0)" for v
    using assms(4,7) by (simp add: rider_total_def set_balance_def)
  moreover have "rb_rows (set_balance u w m s0) = r # rb_rows s" "rb_holds (set_balance u w m s0) = rb_holds s"
    using assms(4,5) by (simp_all add: set_balance_def)
  ultimately show ?thesis using assms(1,8-11) unfolding rider_ok_def by simp
qed

text \<open>An amount of whole minor units: what the rounding helper and a stored column give.\<close>

lemma credit_amount_cents:
  assumes "to_credit_amount amount u s = Some d"
  shows "\<exists>a. d = Dec a (- 2) \<and> fits a \<and> 0 < a"
proof -
  obtain x where x: "quantize_money (VDec (Finite x)) (Some (rider_currency u s)) = Inr (Some d)" "\<not> dec_le d (Dec 0 0)"
    using assms by (auto simp: to_credit_amount_def bind_res_def split: sum.splits option.splits if_splits)
  then obtain m where m: "to_minor (VDec (Finite x)) (Some (rider_currency u s)) = Inr (Some m)"
    and d: "from_minor (VInt m) (Some (rider_currency u s)) = Inr (Some d)"
    by (auto simp: quantize_money_def bind_res_Inr_iff of_minor_def from_minor_def split: option.splits)
  note f = round_trip_fits [OF m]
  from from_minor_int [OF f d] x(2) f show ?thesis by (auto simp: dec_le_def dval_def)
qed

lemma credit_row_cents:
  assumes "credit_row rc u (Dec a (- 2)) purpose ref key = Inr r" and "fits a"
  shows "rt_user r = u \<and> rt_amount r = a \<and> rt_type r = Credit \<and> rt_key r = key \<and> rt_ref r = ref
    \<and> - (2 ^ 63) \<le> a \<and> a < 2 ^ 63"
proof -
  obtain m c where m: "to_minor (VDec (Finite (Dec a (- 2)))) (Some c) = Inr (Some m)"
      and r: "rt_user r = u" "rt_amount r = m" "rt_type r = Credit" "rt_key r = key" "rt_ref r = ref"
      and b: "- (2 ^ 63) \<le> m" "m < 2 ^ 63"
    using assms(1) by (auto simp: credit_row_def amount_set_def Let_def bind_res_Inr_iff split: prod.splits option.splits)
  have "exponent (Some c) = Inr 2" using m by (auto simp: to_minor_def bind_res_Inr_iff dest: exponent_2)
  from to_minor_of_minor [OF assms(2) this] m have "m = a" by simp
  with r b show ?thesis by simp
qed

lemma balance_cents:
  assumes "balance_of w = Inr d" and "fits (wl_balance w)"
  shows "d = Dec (wl_balance w) (- 2)"
  using assms(1) from_minor_int [OF assms(2)] by (auto simp: balance_of_def bind_res_Inr_iff split: option.splits)

lemma store_cents:
  assumes "store_balance u w (Dec m (- 2)) s = Inr s'" and "fits m"
  shows "s' = set_balance u w m s \<and> - (2 ^ 63) \<le> m \<and> m < 2 ^ 63"
proof -
  obtain n where n: "to_minor (VDec (Finite (Dec m (- 2)))) (Some (wallet_code w)) = Inr (Some n)"
      and s': "s' = set_balance u w n s" and b: "- (2 ^ 63) \<le> n" "n < 2 ^ 63"
    using assms(1) by (auto simp: store_balance_def bind_res_Inr_iff split: option.splits)
  have "exponent (Some (wallet_code w)) = Inr 2" using n by (auto simp: to_minor_def bind_res_Inr_iff dest: exponent_2)
  from to_minor_of_minor [OF assms(2) this] n have "n = m" by simp
  with s' b show ?thesis by simp
qed


text \<open>What a credit of whole minor units does: it is refused or repeated and changes no balance, or
  one row is written and the balance rises by its amount.\<close>

lemma issue_credit_effect:
  assumes "issue_credit rc cap u (Dec a (- 2)) purpose key ref s = Inr (r, s')" and "rider_ok s" and "fits a" and "0 < a"
  obtains
    (same) "s' = snd (get_rider_wallet u s)" "cr_reason r = CapExceeded \<and> \<not> cr_ok r \<or> cr_reason r = Duplicate \<and> cr_ok r"
  | (posted) row where "rb_rows s' = row # rb_rows s" "rt_key row = key" "rt_user row = u" "rt_amount row = a" "rt_type row = Credit"
      "key \<notin> rt_key ` set (rb_rows s)" "cr_reason r = Credited" "cr_ok r"
      "rider_balance s' = (rider_balance s)(u := rider_balance s u + a)" "rider_ok s'"
      "of_int (rider_balance s u + a) / 100 \<le> dval cap"
proof -
  obtain w s1 where w: "get_rider_wallet u s = (w, s1)" by fastforce
  note facts = rider_wallet_facts [where u = u and s = s, unfolded w fst_conv snd_conv]
  have range: "0 \<le> rider_balance s u" "rider_balance s u < 2 ^ 63" using assms(2) by (simp_all add: rider_ok_def)
  then have fw: "fits (wl_balance w)" using facts(5) by (simp add: bigint_fits)
  obtain current where current: "balance_of w = Inr current"
    using assms(1) by (auto simp: issue_credit_def w Let_def bind_res_Inr_iff)
  have c: "current = Dec (rider_balance s u) (- 2)" using balance_cents [OF current fw] facts(5) by simp
  define projected where "projected = dec_add current (Dec a (- 2))"
  show ?thesis
  proof (cases "dec_lt cap projected")
    case True
    then have "r = \<lparr> cr_ok = False, cr_txn = None, cr_balance = current, cr_reason = CapExceeded \<rparr>" "s' = s1"
      using assms(1) by (simp_all add: issue_credit_def w Let_def current projected_def [symmetric])
    with same show ?thesis by (simp add: w)
  next
    case cap: False
    obtain row where row: "credit_row rc u (Dec a (- 2)) purpose ref key = Inr row"
      using assms(1) cap by (auto simp: issue_credit_def w Let_def current projected_def [symmetric] bind_res_Inr_iff)
    have row': "rt_user row = u" "rt_amount row = a" "rt_type row = Credit" "rt_key row = key" "a < 2 ^ 63"
      using credit_row_cents [OF row assms(3)] by blast+
    have sum: "fits (rider_balance s u + a)" using range row' assms(4) by (intro fits_bound [of _ "2 ^ 64"]) simp_all
    have pr: "projected = Dec (rider_balance s u + a) (- 2)" by (simp add: projected_def c dec_add_cents [OF sum])
    show ?thesis
    proof (cases "find_txn key s1")
      case (Some old)
      then have "r = \<lparr> cr_ok = True, cr_txn = Some key, cr_balance = current, cr_reason = Duplicate \<rparr>" "s' = s1"
        using assms(1) cap row by (auto simp: issue_credit_def w Let_def current projected_def [symmetric] split: if_splits)
      with same show ?thesis by (simp add: w)
    next
      case None
      then have key: "key \<notin> rt_key ` set (rb_rows s)" using facts(2) by (simp add: find_txn_None)
      have "store_balance u w projected (s1\<lparr>rb_rows := row # rb_rows s1\<rparr>) = Inr s'"
        and r: "r = \<lparr> cr_ok = True, cr_txn = Some key, cr_balance = projected, cr_reason = Credited \<rparr>"
        using assms(1) cap row None
        by (auto simp: issue_credit_def w Let_def current projected_def [symmetric] bind_res_Inr_iff)
      then have s': "s' = set_balance u w (rider_balance s u + a) (s1\<lparr>rb_rows := row # rb_rows s1\<rparr>)"
        and b: "rider_balance s u + a < 2 ^ 63"
        using store_cents [OF _ sum] by (simp_all add: pr)
      have s1_balance: "rider_balance s1 = rider_balance s" using facts(1) by blast
      have ok: "rider_ok s'"
        unfolding s'
      proof (rule post_rider [OF assms(2)])
        show "rb_wallets (s1\<lparr>rb_rows := row # rb_rows s1\<rparr>) u = Some w" using facts(6) by simp
        show "rider_balance (s1\<lparr>rb_rows := row # rb_rows s1\<rparr>) v = rider_balance s v" for v
          using fun_cong [OF s1_balance, of v] by (simp add: rider_balance_def)
        show "rt_key row \<notin> rt_key ` set (rb_rows s)" unfolding row'(4) by (rule key)
        show "rider_balance s u + a = rider_balance s u + rweight row" unfolding rweight_def row'(2,3) by simp
        show "rt_user row = u" by (rule row'(1))
        show "rb_rows (s1\<lparr>rb_rows := row # rb_rows s1\<rparr>) = row # rb_rows s" by (simp add: facts(2))
      qed (use facts(3,5) b range assms(4) in simp_all)
      have "rider_balance s' = (rider_balance s)(u := rider_balance s u + a)"
        using s1_balance by (auto simp: fun_eq_iff s' rider_balance_def set_balance_def)
      moreover have "rb_rows s' = row # rb_rows s" using facts(2) by (simp add: s' set_balance_def)
      moreover have "of_int (rider_balance s u + a) / 100 \<le> dval cap"
        using cap by (simp add: pr dec_lt_def dval_cents not_less)
      ultimately show ?thesis using posted row' key r ok by simp
    qed
  qed
qed


lemma issue_credit_ok:
  assumes "issue_credit rc cap u (Dec a (- 2)) purpose key ref s = Inr (r, s')" and "rider_ok s" and "fits a" and "0 < a"
  shows "rider_ok s'"
  using assms by (cases rule: issue_credit_effect) (simp_all add: get_rider_wallet_ok [OF assms(2)])

text \<open>An amount too large for a decimal never reaches a row.\<close>

lemma large_credit_refused:
  assumes "\<not> fits n" and "credit_row rc u (dec_fix n (- 2)) purpose ref key = Inr row"
  shows False
proof -
  obtain m c where m: "to_minor (VDec (Finite (dec_fix n (- 2)))) (Some c) = Inr (Some m)"
      and b: "- (2 ^ 63) \<le> m" "m < 2 ^ 63"
    using assms(2) by (auto simp: credit_row_def amount_set_def Let_def bind_res_Inr_iff split: prod.splits option.splits)
  have "m = cents (dval (dec_fix n (- 2)))"
    using to_minor_cents [OF m] dec_fix_fits by (simp add: as_decimal_def)
  then have "\<bar>of_int m - dval (dec_fix n (- 2)) * 100\<bar> \<le> 1 / 2"
    using round_half_up_error [of "dval (dec_fix n (- 2)) * 100"] by (simp add: cents_def)
  moreover have "(10 ^ 28 :: rat) \<le> of_int \<bar>n\<bar>"
    using assms(1) by (metis fits_def not_less of_int_le_iff of_int_numeral of_int_power)
  then have "(10 ^ 28 :: rat) \<le> 400 * \<bar>dval (dec_fix n (- 2))\<bar>"
    using dec_fix_bounds(2) [of n "- 2"] by (simp add: dval_cents)
  moreover have "\<bar>of_int m :: rat\<bar> \<le> 2 ^ 63"
    using b by (metis abs_le_iff minus_le_iff less_imp_le of_int_abs of_int_le_iff of_int_numeral of_int_power)
  ultimately show False by (simp add: abs_if split: if_splits)
qed

lemma issue_admin_credit_ok:
  assumes "issue_admin_credit rc cap u amount currency request s = Inr (r, s')" and "rider_ok s"
  shows "rider_ok s'"
proof -
  obtain d where d: "from_minor (VInt amount) (Some currency) = Inr (Some d)"
    and go: "(if dec_le d (Dec 0 0) then Inr (credit_invalid, s)
       else issue_credit rc cap u d ''admin_credit'' (KeyAdminCredit request) (RefAdminCredit request) s) = Inr (r, s')"
    using assms(1) by (auto simp: issue_admin_credit_def bind_res_Inr_iff split: option.splits)
  have e: "d = dec_fix amount (- 2)"
    using d by (auto simp: from_minor_def bind_res_Inr_iff dec_of_int_def dec_scaleb_def dest: exponent_2)
  show ?thesis
  proof (cases "dec_le d (Dec 0 0)")
    case True
    with go assms(2) show ?thesis by simp
  next
    case pos: False
    then have run: "issue_credit rc cap u d ''admin_credit'' (KeyAdminCredit request) (RefAdminCredit request) s = Inr (r, s')"
      using go by simp
    show ?thesis
    proof (cases "fits amount")
      case True
      then have d': "d = Dec amount (- 2)" by (simp add: e dec_fix_exact)
      with pos have "0 < amount" by (simp add: dec_le_def dval_cents)
      from issue_credit_ok [OF run [unfolded d'] assms(2) True this] show ?thesis .
    next
      case False
      then have "credit_row rc u d p ref k \<noteq> Inr row" for p ref k row
        using large_credit_refused [OF False] by (auto simp: e)
      then have "s' = snd (get_rider_wallet u s)"
        using run by (auto simp: issue_credit_def Let_def bind_res_Inr_iff split: prod.splits if_splits)
      with assms(2) show ?thesis by (simp add: get_rider_wallet_ok)
    qed
  qed
qed

lemma to_minor_pos:
  assumes "to_minor (VDec (Finite d)) c = Inr (Some m)" and "\<not> dec_le d (Dec 0 0)"
  shows "0 \<le> m"
proof -
  obtain e q where q: "dec_quantize (dec_scaleb d e) 0 = Some q" "m = dec_to_int q"
    using assms(1) by (auto simp: to_minor_def as_decimal_def bind_res_Inr_iff split: option.splits)
  have "0 < coef d"
    using assms(2) ten_pow_pos [of "expo d"] by (cases d) (auto simp: dec_le_def dval_ten_pow not_le zero_less_mult_iff)
  then have "0 \<le> coef (dec_scaleb d e)" by (simp add: dec_scaleb_def dec_fix_def Let_def)
  with q show ?thesis by (auto simp: dec_quantize_def dec_to_int_def Let_def sgn_if split: if_splits)
qed

lemma held_nonneg: "rider_ok s \<Longrightarrow> 0 \<le> held_minor s u c"
  unfolding held_minor_def by (rule sum_by_nonneg) (auto simp: rider_ok_def holds_ok_def less_imp_le)

lemma charge_wallet_effect:
  assumes "charge_wallet rc u d purpose ref key s = Inr s'" and "\<not> dec_le d (Dec 0 0)" and "rider_ok s"
    and "key \<notin> rt_key ` set (rb_rows s)"
  obtains w m where "rb_wallets s u = Some w" "to_minor (VDec (Finite d)) (Some (wl_currency w)) = Inr (Some m)" "0 \<le> m"
    "rb_rows s' = payment_row rc u (wl_currency w) m purpose ref key # rb_rows s"
    "rider_balance s' = (rider_balance s)(u := rider_balance s u - m)" "rider_ok s'"
proof -
  obtain w m where w: "rb_wallets s u = Some w" "to_minor (VDec (Finite d)) (Some (wl_currency w)) = Inr (Some m)"
    and enough: "m \<le> wl_balance w - held_minor s u (Some (wl_currency w))"
    and s': "s' = set_balance u w (wl_balance w - m) (s\<lparr>rb_rows := payment_row rc u (wl_currency w) m purpose ref key # rb_rows s\<rparr>)"
    using assms(1) by (auto simp: charge_wallet_def split: option.splits sum.splits if_splits)
  have m: "0 \<le> m" by (rule to_minor_pos [OF w(2) assms(2)])
  have b: "rider_balance s u = wl_balance w" by (simp add: rider_balance_def w)
  have range: "rider_balance s u < 2 ^ 63" using assms(3) unfolding rider_ok_def by blast
  have "rider_ok s'"
    unfolding s'
    by (rule post_rider [OF assms(3)])
      (use w b enough m held_nonneg [OF assms(3)] range assms(4) in
        \<open>auto simp: payment_row_def rweight_def rider_balance_def intro: order_trans\<close>)
  then show ?thesis using that [of w m] w m b by (auto simp: s' set_balance_def rider_balance_def fun_eq_iff)
qed

lemma wallet_payment_ok:
  assumes "rider_ok s"
  shows "rider_ok (snd (wallet_payment rc u amount purpose ref key s))"
proof (cases "\<exists>d s'. parse_input amount = Inr d \<and> \<not> dec_le d (Dec 0 0) \<and> find_txn key s = None
    \<and> charge_wallet rc u d purpose ref key s = Inr s'")
  case True
  then obtain d s' where d: "parse_input amount = Inr d" "\<not> dec_le d (Dec 0 0)" "find_txn key s = None"
    "charge_wallet rc u d purpose ref key s = Inr s'" by blast
  from d(4,2) assms d(3) [unfolded find_txn_None] have "rider_ok s'" by (rule charge_wallet_effect)
  with d show ?thesis by (simp add: wallet_payment_def)
next
  case False
  then have "snd (wallet_payment rc u amount purpose ref key s) = s"
    by (auto simp: wallet_payment_def split: sum.splits)
  with assms show ?thesis by simp
qed


lemma typed_credit_ok:
  assumes "(case to_credit_amount amount u s of None \<Rightarrow> Inr (credit_invalid, s)
      | Some a \<Rightarrow> issue_credit rc cap u a purpose key ref s) = Inr (r, s')" and "rider_ok s"
  shows "rider_ok s'"
proof (cases "to_credit_amount amount u s")
  case None
  with assms show ?thesis by simp
next
  case (Some d)
  then obtain a where "d = Dec a (- 2)" "fits a" "0 < a" using credit_amount_cents by blast
  with assms Some show ?thesis by (auto intro: issue_credit_ok)
qed

lemma rider_step_ok: "rider_ok s \<Longrightarrow> rider_step s e = Inr s' \<Longrightarrow> rider_ok s'"
proof (cases e)
  case (AdminCredit rc cap rider amount currency request)
  assume "rider_ok s" "rider_step s e = Inr s'"
  with AdminCredit show ?thesis
    by (auto simp: execute_wallet_credit_def intro: issue_admin_credit_ok
        split: option.splits sum.splits if_splits)
next
  case (SetHolds hs)
  assume "rider_ok s" "rider_step s e = Inr s'"
  with SetHolds show ?thesis
    by (auto simp: rider_ok_def rider_balance_def rider_total_def split: if_splits)
qed (auto simp: bind_res_Inr_iff issue_refund_credit_def issue_promo_credit_def issue_support_credit_def
      intro: typed_credit_ok wallet_payment_ok)

interpretation rider_wallets: guarded_system rider_step rider_ok
  by unfold_locales (rule rider_step_ok)

definition no_riders :: "(int \<Rightarrow> bool) \<Rightarrow> rider_books" where
  "no_riders drivers = \<lparr> rb_wallets = Map.empty, rb_rows = [], rb_holds = [], rb_drivers = drivers \<rparr>"


text \<open>The ledger only grows, by rows with a fresh key.\<close>

definition rows_grow :: "rider_books \<Rightarrow> rider_books \<Rightarrow> bool" where
  "rows_grow s s' = (rb_rows s' = rb_rows s
     \<or> (\<exists>r. rb_rows s' = r # rb_rows s \<and> rt_key r \<notin> rt_key ` set (rb_rows s)))"

lemma rows_grow_same: "rb_rows s' = rb_rows s \<Longrightarrow> rows_grow s s'"
  by (simp add: rows_grow_def)

lemma store_rows: "store_balance u w d s = Inr s' \<Longrightarrow> rb_rows s' = rb_rows s"
  by (auto simp: store_balance_def set_balance_def bind_res_Inr_iff split: option.splits)

lemma credit_row_key: "credit_row rc u d purpose ref key = Inr r \<Longrightarrow> rt_key r = key"
  by (auto simp: credit_row_def Let_def bind_res_Inr_iff split: option.splits)

lemma issue_credit_rows:
  assumes "issue_credit rc cap u d purpose key ref s = Inr (r, s')"
  shows "rows_grow s s' \<and> (cr_ok r \<longrightarrow> key \<in> rt_key ` set (rb_rows s'))"
    and "key \<in> rt_key ` set (rb_rows s) \<Longrightarrow> s' = snd (get_rider_wallet u s)"
proof -
  obtain w s1 where w: "get_rider_wallet u s = (w, s1)" by fastforce
  have rows: "rb_rows s1 = rb_rows s" using rider_wallet_facts(2) [of u s] by (simp add: w)
  obtain current where c: "balance_of w = Inr current"
    using assms by (auto simp: issue_credit_def w Let_def bind_res_Inr_iff)
  show "rows_grow s s' \<and> (cr_ok r \<longrightarrow> key \<in> rt_key ` set (rb_rows s'))"
  proof (cases "dec_lt cap (dec_add current d)")
    case True
    then have "\<not> cr_ok r" "s' = s1" using assms by (auto simp: issue_credit_def w Let_def c)
    with rows show ?thesis by (simp add: rows_grow_same)
  next
    case cap: False
    then obtain row where row: "credit_row rc u d purpose ref key = Inr row"
      using assms by (auto simp: issue_credit_def w Let_def c bind_res_Inr_iff)
    show ?thesis
    proof (cases "find_txn key s1")
      case (Some old)
      then have "s' = s1" using assms cap row by (auto simp: issue_credit_def w Let_def c split: if_splits)
      with Some rows show ?thesis using find_txn_None [of key s1] by (auto simp: rows_grow_same)
    next
      case None
      then have "store_balance u w (dec_add current d) (s1\<lparr>rb_rows := row # rb_rows s1\<rparr>) = Inr s'"
        using assms cap row by (auto simp: issue_credit_def w Let_def c bind_res_Inr_iff)
      then have "rb_rows s' = row # rb_rows s" using store_rows rows by fastforce
      with None rows credit_row_key [OF row] show ?thesis by (auto simp: rows_grow_def find_txn_None)
    qed
  qed
  show "s' = snd (get_rider_wallet u s)" if "key \<in> rt_key ` set (rb_rows s)"
  proof -
    have "find_txn key s1 \<noteq> None" using that rows by (simp add: find_txn_None)
    then show ?thesis using assms by (auto simp: issue_credit_def w Let_def c bind_res_Inr_iff split: if_splits)
  qed
qed

lemma typed_credit_rows:
  assumes "(case to_credit_amount amount u s of None \<Rightarrow> Inr (credit_invalid, s)
      | Some a \<Rightarrow> issue_credit rc cap u a purpose key ref s) = Inr (r, s')"
  shows "rows_grow s s' \<and> (cr_ok r \<longrightarrow> key \<in> rt_key ` set (rb_rows s'))"
    and "key \<in> rt_key ` set (rb_rows s) \<Longrightarrow> s' = s \<or> s' = snd (get_rider_wallet u s)"
  using assms issue_credit_rows [of rc cap u _ purpose key ref s r s']
  by (auto simp: rows_grow_same credit_invalid_def split: option.splits)

lemma admin_credit_rows: "issue_admin_credit rc cap u amount currency request s = Inr (r, s') \<Longrightarrow> rows_grow s s'"
  by (auto simp: issue_admin_credit_def bind_res_Inr_iff rows_grow_same dest: issue_credit_rows(1)
      split: option.splits if_splits)

lemma wallet_payment_rows: "rows_grow s (snd (wallet_payment rc u amount purpose ref key s))"
proof -
  have "rows_grow s s'" if "charge_wallet rc u d purpose ref key s = Inr s'" "find_txn key s = None" for d s'
    using that by (auto simp: charge_wallet_def rows_grow_def set_balance_def payment_row_def find_txn_None
        split: option.splits sum.splits if_splits)
  then show ?thesis by (auto simp: wallet_payment_def rows_grow_same split: sum.splits)
qed

lemma rider_step_rows: "rider_step s e = Inr s' \<Longrightarrow> rows_grow s s'"
proof (cases e)
  case (AdminCredit rc cap rider amount currency request)
  assume "rider_step s e = Inr s'"
  with AdminCredit show ?thesis
    by (auto simp: execute_wallet_credit_def rows_grow_same dest: admin_credit_rows
        split: option.splits sum.splits if_splits)
qed (auto simp: bind_res_Inr_iff issue_refund_credit_def issue_promo_credit_def issue_support_credit_def
      rows_grow_same intro: wallet_payment_rows dest: typed_credit_rows(1) split: if_splits)

interpretation rider_ledger: frozen_part rider_step rider_ok "\<lambda>k s. find_txn k s \<noteq> None" find_txn
proof unfold_locales
  fix s k e s'
  assume "find_txn k s \<noteq> None" "rider_step s e = Inr s'"
  then show "find_txn k s' \<noteq> None \<and> find_txn k s' = find_txn k s"
    using rider_step_rows [of s e s'] find_txn_None [of k s] by (auto simp: rows_grow_def find_txn_def)
qed

text \<open>A refund credit is safe to repeat: after a credit was answered as made, a second delivery with the
  same key, after any history of other requests in between and whatever amount it names, moves no balance and
  writes no row.\<close>

theorem credit_not_repeated:
  assumes "issue_refund_credit rc cap u amount trip key (run_events rider_step (no_riders drivers) past) = Inr (r, s1)"
    and "cr_ok r"
    and "issue_refund_credit rc' cap' u amount' trip' key (run_events rider_step s1 between) = Inr (r', s2)"
  shows "rider_balance s2 = rider_balance (run_events rider_step s1 between)
    \<and> rb_rows s2 = rb_rows (run_events rider_step s1 between)"
proof -
  let ?s0 = "run_events rider_step (no_riders drivers) past" and ?t = "run_events rider_step s1 between"
  have "rider_ok (no_riders drivers)"
    by (simp add: rider_ok_def no_riders_def holds_ok_def rider_balance_def rider_total_def)
  then have "rider_ok ?s0" by (rule rider_wallets.run_inv)
  then have ok: "rider_ok s1"
    using assms(1) unfolding issue_refund_credit_def by (rule typed_credit_ok [rotated])
  have "find_txn key s1 \<noteq> None"
    using typed_credit_rows(1) [OF assms(1) [unfolded issue_refund_credit_def]] assms(2) by (simp add: find_txn_None)
  then have "find_txn key ?t \<noteq> None" using rider_ledger.run_closed [OF ok, of key between] by simp
  then have "s2 = ?t \<or> s2 = snd (get_rider_wallet u ?t)"
    using typed_credit_rows(2) [OF assms(3) [unfolded issue_refund_credit_def]] by (simp add: find_txn_None)
  then show ?thesis by (auto simp: rider_wallet_facts fun_eq_iff)
qed


definition demo_row_context :: row_context where
  "demo_row_context = \<lparr> rc_trip_currency = (\<lambda>t. if t = 7 then Some ''USD'' else Some ''INR''), rc_first_wallet = (\<lambda>u. Some ''INR'') \<rparr>"

definition demo_credit :: rider_txn where
  "demo_credit = \<lparr> rt_user = 3, rt_currency = ''INR'', rt_amount = 4000, rt_type = Credit, rt_purpose = ''refund'',
     rt_ref = RefRide 9, rt_key = KeyEndRefund 9 \<rparr>"

definition demo_credited :: rider_books where
  "demo_credited = \<lparr> rb_wallets = [3 \<mapsto> \<lparr> wl_balance = 4000, wl_currency = ''INR'' \<rparr>], rb_rows = [demo_credit],
     rb_holds = [], rb_drivers = (\<lambda>u. False) \<rparr>"

lemma demo_code [simp]: "exponent (Some ''INR'') = Inr 2" "wallet_code \<lparr> wl_balance = m, wl_currency = ''INR'' \<rparr> = ''INR''"
    "rider_currency 3 (no_riders f) = ''INR''" "rider_currency 3 demo_credited = ''INR''"
    "derive_txn_currency demo_row_context 3 (RefRide 9) = Some ''INR''" "stamp_currency ''INR'' (Some ''INR'') = ''INR''"
  by (simp_all add: inr_exponent wallet_code_def rider_currency_def no_riders_def demo_credited_def) code_simp+

lemma demo_fits: "fits 4000" "fits 5500" "fits 0"
  by (simp_all add: fits_def)

lemma credit_amount_exact:
  assumes "fits a" "0 < a" "exponent (Some (rider_currency u s)) = Inr 2"
  shows "to_credit_amount (VDec (Finite (Dec a (- 2)))) u s = Some (Dec a (- 2))"
  using assms to_minor_of_minor [OF assms(1,3)]
  by (simp add: to_credit_amount_def parse_input_def as_decimal_def quantize_money_def of_minor_def from_minor_def
      dec_of_int_def dec_scaleb_exact dec_le_def dval_cents)

lemma demo_credit_row:
  assumes "fits a" "- (2 ^ 63) \<le> a" "a < 2 ^ 63"
  shows "credit_row demo_row_context 3 (Dec a (- 2)) ''refund'' (RefRide 9) (KeyEndRefund 9)
    = Inr (demo_credit\<lparr>rt_amount := a\<rparr>)"
proof -
  have "normalize_currency (Some ''INR'') None = ''INR''" by code_simp
  then show ?thesis
    using assms(2,3) to_minor_of_minor [OF assms(1) inr_exponent(1)]
    by (simp add: credit_row_def amount_set_def currency_of_def falsy_def Let_def lift_rider_def bigint_def demo_credit_def)
qed

lemma demo_balance: "fits m \<Longrightarrow> balance_of \<lparr> wl_balance = m, wl_currency = ''INR'' \<rparr> = Inr (Dec m (- 2))"
  by (simp add: balance_of_def from_minor_def dec_of_int_def dec_scaleb_exact lift_rider_def)

lemma demo_credit_runs:
  "issue_refund_credit demo_row_context (Dec 2000 0) 3 (VDec (Finite (Dec 4000 (- 2)))) 9 (KeyEndRefund 9) (no_riders (\<lambda>u. False))
     = Inr (\<lparr> cr_ok = True, cr_txn = Some (KeyEndRefund 9), cr_balance = Dec 4000 (- 2), cr_reason = Credited \<rparr>, demo_credited)"
  "issue_refund_credit demo_row_context (Dec 2000 0) 3 (VDec (Finite (Dec 5500 (- 2)))) 9 (KeyEndRefund 9) demo_credited
     = Inr (\<lparr> cr_ok = True, cr_txn = Some (KeyEndRefund 9), cr_balance = Dec 4000 (- 2), cr_reason = Duplicate \<rparr>, demo_credited)"
proof -
  have w: "get_rider_wallet 3 (no_riders (\<lambda>u. False)) = (\<lparr> wl_balance = 0, wl_currency = ''INR'' \<rparr>,
      (no_riders (\<lambda>u. False))\<lparr>rb_wallets := [3 \<mapsto> \<lparr> wl_balance = 0, wl_currency = ''INR'' \<rparr>]\<rparr>)"
    by (simp add: get_rider_wallet_def no_riders_def Let_def)
  have add: "dec_add (Dec 0 (- 2)) (Dec 4000 (- 2)) = Dec 4000 (- 2)" "dec_add (Dec 4000 (- 2)) (Dec 5500 (- 2)) = Dec 9500 (- 2)"
    using dec_add_cents [of 0 4000] dec_add_cents [of 4000 5500] by (simp_all add: fits_def)
  have cap: "\<not> dec_lt (Dec 2000 0) (Dec 4000 (- 2))" "\<not> dec_lt (Dec 2000 0) (Dec 9500 (- 2))"
    by (simp_all add: dec_lt_def dval_cents)
  show "issue_refund_credit demo_row_context (Dec 2000 0) 3 (VDec (Finite (Dec 4000 (- 2)))) 9 (KeyEndRefund 9) (no_riders (\<lambda>u. False))
     = Inr (\<lparr> cr_ok = True, cr_txn = Some (KeyEndRefund 9), cr_balance = Dec 4000 (- 2), cr_reason = Credited \<rparr>, demo_credited)"
    using to_minor_of_minor [OF demo_fits(1) inr_exponent(1)]
    by (simp add: issue_refund_credit_def issue_credit_def w credit_amount_exact demo_fits demo_credit_row demo_balance add cap
        find_txn_def store_balance_def lift_rider_def bigint_def set_balance_def Let_def)
      (simp add: demo_credited_def no_riders_def demo_credit_def Let_def add store_balance_def lift_rider_def bigint_def set_balance_def)
  have "get_rider_wallet 3 demo_credited = (\<lparr> wl_balance = 4000, wl_currency = ''INR'' \<rparr>, demo_credited)"
    "find_txn (KeyEndRefund 9) demo_credited = Some demo_credit" "rt_user demo_credit = 3"
    by (simp_all add: get_rider_wallet_def demo_credited_def find_txn_def demo_credit_def)
  then show "issue_refund_credit demo_row_context (Dec 2000 0) 3 (VDec (Finite (Dec 5500 (- 2)))) 9 (KeyEndRefund 9) demo_credited
     = Inr (\<lparr> cr_ok = True, cr_txn = Some (KeyEndRefund 9), cr_balance = Dec 4000 (- 2), cr_reason = Duplicate \<rparr>, demo_credited)"
    by (simp add: issue_refund_credit_def issue_credit_def credit_amount_exact demo_fits demo_credit_row demo_balance add cap Let_def)
qed

theorem credit_not_repeated_witness:
  "\<exists>r s1 r' s2. issue_refund_credit demo_row_context (Dec 2000 0) 3 (VDec (Finite (Dec 4000 (- 2)))) 9 (KeyEndRefund 9)
        (run_events rider_step (no_riders (\<lambda>u. False)) []) = Inr (r, s1)
     \<and> issue_refund_credit demo_row_context (Dec 2000 0) 3 (VDec (Finite (Dec 5500 (- 2)))) 9 (KeyEndRefund 9) (run_events rider_step s1 []) = Inr (r', s2)
     \<and> rider_balance s1 3 = 4000 \<and> rider_balance s2 = rider_balance (run_events rider_step s1 [])"
proof -
  have "rider_balance demo_credited = rider_balance demo_credited"
    by (rule conjunct1 [OF credit_not_repeated [where past = "[]" and between = "[]", unfolded run_events.simps, OF demo_credit_runs(1) _ demo_credit_runs(2)]]) simp
  moreover have "rider_balance demo_credited 3 = 4000" by (simp add: rider_balance_def demo_credited_def)
  ultimately show ?thesis by (simp add: demo_credit_runs)
qed

text \<open>The wallet charge at completion does not compare currencies: a trip priced in dollars is taken from a
  rupee wallet at the same number, and the ledger row is stamped in dollars although the explicit currency was
  the wallet's.\<close>

theorem wallet_charge_crosses_currency:
  assumes "rb_wallets s u = Some w" and "wl_currency w = ''INR''" and "wl_balance w < 2 ^ 63"
    and "rc_trip_currency rc t = Some ''USD''" and "find_txn key s = None" and "0 < m" and "0 \<le> held_minor s u (Some ''INR'')"
    and "m \<le> wl_balance w - held_minor s u (Some ''INR'')"
  shows "\<exists>s'. wallet_payment rc u (VDec (Finite (Dec m (- 2)))) purpose (RefRide t) key s = (Charged, s')
    \<and> rider_balance s' u = wl_balance w - m
    \<and> (\<exists>r. rb_rows s' = r # rb_rows s \<and> rt_currency r = ''USD'' \<and> rt_amount r = m)"
proof -
  have f: "fits m" using assms(3,6-8) by (intro fits_bound [of _ "2 ^ 63"]) simp_all
  have m: "to_minor (VDec (Finite (Dec m (- 2)))) (Some ''INR'') = Inr (Some m)"
    using to_minor_of_minor [OF f inr_exponent(1)] .
  have "DEFAULT_CURRENCY = ''INR''" "normalize_currency (Some ''USD'') None = ''USD''" by code_simp+
  then have stamp: "stamp_currency ''INR'' (derive_txn_currency rc u (RefRide t)) = ''USD''"
    using assms(4) by (simp add: stamp_currency_def derive_txn_currency_def falsy_def Let_def)
  have "charge_wallet rc u (Dec m (- 2)) purpose (RefRide t) key s
      = Inr (set_balance u w (wl_balance w - m) (s\<lparr>rb_rows := payment_row rc u ''INR'' m purpose (RefRide t) key # rb_rows s\<rparr>))"
    using assms(1-3,6-8) m by (simp add: charge_wallet_def bigint_def)
  moreover have "\<not> dec_le (Dec m (- 2)) (Dec 0 0)" using assms(6) by (simp add: dec_le_def dval_cents)
  ultimately show ?thesis
    using assms(5) stamp by (simp add: wallet_payment_def parse_input_def as_decimal_def set_balance_def
        rider_balance_def payment_row_def)
qed

definition demo_rider_books :: rider_books where
  "demo_rider_books = (no_riders (\<lambda>u. False))\<lparr>rb_wallets := [3 \<mapsto> \<lparr> wl_balance = 5000, wl_currency = ''INR'' \<rparr>]\<rparr>"

theorem wallet_charge_crosses_currency_witness:
  "\<exists>s'. wallet_payment demo_row_context 3 (VDec (Finite (Dec 1250 (- 2)))) ''Trip payment'' (RefRide 7) (KeyTripPayment 7)
      demo_rider_books = (Charged, s') \<and> rider_balance s' 3 = 3750
    \<and> (\<exists>r. rb_rows s' = r # rb_rows demo_rider_books \<and> rt_currency r = ''USD'' \<and> rt_amount r = 1250)"
  using wallet_charge_crosses_currency [of demo_rider_books 3 "\<lparr> wl_balance = 5000, wl_currency = ''INR'' \<rparr>" demo_row_context 7
      "KeyTripPayment 7" 1250 "''Trip payment''"]
  by (simp add: demo_rider_books_def no_riders_def demo_row_context_def find_txn_def held_minor_def)

end
