(* ===== verification/RiderPromos.thy ===== *)
theory RiderPromos
  imports Settlement RiderWallet
begin

text \<open>
  Promo codes of riders: the discount of a code and its checks (\<open>servers/ride/promos.py\<close>), the campaign
  behind a code, booking with a promo, and what becomes of the reservation when the trip is cancelled or
  ended by an operator (\<open>servers/promotions/rider_promos.py\<close>).

  \<open>promo_tables\<close> holds the codes, the links of campaigns to codes and, by redemption id, the code and
  the rider of every redemption; the redemptions' amounts and states and the campaigns' budgets are those of
  \<open>money_books\<close>. Links and claims are newest first; \<open>pb_next\<close> is the next id of the campaign and redemption tables. A refusal is the
  \<open>PROMO_\<close> code; \<open>Inl\<close> is an exception, which rolls the booking back.
\<close>

datatype promo_value = Percent decimal | Flat int

record promo_code =
  pc_id :: int
  pc_code :: string
  pc_value :: promo_value
  pc_max :: "int option"
  pc_min_fare :: int
  pc_currency :: string
  pc_zone :: "int option"
  pc_from :: int
  pc_to :: int
  pc_max_total :: "int option"
  pc_max_user :: int
  pc_count :: int
  pc_active :: bool

record campaign_link =
  ck_campaign :: int
  ck_code :: int
  ck_node :: "geo_node option"
  ck_new_riders :: bool
  ck_auto :: bool
  ck_legacy :: bool

record claim =
  cl_redemption :: int
  cl_code :: int
  cl_user :: int

record promo_tables =
  pb_codes :: "promo_code list"
  pb_links :: "campaign_link list"
  pb_claims :: "claim list"
  pb_next :: int

datatype promo_error = PromoMoney money_error | PromoBudget budget_error | PromoNoCampaign | PromoAsked string

definition lift_promo :: "money_error + 'a \<Rightarrow> promo_error + 'a" where
  "lift_promo r = (case r of Inl e \<Rightarrow> Inl (PromoMoney e) | Inr x \<Rightarrow> Inr x)"

section \<open>The discount\<close>

definition rounded_fare :: "decimal \<Rightarrow> string \<Rightarrow> money_error + decimal" where
  "rounded_fare d currency = bind_res (round_fare (VDec (Finite d)) (Some currency))
     (\<lambda>q. case q of None \<Rightarrow> Inl MoneyTypeError | Some x \<Rightarrow> Inr x)"

definition compute_discount :: "promo_code \<Rightarrow> decimal \<Rightarrow> money_error + decimal" where
  "compute_discount p fare = (case pc_value p of
      Flat m \<Rightarrow> bind_res (major_of m (pc_currency p)) (\<lambda>v. Inr (dec_min v fare))
    | Percent percent \<Rightarrow> (case dec_div percent (Dec 10000 (- 2)) of
        None \<Rightarrow> Inl DecimalInvalid
      | Some pct \<Rightarrow> bind_res (quant (dec_mul fare pct) (pc_currency p)) (\<lambda>raw.
          bind_res (case pc_max p of None \<Rightarrow> Inr raw
              | Some m \<Rightarrow> bind_res (major_of m (pc_currency p)) (\<lambda>top. Inr (dec_min raw top))) (\<lambda>raw'.
            Inr (dec_min raw' fare)))))"

definition payable_discount :: "promo_code \<Rightarrow> decimal \<Rightarrow> money_error + decimal" where
  "payable_discount p fare = bind_res (compute_discount p fare) (\<lambda>raw.
     bind_res (rounded_fare (dec_sub fare raw) (pc_currency p)) (\<lambda>r.
       Inr (dec_sub fare (dec_max (Dec 0 (- 2)) r))))"

text \<open>The tax argument of a booking: \<open>False\<close>, the pair of the quote, or \<open>None\<close>.\<close>

datatype tax_arg = TaxInclusive | TaxQuoted decimal decimal | TaxOfZone

record 'j promo_env =
  pe_cards :: "rate_card list"
  pe_zones :: "'j service_zone list"
  pe_now :: int
  pe_completed :: "int \<Rightarrow> bool"
  pe_country_node :: "string \<Rightarrow> geo_node option"

definition tax_adjust ::
  "'j promo_env \<Rightarrow> promo_code \<Rightarrow> 'j service_zone option \<Rightarrow> decimal \<Rightarrow> decimal \<Rightarrow> tax_arg
     \<Rightarrow> money_error + promo_amounts option" where
  "tax_adjust env p zone fare discount tax =
     bind_res (case tax of TaxInclusive \<Rightarrow> Inr None | TaxQuoted percent fee \<Rightarrow> Inr (Some (percent, fee))
         | TaxOfZone \<Rightarrow> additive_context (pe_cards env) (pe_zones env) (pe_now env) zone None) (\<lambda>ctx.
     case ctx of None \<Rightarrow> Inr None
     | Some (percent, fee) \<Rightarrow> bind_res (split_additive fare percent fee (pc_currency p)) (\<lambda>(pretax, before, fee').
         bind_res (adjust_promo pretax percent fee' discount (pc_currency p) (Some before)) (\<lambda>a. Inr (Some a))))"

text \<open>The discount that is given and what the rider then pays.\<close>

definition discounted ::
  "'j promo_env \<Rightarrow> promo_code \<Rightarrow> 'j service_zone option \<Rightarrow> decimal \<Rightarrow> tax_arg
     \<Rightarrow> money_error + decimal \<times> decimal \<times> promo_amounts option" where
  "discounted env p zone fare tax =
     bind_res (compute_discount p fare) (\<lambda>raw.
     bind_res (tax_adjust env p zone fare raw tax) (\<lambda>adj.
       case adj of
         Some a \<Rightarrow> Inr (pa_discount a, pa_payable a, adj)
       | None \<Rightarrow> bind_res (rounded_fare (dec_sub fare raw) (pc_currency p)) (\<lambda>r.
           let final = dec_max (Dec 0 (- 2)) r in Inr (dec_sub fare final, final, None))))"

section \<open>The campaign behind a code\<close>

definition find_code :: "string \<Rightarrow> promo_tables \<Rightarrow> promo_code option" where
  "find_code code pb = find (\<lambda>p. py_lower (pc_code p) = py_lower (py_strip code)) (pb_codes pb)"

definition campaign_for :: "promo_code \<Rightarrow> promo_tables \<Rightarrow> campaign_link option" where
  "campaign_for p pb = find (\<lambda>k. ck_code k = pc_id p) (pb_links pb)"

definition in_place :: "campaign_link \<Rightarrow> 'j service_zone option \<Rightarrow> bool" where
  "in_place k zone = (case ck_node k of
      None \<Rightarrow> True
    | Some n \<Rightarrow>
        if gn_kind n \<in> {COUNTRY, GLOBAL}
        then (case zone of None \<Rightarrow> True
              | Some z \<Rightarrow> (case sz_geo z of None \<Rightarrow> True | Some m \<Rightarrow> starts_with (node_path n) (node_path m)))
        else (case zone of None \<Rightarrow> False
              | Some z \<Rightarrow> (case sz_geo z of None \<Rightarrow> False | Some m \<Rightarrow> starts_with (node_path n) (node_path m))))"

text \<open>Redemptions of the code by the rider that were not given back.\<close>

definition live_claim :: "redemption list \<Rightarrow> claim \<Rightarrow> bool" where
  "live_claim rs c = (case find (\<lambda>r. pr_id r = cl_redemption c) rs of None \<Rightarrow> False | Some r \<Rightarrow> pr_state r \<noteq> PR_RELEASED)"

definition user_count :: "int \<Rightarrow> int \<Rightarrow> promo_tables \<Rightarrow> redemption list \<Rightarrow> int" where
  "user_count code u pb rs =
     int (length (filter (\<lambda>c. cl_code c = code \<and> cl_user c = u \<and> live_claim rs c) (pb_claims pb)))"

text \<open>The checks of a code that \<open>apply_promo\<close> and \<open>redeem_promo\<close> share, in their order.\<close>

definition code_refusal ::
  "promo_code \<Rightarrow> int \<Rightarrow> decimal \<Rightarrow> 'j service_zone option \<Rightarrow> int \<Rightarrow> promo_tables \<Rightarrow> redemption list \<Rightarrow> money_error + string" where
  "code_refusal p u fare zone now pb rs =
     (if now < pc_from p then Inr ''PROMO_NOT_YET_VALID''
      else if pc_to p \<le> now then Inr ''PROMO_EXPIRED''
      else if (case pc_zone p of None \<Rightarrow> False
               | Some i \<Rightarrow> i \<noteq> 0 \<and> (case zone of None \<Rightarrow> True | Some z \<Rightarrow> sz_id z \<noteq> i)) then Inr ''PROMO_WRONG_ZONE''
      else bind_res (major_of (pc_min_fare p) (pc_currency p)) (\<lambda>least.
        if dec_lt fare least then Inr ''PROMO_MIN_FARE''
        else if pc_max_user p \<le> user_count (pc_id p) u pb rs then Inr ''PROMO_USER_LIMIT''
        else if (case pc_max_total p of None \<Rightarrow> False | Some n \<Rightarrow> n \<le> pc_count p) then Inr ''PROMO_LIMIT_REACHED''
        else Inr []))"

definition preview_refusal ::
  "'j promo_env \<Rightarrow> promo_code \<Rightarrow> int \<Rightarrow> decimal \<Rightarrow> 'j service_zone option \<Rightarrow> promo_tables \<Rightarrow> money_books
     \<Rightarrow> promo_error + string" where
  "preview_refusal env p u discount zone pb mb = (case campaign_for p pb of
      None \<Rightarrow> Inr []
    | Some k \<Rightarrow> (case mb_campaigns mb (ck_campaign k) of
        None \<Rightarrow> Inl PromoNoCampaign
      | Some c \<Rightarrow>
          if cp_state c \<noteq> CP_LIVE then Inr ''PROMO_NOT_FOUND''
          else if \<not> in_place k zone then Inr ''PROMO_WRONG_ZONE''
          else if ck_new_riders k \<and> pe_completed env u then Inr ''PROMO_NEW_RIDERS_ONLY''
          else bind_res (lift_promo (minor_of discount (pc_currency p))) (\<lambda>m.
            Inr (if \<not> admits c m then ''PROMO_BUDGET_EXHAUSTED'' else []))))"

text \<open>A code created outside the module is wrapped in a campaign without a budget.\<close>

definition legacy_node :: "'j promo_env \<Rightarrow> promo_code \<Rightarrow> geo_node option" where
  "legacy_node env p = (case (case pc_zone p of None \<Rightarrow> None
       | Some i \<Rightarrow> (case find (\<lambda>z. sz_id z = i) (pe_zones env) of None \<Rightarrow> None | Some z \<Rightarrow> sz_geo z)) of
      Some n \<Rightarrow> Some n
    | None \<Rightarrow> pe_country_node env (case find (\<lambda>c. ct_currency c = pc_currency p) COUNTRIES of
        None \<Rightarrow> [] | Some c \<Rightarrow> ct_code c))"

definition legacy_campaign :: "int \<Rightarrow> promo_code \<Rightarrow> campaign" where
  "legacy_campaign now p =
     \<lparr> cp_kind = RIDER_PROMO,
       cp_state = (if pc_active p \<and> pc_from p \<le> now \<and> now < pc_to p then CP_LIVE
                   else if pc_to p \<le> now then CP_ENDED else CP_PAUSED),
       cp_budget = None, cp_committed = 0, cp_spent = 0, cp_overshoot = 0, cp_ends_at = Some (pc_to p),
       cp_config = \<lparr> cc_flat = (case pc_value p of Flat _ \<Rightarrow> True | Percent _ \<Rightarrow> False),
         cc_flat_minor = (case pc_value p of Flat m \<Rightarrow> Some m | Percent _ \<Rightarrow> None),
         cc_reward_minor = None, cc_referrer_minor = None, cc_referee_minor = None \<rparr> \<rparr>"

definition ensure_campaign ::
  "'j promo_env \<Rightarrow> promo_code \<Rightarrow> promo_tables \<Rightarrow> money_books \<Rightarrow> campaign_link \<times> promo_tables \<times> money_books" where
  "ensure_campaign env p pb mb = (case campaign_for p pb of
      Some k \<Rightarrow> (k, pb, mb)
    | None \<Rightarrow>
        let k = \<lparr> ck_campaign = pb_next pb, ck_code = pc_id p, ck_node = legacy_node env p, ck_new_riders = False,
                  ck_auto = False, ck_legacy = True \<rparr>
        in (k, pb\<lparr>pb_links := k # pb_links pb, pb_next := pb_next pb + 1\<rparr>,
            mb\<lparr>mb_campaigns := (mb_campaigns mb)(pb_next pb \<mapsto> legacy_campaign (pe_now env) p)\<rparr>))"

text \<open>The refusal, or the campaign with the reservation made.\<close>

definition reserve_for_redemption ::
  "'j promo_env \<Rightarrow> promo_code \<Rightarrow> int \<Rightarrow> decimal \<Rightarrow> 'j service_zone option \<Rightarrow> promo_tables \<Rightarrow> money_books
     \<Rightarrow> promo_error + (string + campaign_link) \<times> promo_tables \<times> money_books" where
  "reserve_for_redemption env p u discount zone pb0 mb0 =
     (let (k, pb, mb) = ensure_campaign env p pb0 mb0 in
      case mb_campaigns mb (ck_campaign k) of
        None \<Rightarrow> Inl PromoNoCampaign
      | Some c \<Rightarrow>
          if cp_state c \<noteq> CP_LIVE then Inr (Inl ''PROMO_NOT_FOUND'', pb, mb)
          else if \<not> in_place k zone then Inr (Inl ''PROMO_WRONG_ZONE'', pb, mb)
          else if ck_new_riders k \<and> pe_completed env u then Inr (Inl ''PROMO_NEW_RIDERS_ONLY'', pb, mb)
          else bind_res (lift_promo (minor_of discount (pc_currency p))) (\<lambda>m.
            case reserve m c of
              Inl BudgetExhausted \<Rightarrow> Inr (Inl ''PROMO_BUDGET_EXHAUSTED'', pb, mb)
            | Inl _ \<Rightarrow> Inr (Inl ''PROMO_NOT_FOUND'', pb, mb)
            | Inr c' \<Rightarrow> Inr (Inr k, pb, mb\<lparr>mb_campaigns := (mb_campaigns mb)(ck_campaign k \<mapsto> c')\<rparr>)))"

section \<open>Applying and redeeming\<close>

record promo_ok =
  po_code :: string
  po_currency :: string
  po_discount :: decimal
  po_final :: decimal
  po_tax :: "decimal option"
  po_relief :: "decimal option"

definition promo_result ::
  "promo_code \<Rightarrow> decimal \<times> decimal \<times> promo_amounts option \<Rightarrow> money_error + promo_ok" where
  "promo_result p = (\<lambda>(discount, final, adj). bind_res (quant discount (pc_currency p)) (\<lambda>d.
     Inr \<lparr> po_code = pc_code p, po_currency = pc_currency p, po_discount = d, po_final = final, po_tax = map_option pa_tax adj,
           po_relief = map_option pa_relief adj \<rparr>))"

definition apply_promo ::
  "'j promo_env \<Rightarrow> string \<Rightarrow> int \<Rightarrow> decimal \<Rightarrow> 'j service_zone option \<Rightarrow> tax_arg \<Rightarrow> promo_tables \<Rightarrow> money_books
     \<Rightarrow> promo_error + (string + promo_ok)" where
  "apply_promo env code u fare zone tax pb mb =
     (case find (\<lambda>p. py_lower (pc_code p) = py_lower (py_strip code) \<and> pc_active p) (pb_codes pb) of
        None \<Rightarrow> Inr (Inl ''PROMO_NOT_FOUND'')
      | Some p \<Rightarrow>
          bind_res (lift_promo (code_refusal p u fare zone (pe_now env) pb (mb_redemptions mb))) (\<lambda>why.
          if why \<noteq> [] then Inr (Inl why)
          else bind_res (lift_promo (bind_res (compute_discount p fare) (\<lambda>raw. bind_res (tax_adjust env p zone fare raw tax)
                 (\<lambda>adj. Inr (case adj of Some a \<Rightarrow> pa_discount a | None \<Rightarrow> raw))))) (\<lambda>asked.
            bind_res (preview_refusal env p u asked zone pb mb) (\<lambda>why2.
            if why2 \<noteq> [] then Inr (Inl why2)
            else bind_res (lift_promo (bind_res (discounted env p zone fare tax) (promo_result p))) (\<lambda>ok. Inr (Inr ok))))))"

text \<open>\<open>trip\<close> is the id and the derived currency of the trip that was booked.\<close>

definition redeem_promo ::
  "'j promo_env \<Rightarrow> string \<Rightarrow> int \<Rightarrow> int \<times> string option \<Rightarrow> decimal \<Rightarrow> 'j service_zone option \<Rightarrow> tax_arg
     \<Rightarrow> promo_tables \<Rightarrow> money_books \<Rightarrow> promo_error + (string + promo_ok) \<times> promo_tables \<times> money_books" where
  "redeem_promo env code u trip fare zone tax pb mb = (case find_code code pb of
      None \<Rightarrow> Inr (Inl ''PROMO_NOT_FOUND'', pb, mb)
    | Some p \<Rightarrow>
        if \<not> pc_active p then Inr (Inl ''PROMO_NOT_FOUND'', pb, mb)
        else bind_res (lift_promo (code_refusal p u fare zone (pe_now env) pb (mb_redemptions mb))) (\<lambda>why.
        if why \<noteq> [] then Inr (Inl why, pb, mb)
        else bind_res (lift_promo (discounted env p zone fare tax)) (\<lambda>d.
        bind_res (reserve_for_redemption env p u (fst d) zone pb mb) (\<lambda>(r, pb1, mb1).
          case r of
            Inl why \<Rightarrow> Inr (Inl why, pb1, mb1)
          | Inr k \<Rightarrow> bind_res (lift_promo (promo_result p d)) (\<lambda>ok.
              bind_res (lift_promo (minor_of (po_discount ok) (pc_currency p))) (\<lambda>m.
              let i = pb_next pb1 in
              Inr (Inr ok,
                pb1\<lparr>pb_claims := \<lparr> cl_redemption = i, cl_code = pc_id p, cl_user = u \<rparr> # pb_claims pb1,
                    pb_next := i + 1,
                    pb_codes := map (\<lambda>q. if pc_id q = pc_id p then q\<lparr>pc_count := pc_count q + 1\<rparr> else q) (pb_codes pb1)\<rparr>,
                mb1\<lparr>mb_redemptions := \<lparr> pr_id = i, pr_trip = fst trip, pr_amount = m,
                      pr_currency = stamp_currency (pc_currency p) (snd trip), pr_campaign = Some (ck_campaign k),
                      pr_state = PR_COMMITTED \<rparr> # mb_redemptions mb1\<rparr>)))))))"

text \<open>The trip's own fare drops by the tax that is no longer charged.\<close>

definition relieved_fare :: "promo_ok \<Rightarrow> int option \<Rightarrow> promo_error + int option" where
  "relieved_fare ok estimated = (case po_relief ok of
      None \<Rightarrow> Inr estimated
    | Some r \<Rightarrow> if dec_le r (Dec 0 0) then Inr estimated
        else bind_res (lift_promo (minor_of r (po_currency ok))) (\<lambda>m. Inr (Some (max 0 (null_int estimated - m)))))"

fun best_auto ::
  "'j promo_env \<Rightarrow> int \<Rightarrow> decimal \<Rightarrow> 'j service_zone option \<Rightarrow> tax_arg \<Rightarrow> promo_tables \<Rightarrow> money_books
     \<Rightarrow> promo_ok option \<Rightarrow> campaign_link list \<Rightarrow> promo_error + promo_ok option" where
  "best_auto env u fare zone tax pb mb best [] = Inr best"
| "best_auto env u fare zone tax pb mb best (k # ks) =
     (case (mb_campaigns mb (ck_campaign k), find (\<lambda>p. pc_id p = ck_code k) (pb_codes pb)) of
        (Some c, Some p) \<Rightarrow>
          if cp_kind c = RIDER_PROMO \<and> cp_state c = CP_LIVE \<and> \<not> ck_legacy k \<and> ck_auto k
          then bind_res (apply_promo env (pc_code p) u fare zone tax pb mb) (\<lambda>r.
            best_auto env u fare zone tax pb mb (case r of
                Inl _ \<Rightarrow> best
              | Inr ok \<Rightarrow> (case best of None \<Rightarrow> Some ok
                  | Some b \<Rightarrow> if dec_lt (po_discount b) (po_discount ok) then Some ok else best)) ks)
          else best_auto env u fare zone tax pb mb best ks
      | _ \<Rightarrow> best_auto env u fare zone tax pb mb best ks)"

definition book_promo ::
  "'j promo_env \<Rightarrow> int \<Rightarrow> int \<times> string option \<Rightarrow> decimal \<Rightarrow> 'j service_zone option \<Rightarrow> string \<Rightarrow> tax_arg
     \<Rightarrow> promo_tables \<Rightarrow> money_books \<Rightarrow> promo_error + promo_ok option \<times> promo_tables \<times> money_books" where
  "book_promo env u trip fare zone asked tax pb mb =
     bind_res (if py_strip asked \<noteq> [] then Inr (Some (py_strip asked))
         else bind_res (best_auto env u fare zone tax pb mb None (pb_links pb)) (\<lambda>b. Inr (map_option po_code b))) (\<lambda>code.
     case code of
       None \<Rightarrow> Inr (None, pb, mb)
     | Some c \<Rightarrow> bind_res (redeem_promo env c u trip fare zone tax pb mb) (\<lambda>(r, pb', mb').
         case r of
           Inr ok \<Rightarrow> Inr (Some ok, pb', mb')
         | Inl why \<Rightarrow> if py_strip asked \<noteq> [] then Inl (PromoAsked why) else Inr (None, pb', mb')))"

section \<open>Giving a reservation back, or moving it\<close>

definition drop_count :: "int \<Rightarrow> promo_tables \<Rightarrow> promo_tables" where
  "drop_count rid pb = (case find (\<lambda>c. cl_redemption c = rid) (pb_claims pb) of
      None \<Rightarrow> pb
    | Some c \<Rightarrow> pb\<lparr>pb_codes := map (\<lambda>q. if pc_id q = cl_code c \<and> 0 < pc_count q then q\<lparr>pc_count := pc_count q - 1\<rparr> else q)
         (pb_codes pb)\<rparr>)"

definition set_redemption :: "int \<Rightarrow> (redemption \<Rightarrow> redemption) \<Rightarrow> money_books \<Rightarrow> money_books" where
  "set_redemption i f mb = mb\<lparr>mb_redemptions := map (\<lambda>r. if pr_id r = i then f r else r) (mb_redemptions mb)\<rparr>"

fun release_each ::
  "int \<Rightarrow> redemption list \<Rightarrow> promo_tables \<Rightarrow> money_books \<Rightarrow> promo_error + promo_tables \<times> money_books" where
  "release_each now [] pb mb = Inr (pb, mb)"
| "release_each now (r # rs) pb mb =
     bind_res (case pr_campaign r of
         None \<Rightarrow> Inr mb
       | Some cid \<Rightarrow> (case mb_campaigns mb cid of
           None \<Rightarrow> Inl PromoNoCampaign
         | Some c \<Rightarrow> (case release now (pr_amount r) c of
             Inl e \<Rightarrow> Inl (PromoBudget e)
           | Inr c' \<Rightarrow> Inr (mb\<lparr>mb_campaigns := (mb_campaigns mb)(cid \<mapsto> c')\<rparr>)))) (\<lambda>mb1.
     release_each now rs (drop_count (pr_id r) pb) (set_redemption (pr_id r) (\<lambda>q. q\<lparr>pr_state := PR_RELEASED\<rparr>) mb1))"

definition release_for_trip :: "int \<Rightarrow> int \<Rightarrow> promo_tables \<Rightarrow> money_books \<Rightarrow> promo_error + promo_tables \<times> money_books" where
  "release_for_trip now trip pb mb =
     release_each now (filter (\<lambda>r. pr_trip r = trip \<and> pr_state r = PR_COMMITTED) (mb_redemptions mb)) pb mb"

definition code_of_redemption :: "promo_tables \<Rightarrow> redemption \<Rightarrow> promo_code option" where
  "code_of_redemption pb r = (case find (\<lambda>c. cl_redemption c = pr_id r) (pb_claims pb) of
      None \<Rightarrow> None | Some c \<Rightarrow> find (\<lambda>p. pc_id p = cl_code c) (pb_codes pb))"

definition operator_end_discount_minor_one :: "promo_tables \<Rightarrow> int \<Rightarrow> redemption \<Rightarrow> promo_error + int" where
  "operator_end_discount_minor_one pb capped r = (case code_of_redemption pb r of
      None \<Rightarrow> Inl PromoNoCampaign
    | Some p \<Rightarrow> lift_promo (bind_res (major_of capped (pc_currency p)) (\<lambda>fare.
        bind_res (payable_discount p fare) (\<lambda>d. minor_of d (pc_currency p)))))"

fun discounts_of :: "promo_tables \<Rightarrow> int \<Rightarrow> redemption list \<Rightarrow> promo_error + int" where
  "discounts_of pb capped [] = Inr 0"
| "discounts_of pb capped (r # rs) = bind_res (operator_end_discount_minor_one pb capped r) (\<lambda>m.
     bind_res (discounts_of pb capped rs) (\<lambda>total. Inr (m + total)))"

definition operator_end_discount_minor :: "promo_tables \<Rightarrow> money_books \<Rightarrow> int \<Rightarrow> int \<Rightarrow> promo_error + int" where
  "operator_end_discount_minor pb mb trip capped =
     bind_res (discounts_of pb capped (filter (\<lambda>r. pr_trip r = trip \<and> held_redemption r) (mb_redemptions mb)))
       (\<lambda>total. Inr (min total capped))"

fun rework_each ::
  "promo_tables \<Rightarrow> int \<Rightarrow> int option \<Rightarrow> redemption list \<Rightarrow> money_books \<Rightarrow> promo_error + money_books" where
  "rework_each pb capped left [] mb = Inr mb"
| "rework_each pb capped left (r # rs) mb =
     bind_res (operator_end_discount_minor_one pb capped r) (\<lambda>one.
     let new = (case left of None \<Rightarrow> min one capped | Some l \<Rightarrow> min (min one capped) l);
         left' = map_option (\<lambda>l. l - new) left
     in bind_res (case pr_campaign r of
           None \<Rightarrow> Inr mb
         | Some cid \<Rightarrow> if new = pr_amount r then Inr mb
             else (case mb_campaigns mb cid of
                 None \<Rightarrow> Inl PromoNoCampaign
               | Some c \<Rightarrow> Inr (mb\<lparr>mb_campaigns := (mb_campaigns mb)(cid \<mapsto> adjust_reservation (pr_amount r) new c)\<rparr>))) (\<lambda>mb1.
       rework_each pb capped left' rs (set_redemption (pr_id r) (\<lambda>q. q\<lparr>pr_amount := new\<rparr>) mb1)))"

definition apply_operator_end ::
  "int \<Rightarrow> int \<Rightarrow> int \<Rightarrow> string \<Rightarrow> int option \<Rightarrow> promo_tables \<Rightarrow> money_books \<Rightarrow> promo_error + promo_tables \<times> money_books" where
  "apply_operator_end now trip capped rule plan_discount pb mb =
     (if rule = ''platform_funded'' then release_for_trip now trip pb mb
      else bind_res (rework_each pb capped plan_discount
        (filter (\<lambda>r. pr_trip r = trip \<and> pr_state r = PR_COMMITTED) (mb_redemptions mb)) mb) (\<lambda>mb'. Inr (pb, mb')))"

end
