(* ===== verification/Trips.thy ===== *)
theory Trips
  imports RiderPromos Fatigue
begin

text \<open>
  The life of a trip: the socket handlers of \<open>servers/consumers.py\<close> (accept, the status machine, cash,
  the command acknowledgements), the cancellations of \<open>servers/ride/views.py\<close>, \<open>ride/tasks.py\<close> and
  \<open>ride/admin_trips.py\<close>, the payment made and the refund asked for in \<open>ride/utils.py\<close>, the rider paying
  from the wallet (\<open>rider/trip_wallet_payment.py\<close>), and the booking that is sent twice
  (\<open>_create_trip\<close>).

  A trip extends the ride a settlement reads; a driver is named by the id of their user. The
  tables are one state: trips, drivers, payments, operator refunds, both ledgers, sessions,
  cancellations and the cache entry that counts wrong codes. \<open>Inl\<close> of an
  operation is the exception that rolls its transaction back. What the gateway, the configuration
  and the clock answer is the record \<open>ride_env\<close>. Notifications, pushes, receipts, Redis and the
  tasks queued for after the commit are not modelled.
\<close>

section \<open>Rows\<close>

datatype trip_status = TS_REQUESTED | TS_ACCEPTED | TS_REACHED | TS_IN_PROGRESS | TS_COMPLETED | TS_CANCELLED

record 'j trip_row = "'j ride" +
  tr_rider :: int
  tr_status :: trip_status
  tr_vehicle :: "int option"
  tr_otp :: "string option"
  tr_accepted_at :: "int option"
  tr_reached_at :: "int option"
  tr_started_at :: "int option"
  tr_completed_at :: "int option"
  tr_cancelled_at :: "int option"
  tr_cancelled_by :: string
  tr_cancel_reason :: string
  tr_cancel_fee :: int
  tr_payment_status :: "string option"
  tr_request_key :: "string option"
  tr_surge :: decimal
  tr_end_reason :: string
  tr_funded :: "int option"

datatype payment_state = PS_PENDING | PS_PROCESSING | PS_COMPLETED | PS_FAILED | PS_REFUNDED

record trip_payment =
  py_id :: int
  py_trip :: int
  py_user :: int
  py_currency :: string
  py_amount :: int
  py_method :: string
  py_status :: payment_state
  py_gateway :: string
  py_gateway_payment :: "string option"
  py_replaced_by :: "int option"
  py_switch :: "string option"

datatype action_state = MA_COMPLETED | MA_PENDING_GATEWAY | MA_RECORDED

record money_action =
  ma_trip :: int
  ma_refund :: bool
  ma_amount :: int
  ma_currency :: string
  ma_method :: string
  ma_state :: action_state

record paid_line =
  pl_trip :: int
  pl_rider :: int
  pl_driver :: int
  pl_currency :: string
  pl_amount :: int
  pl_method :: string

text \<open>Rows newest first, but the trips in the order of their ids.\<close>

record 'j ride_db =
  db_trips :: "'j trip_row list"
  db_drivers :: "int \<rightharpoonup> driver_row"
  db_payments :: "trip_payment list"
  db_actions :: "money_action list"
  db_money :: money_books
  db_promos :: promo_tables
  db_riders :: rider_books
  db_paid :: "paid_line list"
  db_sessions :: "driver_session list"
  db_cancels :: "cancellation list"
  db_attempts :: "int \<rightharpoonup> nat \<times> int"
  db_expenses :: "(int \<times> int \<times> string) list"

datatype refund_answer = RefundMade | RefundRefused | RefundRaised

record 'j ride_env =
  en_market :: "'j trip_row \<Rightarrow> 'j market"
  en_deployment :: deployment
  en_now :: int
  en_vehicle_type :: "int \<Rightarrow> int option"
  en_provider :: "'j trip_row \<Rightarrow> string option"
  en_first_wallet :: "int \<Rightarrow> string option"
  en_credit_cap :: decimal
  en_refund :: "string \<Rightarrow> string \<Rightarrow> int \<Rightarrow> string \<Rightarrow> refund_answer"

datatype trip_error = TripSettle settle_error | TripMoney money_error | TripIntegrity | GatewayRaised
  | TripPromo promo_error | TripCredit rider_error

definition find_trip :: "int \<Rightarrow> 'j ride_db \<Rightarrow> 'j trip_row option" where
  "find_trip i db = find (\<lambda>t. pt_id t = i) (db_trips db)"

definition save_trip :: "'j trip_row \<Rightarrow> 'j ride_db \<Rightarrow> 'j ride_db" where
  "save_trip t db = db\<lparr>db_trips := map (\<lambda>q. if pt_id q = pt_id t then t else q) (db_trips db)\<rparr>"

definition lift_trip :: "money_error + 'a \<Rightarrow> trip_error + 'a" where
  "lift_trip r = (case r of Inl e \<Rightarrow> Inl (TripMoney e) | Inr x \<Rightarrow> Inr x)"

section \<open>Accepting\<close>

definition DRIVER_ACTIVE_TRIP_STATUSES :: "trip_status list" where
  "DRIVER_ACTIVE_TRIP_STATUSES = [TS_ACCEPTED, TS_REACHED, TS_IN_PROGRESS]"

definition driver_active_trip_ids :: "int \<Rightarrow> int option \<Rightarrow> 'j ride_db \<Rightarrow> int list" where
  "driver_active_trip_ids d exclude db =
     map pt_id (filter (\<lambda>t. rd_driver t = Some d \<and> tr_status t \<in> set DRIVER_ACTIVE_TRIP_STATUSES
       \<and> exclude \<noteq> Some (pt_id t)) (db_trips db))"

datatype accept_refusal = TripMissing | TripTaken | TripGone trip_status | DriverMissing | NotApproved
  | DriverBlocked | NoVehicle | Fatigued | DriverAlreadyOnTrip

text \<open>The transaction takes two row locks: first the trip's, then the driver's. What is read under
  each is a step of its own; the writes come with the commit.\<close>

definition lock_trip :: "int \<Rightarrow> 'j ride_db \<Rightarrow> accept_refusal + 'j trip_row" where
  "lock_trip i db = (case find_trip i db of
      None \<Rightarrow> Inl TripMissing
    | Some t \<Rightarrow> if rd_driver t \<noteq> None then Inl TripTaken
        else if tr_status t \<noteq> TS_REQUESTED then Inl (TripGone (tr_status t)) else Inr t)"

definition lock_driver :: "'j ride_env \<Rightarrow> int \<Rightarrow> int \<Rightarrow> 'j ride_db \<Rightarrow> (accept_refusal + driver_row) \<times> 'j ride_db" where
  "lock_driver env d i db = (case db_drivers db d of
      None \<Rightarrow> (Inl DriverMissing, db)
    | Some row \<Rightarrow>
        if \<not> may_operate (en_deployment env) (Some row) then (Inl NotApproved, db)
        else if blocked row then (Inl DriverBlocked, db)
        else if dv_vehicle row = None then (Inl NoVehicle, db)
        else (let (st, row') = get_fatigue_status d (en_now env) (db_sessions db) row;
                  db' = db\<lparr>db_drivers := (db_drivers db)(d \<mapsto> row')\<rparr>
              in if fs_locked st then (Inl Fatigued, db')
                 else if driver_active_trip_ids d (Some i) db' \<noteq> [] then (Inl DriverAlreadyOnTrip, db')
                 else (Inr row', db')))"

definition assign_driver :: "'j ride_env \<Rightarrow> int \<Rightarrow> driver_row \<Rightarrow> string \<Rightarrow> 'j trip_row \<Rightarrow> 'j ride_db \<Rightarrow> 'j ride_db" where
  "assign_driver env d row otp t db =
     save_trip (t\<lparr>rd_driver := Some d, tr_status := TS_ACCEPTED, tr_accepted_at := Some (en_now env),
       tr_vehicle := dv_vehicle row,
       pt_vehicle_vt := (case dv_vehicle row of None \<Rightarrow> None | Some v \<Rightarrow> en_vehicle_type env v),
       tr_otp := Some otp\<rparr>) db"

definition accept_trip :: "'j ride_env \<Rightarrow> int \<Rightarrow> int \<Rightarrow> string \<Rightarrow> 'j ride_db \<Rightarrow> (accept_refusal + unit) \<times> 'j ride_db" where
  "accept_trip env d i otp db = (case lock_trip i db of
      Inl e \<Rightarrow> (Inl e, db)
    | Inr t \<Rightarrow> (case lock_driver env d i db of
        (Inl e, db') \<Rightarrow> (Inl e, db')
      | (Inr row, db') \<Rightarrow> (Inr (), assign_driver env d row otp t db')))"

section \<open>What the rider is charged at completion\<close>

text \<open>The currency a row of the trip derives, and a money column of the trip.\<close>

definition trip_derive :: "'j trip_row \<Rightarrow> string option" where
  "trip_derive t = (if \<not> falsy (rd_currency t) then Some (normalize_currency (rd_currency t) None)
     else case pt_zone t of None \<Rightarrow> None
       | Some z \<Rightarrow> if sz_currency z = [] then None else Some (normalize_currency (Some (sz_currency z)) None))"

definition trip_amount :: "'j trip_row \<Rightarrow> int option \<Rightarrow> money_error + decimal option" where
  "trip_amount t m = fst (amount_get \<lparr> mr_currency = (case rd_currency t of None \<Rightarrow> [] | Some c \<Rightarrow> c),
     mr_derive = (case pt_zone t of None \<Rightarrow> None | Some z \<Rightarrow> Some (sz_currency z)), mr_minor = m \<rparr>)"

definition payable :: "'j ride_db \<Rightarrow> 'j trip_row \<Rightarrow> trip_error + decimal" where
  "payable db t = bind_res (lift_trip (from_minor (VInt (payable_minor (mb_redemptions (db_money db)) (ride.truncate t)))
       (Some (ride_currency (ride.truncate t)))))
     (\<lambda>d. case d of None \<Rightarrow> Inl (TripMoney MoneyTypeError) | Some x \<Rightarrow> Inr x)"

definition next_payment_id :: "'j ride_db \<Rightarrow> int" where
  "next_payment_id db = Max (insert 0 (py_id ` set (db_payments db))) + 1"

text \<open>\<open>Payment.objects.create\<close>: the amount is converted with the currency the row derives from the
  trip, and the database admits one completed payment of a trip.\<close>

definition create_payment ::
  "'j trip_row \<Rightarrow> decimal \<Rightarrow> string \<Rightarrow> payment_state \<Rightarrow> string \<Rightarrow> 'j ride_db \<Rightarrow> trip_error + 'j ride_db" where
  "create_payment t amount method status gateway db =
     bind_res (lift_trip (amount_set (VDec (Finite amount)) \<lparr> mr_currency = [], mr_derive = trip_derive t, mr_minor = None \<rparr>)) (\<lambda>r.
     case mr_minor r of None \<Rightarrow> Inl TripIntegrity
     | Some m \<Rightarrow>
         if status = PS_COMPLETED \<and> list_ex (\<lambda>p. py_trip p = pt_id t \<and> py_status p = PS_COMPLETED) (db_payments db)
         then Inl TripIntegrity
         else Inr (db\<lparr>db_payments := \<lparr> py_id = next_payment_id db, py_trip = pt_id t, py_user = tr_rider t,
             py_currency = stamp_currency (mr_currency r) (trip_derive t), py_amount = m, py_method = method,
             py_status = status, py_gateway = gateway, py_gateway_payment = None, py_replaced_by = None,
             py_switch = None \<rparr> # db_payments db\<rparr>))"

definition settle_trip :: "'j ride_env \<Rightarrow> 'j trip_row \<Rightarrow> 'j ride_db \<Rightarrow> trip_error + 'j ride_db" where
  "settle_trip env t db = (case settle_or_defer (en_market env t) (ride.truncate t) (db_money db) of
      Inl e \<Rightarrow> Inl (TripSettle e)
    | Inr (_, m) \<Rightarrow> Inr (db\<lparr>db_money := m\<rparr>))"

definition trip_context :: "'j ride_env \<Rightarrow> 'j ride_db \<Rightarrow> row_context" where
  "trip_context env db = \<lparr> rc_trip_currency = (\<lambda>i. case find_trip i db of None \<Rightarrow> None | Some t \<Rightarrow> rd_currency t),
     rc_first_wallet = en_first_wallet env \<rparr>"

text \<open>The line of \<open>TransactionHistory\<close> of a wallet payment.\<close>

definition wallet_line :: "'j trip_row \<Rightarrow> int \<Rightarrow> decimal \<Rightarrow> 'j ride_db \<Rightarrow> trip_error + 'j ride_db" where
  "wallet_line t d amount db =
     bind_res (lift_trip (amount_set (VDec (Finite amount)) \<lparr> mr_currency = [], mr_derive = trip_derive t, mr_minor = None \<rparr>)) (\<lambda>r.
     case mr_minor r of None \<Rightarrow> Inl TripIntegrity
     | Some m \<Rightarrow> Inr (db\<lparr>db_paid := \<lparr> pl_trip = pt_id t, pl_rider = tr_rider t, pl_driver = d,
         pl_currency = stamp_currency (mr_currency r) (trip_derive t), pl_amount = m, pl_method = ''wallet'' \<rparr> # db_paid db\<rparr>))"

definition pay_at_completion ::
  "'j ride_env \<Rightarrow> 'j trip_row \<Rightarrow> decimal \<Rightarrow> 'j ride_db \<Rightarrow> trip_error + 'j trip_row \<times> 'j ride_db" where
  "pay_at_completion env t amount db =
     (case wallet_payment (trip_context env db) (tr_rider t) (VDec (Finite amount)) ''Trip payment'' (RefRide (pt_id t))
         (KeyTripPayment (pt_id t)) (db_riders db) of
        (NotCharged _, rb) \<Rightarrow> Inr (t\<lparr>tr_payment_status := Some ''failed''\<rparr>, db\<lparr>db_riders := rb\<rparr>)
      | (_, rb) \<Rightarrow>
          let t' = t\<lparr>tr_payment_status := Some ''completed''\<rparr> in
          bind_res (create_payment t amount ''wallet'' PS_COMPLETED ''cashfree'' (db\<lparr>db_riders := rb\<rparr>)) (\<lambda>db1.
          bind_res (case rd_driver t of None \<Rightarrow> Inr db1 | Some d \<Rightarrow> wallet_line t d amount db1) (\<lambda>db2.
          bind_res (settle_trip env t' db2) (\<lambda>db3. Inr (t', db3)))))"

text \<open>The trip as the function leaves it, and the tables.\<close>

definition create_payment_on_complete ::
  "'j ride_env \<Rightarrow> 'j trip_row \<Rightarrow> 'j ride_db \<Rightarrow> trip_error + 'j trip_row \<times> 'j ride_db" where
  "create_payment_on_complete env t db =
     (if list_ex (\<lambda>p. py_trip p = pt_id t) (db_payments db) then Inr (t, db)
      else bind_res (payable db t) (\<lambda>amount.
        let pending = t\<lparr>tr_payment_status := Some ''pending''\<rparr>;
            method = (if rd_method t = [] then ''deferred'' else rd_method t)
        in if coef amount = 0 \<and> discount_minor (mb_redemptions (db_money db)) (ride.truncate t) \<noteq> 0
             \<and> 0 < fare_minor (ride.truncate t)
           then (let t' = t\<lparr>tr_payment_status := Some ''completed''\<rparr>
                 in bind_res (settle_trip env t' db) (\<lambda>db'. Inr (t', db')))
           else if coef amount = 0 then Inr (t, db)
           else if method = ''deferred''
           then bind_res (create_payment t amount ''deferred'' PS_PENDING ''cashfree'' db) (\<lambda>db'. Inr (pending, db'))
           else if method = ''cash''
           then bind_res (create_payment t amount ''cash'' PS_PENDING ''cashfree'' db) (\<lambda>db1.
                bind_res (settle_trip env pending db1) (\<lambda>db2. Inr (pending, db2)))
           else if method = ''wallet'' then pay_at_completion env t amount db
           else bind_res (create_payment t amount ''online'' PS_PENDING
                  (case en_provider env t of None \<Rightarrow> [] | Some p \<Rightarrow> p) db) (\<lambda>db'. Inr (pending, db'))))"

section \<open>What a cancelled trip gives back\<close>

definition paid_minor :: "'j trip_row \<Rightarrow> 'j ride_db \<Rightarrow> int" where
  "paid_minor t db =
     (let paid = sum_by py_amount (filter (\<lambda>p. py_trip p = pt_id t \<and> py_status p = PS_COMPLETED
         \<and> Some (py_currency p) = rd_currency t) (db_payments db))
      in if paid \<noteq> 0 then paid
         else if py_lower (case tr_payment_status t of None \<Rightarrow> [] | Some s \<Rightarrow> s) \<in> {''completed'', ''paid'', ''success''}
         then charged_fare (rd_final t) (rd_estimated t) else 0)"

definition refunded_minor :: "'j trip_row \<Rightarrow> 'j ride_db \<Rightarrow> int" where
  "refunded_minor t db = sum_by ma_amount
     (filter (\<lambda>a. ma_trip a = pt_id t \<and> ma_refund a \<and> Some (ma_currency a) = rd_currency t
       \<and> ma_state a \<in> {MA_COMPLETED, MA_PENDING_GATEWAY}) (db_actions db))"

definition refundable_minor :: "'j trip_row \<Rightarrow> 'j ride_db \<Rightarrow> int" where
  "refundable_minor t db = max 0 (paid_minor t db - refunded_minor t db)"

definition set_payment :: "int \<Rightarrow> (trip_payment \<Rightarrow> trip_payment) \<Rightarrow> 'j ride_db \<Rightarrow> 'j ride_db" where
  "set_payment i f db = db\<lparr>db_payments := map (\<lambda>p. if py_id p = i then f p else p) (db_payments db)\<rparr>"

text \<open>Whether a refund was made, the trip and the tables.\<close>

definition process_refund_on_cancel ::
  "'j ride_env \<Rightarrow> 'j trip_row \<Rightarrow> 'j ride_db \<Rightarrow> trip_error + bool \<times> 'j trip_row \<times> 'j ride_db" where
  "process_refund_on_cancel env t db =
     (case find (\<lambda>p. py_trip p = pt_id t \<and> py_method p = ''online'' \<and> py_status p = PS_COMPLETED) (db_payments db) of
        None \<Rightarrow> Inr (False, t, db)
      | Some p \<Rightarrow> (case py_gateway_payment p of
          None \<Rightarrow> Inr (False, t, db)
        | Some g \<Rightarrow>
            let m = min (py_amount p) (refundable_minor t db) in
            if g = [] \<or> m \<le> 0 then Inr (False, t, db)
            else (case en_refund env (if py_gateway p = [] then ''cashfree'' else py_gateway p) g m (py_currency p) of
                RefundRaised \<Rightarrow> Inl GatewayRaised
              | RefundRefused \<Rightarrow> Inr (False, t, db)
              | RefundMade \<Rightarrow> Inr (True, t\<lparr>tr_payment_status := Some ''refunded''\<rparr>,
                  set_payment (py_id p) (\<lambda>p. p\<lparr>py_status := PS_REFUNDED\<rparr>) db))))"

section \<open>The status machine\<close>

definition allowed_transitions :: "trip_status \<Rightarrow> trip_status list option" where
  "allowed_transitions target = (case target of
      TS_REACHED \<Rightarrow> Some [TS_ACCEPTED]
    | TS_IN_PROGRESS \<Rightarrow> Some [TS_ACCEPTED, TS_REACHED]
    | TS_COMPLETED \<Rightarrow> Some [TS_IN_PROGRESS]
    | TS_CANCELLED \<Rightarrow> Some [TS_REQUESTED, TS_ACCEPTED, TS_REACHED, TS_IN_PROGRESS]
    | _ \<Rightarrow> None)"

datatype update_refusal = NoSuchTrip | AlreadyInTarget trip_status | InvalidTransition trip_status
  | TripAlreadyCompleted trip_status | InvalidOtp trip_status | UpdateRaised trip_error

text \<open>\<open>str(trip.otp)\<close>.\<close>

definition otp_text :: "'j trip_row \<Rightarrow> string" where
  "otp_text t = (case tr_otp t of None \<Rightarrow> ''None'' | Some s \<Rightarrow> s)"

definition check_transition :: "'j trip_row \<Rightarrow> trip_status \<Rightarrow> string \<Rightarrow> update_refusal + unit" where
  "check_transition t target otp =
     (let current = tr_status t in
      if (case allowed_transitions target of None \<Rightarrow> False | Some from \<Rightarrow> current \<notin> set from)
      then Inl (if current = target then AlreadyInTarget current else InvalidTransition current)
      else if target = TS_CANCELLED \<and> current \<in> {TS_COMPLETED, TS_CANCELLED}
      then Inl (if current = TS_CANCELLED then AlreadyInTarget current else TripAlreadyCompleted current)
      else if target = TS_IN_PROGRESS \<and> otp_text t \<noteq> otp then Inl (InvalidOtp current)
      else Inr ())"

text \<open>\<open>final_fare or estimated_fare\<close>, as the text of the notification.\<close>

definition fare_text :: "'j trip_row \<Rightarrow> trip_error + string" where
  "fare_text t =
     bind_res (lift_trip (trip_amount t (rd_final t))) (\<lambda>final.
     bind_res (if (case final of None \<Rightarrow> True | Some d \<Rightarrow> coef d = 0) then lift_trip (trip_amount t (rd_estimated t)) else Inr final) (\<lambda>fare.
     lift_trip (format_money (of_dec fare) (Some (ride_currency (ride.truncate t))) True)))"

definition count_trip :: "'j trip_row \<Rightarrow> 'j ride_db \<Rightarrow> 'j ride_db" where
  "count_trip t db = (case rd_driver t of None \<Rightarrow> db
     | Some d \<Rightarrow> db\<lparr>db_drivers := (db_drivers db)(d := map_option (\<lambda>r. r\<lparr>dv_trips := dv_trips r + 1\<rparr>) (db_drivers db d))\<rparr>)"

definition complete_trip :: "'j ride_env \<Rightarrow> 'j trip_row \<Rightarrow> 'j ride_db \<Rightarrow> trip_error + 'j trip_row \<times> 'j ride_db" where
  "complete_trip env t db =
     bind_res (create_payment_on_complete env (t\<lparr>tr_completed_at := Some (en_now env)\<rparr>) db) (\<lambda>(t', db').
     bind_res (fare_text t') (\<lambda>_. Inr (t', count_trip t' db')))"

definition cancel_trip ::
  "'j ride_env \<Rightarrow> string \<Rightarrow> string \<Rightarrow> 'j trip_row \<Rightarrow> 'j ride_db \<Rightarrow> trip_error + 'j trip_row \<times> 'j ride_db" where
  "cancel_trip env by reason t db =
     bind_res (process_refund_on_cancel env (t\<lparr>tr_cancelled_at := Some (en_now env),
       tr_cancelled_by := (if by = [] then ''system'' else by), tr_cancel_reason := reason\<rparr>) db) (\<lambda>r. Inr (snd r))"

definition update_trip_status ::
  "'j ride_env \<Rightarrow> int \<Rightarrow> trip_status \<Rightarrow> string \<Rightarrow> string \<Rightarrow> string \<Rightarrow> 'j ride_db \<Rightarrow> update_refusal + 'j ride_db" where
  "update_trip_status env i target otp by reason db =
     (case find_trip i db of
        None \<Rightarrow> Inl NoSuchTrip
      | Some t \<Rightarrow> bind_res (check_transition t target otp) (\<lambda>_.
          let t1 = t\<lparr>tr_status := target\<rparr> in
          case (case target of
                  TS_REACHED \<Rightarrow> Inr (t1\<lparr>tr_reached_at := Some (en_now env)\<rparr>, db)
                | TS_IN_PROGRESS \<Rightarrow> Inr (t1\<lparr>tr_started_at := Some (en_now env)\<rparr>, db)
                | TS_COMPLETED \<Rightarrow> complete_trip env t1 db
                | TS_CANCELLED \<Rightarrow> cancel_trip env by reason t1 db
                | _ \<Rightarrow> Inr (t1, db)) of
            Inl e \<Rightarrow> Inl (UpdateRaised e)
          | Inr (t2, db') \<Rightarrow> Inr (save_trip t2 db')))"

section \<open>Cash\<close>

datatype cash_refusal = CashNoTrip | CashNotCompleted trip_status | CashPaidOtherwise | CashNoPayment
  | CashPaymentFailed | CashRaised trip_error

text \<open>The answer says whether this call confirmed the payment.\<close>

definition confirm_cash_payment :: "'j ride_env \<Rightarrow> int \<Rightarrow> 'j ride_db \<Rightarrow> cash_refusal + bool \<times> 'j ride_db" where
  "confirm_cash_payment env i db = (case find_trip i db of
      None \<Rightarrow> Inl CashNoTrip
    | Some t \<Rightarrow>
        if tr_status t \<noteq> TS_COMPLETED then Inl (CashNotCompleted (tr_status t))
        else if rd_method t \<noteq> ''cash'' \<and> tr_payment_status t = Some ''completed'' then Inl CashPaidOtherwise
        else (case find (\<lambda>p. py_trip p = i \<and> py_method p = ''cash'') (db_payments db) of
            None \<Rightarrow> Inl CashNoPayment
          | Some p \<Rightarrow>
              if py_status p = PS_FAILED then Inl CashPaymentFailed
              else if py_status p = PS_COMPLETED then Inr (False, db)
              else if list_ex (\<lambda>q. py_trip q = i \<and> py_status q = PS_COMPLETED) (db_payments db)
              then Inl (CashRaised TripIntegrity)
              else (let t' = t\<lparr>tr_payment_status := Some ''completed''\<rparr>
                    in case settle_trip env t' (save_trip t' (set_payment (py_id p) (\<lambda>p. p\<lparr>py_status := PS_COMPLETED\<rparr>) db)) of
                         Inl e \<Rightarrow> Inl (CashRaised e) | Inr db' \<Rightarrow> Inr (True, db'))))"

section \<open>The other cancellations\<close>

datatype cancel_refusal = CancelInvalidReason | CancelForbidden | CancelInvalidState trip_status | CancelNotFound
  | CancelRaised trip_error

text \<open>\<open>f'{reason}: {note}'.strip(': ') if note else reason\<close>, cut to the column.\<close>

definition strip_chars :: "char list \<Rightarrow> string \<Rightarrow> string" where
  "strip_chars cs s = rev (dropWhile (\<lambda>c. c \<in> set cs) (rev (dropWhile (\<lambda>c. c \<in> set cs) s)))"

definition cancel_text :: "string \<Rightarrow> string \<Rightarrow> string" where
  "cancel_text reason note = take 255 (if note = [] then reason else strip_chars '': '' (reason @ '': '' @ note))"

definition set_cancelled :: "int \<Rightarrow> string \<Rightarrow> string \<Rightarrow> 'j trip_row \<Rightarrow> 'j trip_row" where
  "set_cancelled now by text t = t\<lparr>tr_status := TS_CANCELLED, tr_cancelled_at := Some now,
     tr_cancelled_by := by, tr_cancel_reason := text\<rparr>"

definition driver_cancel_trip ::
  "'j ride_env \<Rightarrow> int \<Rightarrow> int \<Rightarrow> string \<Rightarrow> string \<Rightarrow> 'j ride_db \<Rightarrow> cancel_refusal + cancel_penalty \<times> 'j ride_db" where
  "driver_cancel_trip env u i reason0 note0 db =
     (let reason = py_strip reason0; note = py_strip note0 in
      if reason \<notin> {''no_show'', ''vehicle_issue'', ''safety'', ''personal'', ''other''} then Inl CancelInvalidReason
      else case find_trip i db of
        None \<Rightarrow> Inl CancelNotFound
      | Some t \<Rightarrow>
          if rd_driver t \<noteq> Some u then Inl CancelForbidden
          else if tr_status t \<notin> {TS_ACCEPTED, TS_REACHED} then Inl (CancelInvalidState (tr_status t))
          else (case db_drivers db u of
              None \<Rightarrow> Inl (CancelRaised TripIntegrity)
            | Some row \<Rightarrow>
                let (pen, cs, row') = apply_cancellation_penalty u i reason note (en_now env) (db_cancels db) row
                in Inr (pen, (save_trip (set_cancelled (en_now env) ''driver'' (cancel_text reason note) t) db)
                     \<lparr>db_cancels := cs, db_drivers := (db_drivers db)(u \<mapsto> row')\<rparr>)))"

definition rider_cancel_trip ::
  "'j ride_env \<Rightarrow> int \<Rightarrow> int \<Rightarrow> string \<Rightarrow> string \<Rightarrow> 'j ride_db \<Rightarrow> cancel_refusal + 'j ride_db" where
  "rider_cancel_trip env u i reason0 note0 db =
     (let reason = py_strip reason0; note = py_strip note0 in
      if reason \<noteq> [] \<and> reason \<notin> {''no_show'', ''wrong_location'', ''too_long'', ''safety'', ''other''}
      then Inl CancelInvalidReason
      else case find_trip i db of
        None \<Rightarrow> Inl CancelNotFound
      | Some t \<Rightarrow>
          if tr_rider t \<noteq> u then Inl CancelForbidden
          else if tr_status t \<in> {TS_COMPLETED, TS_CANCELLED} then Inl (CancelInvalidState (tr_status t))
          else (case process_refund_on_cancel env (set_cancelled (en_now env) ''rider'' (cancel_text reason note) t) db of
              Inl e \<Rightarrow> Inl (CancelRaised e)
            | Inr (_, t', db') \<Rightarrow> Inr (save_trip t' db')))"

text \<open>The task that runs once, a fixed time after the booking: \<open>None\<close> when it stands down.\<close>

definition auto_cancel_trip :: "'j ride_env \<Rightarrow> int \<Rightarrow> 'j ride_db \<Rightarrow> 'j ride_db option" where
  "auto_cancel_trip env i db = (case find_trip i db of
      None \<Rightarrow> None
    | Some t \<Rightarrow>
        if rd_driver t \<noteq> None then None
        else if tr_status t \<in> {TS_COMPLETED, TS_CANCELLED, TS_ACCEPTED, TS_REACHED, TS_IN_PROGRESS} then None
        else Some (save_trip (set_cancelled (en_now env) ''system'' ''no_driver_accepted'' t) db))"

definition CANCELLABLE_STATUSES :: "trip_status list" where
  "CANCELLABLE_STATUSES = [TS_REQUESTED, TS_ACCEPTED, TS_REACHED]"

datatype operator_outcome = OpCancelled | OpAlreadyCancelled | OpNotCancellable | OpNotFound

text \<open>The refund of a stale release is best effort: an exception in it is logged.\<close>

definition operator_cancel ::
  "'j ride_env \<Rightarrow> int \<Rightarrow> string \<Rightarrow> string \<Rightarrow> bool \<Rightarrow> bool \<Rightarrow> 'j ride_db \<Rightarrow> operator_outcome \<times> 'j ride_db" where
  "operator_cancel env i code note waive stale db = (case find_trip i db of
      None \<Rightarrow> (OpNotFound, db)
    | Some t \<Rightarrow>
        if tr_status t = TS_CANCELLED \<and> tr_cancelled_by t = ''admin'' then (OpAlreadyCancelled, db)
        else if tr_status t \<notin> set CANCELLABLE_STATUSES then (OpNotCancellable, db)
        else (let t1 = set_cancelled (en_now env) ''admin'' (take 255 (if note = [] then code else code @ '': '' @ note)) t;
                  t2 = (if waive \<and> tr_cancel_fee t1 \<noteq> 0 then t1\<lparr>tr_cancel_fee := 0\<rparr> else t1)
              in (OpCancelled,
                  case (if stale then process_refund_on_cancel env t2 db else Inr (False, t2, db)) of
                    Inl _ \<Rightarrow> save_trip t2 db
                  | Inr (_, t3, db') \<Rightarrow> save_trip t3 db')))"

section \<open>The rider pays a completed trip from the wallet\<close>

datatype pay_refusal = TripRequired | InvalidAmountText | PayNotFound | PayInvalidState | AlreadyPaid | NotChargedTrip
  | NothingToPay | AmountMismatch | WalletNotFound | CurrencyMismatch | InsufficientBalance | PayRaised trip_error
  | PayRiderRaised rider_error

definition is_fully_covered :: "redemption list \<Rightarrow> 'j ride \<Rightarrow> bool" where
  "is_fully_covered rs t = (discount_minor rs t \<noteq> 0 \<and> 0 < fare_minor t \<and> payable_minor rs t = 0)"

definition not_charged :: "redemption list \<Rightarrow> 'j ride \<Rightarrow> bool" where
  "not_charged rs t = (rd_end_rule t = ''platform_funded'' \<or> is_fully_covered rs t)"

definition minor_res :: "pyval \<Rightarrow> string \<Rightarrow> pay_refusal + int" where
  "minor_res v currency = (case to_minor v (Some currency) of
      Inl e \<Rightarrow> Inl (PayRaised (TripMoney e)) | Inr None \<Rightarrow> Inl (PayRaised TripIntegrity) | Inr (Some m) \<Rightarrow> Inr m)"

text \<open>The other payments of the trip give way to the new one.\<close>

definition replace_payments :: "int \<Rightarrow> int \<Rightarrow> trip_payment list \<Rightarrow> trip_payment list" where
  "replace_payments i new ps =
     (let newest = map_option py_id (find (\<lambda>p. py_trip p = i) ps) in
      map (\<lambda>p. if py_trip p \<noteq> i then p
               else (let q = (if py_status p \<in> {PS_PENDING, PS_PROCESSING}
                              then p\<lparr>py_status := PS_FAILED, py_switch := Some ''user_requested''\<rparr> else p)
                     in if Some (py_id p) = newest \<and> py_replaced_by p = None then q\<lparr>py_replaced_by := Some new\<rparr> else q)) ps)"

definition charge_trip ::
  "'j ride_env \<Rightarrow> int \<Rightarrow> int \<Rightarrow> string \<Rightarrow> int \<Rightarrow> 'j ride_db \<Rightarrow> pay_refusal + 'j ride_db" where
  "charge_trip env u i currency m db = (case rb_wallets (db_riders db) u of
      None \<Rightarrow> Inl WalletNotFound
    | Some w \<Rightarrow>
        if wl_currency w \<noteq> [] \<and> wl_currency w \<noteq> currency then Inl CurrencyMismatch
        else if wl_balance w - held_minor (db_riders db) u (Some currency) < m then Inl InsufficientBalance
        else (case bigint (wl_balance w - m) of
            Inl e \<Rightarrow> Inl (PayRiderRaised e)
          | Inr b \<Rightarrow>
              if find_txn (KeyTripPayment i) (db_riders db) \<noteq> None then Inl (PayRiderRaised RiderIntegrity)
              else Inr (db\<lparr>db_riders := set_balance u w b ((db_riders db)\<lparr>rb_rows :=
                     payment_row (trip_context env db) u currency m ''Trip payment'' (RefRide i) (KeyTripPayment i)
                       # rb_rows (db_riders db)\<rparr>)\<rparr>)))"

definition pay_settlement ::
  "'j ride_env \<Rightarrow> 'j trip_row \<Rightarrow> int \<Rightarrow> string \<Rightarrow> 'j ride_db \<Rightarrow> pay_refusal + 'j ride_db" where
  "pay_settlement env t m currency db = (case current_settlement (pt_id t) (mb_settlements (db_money db)) of
      None \<Rightarrow> (case settle_trip env t db of Inl e \<Rightarrow> Inl (PayRaised e) | Inr db' \<Rightarrow> Inr db')
    | Some cur \<Rightarrow>
        if ts_method cur = ''cash''
        then (case settle_paid_by_platform (en_market env t) (ride.truncate t) m (Some currency) (db_money db) of
                Inl e \<Rightarrow> Inl (PayRaised (TripSettle e)) | Inr mb \<Rightarrow> Inr (db\<lparr>db_money := mb\<rparr>))
        else Inr db)"

text \<open>\<open>amount\<close> is what the client sent, if anything. The answer says whether this call charged.\<close>

definition pay_trip ::
  "'j ride_env \<Rightarrow> int \<Rightarrow> int option \<Rightarrow> pyval option \<Rightarrow> 'j ride_db \<Rightarrow> pay_refusal + bool \<times> 'j ride_db" where
  "pay_trip env u trip amount db = (case trip of
      None \<Rightarrow> Inl TripRequired
    | Some i \<Rightarrow> bind_res (case amount of None \<Rightarrow> Inr None
          | Some v \<Rightarrow> (case parse_input v of Inl _ \<Rightarrow> Inl InvalidAmountText | Inr d \<Rightarrow> Inr (Some d))) (\<lambda>client.
        case find_trip i db of
          None \<Rightarrow> Inl PayNotFound
        | Some t \<Rightarrow>
            if tr_rider t \<noteq> u then Inl PayNotFound
            else if tr_status t \<noteq> TS_COMPLETED then Inl PayInvalidState
            else if (case find_txn (KeyTripPayment i) (db_riders db) of None \<Rightarrow> False | Some r \<Rightarrow> rt_user r = u)
            then Inr (False, db)
            else if list_ex (\<lambda>p. py_trip p = i \<and> py_status p = PS_COMPLETED) (db_payments db)
              \<or> tr_payment_status t = Some ''completed'' then Inl AlreadyPaid
            else if not_charged (mb_redemptions (db_money db)) (ride.truncate t) then Inl NotChargedTrip
            else (let currency = ride_currency (ride.truncate t);
                      m = payable_minor (mb_redemptions (db_money db)) (ride.truncate t)
                  in if m \<le> 0 then Inl NothingToPay
                     else bind_res (case client of None \<Rightarrow> Inr m | Some d \<Rightarrow> minor_res (VDec (Finite d)) currency) (\<lambda>n.
                       if n \<noteq> m then Inl AmountMismatch
                       else bind_res (charge_trip env u i currency m db) (\<lambda>db1.
                         let new = next_payment_id db1;
                             row = \<lparr> py_id = new, py_trip = i, py_user = u,
                                     py_currency = stamp_currency currency (trip_derive t), py_amount = m,
                                     py_method = ''wallet'', py_status = PS_COMPLETED, py_gateway = ''cashfree'',
                                     py_gateway_payment = None, py_replaced_by = None, py_switch = None \<rparr>;
                             t' = t\<lparr>rd_method := ''wallet'', tr_payment_status := Some ''completed''\<rparr>
                         in bind_res (pay_settlement env t' m currency
                              (save_trip t' (db1\<lparr>db_payments := row # replace_payments i new (db_payments db1)\<rparr>)))
                              (\<lambda>db2. Inr (True, db2)))))))"

section \<open>The socket\<close>

datatype participation = P_RIDER | P_ASSIGNED | P_CANDIDATE | P_NONE

definition resolve_participation :: "'j ride_env \<Rightarrow> int \<Rightarrow> int \<Rightarrow> 'j ride_db \<Rightarrow> participation" where
  "resolve_participation env u i db = (case find_trip i db of
      None \<Rightarrow> P_NONE
    | Some t \<Rightarrow>
        if tr_rider t = u then P_RIDER
        else (case db_drivers db u of
            None \<Rightarrow> P_NONE
          | Some row \<Rightarrow> (case rd_driver t of
              Some d \<Rightarrow> if d = u then P_ASSIGNED else P_NONE
            | None \<Rightarrow>
                if tr_status t \<noteq> TS_REQUESTED then P_NONE
                else if \<not> may_operate (en_deployment env) (Some row) \<or> blocked row then P_NONE
                else P_CANDIDATE)))"

definition is_assigned_driver :: "int \<Rightarrow> int \<Rightarrow> 'j ride_db \<Rightarrow> bool" where
  "is_assigned_driver u i db = (case find_trip i db of None \<Rightarrow> False
     | Some t \<Rightarrow> db_drivers db u \<noteq> None \<and> rd_driver t = Some u)"

definition is_rider :: "int \<Rightarrow> int \<Rightarrow> 'j ride_db \<Rightarrow> bool" where
  "is_rider u i db = (case find_trip i db of None \<Rightarrow> False | Some t \<Rightarrow> tr_rider t = u)"

datatype trip_action = ACT_PING | ACT_ACCEPT | ACT_REACHED | ACT_START | ACT_COMPLETE | ACT_CANCEL | ACT_CONFIRM_CASH
  | ACT_UNKNOWN

text \<open>A frame: the code as text when it is truthy, the reason of a cancel as text.\<close>

record command =
  cm_action :: trip_action
  cm_otp :: "string option"
  cm_reason :: string

datatype command_ack = Pong | Committed "trip_status option" | AlreadyDone trip_status | Rejected string

definition TRIP_OTP_MAX_ATTEMPTS :: nat where
  "TRIP_OTP_MAX_ATTEMPTS = 5"

definition TRIP_OTP_ATTEMPT_TTL_SECONDS :: int where
  "TRIP_OTP_ATTEMPT_TTL_SECONDS = 5 * 60"

definition otp_attempts :: "int \<Rightarrow> int \<Rightarrow> 'j ride_db \<Rightarrow> nat" where
  "otp_attempts now i db = (case db_attempts db i of None \<Rightarrow> 0 | Some (n, expires) \<Rightarrow> if now < expires then n else 0)"

definition TARGET_STATUS :: "trip_action \<Rightarrow> trip_status option" where
  "TARGET_STATUS a = (case a of ACT_ACCEPT \<Rightarrow> Some TS_ACCEPTED | ACT_REACHED \<Rightarrow> Some TS_REACHED
     | ACT_START \<Rightarrow> Some TS_IN_PROGRESS | ACT_COMPLETE \<Rightarrow> Some TS_COMPLETED | ACT_CANCEL \<Rightarrow> Some TS_CANCELLED
     | _ \<Rightarrow> None)"

text \<open>The acknowledgement of a status update, by its \<open>reason\<close> code.\<close>

definition update_ack :: "trip_action \<Rightarrow> update_refusal + 'j ride_db \<Rightarrow> command_ack" where
  "update_ack a r = (case r of
      Inr _ \<Rightarrow> Committed (TARGET_STATUS a)
    | Inl (AlreadyInTarget c) \<Rightarrow> AlreadyDone c
    | Inl (InvalidTransition _) \<Rightarrow> Rejected ''invalid_transition''
    | Inl (TripAlreadyCompleted _) \<Rightarrow> Rejected ''trip_already_completed''
    | Inl (InvalidOtp _) \<Rightarrow> Rejected ''invalid_otp''
    | Inl _ \<Rightarrow> Rejected ''rejected'')"

definition start_trip :: "'j ride_env \<Rightarrow> int \<Rightarrow> string \<Rightarrow> 'j ride_db \<Rightarrow> command_ack \<times> 'j ride_db" where
  "start_trip env i otp db =
     (let attempts = otp_attempts (en_now env) i db in
      if attempts \<ge> TRIP_OTP_MAX_ATTEMPTS then (Rejected ''otp_attempts_exhausted'', db)
      else let r = update_trip_status env i TS_IN_PROGRESS otp [] [] db in
        (update_ack ACT_START r,
         case r of
           Inr db' \<Rightarrow> db'\<lparr>db_attempts := (db_attempts db')(i := None)\<rparr>
         | Inl (InvalidOtp _) \<Rightarrow> db\<lparr>db_attempts := (db_attempts db)(i \<mapsto>
             (attempts + 1, en_now env + TRIP_OTP_ATTEMPT_TTL_SECONDS * second))\<rparr>
         | Inl _ \<Rightarrow> db))"

definition accept_ack :: "accept_refusal + unit \<Rightarrow> command_ack" where
  "accept_ack r = (case r of
      Inr _ \<Rightarrow> Committed (Some TS_ACCEPTED)
    | Inl TripTaken \<Rightarrow> Rejected ''trip_taken''
    | Inl (TripGone _) \<Rightarrow> Rejected ''trip_taken''
    | Inl DriverAlreadyOnTrip \<Rightarrow> Rejected ''driver_already_on_trip''
    | Inl _ \<Rightarrow> Rejected ''rejected'')"

text \<open>One frame of the user \<open>u\<close> on the socket of trip \<open>i\<close>; \<open>part\<close> is what the socket was admitted as,
  \<open>otp\<close> the code an acceptance would draw.\<close>

definition receive ::
  "'j ride_env \<Rightarrow> int \<Rightarrow> int \<Rightarrow> participation \<Rightarrow> string \<Rightarrow> command \<Rightarrow> 'j ride_db
     \<Rightarrow> command_ack \<times> participation \<times> 'j ride_db" where
  "receive env u i part otp cmd db =
     (let a = cm_action cmd;
          update = (\<lambda>target by reason. let r = update_trip_status env i target [] by reason db
             in (update_ack a r, part, after db r))
      in case a of
        ACT_PING \<Rightarrow> (Pong, part, db)
      | ACT_UNKNOWN \<Rightarrow> (Rejected ''unknown_command'', part, db)
      | ACT_ACCEPT \<Rightarrow>
          if part \<notin> {P_CANDIDATE, P_ASSIGNED} then (Rejected ''not_a_driver'', part, db)
          else (let (r, db') = accept_trip env u i otp db
                in (accept_ack r, (case r of Inr _ \<Rightarrow> P_ASSIGNED | Inl _ \<Rightarrow> part), db'))
      | ACT_CANCEL \<Rightarrow>
          if \<not> is_rider u i db \<and> \<not> is_assigned_driver u i db then (Rejected ''not_authorised_to_cancel'', part, db)
          else update TS_CANCELLED (if is_rider u i db then ''rider'' else ''driver'') (take 255 (cm_reason cmd))
      | _ \<Rightarrow>
          if \<not> is_assigned_driver u i db then (Rejected ''not_assigned_driver'', part, db)
          else (case a of
              ACT_REACHED \<Rightarrow> update TS_REACHED [] []
            | ACT_START \<Rightarrow> (case cm_otp cmd of
                None \<Rightarrow> (Rejected ''otp_required'', part, db)
              | Some code \<Rightarrow> let (k, db') = start_trip env i code db in (k, part, db'))
            | ACT_COMPLETE \<Rightarrow> update TS_COMPLETED [] []
            | _ \<Rightarrow> (case confirm_cash_payment env i db of
                Inl _ \<Rightarrow> (Rejected ''rejected'', part, db)
              | Inr (_, db') \<Rightarrow> (Committed (map_option tr_status (find_trip i db')), part, db'))))"

section \<open>Booking\<close>

definition find_booking :: "int \<Rightarrow> string \<Rightarrow> 'j ride_db \<Rightarrow> 'j trip_row option" where
  "find_booking u key db = find (\<lambda>t. tr_rider t = u \<and> tr_request_key t = Some key) (db_trips db)"

definition next_trip_id :: "'j ride_db \<Rightarrow> int" where
  "next_trip_id db = Max (insert 0 (pt_id ` set (db_trips db))) + 1"

text \<open>The row \<open>Trip.objects.create\<close> writes: its fare is the quoted total, in the currency of the zone of
  the pickup. \<open>draft\<close> holds what the zone and the commission gave the booking.\<close>

definition zone_derive :: "'j service_zone option \<Rightarrow> string option" where
  "zone_derive zone = (case zone of None \<Rightarrow> None
     | Some z \<Rightarrow> if sz_currency z = [] then None else Some (normalize_currency (Some (sz_currency z)) None))"

definition new_trip ::
  "int \<Rightarrow> string \<Rightarrow> int \<Rightarrow> decimal \<Rightarrow> decimal \<Rightarrow> 'j ride \<Rightarrow> money_error + 'j trip_row" where
  "new_trip u key i fare surge draft =
     bind_res (amount_set (VDec (Finite fare)) \<lparr> mr_currency = [], mr_derive = zone_derive (pt_zone draft), mr_minor = None \<rparr>) (\<lambda>r.
       Inr (ride.extend (draft\<lparr>pt_id := i, pt_vehicle_vt := None, rd_driver := None, rd_end_rule := [], rd_final := None,
               rd_estimated := mr_minor r,
               rd_currency := Some (stamp_currency (mr_currency r) (zone_derive (pt_zone draft)))\<rparr>)
         (trip_row.fields u TS_REQUESTED None None None None None None None [] [] 0 None
            (if key = [] then None else Some key) surge [] None)))"

datatype booking_answer = Booked int | Reused int | PromoRefusal string | BookingFailed

text \<open>A booking: the rider, the client's key, what pricing gave it, the promo code and the tax of the quote.\<close>

record 'j booking =
  bk_rider :: int
  bk_key :: string
  bk_draft :: "'j ride"
  bk_fare :: decimal
  bk_surge :: decimal
  bk_promo :: string
  bk_tax :: tax_arg

definition booking_lookup :: "int \<Rightarrow> string \<Rightarrow> 'j ride_db \<Rightarrow> int option" where
  "booking_lookup u key db = (if key = [] then None else map_option pt_id (find_booking u key db))"

text \<open>The transaction: a key that is taken is the other request's trip, a promo that is refused takes the
  row back, and the promo may lower the fare by the tax that is no longer charged.\<close>

definition booking_insert :: "'j promo_env \<Rightarrow> 'j booking \<Rightarrow> 'j ride_db \<Rightarrow> booking_answer \<times> 'j ride_db" where
  "booking_insert env b db =
     (case booking_lookup (bk_rider b) (bk_key b) db of
        Some i \<Rightarrow> (Reused i, db)
      | None \<Rightarrow>
          let i = next_trip_id db in
          (case new_trip (bk_rider b) (bk_key b) i (bk_fare b) (bk_surge b) (bk_draft b) of
             Inl _ \<Rightarrow> (BookingFailed, db)
           | Inr t \<Rightarrow>
               (case bind_res (book_promo env (bk_rider b) (i, rd_currency t) (bk_fare b) (pt_zone t) (bk_promo b) (bk_tax b)
                       (db_promos db) (db_money db)) (\<lambda>(ok, pb, mb).
                     bind_res (case ok of None \<Rightarrow> Inr (rd_estimated t) | Some o' \<Rightarrow> relieved_fare o' (rd_estimated t))
                       (\<lambda>e. Inr (db\<lparr>db_trips := db_trips db @ [t\<lparr>rd_estimated := e\<rparr>], db_promos := pb, db_money := mb\<rparr>))) of
                  Inl (PromoAsked why) \<Rightarrow> (PromoRefusal why, db)
                | Inl _ \<Rightarrow> (BookingFailed, db)
                | Inr db' \<Rightarrow> (Booked i, db'))))"

text \<open>\<open>_create_trip\<close>: \<open>quoted\<close> is the booking once it is priced, or nothing when the area, the distance or
  the quote refuses it.\<close>

definition create_trip ::
  "'j promo_env \<Rightarrow> int \<Rightarrow> string \<Rightarrow> 'j booking option \<Rightarrow> 'j ride_db \<Rightarrow> booking_answer \<times> 'j ride_db" where
  "create_trip env u key quoted db = (case booking_lookup u key db of
      Some i \<Rightarrow> (Reused i, db)
    | None \<Rightarrow> (case quoted of None \<Rightarrow> (BookingFailed, db)
        | Some b \<Rightarrow> booking_insert env (b\<lparr>bk_rider := u, bk_key := key\<rparr>) db))"

end
