(* ===== verification/OperatorEnd.thy ===== *)
theory OperatorEnd
  imports Trips
begin

text \<open>
  Ending a started trip from the console (\<open>servers/ride/operator_end.py\<close>): the metered fare of the distance
  driven, its tax within the upfront price, the plan, and the plan applied. The distance and the minutes
  driven come from the location trail and the clocks, in floats, and are arguments (\<open>driven\<close>).
\<close>

definition STANDARD :: string where
  "STANDARD = ''standard''"

definition PLATFORM_FUNDED :: string where
  "PLATFORM_FUNDED = ''platform_funded''"

definition REASON_CODES :: "(string \<times> string) list" where
  "REASON_CODES = [(''driver_unresponsive'', STANDARD), (''trip_abandoned'', STANDARD), (''other'', STANDARD),
     (''safety_incident'', PLATFORM_FUNDED), (''platform_fault'', PLATFORM_FUNDED)]"

definition rule_for :: "string \<Rightarrow> string option" where
  "rule_for code = map_of REASON_CODES code"

datatype end_refusal = InvalidReasonCode | NoUpfrontPrice | FareCardUnavailable | CommissionNotSet | EndRaised trip_error

definition lift_end :: "money_error + 'a \<Rightarrow> end_refusal + 'a" where
  "lift_end r = (case r of Inl e \<Rightarrow> Inl (EndRaised (TripMoney e)) | Inr x \<Rightarrow> Inr x)"

section \<open>The fare\<close>

text \<open>\<open>rate_card_for_trip\<close> of \<open>servers/pricing/services.py\<close>.\<close>

definition rate_card_for_trip :: "'j market \<Rightarrow> 'j trip_row \<Rightarrow> rate_card option" where
  "rate_card_for_trip mk t = (case (case pt_zone t of None \<Rightarrow> mk_found mk | z \<Rightarrow> z) of
      None \<Rightarrow> None
    | Some z \<Rightarrow> (case (case pt_requested_vt t of None \<Rightarrow> pt_vehicle_vt t | v \<Rightarrow> v) of
        None \<Rightarrow> None
      | Some vt \<Rightarrow> get_active_rate_card (mk_cards mk) (mk_zones mk) z vt
          (case pt_requested_at t of None \<Rightarrow> mk_now mk | Some q \<Rightarrow> q)))"

record metered =
  mt_base :: decimal
  mt_distance :: decimal
  mt_time :: decimal
  mt_surge :: decimal
  mt_min_applied :: bool
  mt_total :: decimal
  mt_pretax :: decimal
  mt_additive :: bool
  mt_percent :: decimal
  mt_fee :: decimal

text \<open>Base, distance and time under the booked surge, at least the minimum fare, before rounding.\<close>

definition metered_subtotal :: "rate_card \<Rightarrow> decimal \<Rightarrow> decimal \<Rightarrow> decimal \<Rightarrow> decimal \<times> bool" where
  "metered_subtotal rc surge distance minutes =
     (let pre = dec_add (dec_add (rc_base_fare rc) (dec_mul (rc_per_km rc) distance)) (dec_mul (rc_per_min rc) minutes);
          sub = (if dec_eq surge (Dec 100 (- 2)) then pre else dec_mul pre surge)
      in if dec_lt sub (rc_min_fare rc) then (rc_min_fare rc, True) else (sub, False))"

definition metered_fare ::
  "'j market \<Rightarrow> 'j trip_row \<Rightarrow> decimal \<Rightarrow> decimal \<Rightarrow> end_refusal + metered" where
  "metered_fare mk t distance minutes = (case rate_card_for_trip mk t of
      None \<Rightarrow> Inl FareCardUnavailable
    | Some rc \<Rightarrow>
        let currency = ride_currency (ride.truncate t);
            surge = (if coef (tr_surge t) = 0 then Dec 100 (- 2) else tr_surge t);
            (sub, min_applied) = metered_subtotal rc surge distance minutes;
            additive = (case pt_zone t of None \<Rightarrow> False | Some z \<Rightarrow> additive_zone z);
            percent = (if additive then (if coef (rc_gst_percent rc) = 0 then Dec 0 0 else rc_gst_percent rc) else Dec 0 0)
        in lift_end
          (bind_res (rounded_fare sub currency) (\<lambda>pretax.
           bind_res (if additive then quant (dec_or_zero (case pt_zone t of None \<Rightarrow> None | Some z \<Rightarrow> sz_per_trip_fee z)) currency
                     else Inr (Dec 0 0)) (\<lambda>fee.
           bind_res (if additive then bind_res (percent_of pretax percent currency) (\<lambda>tax. Inr (dec_add (dec_add pretax tax) fee))
                     else Inr pretax) (\<lambda>whole.
           bind_res (quant (rc_base_fare rc) currency) (\<lambda>base.
           bind_res (quant (dec_mul (rc_per_km rc) distance) currency) (\<lambda>df.
           bind_res (quant (dec_mul (rc_per_min rc) minutes) currency) (\<lambda>tf.
             Inr \<lparr> mt_base = base, mt_distance = df, mt_time = tf, mt_surge = surge, mt_min_applied = min_applied,
                   mt_total = whole, mt_pretax = pretax, mt_additive = additive, mt_percent = percent, mt_fee = fee \<rparr>))))))))"

definition tax_on_charged ::
  "decimal \<Rightarrow> decimal \<Rightarrow> decimal \<Rightarrow> decimal \<Rightarrow> string \<Rightarrow> money_error + decimal \<times> decimal \<times> decimal \<times> decimal" where
  "tax_on_charged pretax percent fee cap currency =
     bind_res (percent_of pretax percent currency) (\<lambda>tax.
       let whole = dec_add (dec_add pretax tax) fee in
       if dec_le whole cap then Inr (pretax, tax, fee, whole)
       else let fee_c = dec_min fee cap in
         (case dec_div percent (Dec 100 0) of
            None \<Rightarrow> Inl DecimalInvalid
          | Some rate \<Rightarrow> (case dec_div (dec_sub cap fee_c) (dec_add (Dec 1 0) rate) of
              None \<Rightarrow> Inl DecimalInvalid
            | Some exact \<Rightarrow> bind_res (quant exact currency) (\<lambda>base0.
                let base = dec_min base0 (dec_sub cap fee_c)
                in Inr (base, dec_sub (dec_sub cap fee_c) base, fee_c, cap)))))"

section \<open>The plan\<close>

record end_plan =
  ep_reason :: string
  ep_rule :: string
  ep_currency :: string
  ep_uncapped :: int
  ep_upfront :: int
  ep_capped :: int
  ep_rider_pays :: int
  ep_percent :: "decimal option"
  ep_commission :: "int option"
  ep_earnings :: "int option"
  ep_promo :: int
  ep_after_promo :: int
  ep_pretax :: "int option"
  ep_tax :: "int option"
  ep_fee :: "int option"
  ep_expense :: int
  ep_relief :: int
  ep_base :: "int option"

text \<open>The pretax part of the upfront price; the snapshot is that of the booking quote.\<close>

definition upfront_pretax_minor :: "'j trip_row \<Rightarrow> metered \<Rightarrow> int \<Rightarrow> string \<Rightarrow> money_error + int" where
  "upfront_pretax_minor t m upfront currency = (case rd_snapshot t of
      Some (pretax, _) \<Rightarrow> Inr pretax
    | None \<Rightarrow> bind_res (major_of upfront currency) (\<lambda>u.
        bind_res (split_additive u (mt_percent m) (mt_fee m) currency) (\<lambda>(pretax, _, _). minor_of pretax currency)))"

text \<open>Pretax fare, tax and fee of what the rider is charged, and the fee the platform owes instead.\<close>

record charge_parts =
  ch_pretax :: "int option"
  ch_tax :: "int option"
  ch_fee :: "int option"
  ch_expense :: int

definition charge_parts_of :: "string \<Rightarrow> metered \<Rightarrow> int \<Rightarrow> string \<Rightarrow> money_error + charge_parts" where
  "charge_parts_of rule m capped currency =
     (if \<not> mt_additive m then Inr \<lparr> ch_pretax = None, ch_tax = None, ch_fee = None, ch_expense = 0 \<rparr>
      else if rule = PLATFORM_FUNDED
      then bind_res (minor_of (mt_fee m) currency) (\<lambda>e.
        Inr \<lparr> ch_pretax = Some 0, ch_tax = Some 0, ch_fee = Some 0, ch_expense = e \<rparr>)
      else bind_res (major_of capped currency) (\<lambda>cap.
        bind_res (tax_on_charged (mt_pretax m) (mt_percent m) (mt_fee m) cap currency) (\<lambda>(b, x, f, _).
        bind_res (minor_of b currency) (\<lambda>b'. bind_res (minor_of x currency) (\<lambda>x'. bind_res (minor_of f currency) (\<lambda>f'.
          Inr \<lparr> ch_pretax = Some b', ch_tax = Some x', ch_fee = Some f', ch_expense = 0 \<rparr>))))))"

text \<open>The promo lowers the taxable amount: the discount, the relief, the charge and the tax after it.\<close>

definition promo_charge ::
  "string \<Rightarrow> metered \<Rightarrow> charge_parts \<Rightarrow> int \<Rightarrow> int \<Rightarrow> string \<Rightarrow> money_error + int \<times> int \<times> int \<times> int option" where
  "promo_charge rule m ch promo capped currency =
     (case (ch_pretax ch, ch_tax ch, ch_fee ch) of
        (Some b, Some x, Some f) \<Rightarrow>
          if promo \<noteq> 0 \<and> rule = STANDARD
          then bind_res (major_of b currency) (\<lambda>b'. bind_res (major_of x currency) (\<lambda>x'. bind_res (major_of f currency) (\<lambda>f'.
               bind_res (major_of promo currency) (\<lambda>d.
               bind_res (adjust_promo b' (mt_percent m) f' d currency (Some x')) (\<lambda>a.
               bind_res (minor_of (pa_discount a) currency) (\<lambda>promo'.
               bind_res (minor_of (pa_relief a) currency) (\<lambda>relief.
               bind_res (minor_of (pa_full a) currency) (\<lambda>full.
               bind_res (minor_of (pa_tax a) currency) (\<lambda>tax. Inr (promo', relief, full, Some tax))))))))))
          else Inr (promo, 0, capped, ch_tax ch)
      | _ \<Rightarrow> Inr (promo, 0, capped, ch_tax ch))"

definition earnings_base :: "string \<Rightarrow> 'j trip_row \<Rightarrow> metered \<Rightarrow> charge_parts \<Rightarrow> int \<Rightarrow> int \<Rightarrow> string \<Rightarrow> money_error + int option" where
  "earnings_base rule t m ch capped upfront currency =
     (if rule = PLATFORM_FUNDED
      then (if mt_additive m
            then bind_res (minor_of (mt_pretax m) currency) (\<lambda>p.
                 bind_res (upfront_pretax_minor t m upfront currency) (\<lambda>u. Inr (Some (min p u))))
            else Inr (Some capped))
      else Inr (ch_pretax ch))"

definition commission_on :: "int \<Rightarrow> decimal \<Rightarrow> string \<Rightarrow> money_error + int" where
  "commission_on base percent currency = bind_res (major_of base currency) (\<lambda>b.
     case dec_div (dec_mul b percent) (Dec 100 0) of None \<Rightarrow> Inl DecimalInvalid | Some x \<Rightarrow> minor_of x currency)"

definition build_plan ::
  "'j ride_env \<Rightarrow> decimal \<times> decimal \<Rightarrow> 'j trip_row \<Rightarrow> string \<Rightarrow> 'j ride_db \<Rightarrow> end_refusal + end_plan" where
  "build_plan env driven t reason db = (case rule_for reason of
      None \<Rightarrow> Inl InvalidReasonCode
    | Some rule \<Rightarrow> (case rd_estimated t of
        None \<Rightarrow> Inl NoUpfrontPrice
      | Some upfront \<Rightarrow>
          let currency = ride_currency (ride.truncate t); mk = en_market env t in
          bind_res (metered_fare mk t (fst driven) (snd driven)) (\<lambda>m.
          bind_res (lift_end (minor_of (mt_total m) currency)) (\<lambda>uncapped.
          let capped = min uncapped upfront in
          bind_res (lift_end (charge_parts_of rule m capped currency)) (\<lambda>ch.
          bind_res (if rule = STANDARD
              then (case operator_end_discount_minor (db_promos db) (db_money db) (pt_id t) capped of
                  Inl e \<Rightarrow> Inl (EndRaised (TripPromo e)) | Inr d \<Rightarrow> Inr d)
              else Inr 0) (\<lambda>promo0.
          bind_res (lift_end (promo_charge rule m ch promo0 capped currency)) (\<lambda>(promo, relief, charged, tax).
          bind_res (lift_end (earnings_base rule t m ch capped upfront currency)) (\<lambda>eb.
          let base = (case eb of None \<Rightarrow> charged | Some b \<Rightarrow> b) in
          bind_res (case commission_percent_for_trip mk (ride.truncate t) of
              Inl NoCommissionRule \<Rightarrow> Inr None
            | Inl e \<Rightarrow> Inl (EndRaised (TripSettle e))
            | Inr p \<Rightarrow> bind_res (lift_end (commission_on base p currency)) (\<lambda>c. Inr (Some (p, c)))) (\<lambda>pc.
          if rule = PLATFORM_FUNDED \<and> pc = None then Inl CommissionNotSet
          else Inr \<lparr> ep_reason = reason, ep_rule = rule, ep_currency = currency, ep_uncapped = uncapped,
                 ep_upfront = upfront, ep_capped = capped,
                 ep_rider_pays = (if rule = PLATFORM_FUNDED then 0 else charged),
                 ep_percent = map_option fst pc, ep_commission = map_option snd pc,
                 ep_earnings = map_option (\<lambda>(_, c). base - c) pc, ep_promo = promo,
                 ep_after_promo = (if rule = PLATFORM_FUNDED then 0 else charged - promo),
                 ep_pretax = ch_pretax ch, ep_tax = tax, ep_fee = ch_fee ch, ep_expense = ch_expense ch,
                 ep_relief = relief, ep_base = eb \<rparr>)))))))))"

section \<open>Applying it\<close>

definition prepaid :: "trip_payment \<Rightarrow> bool" where
  "prepaid p = (py_status p = PS_COMPLETED \<and> py_method p \<in> {''online'', ''wallet''})"

definition owe_refund :: "'j trip_row \<Rightarrow> int \<Rightarrow> string \<Rightarrow> string \<Rightarrow> action_state \<Rightarrow> 'j ride_db \<Rightarrow> 'j ride_db" where
  "owe_refund t owed currency method state db = db\<lparr>db_actions :=
     \<lparr> ma_trip = pt_id t, ma_refund = True, ma_amount = owed, ma_currency = currency, ma_method = method, ma_state = state \<rparr>
       # db_actions db\<rparr>"

text \<open>What was paid beyond \<open>keep\<close>: the amount given back or recorded as owed, the trip and the tables.\<close>

definition refund_prepaid ::
  "'j ride_env \<Rightarrow> 'j trip_row \<Rightarrow> end_plan \<Rightarrow> int \<Rightarrow> 'j ride_db \<Rightarrow> trip_error + int \<times> 'j trip_row \<times> 'j ride_db" where
  "refund_prepaid env t p keep db =
     (let rows = filter (\<lambda>q. py_trip q = pt_id t \<and> prepaid q) (db_payments db);
          owed = sum_by py_amount rows - keep;
          online = list_ex (\<lambda>q. py_method q = ''online'') rows
      in if owed \<le> 0 then Inr (0, t, db)
         else (case (if keep = 0 \<and> online then process_refund_on_cancel env t db else Inr (False, t, db)) of
             Inr (True, t', db') \<Rightarrow> Inr (owed, t', db')
           | _ \<Rightarrow>
               if online then Inr (owed, t, owe_refund t owed (ep_currency p) ''gateway'' MA_PENDING_GATEWAY db)
               else bind_res (lift_trip (major_of owed (ep_currency p))) (\<lambda>d.
                 (case issue_refund_credit (trip_context env db) (en_credit_cap env) (tr_rider t) (VDec (Finite d)) (pt_id t)
                     (KeyEndRefund (pt_id t)) (db_riders db) of
                    Inl e \<Rightarrow> Inl (TripCredit e)
                  | Inr (r, rb) \<Rightarrow> Inr (owed, t,
                      (if cr_ok r then owe_refund t owed (ep_currency p) ''wallet_credit'' MA_COMPLETED
                       else owe_refund t owed (ep_currency p) ''gateway'' MA_PENDING_GATEWAY) (db\<lparr>db_riders := rb\<rparr>))))))"

definition ended_row :: "'j ride_env \<Rightarrow> end_plan \<Rightarrow> 'j trip_row \<Rightarrow> 'j trip_row" where
  "ended_row env p t = t\<lparr>tr_status := TS_COMPLETED, tr_completed_at := Some (en_now env), rd_final := Some (ep_rider_pays p),
     tr_end_reason := ep_reason p, rd_end_rule := ep_rule p,
     tr_funded := (if ep_rule p = PLATFORM_FUNDED then ep_earnings p else tr_funded t),
     rd_snapshot := (case ep_pretax p of None \<Rightarrow> rd_snapshot t | Some b \<Rightarrow> Some (b, ep_fee p))\<rparr>"

definition book_regulatory_fee :: "'j trip_row \<Rightarrow> end_plan \<Rightarrow> 'j ride_db \<Rightarrow> 'j ride_db" where
  "book_regulatory_fee t p db =
     (if ep_expense p \<le> 0 \<or> pt_id t \<in> fst ` set (db_expenses db) then db
      else db\<lparr>db_expenses := (pt_id t, ep_expense p, ep_currency p) # db_expenses db\<rparr>)"

text \<open>The standard rule: the payment, what was prepaid beyond it, and the settlement when one is due.\<close>

definition settle_end :: "'j ride_env \<Rightarrow> end_plan \<Rightarrow> 'j trip_row \<Rightarrow> 'j ride_db \<Rightarrow> trip_error + 'j trip_row \<times> 'j ride_db" where
  "settle_end env p t db =
     bind_res (create_payment_on_complete env t db) (\<lambda>(t1, db1).
     bind_res (refund_prepaid env t1 p (payable_minor (mb_redemptions (db_money db1)) (ride.truncate t1)) db1) (\<lambda>(refunded, t2, db2).
       if current_settlement (pt_id t2) (mb_settlements (db_money db2)) = None
          \<and> (rd_method t2 = ''cash'' \<or> refunded \<noteq> 0
             \<or> list_ex (\<lambda>q. py_trip q = pt_id t2 \<and> py_status q = PS_COMPLETED) (db_payments db2))
       then bind_res (settle_trip env t2 db2) (\<lambda>db3. Inr (t2, db3))
       else Inr (t2, db2)))"

definition fund_end :: "'j ride_env \<Rightarrow> end_plan \<Rightarrow> 'j trip_row \<Rightarrow> 'j ride_db \<Rightarrow> trip_error + 'j trip_row \<times> 'j ride_db" where
  "fund_end env p t db =
     bind_res (refund_prepaid env t p 0 db) (\<lambda>(_, t1, db1).
       let t2 = (if tr_payment_status t1 = Some ''refunded'' then t1 else t1\<lparr>tr_payment_status := Some ''waived''\<rparr>);
           db2 = db1\<lparr>db_money := credit_platform_funded (ride.truncate t2) (ep_currency p) (null_int (ep_earnings p)) (db_money db1)\<rparr>
       in Inr (t2, book_regulatory_fee t2 p db2))"

definition apply_plan :: "'j ride_env \<Rightarrow> end_plan \<Rightarrow> 'j trip_row \<Rightarrow> 'j ride_db \<Rightarrow> trip_error + 'j ride_db" where
  "apply_plan env p t db =
     (let t1 = ended_row env p t in
      bind_res (case apply_operator_end (en_now env) (pt_id t) (ep_capped p) (ep_rule p)
            (if ep_relief p \<noteq> 0 then Some (ep_promo p) else None) (db_promos db) (db_money db) of
          Inl e \<Rightarrow> Inl (TripPromo e)
        | Inr (pb, mb) \<Rightarrow> Inr ((save_trip t1 db)\<lparr>db_promos := pb, db_money := mb\<rparr>)) (\<lambda>db1.
      bind_res ((if ep_rule p = STANDARD then settle_end else fund_end) env p t1 (count_trip t1 db1)) (\<lambda>(t2, db2).
        Inr (save_trip t2 db2))))"

text \<open>\<open>_end_started_trip\<close> of \<open>servers/ride/admin_stale.py\<close>, under the lock; \<open>stale\<close> is what the detector
  says of the trip.\<close>

definition end_started_trip ::
  "'j ride_env \<Rightarrow> bool \<Rightarrow> decimal \<times> decimal \<Rightarrow> int \<Rightarrow> string \<Rightarrow> 'j ride_db \<Rightarrow> end_refusal option \<times> 'j ride_db" where
  "end_started_trip env stale driven i reason db = (case find_trip i db of
      None \<Rightarrow> (None, db)
    | Some t \<Rightarrow>
        if rd_driver t = None \<or> rd_end_rule t \<noteq> [] \<or> tr_status t \<noteq> TS_IN_PROGRESS \<or> \<not> stale then (None, db)
        else (case build_plan env driven t reason db of
            Inl e \<Rightarrow> (Some e, db)
          | Inr p \<Rightarrow> (case apply_plan env p t db of
              Inl e \<Rightarrow> (Some (EndRaised e), db) | Inr db' \<Rightarrow> (None, db'))))"

end
