(* ===== verification/TripLaws.thy ===== *)
theory TripLaws
  imports OperatorEnd
begin

text \<open>
  What holds of the trips over every history of the operations of \<open>Trips\<close> and \<open>OperatorEnd\<close>, with the
  acceptances in flight: an acceptance is three steps (trip row, driver row, commit), and between them any
  other operation may run that does not need a row that is locked. \<open>Elsewhere\<close> replaces the tables other
  code writes by any others; it writes no trip and no trip counter.
\<close>

section \<open>What an operation does to the trips\<close>

definition core :: "'j trip_row \<Rightarrow> int \<times> int \<times> string option \<times> int option \<times> trip_status \<times> string option" where
  "core t = (pt_id t, tr_rider t, tr_request_key t, rd_driver t, tr_status t, tr_otp t)"

definition keeps :: "'j ride_db \<Rightarrow> 'j ride_db \<Rightarrow> bool" where
  "keeps db db' = (db_trips db' = db_trips db \<and> db_drivers db' = db_drivers db)"

named_theorems keep_intros \<open>an operation leaves the trips and the drivers alone\<close>

lemma keeps_refl [simp]: "keeps db db"
  by (simp add: keeps_def)

lemma keeps_trans: "keeps a b \<Longrightarrow> keeps b c \<Longrightarrow> keeps a c"
  by (simp add: keeps_def)

lemma keeps_fields [simp]:
  "keeps db (db\<lparr>db_payments := p\<rparr>)" "keeps db (db\<lparr>db_money := m\<rparr>)" "keeps db (db\<lparr>db_riders := r\<rparr>)"
  "keeps db (db\<lparr>db_paid := q\<rparr>)" "keeps db (db\<lparr>db_actions := a\<rparr>)" "keeps db (set_payment i f db)"
  by (simp_all add: keeps_def set_payment_def)

lemma core_fields [simp]:
  "core (t\<lparr>tr_payment_status := x\<rparr>) = core t" "core (t\<lparr>tr_completed_at := y\<rparr>) = core t"
  "core (t\<lparr>rd_method := m\<rparr>) = core t"
  by (simp_all add: core_def)

lemma create_payment_keeps [keep_intros]: "create_payment t a m st g db = Inr db' \<Longrightarrow> keeps db db'"
  by (auto simp: create_payment_def bind_res_Inr_iff split: option.splits if_splits)

lemma settle_trip_keeps [keep_intros]: "settle_trip env t db = Inr db' \<Longrightarrow> keeps db db'"
  by (auto simp: settle_trip_def split: sum.splits)

lemma wallet_line_keeps [keep_intros]: "wallet_line t d a db = Inr db' \<Longrightarrow> keeps db db'"
  by (auto simp: wallet_line_def bind_res_Inr_iff split: option.splits)

lemma pay_at_completion_keeps:
  assumes "pay_at_completion env t a db = Inr (t', db')"
  shows "core t' = core t \<and> keeps db db'"
proof -
  obtain r rb where r: "wallet_payment (trip_context env db) (tr_rider t) (VDec (Finite a)) ''Trip payment'' (RefRide (pt_id t))
      (KeyTripPayment (pt_id t)) (db_riders db) = (r, rb)" by fastforce
  show ?thesis
  proof (cases "\<exists>e. r = NotCharged e")
    case True
    with assms r show ?thesis by (auto simp: pay_at_completion_def)
  next
    case False
    define t1 where "t1 = t\<lparr>tr_payment_status := Some ''completed''\<rparr>"
    from False have "pay_at_completion env t a db =
        bind_res (create_payment t a ''wallet'' PS_COMPLETED ''cashfree'' (db\<lparr>db_riders := rb\<rparr>)) (\<lambda>db1.
          bind_res (case rd_driver t of None \<Rightarrow> Inr db1 | Some d \<Rightarrow> wallet_line t d a db1) (\<lambda>db2.
          bind_res (settle_trip env t1 db2) (\<lambda>db3. Inr (t1, db3))))"
      using r by (cases r) (simp_all add: pay_at_completion_def Let_def t1_def)
    with assms obtain db1 db2 where c: "create_payment t a ''wallet'' PS_COMPLETED ''cashfree'' (db\<lparr>db_riders := rb\<rparr>) = Inr db1"
      and l: "(case rd_driver t of None \<Rightarrow> Inr db1 | Some d \<Rightarrow> wallet_line t d a db1) = Inr db2"
      and s: "settle_trip env t1 db2 = Inr db'" and t': "t' = t1"
      by (auto simp: bind_res_Inr_iff)
    have "keeps db db1" using create_payment_keeps [OF c] by (simp add: keeps_def)
    moreover have "keeps db1 db2" using l by (auto split: option.splits intro: wallet_line_keeps)
    moreover have "keeps db2 db'" using s by (rule settle_trip_keeps)
    ultimately show ?thesis using t' by (simp add: t1_def) (meson keeps_trans)
  qed
qed

lemma create_payment_on_complete_keeps:
  assumes "create_payment_on_complete env t db = Inr (t', db')"
  shows "core t' = core t \<and> keeps db db'"
  using assms
  by (auto simp: create_payment_on_complete_def Let_def bind_res_Inr_iff
      dest: create_payment_keeps settle_trip_keeps pay_at_completion_keeps intro: keeps_trans split: if_splits)

lemma process_refund_keeps:
  "process_refund_on_cancel env t db = Inr (b, t', db') \<Longrightarrow> core t' = core t \<and> keeps db db'"
  by (auto simp: process_refund_on_cancel_def Let_def split: option.splits if_splits refund_answer.splits)

section \<open>The abstract machine of one trip\<close>

definition status_move :: "trip_status \<Rightarrow> trip_status \<Rightarrow> bool" where
  "status_move a b = (a = b \<or> (case a of
      TS_REQUESTED \<Rightarrow> b \<in> {TS_ACCEPTED, TS_CANCELLED}
    | TS_ACCEPTED \<Rightarrow> b \<in> {TS_REACHED, TS_IN_PROGRESS, TS_CANCELLED}
    | TS_REACHED \<Rightarrow> b \<in> {TS_IN_PROGRESS, TS_CANCELLED}
    | TS_IN_PROGRESS \<Rightarrow> b \<in> {TS_COMPLETED, TS_CANCELLED}
    | _ \<Rightarrow> False))"

definition active :: "trip_status \<Rightarrow> bool" where
  "active st = (st \<in> set DRIVER_ACTIVE_TRIP_STATUSES)"

text \<open>The trip moved without a change of rider, key, driver or code, and nobody was made busy by it.\<close>

definition row_moves :: "'j trip_row \<Rightarrow> 'j trip_row \<Rightarrow> bool" where
  "row_moves t t' = (pt_id t' = pt_id t \<and> tr_rider t' = tr_rider t \<and> tr_request_key t' = tr_request_key t
     \<and> rd_driver t' = rd_driver t \<and> tr_otp t' = tr_otp t \<and> status_move (tr_status t) (tr_status t')
     \<and> (active (tr_status t') \<longrightarrow> active (tr_status t)) \<and> (tr_status t' = TS_REQUESTED \<longrightarrow> tr_status t = TS_REQUESTED)
     \<and> (tr_status t = TS_REQUESTED \<longrightarrow> tr_status t' = TS_REQUESTED \<or> tr_status t' = TS_CANCELLED))"

definition completes :: "'j trip_row \<Rightarrow> 'j trip_row \<Rightarrow> int \<Rightarrow> int" where
  "completes t t' d = (if tr_status t \<noteq> TS_COMPLETED \<and> tr_status t' = TS_COMPLETED \<and> rd_driver t' = Some d then 1 else 0)"

definition counters :: "'j ride_db \<Rightarrow> int \<Rightarrow> int option" where
  "counters db d = map_option dv_trips (db_drivers db d)"

text \<open>One trip moved, at most, and the counters followed.\<close>

definition moved :: "int \<Rightarrow> 'j ride_db \<Rightarrow> 'j ride_db \<Rightarrow> bool" where
  "moved i db db' = (\<exists>t t'. find_trip i db = Some t \<and> row_moves t t' \<and> db_trips db' = db_trips (save_trip t' db)
     \<and> (\<forall>d. counters db' d = map_option (\<lambda>n. n + completes t t' d) (counters db d)))"

lemma find_trip_id: "find_trip i db = Some t \<Longrightarrow> pt_id t = i \<and> t \<in> set (db_trips db)"
  by (auto simp: find_trip_def find_Some_iff)

lemma save_trip_same: "find_trip i db = Some t \<Longrightarrow> distinct (map pt_id (db_trips db)) \<Longrightarrow> db_trips (save_trip t db) = db_trips db"
  by (auto simp: save_trip_def dest!: find_trip_id intro!: map_idI dest: eq_key_imp_eq_value)
    (metis distinct_map inj_on_def)

lemma counters_keeps: "keeps db db' \<Longrightarrow> counters db' = counters db"
  by (simp add: keeps_def counters_def fun_eq_iff)

lemma movedI:
  assumes "find_trip i db = Some t" and "row_moves t t'" and "db_trips db1 = db_trips db"
    and "\<And>d. counters db1 d = map_option (\<lambda>n. n + completes t t' d) (counters db d)"
  shows "moved i db (save_trip t' db1)"
  unfolding moved_def using assms
  by (intro exI [of _ t] exI [of _ t']) (simp add: save_trip_def counters_def)

lemma no_completion: "completes t t' d = 0 \<Longrightarrow> counters db1 d = counters db d
    \<Longrightarrow> counters db1 d = map_option (\<lambda>n. n + completes t t' d) (counters db d)"
  by (cases "counters db d") simp_all

text \<open>An operation that leaves every counter alone.\<close>

lemma moved_plain:
  assumes "find_trip i db = Some t" and "row_moves t t'" and "db_trips db1 = db_trips db"
    and "counters db1 = counters db" and "tr_status t' \<noteq> TS_COMPLETED \<or> tr_status t = TS_COMPLETED"
  shows "moved i db (save_trip t' db1)"
  using assms(5) by (intro movedI [OF assms(1-3)] no_completion) (auto simp: completes_def assms(4))

lemma count_trip_counters:
  "counters (count_trip t db) d = map_option (\<lambda>n. n + (if rd_driver t = Some d then 1 else 0)) (counters db d)"
  by (cases "rd_driver t"; cases "db_drivers db d") (auto simp: count_trip_def counters_def)

lemma count_trip_trips [simp]: "db_trips (count_trip t db) = db_trips db"
  by (simp add: count_trip_def split: option.splits)

lemma core_moves:
  "core t' = core t1 \<Longrightarrow> row_moves t t' \<longleftrightarrow> row_moves t t1"
  unfolding core_def row_moves_def by (simp only: prod.inject)

lemma complete_moved:
  assumes t: "find_trip i db = Some t" and st: "tr_status t = TS_IN_PROGRESS"
    and c: "complete_trip env (t\<lparr>tr_status := TS_COMPLETED\<rparr>) db = Inr (t', db')"
  shows "moved i db (save_trip t' db')"
proof -
  let ?t1 = "t\<lparr>tr_status := TS_COMPLETED\<rparr>"
  obtain db1 where c1: "create_payment_on_complete env (?t1\<lparr>tr_completed_at := Some (en_now env)\<rparr>) db = Inr (t', db1)"
    and db': "db' = count_trip t' db1"
    using c by (auto simp: complete_trip_def bind_res_Inr_iff)
  note k = create_payment_on_complete_keeps [OF c1]
  have core: "core t' = core ?t1" using k by simp
  have "row_moves t ?t1" using st by (simp add: row_moves_def status_move_def active_def DRIVER_ACTIVE_TRIP_STATUSES_def)
  then have m: "row_moves t t'" using core_moves [OF core] by blast
  have "completes t t' d = (if rd_driver t' = Some d then 1 else 0)" for d
    using core st by (simp add: completes_def core_def)
  then have "counters db' d = map_option (\<lambda>n. n + completes t t' d) (counters db d)" for d
    by (simp add: db' count_trip_counters counters_keeps [OF conjunct2 [OF k]])
  moreover have "db_trips db' = db_trips db" using k by (simp add: db' keeps_def)
  ultimately show ?thesis by (intro movedI [OF t m])
qed

lemma cancel_core:
  "core (t\<lparr>tr_cancelled_at := a, tr_cancelled_by := b, tr_cancel_reason := c\<rparr>) = core t"
  by (simp add: core_def)

lemma cancel_moves:
  assumes "core t' = core (t\<lparr>tr_status := TS_CANCELLED\<rparr>)" and "tr_status t \<notin> {TS_COMPLETED, TS_CANCELLED}"
  shows "row_moves t t'"
proof -
  have "row_moves t (t\<lparr>tr_status := TS_CANCELLED\<rparr>)"
    using assms(2) by (cases "tr_status t")
      (simp_all add: row_moves_def status_move_def active_def DRIVER_ACTIVE_TRIP_STATUSES_def)
  then show ?thesis using core_moves [OF assms(1)] by blast
qed

lemma cancelled_moved:
  assumes "find_trip i db = Some t" and "tr_status t \<notin> {TS_COMPLETED, TS_CANCELLED}"
    and "core t' = core (t\<lparr>tr_status := TS_CANCELLED\<rparr>)" and "db_trips db1 = db_trips db" and "counters db1 = counters db"
  shows "moved i db (save_trip t' db1)"
  using assms(3) by (intro moved_plain [OF assms(1) cancel_moves [OF assms(3,2)] assms(4,5)]) (simp add: core_def)

lemma update_moved:
  assumes "update_trip_status env i target otp by reason db = Inr db'" and "target \<notin> {TS_REQUESTED, TS_ACCEPTED}"
  shows "moved i db db'"
proof -
  obtain t where t: "find_trip i db = Some t"
    using assms(1) by (auto simp: update_trip_status_def split: option.splits)
  have ok: "check_transition t target otp = Inr ()"
    using assms(1) t by (auto simp: update_trip_status_def bind_res_Inr_iff)
  show ?thesis
  proof (cases target)
    case TS_REACHED
    then have st: "tr_status t = TS_ACCEPTED" using ok by (auto simp: check_transition_def allowed_transitions_def Let_def split: if_splits)
    have "db' = save_trip (t\<lparr>tr_status := TS_REACHED, tr_reached_at := Some (en_now env)\<rparr>) db"
      using assms(1) t ok TS_REACHED by (simp add: update_trip_status_def)
    then show ?thesis using st
      by (simp, intro moved_plain [OF t]) (simp_all add: row_moves_def status_move_def active_def DRIVER_ACTIVE_TRIP_STATUSES_def)
  next
    case TS_IN_PROGRESS
    then have st: "tr_status t \<in> {TS_ACCEPTED, TS_REACHED}"
      using ok by (auto simp: check_transition_def allowed_transitions_def Let_def split: if_splits)
    have "db' = save_trip (t\<lparr>tr_status := TS_IN_PROGRESS, tr_started_at := Some (en_now env)\<rparr>) db"
      using assms(1) t ok TS_IN_PROGRESS by (simp add: update_trip_status_def)
    then show ?thesis using st
      by (simp, intro moved_plain [OF t]) (auto simp: row_moves_def status_move_def active_def DRIVER_ACTIVE_TRIP_STATUSES_def)
  next
    case TS_COMPLETED
    then have st: "tr_status t = TS_IN_PROGRESS" using ok by (auto simp: check_transition_def allowed_transitions_def Let_def split: if_splits)
    obtain t2 db2 where c: "complete_trip env (t\<lparr>tr_status := TS_COMPLETED\<rparr>) db = Inr (t2, db2)" and d: "db' = save_trip t2 db2"
      using assms(1) t ok TS_COMPLETED by (auto simp: update_trip_status_def split: sum.splits)
    from complete_moved [OF t st c] d show ?thesis by simp
  next
    case TS_CANCELLED
    then have st: "tr_status t \<notin> {TS_COMPLETED, TS_CANCELLED}"
      using ok by (auto simp: check_transition_def allowed_transitions_def Let_def split: if_splits)
    obtain t2 db2 where c: "cancel_trip env by reason (t\<lparr>tr_status := TS_CANCELLED\<rparr>) db = Inr (t2, db2)" and d: "db' = save_trip t2 db2"
      using assms(1) t ok TS_CANCELLED by (auto simp: update_trip_status_def split: sum.splits)
    then have "core t2 = core (t\<lparr>tr_status := TS_CANCELLED\<rparr>) \<and> keeps db db2"
      by (auto simp: cancel_trip_def bind_res_Inr_iff cancel_core dest!: process_refund_keeps)
    then show ?thesis unfolding d by (intro cancelled_moved [OF t st]) (auto simp: keeps_def counters_def fun_eq_iff)
  qed (use assms(2) in simp_all)
qed

definition touches :: "int \<Rightarrow> 'j ride_db \<Rightarrow> 'j ride_db \<Rightarrow> bool" where
  "touches i db db' = ((db_trips db' = db_trips db \<and> counters db' = counters db) \<or> moved i db db')"

lemma touches_refl [simp]: "touches i db db"
  by (simp add: touches_def)

lemma touches_moved: "moved i db db' \<Longrightarrow> touches i db db'"
  by (simp add: touches_def)

lemma moved_cong:
  "moved i db db1 \<Longrightarrow> db_trips db2 = db_trips db1 \<Longrightarrow> counters db2 = counters db1 \<Longrightarrow> moved i db db2"
  by (simp add: moved_def)

lemma moved_keeps: "moved i db db1 \<Longrightarrow> keeps db1 db2 \<Longrightarrow> moved i db db2"
  by (erule moved_cong) (simp_all add: keeps_def counters_def fun_eq_iff)

lemma row_moves_same: "core t' = core t \<Longrightarrow> row_moves t t'"
  by (simp add: core_def row_moves_def status_move_def)

lemma same_moved:
  assumes "find_trip i db = Some t" and "core t' = core t" and "keeps db db1"
  shows "moved i db (save_trip t' db1)"
  using assms(2,3) by (intro moved_plain [OF assms(1) row_moves_same]) (auto simp: keeps_def counters_def fun_eq_iff core_def)

lemma confirm_cash_touches:
  assumes "confirm_cash_payment env i db = Inr (b, db')"
  shows "touches i db db'"
proof -
  obtain t where t: "find_trip i db = Some t" using assms by (auto simp: confirm_cash_payment_def split: option.splits)
  show ?thesis
  proof (cases b)
    case False
    with assms t show ?thesis by (auto simp: confirm_cash_payment_def Let_def split: option.splits if_splits sum.splits)
  next
    case True
    let ?t' = "t\<lparr>tr_payment_status := Some ''completed''\<rparr>"
    from True assms t obtain p where p: "find (\<lambda>p. py_trip p = i \<and> py_method p = ''cash'') (db_payments db) = Some p"
      by (auto simp: confirm_cash_payment_def split: option.splits if_splits)
    from True assms t p have s: "settle_trip env ?t' (save_trip ?t' (set_payment (py_id p) (\<lambda>p. p\<lparr>py_status := PS_COMPLETED\<rparr>) db)) = Inr db'"
      by (auto simp: confirm_cash_payment_def Let_def split: if_splits sum.splits)
    have "moved i db (save_trip ?t' (set_payment (py_id p) (\<lambda>p. p\<lparr>py_status := PS_COMPLETED\<rparr>) db))"
      by (rule same_moved [OF t]) simp_all
    then show ?thesis using settle_trip_keeps [OF s] by (intro touches_moved) (rule moved_keeps)
  qed
qed

lemma cancelled_core: "core (set_cancelled now by text t) = core (t\<lparr>tr_status := TS_CANCELLED\<rparr>)"
  by (simp add: core_def set_cancelled_def)

lemma fatigue_row_trips: "apply_cancellation_penalty d i r n now cs row = (pen, cs', row') \<Longrightarrow> dv_trips row' = dv_trips row"
  by (auto simp: apply_cancellation_penalty_def Let_def split: if_splits)

lemma driver_cancel_touches:
  assumes "driver_cancel_trip env u i reason note db = Inr (pen, db')"
  shows "moved i db db'"
proof -
  obtain t row cs row' where t: "find_trip i db = Some t" and st: "tr_status t \<in> {TS_ACCEPTED, TS_REACHED}"
    and row: "db_drivers db u = Some row"
    and pen: "apply_cancellation_penalty u i (py_strip reason) (py_strip note) (en_now env) (db_cancels db) row = (pen, cs, row')"
    and db': "db' = (save_trip (set_cancelled (en_now env) ''driver'' (cancel_text (py_strip reason) (py_strip note)) t) db)
                     \<lparr>db_cancels := cs, db_drivers := (db_drivers db)(u \<mapsto> row')\<rparr>"
    using assms by (auto simp: driver_cancel_trip_def Let_def split: if_splits option.splits prod.splits)
  let ?t' = "set_cancelled (en_now env) ''driver'' (cancel_text (py_strip reason) (py_strip note)) t"
  have "moved i db (save_trip ?t' db)"
    using st by (intro cancelled_moved [OF t]) (auto simp: cancelled_core)
  then show ?thesis
    by (rule moved_cong) (auto simp: db' save_trip_def counters_def fun_eq_iff row fatigue_row_trips [OF pen])
qed

lemma rider_cancel_touches:
  assumes "rider_cancel_trip env u i reason note db = Inr db'"
  shows "moved i db db'"
proof -
  obtain t b t' db1 where t: "find_trip i db = Some t" and st: "tr_status t \<notin> {TS_COMPLETED, TS_CANCELLED}"
    and r: "process_refund_on_cancel env (set_cancelled (en_now env) ''rider'' (cancel_text (py_strip reason) (py_strip note)) t) db
      = Inr (b, t', db1)" and db': "db' = save_trip t' db1"
    using assms by (auto simp: rider_cancel_trip_def Let_def split: if_splits option.splits sum.splits prod.splits)
  note k = process_refund_keeps [OF r]
  show ?thesis unfolding db' using k st
    by (intro cancelled_moved [OF t]) (auto simp: cancelled_core keeps_def counters_def fun_eq_iff)
qed

lemma auto_cancel_touches:
  assumes "auto_cancel_trip env i db = Some db'"
  shows "moved i db db'"
proof -
  obtain t where t: "find_trip i db = Some t" and st: "tr_status t \<notin> {TS_COMPLETED, TS_CANCELLED}"
    and db': "db' = save_trip (set_cancelled (en_now env) ''system'' ''no_driver_accepted'' t) db"
    using assms by (auto simp: auto_cancel_trip_def split: if_splits option.splits)
  show ?thesis unfolding db' by (rule cancelled_moved [OF t st]) (simp_all add: cancelled_core)
qed

lemma operator_cancel_touches: "touches i db (snd (operator_cancel env i code note waive stale db))"
proof (cases "fst (operator_cancel env i code note waive stale db) = OpCancelled")
  case False
  then show ?thesis by (auto simp: operator_cancel_def Let_def split: option.splits if_splits)
next
  case True
  then obtain t where t: "find_trip i db = Some t" and st: "tr_status t \<in> set CANCELLABLE_STATUSES"
    by (auto simp: operator_cancel_def split: option.splits if_splits)
  define t1 where "t1 = set_cancelled (en_now env) ''admin'' (take 255 (if note = [] then code else code @ '': '' @ note)) t"
  define t2 where "t2 = (if waive \<and> tr_cancel_fee t1 \<noteq> 0 then t1\<lparr>tr_cancel_fee := 0\<rparr> else t1)"
  have st': "tr_status t \<notin> {TS_COMPLETED, TS_CANCELLED}" using st by (auto simp: CANCELLABLE_STATUSES_def)
  have core: "core t2 = core (t\<lparr>tr_status := TS_CANCELLED\<rparr>)" by (simp add: t2_def t1_def core_def set_cancelled_def)
  have res: "snd (operator_cancel env i code note waive stale db)
      = (case (if stale then process_refund_on_cancel env t2 db else Inr (False, t2, db)) of
           Inl _ \<Rightarrow> save_trip t2 db | Inr (_, t3, db') \<Rightarrow> save_trip t3 db')"
    using t st st' unfolding operator_cancel_def Let_def t2_def t1_def by auto
  show ?thesis
  proof (cases "if stale then process_refund_on_cancel env t2 db else Inr (False, t2, db)")
    case (Inl e)
    have "moved i db (save_trip t2 db)" by (rule cancelled_moved [OF t st' core]) simp_all
    then show ?thesis using res Inl by (simp add: touches_moved)
  next
    case (Inr r)
    obtain b t3 db1 where r: "r = (b, t3, db1)" by (cases r)
    have k: "core t3 = core t2 \<and> keeps db db1" using Inr r by (auto split: if_splits dest: process_refund_keeps)
    have "moved i db (save_trip t3 db1)"
      using k core by (intro cancelled_moved [OF t st']) (auto simp: keeps_def counters_def fun_eq_iff)
    then show ?thesis using res Inr r by (simp add: touches_moved)
  qed
qed

text \<open>A wallet payment that charged, in one place.\<close>

definition new_wallet_payment :: "'j trip_row \<Rightarrow> int \<Rightarrow> string \<Rightarrow> 'j ride_db \<Rightarrow> trip_payment" where
  "new_wallet_payment t m currency db = \<lparr> py_id = next_payment_id db, py_trip = pt_id t, py_user = tr_rider t,
     py_currency = stamp_currency currency (trip_derive t), py_amount = m, py_method = ''wallet'',
     py_status = PS_COMPLETED, py_gateway = ''cashfree'', py_gateway_payment = None, py_replaced_by = None,
     py_switch = None \<rparr>"

definition paid_row :: "'j trip_row \<Rightarrow> 'j trip_row" where
  "paid_row t = t\<lparr>rd_method := ''wallet'', tr_payment_status := Some ''completed''\<rparr>"

lemma pay_trip_cases:
  assumes "pay_trip env u trip amount db = Inr (b, db')"
  obtains
    (replay) i t r where "trip = Some i" "find_trip i db = Some t" "tr_rider t = u" "tr_status t = TS_COMPLETED"
      "find_txn (KeyTripPayment i) (db_riders db) = Some r" "rt_user r = u" "\<not> b" "db' = db"
  | (charged) i t m db1 where "trip = Some i" "find_trip i db = Some t" "tr_rider t = u" "tr_status t = TS_COMPLETED"
      "\<not> list_ex (\<lambda>p. py_trip p = i \<and> py_status p = PS_COMPLETED) (db_payments db)" "tr_payment_status t \<noteq> Some ''completed''"
      "\<not> not_charged (mb_redemptions (db_money db)) (ride.truncate t)"
      "m = payable_minor (mb_redemptions (db_money db)) (ride.truncate t)" "0 < m"
      "charge_trip env u i (ride_currency (ride.truncate t)) m db = Inr db1"
      "pay_settlement env (paid_row t) m (ride_currency (ride.truncate t))
         (save_trip (paid_row t) (db1\<lparr>db_payments := new_wallet_payment t m (ride_currency (ride.truncate t)) db1
            # replace_payments i (next_payment_id db1) (db_payments db1)\<rparr>)) = Inr db'" "b"
proof -
  obtain i where i: "trip = Some i" using assms by (auto simp: pay_trip_def split: option.splits)
  obtain client where client: "(case amount of None \<Rightarrow> Inr None
      | Some v \<Rightarrow> (case parse_input v of Inl _ \<Rightarrow> Inl InvalidAmountText | Inr d \<Rightarrow> Inr (Some d))) = (Inr client :: pay_refusal + _)"
    using assms i by (auto simp: pay_trip_def bind_res_Inr_iff)
  obtain t where t: "find_trip i db = Some t" using assms i client by (auto simp: pay_trip_def split: option.splits)
  have u: "tr_rider t = u" "tr_status t = TS_COMPLETED"
    using assms i client t by (auto simp: pay_trip_def split: if_splits)
  show ?thesis
  proof (cases "case find_txn (KeyTripPayment i) (db_riders db) of None \<Rightarrow> False | Some r \<Rightarrow> rt_user r = u")
    case True
    then obtain r where r: "find_txn (KeyTripPayment i) (db_riders db) = Some r" "rt_user r = u" by (auto split: option.splits)
    then have "\<not> b \<and> db' = db" using assms i client t u by (simp add: pay_trip_def)
    then show ?thesis using replay [OF i t u r] by simp
  next
    case False
    have i': "pt_id t = i" using find_trip_id [OF t] by simp
    let ?m = "payable_minor (mb_redemptions (db_money db)) (ride.truncate t)" and ?c = "ride_currency (ride.truncate t)"
    have g: "\<not> list_ex (\<lambda>p. py_trip p = i \<and> py_status p = PS_COMPLETED) (db_payments db)" "tr_payment_status t \<noteq> Some ''completed''"
      "\<not> not_charged (mb_redemptions (db_money db)) (ride.truncate t)" "0 < ?m"
      using assms i client t u False by (auto simp: pay_trip_def Let_def split: if_splits)
    obtain db1 where c: "charge_trip env u i ?c ?m db = Inr db1"
      and s: "pay_settlement env (paid_row t) ?m ?c (save_trip (paid_row t)
         (db1\<lparr>db_payments := new_wallet_payment t ?m ?c db1 # replace_payments i (next_payment_id db1) (db_payments db1)\<rparr>)) = Inr db'"
      and b: "b"
      using assms i client t u False g unfolding paid_row_def new_wallet_payment_def i'
      by (auto simp: pay_trip_def Let_def bind_res_Inr_iff split: if_splits)
    show ?thesis by (rule charged [OF i t u g(1-3) refl g(4) c s b])
  qed
qed

lemma charge_trip_keeps: "charge_trip env u i c m db = Inr db1 \<Longrightarrow> keeps db db1"
  by (auto simp: charge_trip_def split: option.splits if_splits sum.splits)

lemma pay_settlement_keeps: "pay_settlement env t m c db = Inr db' \<Longrightarrow> keeps db db'"
  by (auto simp: pay_settlement_def dest: settle_trip_keeps split: option.splits if_splits sum.splits)

lemma pay_trip_touches:
  assumes "pay_trip env u trip amount db = Inr (b, db')"
  shows "touches (the trip) db db'"
  using assms
proof (cases rule: pay_trip_cases)
  case replay
  then show ?thesis by simp
next
  case (charged i t m db1)
  have "moved i db (save_trip (paid_row t) (db1\<lparr>db_payments := new_wallet_payment t m (ride_currency (ride.truncate t)) db1
            # replace_payments i (next_payment_id db1) (db_payments db1)\<rparr>))"
    using charge_trip_keeps [OF charged(10)]
    by (intro same_moved [OF charged(2)]) (auto simp: paid_row_def intro: keeps_trans)
  then show ?thesis using pay_settlement_keeps [OF charged(11)] charged(1)
    by (auto intro: touches_moved moved_keeps)
qed

end
