(* ===== verification/TripHistory.thy ===== *)
theory TripHistory
  imports TripLaws
begin

text \<open>
  Trips over every history. An acceptance is three steps (trip row, driver row, commit); between them any
  other operation may run that does not need a trip row or a driver row that is locked. \<open>Elsewhere\<close> replaces
  the tables other code writes by any others; it writes no trip and no trip counter, and removes no driver.
\<close>

section \<open>Ending a started trip\<close>

lemma owe_refund_keeps [simp]:
  "keeps db (owe_refund t owed c m st db)" "keeps db (owe_refund t owed c m st (db\<lparr>db_riders := rb\<rparr>))"
  by (simp_all add: owe_refund_def keeps_def)

lemma refund_prepaid_keeps:
  assumes "refund_prepaid env t p keep db = Inr (n, t', db')"
  shows "core t' = core t \<and> keeps db db'"
proof -
  define rows where "rows = filter (\<lambda>q. py_trip q = pt_id t \<and> prepaid q) (db_payments db)"
  define owed where "owed = sum_by py_amount rows - keep"
  define online where "online = list_ex (\<lambda>q. py_method q = ''online'') rows"
  define r where "r = (if keep = 0 \<and> online then process_refund_on_cancel env t db else Inr (False, t, db))"
  have eq: "refund_prepaid env t p keep db = (if owed \<le> 0 then Inr (0, t, db)
         else (case r of
             Inr (True, t', db') \<Rightarrow> Inr (owed, t', db')
           | _ \<Rightarrow>
               if online then Inr (owed, t, owe_refund t owed (ep_currency p) ''gateway'' MA_PENDING_GATEWAY db)
               else bind_res (lift_trip (major_of owed (ep_currency p))) (\<lambda>d.
                 (case issue_refund_credit (trip_context env db) (en_credit_cap env) (tr_rider t) (VDec (Finite d)) (pt_id t)
                     (KeyEndRefund (pt_id t)) (db_riders db) of
                    Inl e \<Rightarrow> Inl (TripCredit e)
                  | Inr (r, rb) \<Rightarrow> Inr (owed, t,
                      (if cr_ok r then owe_refund t owed (ep_currency p) ''wallet_credit'' MA_COMPLETED
                       else owe_refund t owed (ep_currency p) ''gateway'' MA_PENDING_GATEWAY) (db\<lparr>db_riders := rb\<rparr>))))))"
    unfolding refund_prepaid_def Let_def r_def owed_def online_def rows_def by simp
  have same: ?thesis if a: "(if online then Inr (owed, t, owe_refund t owed (ep_currency p) ''gateway'' MA_PENDING_GATEWAY db)
      else bind_res (lift_trip (major_of owed (ep_currency p))) (\<lambda>d.
        (case issue_refund_credit (trip_context env db) (en_credit_cap env) (tr_rider t) (VDec (Finite d)) (pt_id t)
            (KeyEndRefund (pt_id t)) (db_riders db) of
           Inl e \<Rightarrow> Inl (TripCredit e)
         | Inr (r, rb) \<Rightarrow> Inr (owed, t,
             (if cr_ok r then owe_refund t owed (ep_currency p) ''wallet_credit'' MA_COMPLETED
              else owe_refund t owed (ep_currency p) ''gateway'' MA_PENDING_GATEWAY) (db\<lparr>db_riders := rb\<rparr>))))) = Inr (n, t', db')"
  proof (cases online)
    case True
    with a show ?thesis by auto
  next
    case False
    with a obtain d where d: "(case issue_refund_credit (trip_context env db) (en_credit_cap env) (tr_rider t) (VDec (Finite d)) (pt_id t)
            (KeyEndRefund (pt_id t)) (db_riders db) of
           Inl e \<Rightarrow> Inl (TripCredit e)
         | Inr (r, rb) \<Rightarrow> Inr (owed, t,
             (if cr_ok r then owe_refund t owed (ep_currency p) ''wallet_credit'' MA_COMPLETED
              else owe_refund t owed (ep_currency p) ''gateway'' MA_PENDING_GATEWAY) (db\<lparr>db_riders := rb\<rparr>))) = Inr (n, t', db')"
      by (auto simp: bind_res_Inr_iff)
    then show ?thesis
      by (cases "issue_refund_credit (trip_context env db) (en_credit_cap env) (tr_rider t) (VDec (Finite d)) (pt_id t)
            (KeyEndRefund (pt_id t)) (db_riders db)") (auto split: if_splits)
  qed
  show ?thesis
  proof (cases "owed \<le> 0")
    case True
    with assms eq show ?thesis by simp
  next
    case False
    show ?thesis
    proof (cases r)
      case (Inl e)
      with False assms eq show ?thesis by (intro same) simp
    next
      case (Inr x)
      obtain b t1 db1 where x: "x = (b, t1, db1)" by (cases x)
      show ?thesis
      proof (cases b)
        case True
        with Inr x have "process_refund_on_cancel env t db = Inr (True, t1, db1)"
          by (simp add: r_def split: if_splits)
        with True Inr x False assms eq show ?thesis by (auto dest: process_refund_keeps)
      next
        case b: False
        with Inr x False assms eq show ?thesis by (intro same) simp
      qed
    qed
  qed
qed

lemma settle_end_keeps:
  assumes "settle_end env p t db = Inr (t', db')"
  shows "core t' = core t \<and> keeps db db'"
proof -
  obtain t1 db1 n t2 db2 where c: "create_payment_on_complete env t db = Inr (t1, db1)"
    and r: "refund_prepaid env t1 p (payable_minor (mb_redemptions (db_money db1)) (ride.truncate t1)) db1 = Inr (n, t2, db2)"
    and e: "t' = t2" "db' = db2 \<or> settle_trip env t2 db2 = Inr db'"
    using assms by (auto simp: settle_end_def bind_res_Inr_iff split: if_splits)
  have "keeps db2 db'" using e(2) by (auto dest: settle_trip_keeps)
  then show ?thesis
    using create_payment_on_complete_keeps [OF c] refund_prepaid_keeps [OF r] e(1) by (metis keeps_trans)
qed

lemma fund_end_keeps:
  assumes "fund_end env p t db = Inr (t', db')"
  shows "core t' = core t \<and> keeps db db'"
proof -
  obtain n t1 db1 where r: "refund_prepaid env t p 0 db = Inr (n, t1, db1)"
    and t': "t' = (if tr_payment_status t1 = Some ''refunded'' then t1 else t1\<lparr>tr_payment_status := Some ''waived''\<rparr>)"
    and db': "keeps db1 db'"
    using assms by (auto simp: fund_end_def bind_res_Inr_iff Let_def book_regulatory_fee_def keeps_def)
  show ?thesis using refund_prepaid_keeps [OF r] db' t' by (auto intro: keeps_trans)
qed

lemma save_twice: "pt_id t1 = pt_id t2 \<Longrightarrow> db_trips (save_trip t2 (save_trip t1 db)) = db_trips (save_trip t2 db)"
  by (simp add: save_trip_def)

lemma apply_plan_moved:
  assumes t: "find_trip i db = Some t" and st: "tr_status t = TS_IN_PROGRESS"
    and a: "apply_plan env p t db = Inr db'"
  shows "moved i db db'"
proof -
  let ?t1 = "ended_row env p t"
  obtain pb mb t2 db2 where
    e: "(if ep_rule p = STANDARD then settle_end else fund_end) env p ?t1
          (count_trip ?t1 ((save_trip ?t1 db)\<lparr>db_promos := pb, db_money := mb\<rparr>)) = Inr (t2, db2)"
    and db': "db' = save_trip t2 db2"
    using a by (auto simp: apply_plan_def Let_def bind_res_Inr_iff split: sum.splits)
  let ?db1 = "count_trip ?t1 ((save_trip ?t1 db)\<lparr>db_promos := pb, db_money := mb\<rparr>)"
  have k: "core t2 = core ?t1" "keeps ?db1 db2"
    using e by (auto split: if_splits dest: settle_end_keeps fund_end_keeps)
  have c1: "core ?t1 = core (t\<lparr>tr_status := TS_COMPLETED\<rparr>)" by (simp add: core_def ended_row_def)
  have "row_moves t (t\<lparr>tr_status := TS_COMPLETED\<rparr>)"
    using st by (simp add: row_moves_def status_move_def active_def DRIVER_ACTIVE_TRIP_STATUSES_def)
  then have m: "row_moves t t2" using core_moves [of t2] k(1) c1 by metis
  have core2: "pt_id t2 = pt_id t" "rd_driver t2 = rd_driver t" "tr_status t2 = TS_COMPLETED"
    using k(1) c1 by (simp_all add: core_def)
  have drv: "rd_driver ?t1 = rd_driver t" by (simp add: ended_row_def)
  have "counters db2 d = map_option (\<lambda>n. n + completes t t2 d) (counters db d)" for d
  proof -
    have "counters db2 d = counters ?db1 d" using counters_keeps [OF k(2)] by simp
    also have "\<dots> = map_option (\<lambda>n. n + (if rd_driver t = Some d then 1 else 0)) (counters db d)"
      unfolding count_trip_counters drv by (simp add: counters_def save_trip_def)
    finally show ?thesis using core2 st by (simp add: completes_def)
  qed
  moreover have "db_trips db' = db_trips (save_trip t2 db)"
    using k(2) core2(1) unfolding db' by (auto simp: keeps_def save_trip_def ended_row_def)
  ultimately show ?thesis
    unfolding moved_def db' using t m by (intro exI [of _ t] exI [of _ t2]) (simp add: counters_def save_trip_def)
qed

lemma end_started_touches: "touches i db (snd (end_started_trip env stale driven i reason db))"
  by (auto simp: end_started_trip_def intro: touches_moved apply_plan_moved split: option.splits sum.splits)

section \<open>Frames that are no acceptance\<close>

lemma start_trip_touches: "touches i db (snd (start_trip env i otp db))"
proof -
  have "keeps d (d\<lparr>db_attempts := a\<rparr>)" for d a by (simp add: keeps_def)
  then show ?thesis
    by (auto simp: start_trip_def Let_def touches_def counters_def fun_eq_iff
        intro: moved_keeps [OF update_moved] split: sum.splits update_refusal.splits)
qed

lemma update_touches:
  "target \<notin> {TS_REQUESTED, TS_ACCEPTED} \<Longrightarrow> touches i db (after db (update_trip_status env i target otp by reason db))"
  by (cases "update_trip_status env i target otp by reason db") (auto intro: touches_moved update_moved)

lemma receive_touches:
  assumes "cm_action cmd \<noteq> ACT_ACCEPT"
  shows "touches i db (snd (snd (receive env u i part otp cmd db)))"
proof (cases "cm_action cmd")
  case ACT_START
  then show ?thesis using start_trip_touches [of i db env]
    by (auto simp: receive_def Let_def split: option.splits prod.splits) (metis snd_conv)
next
  case ACT_CONFIRM_CASH
  then show ?thesis by (auto simp: receive_def Let_def intro: confirm_cash_touches split: sum.splits prod.splits)
qed (use assms in \<open>simp_all add: receive_def Let_def update_touches\<close>)

section \<open>Booking\<close>

text \<open>A booking that is made adds one trip at the end, with a new id and a key nobody holds.\<close>

definition adds_trip :: "'j ride_db \<Rightarrow> 'j ride_db \<Rightarrow> bool" where
  "adds_trip db db' = (\<exists>t. db_trips db' = db_trips db @ [t] \<and> db_drivers db' = db_drivers db
     \<and> pt_id t = next_trip_id db \<and> tr_status t = TS_REQUESTED \<and> rd_driver t = None
     \<and> (\<forall>k. tr_request_key t = Some k \<longrightarrow> find_booking (tr_rider t) k db = None))"

lemma next_trip_fresh: "t \<in> set (db_trips db) \<Longrightarrow> pt_id t < next_trip_id db"
  using Max_ge [of "insert 0 (pt_id ` set (db_trips db))" "pt_id t"] by (simp add: next_trip_id_def)

lemma new_trip_core:
  "new_trip u key i fare surge draft = Inr t \<Longrightarrow>
     core t = (i, u, (if key = [] then None else Some key), None, TS_REQUESTED, None)"
  by (auto simp: new_trip_def bind_res_Inr_iff core_def trip_row.defs ride.defs)

lemma booking_insert_cases:
  assumes "booking_insert env b db = (ans, db')"
  obtains (made) t where "ans = Booked (next_trip_id db)" "db_trips db' = db_trips db @ [t]" "db_drivers db' = db_drivers db"
      "core t = (next_trip_id db, bk_rider b, (if bk_key b = [] then None else Some (bk_key b)), None, TS_REQUESTED, None)"
      "booking_lookup (bk_rider b) (bk_key b) db = None"
  | (reused) i where "ans = Reused i" "db' = db" "booking_lookup (bk_rider b) (bk_key b) db = Some i"
  | (refused) "db' = db" "\<forall>i. ans \<noteq> Booked i \<and> ans \<noteq> Reused i"
proof (cases "booking_lookup (bk_rider b) (bk_key b) db")
  case (Some i)
  with assms show ?thesis by (intro reused [of i]) (simp_all add: booking_insert_def)
next
  case None
  define i where "i = next_trip_id db"
  show ?thesis
  proof (cases "new_trip (bk_rider b) (bk_key b) i (bk_fare b) (bk_surge b) (bk_draft b)")
    case (Inl e)
    with None assms show ?thesis by (intro refused) (auto simp: booking_insert_def Let_def i_def)
  next
    case (Inr t)
    define r where "r = bind_res (book_promo env (bk_rider b) (i, rd_currency t) (bk_fare b) (pt_zone t) (bk_promo b) (bk_tax b)
                       (db_promos db) (db_money db)) (\<lambda>(ok, pb, mb).
                     bind_res (case ok of None \<Rightarrow> Inr (rd_estimated t) | Some o' \<Rightarrow> relieved_fare o' (rd_estimated t))
                       (\<lambda>e. Inr (db\<lparr>db_trips := db_trips db @ [t\<lparr>rd_estimated := e\<rparr>], db_promos := pb, db_money := mb\<rparr>)))"
    have eq: "booking_insert env b db = (case r of Inl (PromoAsked why) \<Rightarrow> (PromoRefusal why, db)
        | Inl _ \<Rightarrow> (BookingFailed, db) | Inr db' \<Rightarrow> (Booked i, db'))"
      using None Inr unfolding r_def i_def by (simp add: booking_insert_def Let_def)
    show ?thesis
    proof (cases r)
      case (Inl e)
      with eq assms show ?thesis by (intro refused) (cases e; simp)+
    next
      case r: (Inr db1)
      then obtain e where d: "db_trips db1 = db_trips db @ [t\<lparr>rd_estimated := e\<rparr>]" "db_drivers db1 = db_drivers db"
        unfolding r_def by (auto simp: bind_res_Inr_iff)
      show ?thesis
        using eq assms r d new_trip_core [OF Inr] None
        by (intro made [of "t\<lparr>rd_estimated := e\<rparr>"]) (simp_all add: i_def core_def)
    qed
  qed
qed

lemma booking_adds:
  assumes "booking_insert env b db = (ans, db')"
  shows "db' = db \<or> adds_trip db db'"
  using assms
proof (cases rule: booking_insert_cases)
  case (made t)
  then show ?thesis
    by (intro disjI2) (auto simp: adds_trip_def core_def booking_lookup_def split: if_splits)
qed simp_all

end
