(* ===== verification/RideWorld.thy ===== *)
theory RideWorld
  imports TripHistory
begin

text \<open>
  The trips as a machine of interleaved transactions. An acceptance (\<open>_accept_trip\<close>) is three steps: it locks
  the trip row and reads it, locks the driver row and reads what the driver is doing, and commits. Every other
  operation is one step; it waits while the trip row is locked. \<open>Elsewhere\<close> replaces the tables other code
  writes by any others, but removes no driver and writes no trip and no trip counter. A status update may come
  from any caller: what a frame checks before the lock is not needed for what is proved here. The rows a
  refused acceptance stamped on the driver stay; a crash of the others writes nothing.
\<close>

datatype 'j flight = AtTrip (flight_driver: int) (flight_trip: "'j trip_row")
  | AtDriver (flight_driver: int) driver_row (flight_trip: "'j trip_row")

record 'j ride_world =
  rw_db :: "'j ride_db"
  rw_flights :: "'j flight list"

datatype 'j ride_event =
    TakesTrip int int
  | TakesDriver "'j ride_env" int int
  | Commits "'j ride_env" int int string
  | Aborts int
  | Moves "'j ride_env" int trip_status string string string
  | Starts "'j ride_env" int string
  | ConfirmsCash "'j ride_env" int
  | DriverCancels "'j ride_env" int int string string
  | RiderCancels "'j ride_env" int int string string
  | TimesOut "'j ride_env" int
  | OperatorCancels "'j ride_env" int string string bool bool
  | EndsTrip "'j ride_env" bool "decimal \<times> decimal" int string
  | PaysTrip "'j ride_env" int "int option" "pyval option"
  | BooksTrip "'j promo_env" "'j booking"
  | Elsewhere "'j ride_db"

datatype ride_refusal = Waiting | NotStarted | Refused

definition locked :: "int \<Rightarrow> 'j ride_world \<Rightarrow> bool" where
  "locked i w = (i \<in> (\<lambda>f. pt_id (flight_trip f)) ` set (rw_flights w))"

definition landed :: "int \<Rightarrow> 'j ride_world \<Rightarrow> 'j flight list" where
  "landed i w = filter (\<lambda>f. pt_id (flight_trip f) \<noteq> i) (rw_flights w)"

fun holds_driver :: "int \<Rightarrow> 'j flight \<Rightarrow> bool" where
  "holds_driver d (AtDriver d' _ _) = (d' = d)"
| "holds_driver d (AtTrip _ _) = False"

definition flight_of :: "int \<Rightarrow> int \<Rightarrow> 'j ride_world \<Rightarrow> 'j flight option" where
  "flight_of d i w = find (\<lambda>f. pt_id (flight_trip f) = i \<and> flight_driver f = d) (rw_flights w)"

text \<open>What other code may leave behind: any tables, the drivers still there and their counts as they were.\<close>

definition other_drivers :: "'j ride_db \<Rightarrow> 'j ride_db \<Rightarrow> int \<Rightarrow> driver_row option" where
  "other_drivers db other d = (case db_drivers db d of
      None \<Rightarrow> map_option (\<lambda>r. r\<lparr>dv_trips := 0\<rparr>) (db_drivers other d)
    | Some r \<Rightarrow> Some (case db_drivers other d of None \<Rightarrow> r | Some r' \<Rightarrow> r'\<lparr>dv_trips := dv_trips r\<rparr>))"

definition elsewhere :: "'j ride_db \<Rightarrow> 'j ride_db \<Rightarrow> 'j ride_db" where
  "elsewhere other db = other\<lparr>db_trips := db_trips db, db_drivers := other_drivers db other\<rparr>"

definition on_trip :: "int \<Rightarrow> ('j ride_db \<Rightarrow> 'j ride_db option) \<Rightarrow> 'j ride_world \<Rightarrow> ride_refusal + 'j ride_world" where
  "on_trip i f w = (if locked i w then Inl Waiting
     else case f (rw_db w) of None \<Rightarrow> Inl Refused | Some db \<Rightarrow> Inr (w\<lparr>rw_db := db\<rparr>))"

definition result :: "'e + 'a \<Rightarrow> 'a option" where
  "result r = (case r of Inl _ \<Rightarrow> None | Inr x \<Rightarrow> Some x)"

fun ride_step :: "'j ride_world \<Rightarrow> 'j ride_event \<Rightarrow> ride_refusal + 'j ride_world" where
  "ride_step w (TakesTrip d i) = (if locked i w then Inl Waiting
     else case lock_trip i (rw_db w) of Inl _ \<Rightarrow> Inl Refused
       | Inr t \<Rightarrow> Inr (w\<lparr>rw_flights := AtTrip d t # rw_flights w\<rparr>))"
| "ride_step w (TakesDriver env d i) = (case flight_of d i w of
     Some (AtTrip _ t) \<Rightarrow>
       if list_ex (holds_driver d) (rw_flights w) then Inl Waiting
       else (case lock_driver env d i (rw_db w) of
           (Inl _, db) \<Rightarrow> Inr \<lparr> rw_db = db, rw_flights = landed i w \<rparr>
         | (Inr row, db) \<Rightarrow> Inr \<lparr> rw_db = db, rw_flights = AtDriver d row t # landed i w \<rparr>)
   | _ \<Rightarrow> Inl NotStarted)"
| "ride_step w (Commits env d i otp) = (case flight_of d i w of
     Some (AtDriver _ row t) \<Rightarrow> Inr \<lparr> rw_db = assign_driver env d row otp t (rw_db w), rw_flights = landed i w \<rparr>
   | _ \<Rightarrow> Inl NotStarted)"
| "ride_step w (Aborts i) = Inr (w\<lparr>rw_flights := landed i w\<rparr>)"
| "ride_step w (Moves env i target otp by reason) =
     (if target \<in> {TS_REQUESTED, TS_ACCEPTED} then Inl Refused
      else on_trip i (\<lambda>db. result (update_trip_status env i target otp by reason db)) w)"
| "ride_step w (Starts env i otp) = on_trip i (\<lambda>db. Some (snd (start_trip env i otp db))) w"
| "ride_step w (ConfirmsCash env i) = on_trip i (\<lambda>db. map_option snd (result (confirm_cash_payment env i db))) w"
| "ride_step w (DriverCancels env u i reason note) =
     on_trip i (\<lambda>db. map_option snd (result (driver_cancel_trip env u i reason note db))) w"
| "ride_step w (RiderCancels env u i reason note) =
     on_trip i (\<lambda>db. result (rider_cancel_trip env u i reason note db)) w"
| "ride_step w (TimesOut env i) = on_trip i (auto_cancel_trip env i) w"
| "ride_step w (OperatorCancels env i code note waive stale) =
     on_trip i (\<lambda>db. Some (snd (operator_cancel env i code note waive stale db))) w"
| "ride_step w (EndsTrip env stale driven i reason) =
     on_trip i (\<lambda>db. Some (snd (end_started_trip env stale driven i reason db))) w"
| "ride_step w (PaysTrip env u trip amount) =
     (case trip of None \<Rightarrow> Inl Refused
      | Some i \<Rightarrow> on_trip i (\<lambda>db. map_option snd (result (pay_trip env u trip amount db))) w)"
| "ride_step w (BooksTrip env b) = Inr (w\<lparr>rw_db := snd (booking_insert env b (rw_db w))\<rparr>)"
| "ride_step w (Elsewhere other) = Inr (w\<lparr>rw_db := elsewhere other (rw_db w)\<rparr>)"

section \<open>The invariant\<close>

definition busy :: "int \<Rightarrow> 'j trip_row list \<Rightarrow> 'j trip_row list" where
  "busy d ts = filter (\<lambda>t. rd_driver t = Some d \<and> active (tr_status t)) ts"

definition driven_to_end :: "int \<Rightarrow> 'j trip_row list \<Rightarrow> 'j trip_row list" where
  "driven_to_end d ts = filter (\<lambda>t. rd_driver t = Some d \<and> tr_status t = TS_COMPLETED) ts"

definition booking_keys :: "'j trip_row list \<Rightarrow> (int \<times> string option) list" where
  "booking_keys ts = map (\<lambda>t. (tr_rider t, tr_request_key t)) (filter (\<lambda>t. tr_request_key t \<noteq> None) ts)"

definition trip_ok :: "(int \<Rightarrow> int option) \<Rightarrow> 'j trip_row \<Rightarrow> bool" where
  "trip_ok c t = (if tr_status t = TS_REQUESTED then rd_driver t = None
     else if tr_status t = TS_CANCELLED then True
     else case rd_driver t of None \<Rightarrow> False | Some d \<Rightarrow> c d \<noteq> None \<and> tr_otp t \<noteq> None)"

definition trips_ok :: "'j trip_row list \<Rightarrow> (int \<Rightarrow> int option) \<Rightarrow> bool" where
  "trips_ok ts c = (distinct (map pt_id ts) \<and> (\<forall>t \<in> set ts. trip_ok c t) \<and> (\<forall>d. length (busy d ts) \<le> 1)
     \<and> (\<forall>d n. c d = Some n \<longrightarrow> n = int (length (driven_to_end d ts))) \<and> distinct (booking_keys ts))"

definition flight_ok :: "'j trip_row list \<Rightarrow> (int \<Rightarrow> int option) \<Rightarrow> 'j flight \<Rightarrow> bool" where
  "flight_ok ts c f = (flight_trip f \<in> set ts \<and> tr_status (flight_trip f) = TS_REQUESTED
     \<and> (\<forall>d. holds_driver d f \<longrightarrow> busy d ts = [] \<and> c d \<noteq> None))"

definition flights_ok :: "'j trip_row list \<Rightarrow> (int \<Rightarrow> int option) \<Rightarrow> 'j flight list \<Rightarrow> bool" where
  "flights_ok ts c fs = (distinct (map (\<lambda>f. pt_id (flight_trip f)) fs)
     \<and> (\<forall>f \<in> set fs. flight_ok ts c f) \<and> (\<forall>d. length (filter (holds_driver d) fs) \<le> 1))"

definition ride_inv :: "'j ride_world \<Rightarrow> bool" where
  "ride_inv w = (trips_ok (db_trips (rw_db w)) (counters (rw_db w))
     \<and> flights_ok (db_trips (rw_db w)) (counters (rw_db w)) (rw_flights w))"

section \<open>Replacing one row\<close>

definition put_row :: "'j trip_row \<Rightarrow> 'j trip_row list \<Rightarrow> 'j trip_row list" where
  "put_row t' ts = map (\<lambda>q. if pt_id q = pt_id t' then t' else q) ts"

lemma save_trip_put: "db_trips (save_trip t db) = put_row t (db_trips db)"
  by (simp add: save_trip_def put_row_def)

lemma put_row_absent: "pt_id t' \<notin> pt_id ` set ts \<Longrightarrow> put_row t' ts = ts"
  by (auto simp: put_row_def intro!: map_idI) (metis imageI)

lemma put_row_ids [simp]: "map pt_id (put_row t' ts) = map pt_id ts"
  by (simp add: put_row_def)

lemma put_row_mem: "q \<in> set (put_row t' ts) \<Longrightarrow> q = t' \<or> (q \<in> set ts \<and> pt_id q \<noteq> pt_id t')"
  by (auto simp: put_row_def)

lemma put_row_keeps: "q \<in> set ts \<Longrightarrow> pt_id q \<noteq> pt_id t' \<Longrightarrow> q \<in> set (put_row t' ts)"
  by (force simp: put_row_def)

lemma put_row_new: "pt_id t' \<in> pt_id ` set ts \<Longrightarrow> t' \<in> set (put_row t' ts)"
  by (force simp: put_row_def)

lemma put_row_count:
  assumes "distinct (map pt_id ts)" and "t \<in> set ts" and "pt_id t' = pt_id t"
  shows "int (length (filter P (put_row t' ts))) = int (length (filter P ts)) + of_bool (P t') - of_bool (P t)"
  using assms(1,2)
proof (induction ts)
  case Nil
  then show ?case by simp
next
  case (Cons q ts)
  show ?case
  proof (cases "q = t")
    case True
    with Cons.prems have "put_row t' ts = ts" using assms(3) by (intro put_row_absent) auto
    with True assms(3) show ?thesis by (simp add: put_row_def)
  next
    case False
    then have t: "t \<in> set ts" using Cons.prems by simp
    then have "pt_id q \<noteq> pt_id t'" using Cons.prems assms(3) by auto
    then have "put_row t' (q # ts) = q # put_row t' ts" by (simp add: put_row_def)
    with Cons.IH t Cons.prems show ?thesis by simp
  qed
qed

lemma put_row_map:
  assumes "distinct (map pt_id ts)" and "t \<in> set ts" and "pt_id t' = pt_id t" and "f t' = f t" and "P t' = P t"
  shows "map f (filter P (put_row t' ts)) = map f (filter P ts)"
  using assms(1,2)
proof (induction ts)
  case Nil
  then show ?case by simp
next
  case (Cons q ts)
  show ?case
  proof (cases "q = t")
    case True
    with Cons.prems have "put_row t' ts = ts" using assms(3) by (intro put_row_absent) auto
    with True assms(3-5) show ?thesis by (simp add: put_row_def)
  next
    case False
    then have t: "t \<in> set ts" using Cons.prems by simp
    then have "pt_id q \<noteq> pt_id t'" using Cons.prems assms(3) by auto
    then have "put_row t' (q # ts) = q # put_row t' ts" by (simp add: put_row_def)
    with Cons.IH t Cons.prems show ?thesis by simp
  qed
qed

section \<open>One trip moved\<close>

lemma counters_same: "counters db' = (\<lambda>d. map_option (\<lambda>n. n + 0) (counters db d)) \<Longrightarrow> counters db' = counters db"
  by (simp add: fun_eq_iff option.map_ident)

lemma moved_trips_ok:
  assumes ok: "trips_ok ts c" and t: "t \<in> set ts" and m: "row_moves t t'"
    and c: "\<And>d. c' d = map_option (\<lambda>n. n + completes t t' d) (c d)"
  shows "trips_ok (put_row t' ts) c'"
proof -
  note o = ok [unfolded trips_ok_def]
  have id: "pt_id t' = pt_id t" using m by (simp add: row_moves_def)
  note count = put_row_count [OF conjunct1 [OF o] t id]
  have some: "c' d = None \<longleftrightarrow> c d = None" for d by (simp add: c)
  have "trip_ok c' q" if "q \<in> set (put_row t' ts)" for q
  proof (cases "q = t'")
    case True
    have "trip_ok c t" using o t by blast
    with m True show ?thesis
      by (cases "tr_status t"; cases "tr_status t'")
        (auto simp: trip_ok_def row_moves_def status_move_def some split: option.splits)
  next
    case False
    with put_row_mem [OF that] o have "trip_ok c q" by blast
    then show ?thesis by (auto simp: trip_ok_def some split: option.splits if_splits)
  qed
  moreover have "length (busy d (put_row t' ts)) \<le> 1" for d
  proof -
    have "length (busy d ts) \<le> 1" using o by blast
    moreover have "int (length (busy d (put_row t' ts))) \<le> int (length (busy d ts))"
      unfolding busy_def count using m by (auto simp: row_moves_def of_bool_def)
    ultimately show ?thesis by linarith
  qed
  moreover have "n = int (length (driven_to_end d (put_row t' ts)))" if "c' d = Some n" for d n
  proof -
    from that obtain k where k: "c d = Some k" "n = k + completes t t' d" by (auto simp: c)
    then have "k = int (length (driven_to_end d ts))" using o by blast
    moreover have "completes t t' d = of_bool (rd_driver t' = Some d \<and> tr_status t' = TS_COMPLETED)
        - of_bool (rd_driver t = Some d \<and> tr_status t = TS_COMPLETED)"
      using m by (auto simp: completes_def row_moves_def status_move_def of_bool_def)
    ultimately show ?thesis unfolding driven_to_end_def count using k(2) by simp
  qed
  moreover have "booking_keys (put_row t' ts) = booking_keys ts"
    unfolding booking_keys_def using m
    by (intro put_row_map [OF conjunct1 [OF o] t id]) (simp_all add: row_moves_def)
  ultimately show ?thesis using o unfolding trips_ok_def by simp
qed

lemma moved_flights_ok:
  assumes ok: "flights_ok ts c fs" and m: "row_moves t t'" and d: "distinct (map pt_id ts)" and t: "t \<in> set ts"
    and free: "pt_id t \<notin> (\<lambda>f. pt_id (flight_trip f)) ` set fs"
    and c: "\<And>d. c' d = map_option (\<lambda>n. n + completes t t' d) (c d)"
  shows "flights_ok (put_row t' ts) c' fs"
proof -
  have id: "pt_id t' = pt_id t" using m by (simp add: row_moves_def)
  have busy: "busy x (put_row t' ts) = []" if "busy x ts = []" for x
  proof -
    have "int (length (busy x (put_row t' ts))) \<le> int (length (busy x ts))"
      unfolding busy_def put_row_count [OF d t id] using m by (auto simp: row_moves_def of_bool_def)
    with that show ?thesis by simp
  qed
  have "flight_ok (put_row t' ts) c' f" if "f \<in> set fs" for f
  proof -
    have "flight_ok ts c f" using ok that by (simp add: flights_ok_def)
    moreover have "pt_id (flight_trip f) \<noteq> pt_id t'"
      using free id imageI [OF that, of "\<lambda>f. pt_id (flight_trip f)"] by auto
    ultimately show ?thesis by (auto simp: flight_ok_def put_row_keeps busy c)
  qed
  then show ?thesis using ok by (simp add: flights_ok_def)
qed

lemma touches_inv:
  assumes inv: "ride_inv w" and free: "\<not> locked i w" and m: "touches i (rw_db w) db'"
  shows "ride_inv (w\<lparr>rw_db := db'\<rparr>)"
proof (cases "moved i (rw_db w) db'")
  case False
  with m have "db_trips db' = db_trips (rw_db w)" "counters db' = counters (rw_db w)" by (auto simp: touches_def)
  with inv show ?thesis by (simp add: ride_inv_def)
next
  case True
  then obtain t t' where t: "find_trip i (rw_db w) = Some t" and r: "row_moves t t'"
    and ts: "db_trips db' = put_row t' (db_trips (rw_db w))"
    and c: "\<And>d. counters db' d = map_option (\<lambda>n. n + completes t t' d) (counters (rw_db w) d)"
    by (auto simp: moved_def save_trip_put)
  note ti = find_trip_id [OF t]
  have inv': "trips_ok (db_trips (rw_db w)) (counters (rw_db w))"
      "flights_ok (db_trips (rw_db w)) (counters (rw_db w)) (rw_flights w)" using inv by (simp_all add: ride_inv_def)
  then have d: "distinct (map pt_id (db_trips (rw_db w)))" by (simp add: trips_ok_def)
  have "pt_id t \<notin> (\<lambda>f. pt_id (flight_trip f)) ` set (rw_flights w)" using free ti by (simp add: locked_def)
  with moved_trips_ok [OF inv'(1) conjunct2 [OF ti] r c] moved_flights_ok [OF inv'(2) r d conjunct2 [OF ti] _ c]
  show ?thesis by (simp add: ride_inv_def ts)
qed

lemma result_Some: "result r = Some x \<longleftrightarrow> r = Inr x"
  by (cases r) (simp_all add: result_def)

section \<open>Every step keeps the invariant\<close>

lemma landed_ok: "flights_ok ts c fs \<Longrightarrow> flights_ok ts c (filter p fs)"
proof -
  assume ok: "flights_ok ts c fs"
  have "length (filter (holds_driver d) (filter p fs)) \<le> length (filter (holds_driver d) fs)" for d
    by (induction fs) simp_all
  moreover have "length (filter (holds_driver d) fs) \<le> 1" for d using ok by (simp add: flights_ok_def)
  ultimately have "length (filter (holds_driver d) (filter p fs)) \<le> 1" for d using le_trans by blast
  then show ?thesis using ok by (auto simp: flights_ok_def distinct_map_filter)
qed

lemma flight_of_Some:
  "flight_of d i w = Some f \<Longrightarrow> f \<in> set (rw_flights w) \<and> pt_id (flight_trip f) = i \<and> flight_driver f = d"
  by (auto simp: flight_of_def find_Some_iff)

lemma takes_trip_inv:
  assumes inv: "ride_inv w" and free: "\<not> locked i w" and t: "lock_trip i (rw_db w) = Inr t"
  shows "ride_inv (w\<lparr>rw_flights := AtTrip d t # rw_flights w\<rparr>)"
proof -
  from t have f: "find_trip i (rw_db w) = Some t" and st: "tr_status t = TS_REQUESTED"
    by (auto simp: lock_trip_def split: option.splits if_splits)
  from find_trip_id [OF f] st free inv show ?thesis
    by (auto simp: ride_inv_def flights_ok_def flight_ok_def locked_def)
qed

lemma fatigue_keeps_count: "get_fatigue_status d now ss row = (st, row') \<Longrightarrow> dv_trips row' = dv_trips row"
  by (auto simp: get_fatigue_status_def Let_def split: if_splits prod.splits)

lemma lock_driver_effect:
  assumes "lock_driver env d i db = (r, db')"
  shows "db_trips db' = db_trips db" and "counters db' = counters db"
    and "r = Inr row \<Longrightarrow> counters db d \<noteq> None \<and> (\<forall>t \<in> set (busy d (db_trips db)). pt_id t = i)"
proof -
  show "db_trips db' = db_trips db"
    using assms by (auto simp: lock_driver_def Let_def split: option.splits if_splits prod.splits)
  show "counters db' = counters db"
    using assms by (auto simp: lock_driver_def Let_def counters_def fun_eq_iff dest: fatigue_keeps_count
        split: option.splits if_splits prod.splits)
  show "counters db d \<noteq> None \<and> (\<forall>t \<in> set (busy d (db_trips db)). pt_id t = i)" if "r = Inr row"
    using assms that by (auto simp: lock_driver_def Let_def counters_def driver_active_trip_ids_def busy_def active_def filter_empty_conv
        split: option.splits if_splits prod.splits)
qed

lemma takes_driver_inv:
  assumes inv: "ride_inv w" and f: "flight_of d i w = Some (AtTrip d' t)"
    and free: "\<not> list_ex (holds_driver d) (rw_flights w)" and l: "lock_driver env d i (rw_db w) = (r, db)"
  shows "ride_inv \<lparr> rw_db = db, rw_flights = (case r of Inl _ \<Rightarrow> landed i w | Inr row \<Rightarrow> AtDriver d row t # landed i w) \<rparr>"
proof -
  note e = lock_driver_effect [OF l]
  have ok: "trips_ok (db_trips (rw_db w)) (counters (rw_db w))"
      "flights_ok (db_trips (rw_db w)) (counters (rw_db w)) (rw_flights w)" using inv by (simp_all add: ride_inv_def)
  note lok = landed_ok [OF ok(2)]
  show ?thesis
  proof (cases r)
    case (Inl x)
    with e(1,2) ok(1) lok show ?thesis by (simp add: ride_inv_def landed_def)
  next
    case (Inr row)
    from flight_of_Some [OF f] have i: "pt_id t = i" and m: "AtTrip d' t \<in> set (rw_flights w)" by auto
    have t: "t \<in> set (db_trips (rw_db w))" "tr_status t = TS_REQUESTED"
      using ok(2) m by (auto simp: flights_ok_def flight_ok_def)
    have "busy d (db_trips (rw_db w)) = []"
    proof (rule ccontr)
      assume "busy d (db_trips (rw_db w)) \<noteq> []"
      then obtain q where q: "q \<in> set (busy d (db_trips (rw_db w)))" by (meson hd_in_set)
      with e(3) [OF Inr] i have "pt_id q = pt_id t" by auto
      moreover have "q \<in> set (db_trips (rw_db w))" "active (tr_status q)" using q by (auto simp: busy_def)
      ultimately have "q = t" using ok(1) t by (auto simp: trips_ok_def dest: eq_key_imp_eq_value distinct_map [THEN iffD1] inj_onD)
      with \<open>active (tr_status q)\<close> t(2) show False by (simp add: active_def DRIVER_ACTIVE_TRIP_STATUSES_def)
    qed
    with t e(3) [OF Inr] have fk: "flight_ok (db_trips (rw_db w)) (counters (rw_db w)) (AtDriver d row t)"
      by (simp add: flight_ok_def)
    have none: "filter (holds_driver d) (landed i w) = []"
      using free by (auto simp: landed_def filter_empty_conv list_ex_iff)
    have "length (filter (holds_driver x) (AtDriver d row t # landed i w)) \<le> 1" for x
      using lok none by (auto simp: flights_ok_def landed_def)
    then have "flights_ok (db_trips (rw_db w)) (counters (rw_db w)) (AtDriver d row t # landed i w)"
      using lok fk i by (auto simp: flights_ok_def landed_def)
    with e(1,2) ok(1) Inr show ?thesis by (simp add: ride_inv_def)
  qed
qed

definition assigned :: "'j ride_env \<Rightarrow> int \<Rightarrow> driver_row \<Rightarrow> string \<Rightarrow> 'j trip_row \<Rightarrow> 'j trip_row" where
  "assigned env d row otp t = t\<lparr>rd_driver := Some d, tr_status := TS_ACCEPTED, tr_accepted_at := Some (en_now env),
       tr_vehicle := dv_vehicle row,
       pt_vehicle_vt := (case dv_vehicle row of None \<Rightarrow> None | Some v \<Rightarrow> en_vehicle_type env v),
       tr_otp := Some otp\<rparr>"

lemma assigned_fields [simp]:
  "pt_id (assigned env d row otp t) = pt_id t" "rd_driver (assigned env d row otp t) = Some d"
  "tr_status (assigned env d row otp t) = TS_ACCEPTED" "tr_otp (assigned env d row otp t) = Some otp"
  "tr_rider (assigned env d row otp t) = tr_rider t" "tr_request_key (assigned env d row otp t) = tr_request_key t"
  by (simp_all add: assigned_def)

lemma assign_put: "db_trips (assign_driver env d row otp t db) = put_row (assigned env d row otp t) (db_trips db)"
  by (simp add: assign_driver_def assigned_def save_trip_put)

lemma assign_counters [simp]: "counters (assign_driver env d row otp t db) = counters db"
  by (simp add: assign_driver_def save_trip_def counters_def fun_eq_iff)

lemma commits_inv:
  assumes inv: "ride_inv w" and f: "flight_of d i w = Some (AtDriver d' row t)"
  shows "ride_inv \<lparr> rw_db = assign_driver env d row otp t (rw_db w), rw_flights = landed i w \<rparr>"
proof -
  let ?ts = "db_trips (rw_db w)" and ?c = "counters (rw_db w)" and ?t = "assigned env d row otp t"
  have ok: "trips_ok ?ts ?c" "flights_ok ?ts ?c (rw_flights w)" using inv by (simp_all add: ride_inv_def)
  from flight_of_Some [OF f] have m: "AtDriver d row t \<in> set (rw_flights w)" and i: "pt_id t = i" by auto
  with ok(2) have t: "t \<in> set ?ts" "tr_status t = TS_REQUESTED" and idle: "busy d ?ts = []" and c: "?c d \<noteq> None"
    by (auto simp: flights_ok_def flight_ok_def)
  note o = ok(1) [unfolded trips_ok_def]
  have nobody: "rd_driver t = None" using o t by (auto simp: trip_ok_def)
  note count = put_row_count [OF conjunct1 [OF o] t(1), of ?t]
  have busy: "int (length (busy x (put_row ?t ?ts))) = int (length (busy x ?ts)) + of_bool (x = d)" for x
    unfolding busy_def by (subst count) (simp_all add: t(2) nobody active_def DRIVER_ACTIVE_TRIP_STATUSES_def)
  have ends: "length (driven_to_end x (put_row ?t ?ts)) = length (driven_to_end x ?ts)" for x
    unfolding driven_to_end_def by (subst of_nat_eq_iff [where 'a = int, symmetric], subst count) (simp_all add: t(2))
  have keys: "booking_keys (put_row ?t ?ts) = booking_keys ?ts"
    unfolding booking_keys_def by (intro put_row_map [OF conjunct1 [OF o] t(1)]) simp_all
  have rows: "trip_ok ?c q" if "q \<in> set (put_row ?t ?ts)" for q
    using put_row_mem [OF that] o c by (auto simp: trip_ok_def)
  have one: "length (busy x (put_row ?t ?ts)) \<le> 1" for x
    using busy [of x] idle o by (cases "x = d") auto
  have "trips_ok (put_row ?t ?ts) ?c" using o rows one ends keys by (simp add: trips_ok_def)
  moreover have "flight_ok (put_row ?t ?ts) ?c g" if g: "g \<in> set (landed i w)" for g
  proof -
    have g': "g \<in> set (rw_flights w)" "pt_id (flight_trip g) \<noteq> i" using g by (auto simp: landed_def)
    then have "flight_ok ?ts ?c g" using ok(2) by (simp add: flights_ok_def)
    moreover have "\<not> holds_driver d g"
    proof
      assume "holds_driver d g"
      then have "{g, AtDriver d row t} \<subseteq> set (filter (holds_driver d) (rw_flights w))" using g' m by simp
      moreover have "g \<noteq> AtDriver d row t" using g' i by auto
      moreover have "length (filter (holds_driver d) (rw_flights w)) \<le> 1" using ok(2) by (simp add: flights_ok_def)
      ultimately show False by (cases "filter (holds_driver d) (rw_flights w)") auto
    qed
    moreover have "busy x (put_row ?t ?ts) = []" if "busy x ?ts = []" "x \<noteq> d" for x using busy [of x] that by simp
    ultimately show ?thesis using g' i by (auto simp: flight_ok_def put_row_keeps)
  qed
  ultimately show ?thesis using landed_ok [OF ok(2)] by (simp add: ride_inv_def assign_put flights_ok_def landed_def)
qed

lemma adds_inv:
  assumes inv: "ride_inv w" and a: "adds_trip (rw_db w) db'"
  shows "ride_inv (w\<lparr>rw_db := db'\<rparr>)"
proof -
  obtain t where t: "db_trips db' = db_trips (rw_db w) @ [t]" "db_drivers db' = db_drivers (rw_db w)"
      "pt_id t = next_trip_id (rw_db w)" "tr_status t = TS_REQUESTED" "rd_driver t = None"
      "\<And>k. tr_request_key t = Some k \<Longrightarrow> find_booking (tr_rider t) k (rw_db w) = None"
    using a by (auto simp: adds_trip_def)
  have c: "counters db' = counters (rw_db w)" using t(2) by (simp add: counters_def fun_eq_iff)
  have ok: "trips_ok (db_trips (rw_db w)) (counters (rw_db w))"
      "flights_ok (db_trips (rw_db w)) (counters (rw_db w)) (rw_flights w)" using inv by (simp_all add: ride_inv_def)
  have "pt_id t \<notin> pt_id ` set (db_trips (rw_db w))" using t(3) next_trip_fresh by fastforce
  moreover have "(tr_rider t, tr_request_key t) \<notin> set (booking_keys (db_trips (rw_db w)))" if "tr_request_key t \<noteq> None"
  proof -
    from that obtain k where k: "tr_request_key t = Some k" by blast
    from t(6) [OF k] k show ?thesis by (auto simp: booking_keys_def find_booking_def find_None_iff)
  qed
  moreover have busy: "busy d (db_trips (rw_db w) @ [t]) = busy d (db_trips (rw_db w))" for d by (simp add: busy_def t(5))
  moreover have "driven_to_end d (db_trips (rw_db w) @ [t]) = driven_to_end d (db_trips (rw_db w))" for d
    by (simp add: driven_to_end_def t(5))
  ultimately have "trips_ok (db_trips db') (counters db')"
    using ok(1) t by (auto simp: trips_ok_def c trip_ok_def booking_keys_def)
  moreover have "flights_ok (db_trips db') (counters db') (rw_flights w)"
    using ok(2) by (auto simp: flights_ok_def flight_ok_def c busy t(1))
  ultimately show ?thesis by (simp add: ride_inv_def)
qed

lemma elsewhere_inv:
  assumes inv: "ride_inv w" and new: "\<And>d. counters (rw_db w) d = None \<Longrightarrow> driven_to_end d (db_trips (rw_db w)) = []"
  shows "ride_inv (w\<lparr>rw_db := elsewhere other (rw_db w)\<rparr>)"
proof -
  let ?c = "counters (rw_db w)" and ?c' = "counters (elsewhere other (rw_db w))"
  have c: "?c' d = (case ?c d of None \<Rightarrow> (case db_drivers other d of None \<Rightarrow> None | Some _ \<Rightarrow> Some 0) | Some n \<Rightarrow> Some n)" for d
    by (auto simp: counters_def elsewhere_def other_drivers_def split: option.splits)
  have ts: "db_trips (elsewhere other (rw_db w)) = db_trips (rw_db w)" by (simp add: elsewhere_def)
  have mono: "?c d \<noteq> None \<Longrightarrow> ?c' d = ?c d" for d by (auto simp: c)
  have ok: "trips_ok (db_trips (rw_db w)) ?c" "flights_ok (db_trips (rw_db w)) ?c (rw_flights w)"
    using inv by (simp_all add: ride_inv_def)
  have "trip_ok ?c' t" if "trip_ok ?c t" for t :: "'a trip_row" using that mono by (auto simp: trip_ok_def split: option.splits if_splits)
  moreover have "n = int (length (driven_to_end d (db_trips (rw_db w))))" if "?c' d = Some n" for d n
    using that ok(1) new [of d] by (cases "?c d") (auto simp: trips_ok_def c split: option.splits)
  ultimately have "trips_ok (db_trips (rw_db w)) ?c'" using ok(1) by (simp add: trips_ok_def)
  moreover have "flights_ok (db_trips (rw_db w)) ?c' (rw_flights w)"
    using ok(2) mono by (auto simp: flights_ok_def flight_ok_def)
  ultimately show ?thesis by (simp add: ride_inv_def ts)
qed

lemma paid_touches: "pay_trip env u (Some i) amount db = Inr (b, db') \<Longrightarrow> touches i db db'"
  by (drule pay_trip_touches) simp

lemma no_driver_no_trips: "ride_inv w \<Longrightarrow> counters (rw_db w) d = None \<Longrightarrow> driven_to_end d (db_trips (rw_db w)) = []"
  by (auto simp: ride_inv_def trips_ok_def driven_to_end_def filter_empty_conv trip_ok_def split: if_splits)

section \<open>What lasts\<close>

text \<open>The status machine: one move after the other, and none out of the last two.\<close>

definition status_later :: "trip_status \<Rightarrow> trip_status \<Rightarrow> bool" where
  "status_later a b = (status_move\<^sup>*\<^sup>* a b \<and> (a \<in> {TS_COMPLETED, TS_CANCELLED} \<longrightarrow> b = a))"

lemma last_status: "status_move\<^sup>*\<^sup>* a b \<Longrightarrow> a \<in> {TS_COMPLETED, TS_CANCELLED} \<Longrightarrow> b = a"
  by (induction rule: rtranclp_induct) (auto simp: status_move_def)

lemma status_later_move: "status_move a b \<Longrightarrow> status_later a b"
  by (auto simp: status_later_def dest: last_status [OF r_into_rtranclp])

lemma status_later_trans: "status_later a b \<Longrightarrow> status_later b c \<Longrightarrow> status_later a c"
  by (auto simp: status_later_def)

definition follows :: "'j trip_row \<Rightarrow> 'j trip_row \<Rightarrow> bool" where
  "follows t t' = (pt_id t' = pt_id t \<and> tr_rider t' = tr_rider t \<and> tr_request_key t' = tr_request_key t
     \<and> status_later (tr_status t) (tr_status t')
     \<and> (rd_driver t \<noteq> None \<longrightarrow> rd_driver t' = rd_driver t \<and> tr_otp t' = tr_otp t))"

lemma follows_refl: "follows t t"
  by (simp add: follows_def status_later_def)

lemma follows_trans: "follows a b \<Longrightarrow> follows b c \<Longrightarrow> follows a c"
  by (auto simp: follows_def intro: status_later_trans)

lemma row_moves_follows: "row_moves t t' \<Longrightarrow> follows t t'"
  by (simp add: row_moves_def follows_def status_later_move)

definition rows_follow :: "'j trip_row list \<Rightarrow> 'j trip_row list \<Rightarrow> bool" where
  "rows_follow ts ts' = (\<forall>t \<in> set ts. \<exists>t' \<in> set ts'. follows t t')"

lemma rows_follow_same: "rows_follow ts ts"
  by (auto simp: rows_follow_def intro: follows_refl)

lemma rows_follow_trans: "rows_follow a b \<Longrightarrow> rows_follow b c \<Longrightarrow> rows_follow a c"
  by (meson rows_follow_def follows_trans)

lemma rows_follow_put:
  assumes "distinct (map pt_id ts)" and "t \<in> set ts" and "follows t t'"
  shows "rows_follow ts (put_row t' ts)"
proof -
  have "\<exists>q' \<in> set (put_row t' ts). follows q q'" if "q \<in> set ts" for q
  proof (cases "pt_id q = pt_id t'")
    case True
    with assms that have "q = t" by (auto simp: follows_def dest: eq_key_imp_eq_value distinct_map [THEN iffD1] inj_onD)
    moreover have "t' \<in> set (put_row t' ts)" using that True by (intro put_row_new) (metis imageI)
    ultimately show ?thesis using assms(3) by blast
  next
    case False
    then show ?thesis using put_row_keeps [OF that] follows_refl by blast
  qed
  then show ?thesis by (simp add: rows_follow_def)
qed

definition rides_later :: "'j ride_world \<Rightarrow> 'j ride_world \<Rightarrow> bool" where
  "rides_later w w' = rows_follow (db_trips (rw_db w)) (db_trips (rw_db w'))"

lemma touches_follow:
  assumes "ride_inv w" and "touches i (rw_db w) db'"
  shows "rows_follow (db_trips (rw_db w)) (db_trips db')"
  using assms rows_follow_put
  by (fastforce simp: touches_def moved_def save_trip_put ride_inv_def trips_ok_def
      intro: rows_follow_same dest: row_moves_follows find_trip_id)

text \<open>A step keeps the invariant and only moves rows forward.\<close>

definition proceeds :: "'j ride_world \<Rightarrow> 'j ride_world \<Rightarrow> bool" where
  "proceeds w w' = (ride_inv w' \<and> rides_later w w')"

lemma on_trip_proceeds:
  assumes "ride_inv w" and "on_trip i f w = Inr w'" and "\<And>db. f (rw_db w) = Some db \<Longrightarrow> touches i (rw_db w) db"
  shows "proceeds w w'"
  using assms by (auto simp: on_trip_def proceeds_def rides_later_def intro: touches_inv touches_follow split: if_splits option.splits)

lemma proceeds_same: "ride_inv w' \<Longrightarrow> db_trips (rw_db w') = db_trips (rw_db w) \<Longrightarrow> proceeds w w'"
  by (simp add: proceeds_def rides_later_def rows_follow_same)

lemma commits_later:
  assumes inv: "ride_inv w" and f: "flight_of d i w = Some (AtDriver d' row t)"
  shows "rows_follow (db_trips (rw_db w)) (db_trips (assign_driver env d row otp t (rw_db w)))"
proof -
  have t: "t \<in> set (db_trips (rw_db w))" "tr_status t = TS_REQUESTED"
    using inv flight_of_Some [OF f] by (auto simp: ride_inv_def flights_ok_def flight_ok_def)
  then have "rd_driver t = None" using inv by (auto simp: ride_inv_def trips_ok_def trip_ok_def)
  with t have "follows t (assigned env d row otp t)" by (simp add: follows_def status_move_def status_later_move)
  with t inv show ?thesis by (auto simp: assign_put ride_inv_def trips_ok_def intro: rows_follow_put)
qed

lemma ride_step_proceeds:
  assumes inv: "ride_inv w" and e: "ride_step w ev = Inr w'"
  shows "proceeds w w'"
proof (cases ev)
  case (TakesTrip d i)
  with e show ?thesis by (auto intro!: proceeds_same takes_trip_inv [OF inv] split: if_splits sum.splits)
next
  case (TakesDriver env d i)
  with e obtain d' t where f: "flight_of d i w = Some (AtTrip d' t)" and free: "\<not> list_ex (holds_driver d) (rw_flights w)"
    by (auto split: option.splits flight.splits if_splits)
  obtain r db where l: "lock_driver env d i (rw_db w) = (r, db)" by fastforce
  with takes_driver_inv [OF inv f free l] lock_driver_effect(1) [OF l] e TakesDriver f free show ?thesis
    by (auto intro: proceeds_same split: sum.splits)
next
  case (Commits env d i otp)
  with e show ?thesis
    by (auto simp: proceeds_def rides_later_def intro: commits_inv [OF inv] commits_later [OF inv] split: option.splits flight.splits)
next
  case (Aborts i)
  with e inv show ?thesis by (auto simp: ride_inv_def landed_def intro!: proceeds_same intro: landed_ok)
next
  case (Moves env i target otp who reason)
  with e show ?thesis
    by (auto simp: result_Some intro!: on_trip_proceeds [OF inv] touches_moved update_moved split: if_splits)
next
  case (Starts env i otp)
  with e show ?thesis by (auto intro: on_trip_proceeds [OF inv] start_trip_touches)
next
  case (ConfirmsCash env i)
  with e show ?thesis by (auto simp: result_Some intro!: on_trip_proceeds [OF inv] dest: confirm_cash_touches)
next
  case (DriverCancels env u i reason remark)
  with e show ?thesis by (auto simp: result_Some intro!: on_trip_proceeds [OF inv] touches_moved dest: driver_cancel_touches)
next
  case (RiderCancels env u i reason remark)
  with e show ?thesis by (auto simp: result_Some intro!: on_trip_proceeds [OF inv] touches_moved rider_cancel_touches)
next
  case (TimesOut env i)
  with e show ?thesis by (auto intro!: on_trip_proceeds [OF inv] touches_moved auto_cancel_touches)
next
  case (OperatorCancels env i code remark waive stale)
  with e show ?thesis by (auto intro!: on_trip_proceeds [OF inv] operator_cancel_touches)
next
  case (EndsTrip env stale driven i reason)
  with e show ?thesis by (auto intro!: on_trip_proceeds [OF inv] end_started_touches)
next
  case (PaysTrip env u trip amount)
  with e show ?thesis
    by (auto simp: result_Some intro!: on_trip_proceeds [OF inv] dest: paid_touches split: option.splits)
next
  case (BooksTrip env b)
  obtain ans db' where b: "booking_insert env b (rw_db w) = (ans, db')" by fastforce
  from booking_adds [OF b] inv have "ride_inv (w\<lparr>rw_db := db'\<rparr>)" by (auto intro: adds_inv)
  moreover from booking_adds [OF b] have "rows_follow (db_trips (rw_db w)) (db_trips db')"
    by (auto simp: adds_trip_def rows_follow_def intro: follows_refl)
  ultimately show ?thesis using e BooksTrip b by (auto simp: proceeds_def rides_later_def)
next
  case (Elsewhere other)
  with e elsewhere_inv [OF inv no_driver_no_trips [OF inv]] show ?thesis by (auto simp: elsewhere_def intro!: proceeds_same)
qed

text \<open>The machine of the trips meets the contract of a system whose rows only move forward.\<close>

interpretation rides: tracked_system ride_step ride_inv rides_later
  by unfold_locales (auto simp: rides_later_def rows_follow_same
      intro: rows_follow_trans dest: ride_step_proceeds simp: proceeds_def)

section \<open>Histories\<close>

text \<open>No trips yet and nobody has driven one; every other table and every driver row is arbitrary.\<close>

definition no_rides :: "'j ride_db \<Rightarrow> 'j ride_world" where
  "no_rides db = \<lparr> rw_db = db\<lparr>db_trips := [], db_drivers := (\<lambda>d. map_option (\<lambda>r. r\<lparr>dv_trips := 0\<rparr>) (db_drivers db d))\<rparr>,
     rw_flights = [] \<rparr>"

definition history :: "'j ride_db \<Rightarrow> 'j ride_event list \<Rightarrow> 'j ride_world" where
  "history db es = run_events ride_step (no_rides db) es"

lemma no_rides_inv: "ride_inv (no_rides db)"
  by (auto simp: no_rides_def ride_inv_def trips_ok_def flights_ok_def busy_def driven_to_end_def booking_keys_def counters_def)

lemma past_inv: "ride_inv (history db es)"
  unfolding history_def by (rule rides.run_inv [OF no_rides_inv])

lemma past_rows: "trips_ok (db_trips (rw_db (history db es))) (counters (rw_db (history db es)))"
  using past_inv [of db es] by (simp add: ride_inv_def)

lemma active_ids_busy: "driver_active_trip_ids d None db = map pt_id (busy d (db_trips db))"
  by (simp add: driver_active_trip_ids_def busy_def active_def)

lemma found_row: "ride_inv w \<Longrightarrow> find_trip i (rw_db w) = Some t \<longleftrightarrow> t \<in> set (db_trips (rw_db w)) \<and> pt_id t = i"
proof
  assume "find_trip i (rw_db w) = Some t"
  from find_trip_id [OF this] show "t \<in> set (db_trips (rw_db w)) \<and> pt_id t = i" by simp
next
  assume inv: "ride_inv w" and t: "t \<in> set (db_trips (rw_db w)) \<and> pt_id t = i"
  then have "find (\<lambda>t. pt_id t = i) (db_trips (rw_db w)) \<noteq> None" by (auto simp: find_None_iff)
  then obtain q where q: "find_trip i (rw_db w) = Some q" by (auto simp: find_trip_def)
  moreover have "inj_on pt_id (set (db_trips (rw_db w)))" using inv by (simp add: ride_inv_def trips_ok_def distinct_map)
  ultimately show "find_trip i (rw_db w) = Some t" using t find_trip_id [OF q] by (auto dest: inj_onD)
qed

lemma run_follows:
  assumes inv: "ride_inv w" and t: "find_trip i (rw_db w) = Some t"
  obtains t' where "find_trip i (rw_db (run_events ride_step w es)) = Some t'" "follows t t'"
proof -
  have "rides_later w (run_events ride_step w es)" using inv by (rule rides.run_later)
  then obtain t' where "t' \<in> set (db_trips (rw_db (run_events ride_step w es)))" "follows t t'"
    using find_trip_id [OF t] by (auto simp: rides_later_def rows_follow_def)
  then show ?thesis using found_row [OF rides.run_inv [OF inv]] find_trip_id [OF t]
    by (intro that [of t']) (auto simp: follows_def)
qed

text \<open>Claim C2. One driver, one ride: whatever transactions run, in whatever order, and however acceptances of
  the same driver on different trips interleave between their two row locks, a driver is never on two active
  trips at once.\<close>
theorem one_driver_one_ride: "length (driver_active_trip_ids d None (rw_db (history db es))) \<le> 1"
  using past_rows [of db es] by (simp add: active_ids_busy trips_ok_def)

text \<open>Claim C6. A trip once booked is there for good: it keeps its rider and its key, its driver and its
  code once it has one, its status moves only along the status machine, and a completed or a cancelled trip
  keeps its status, over every history.\<close>
theorem trip_follows_machine:
  "case find_trip i (rw_db (history db es)) of
     None \<Rightarrow> True
   | Some t \<Rightarrow> (case find_trip i (rw_db (history db (es @ later))) of None \<Rightarrow> False | Some t' \<Rightarrow> follows t t')"
proof (cases "find_trip i (rw_db (history db es))")
  case (Some t)
  obtain t' where t': "find_trip i (rw_db (run_events ride_step (history db es) later)) = Some t'" and f: "follows t t'"
    by (rule run_follows [OF past_inv Some])
  have "history db (es @ later) = run_events ride_step (history db es) later"
    by (simp only: history_def run_events_append)
  with Some t' f show ?thesis by simp
qed simp

text \<open>Claim C21. The driver's counter \<open>total_trips\<close> is the number of completed trips that name the driver,
  however the trips ended (by the driver or from the console) and however often a completion was sent.\<close>
theorem total_trips_counts_completions:
  "case db_drivers (rw_db (history db es)) d of
     None \<Rightarrow> driven_to_end d (db_trips (rw_db (history db es))) = []
   | Some r \<Rightarrow> dv_trips r = int (length (driven_to_end d (db_trips (rw_db (history db es)))))"
proof (cases "db_drivers (rw_db (history db es)) d")
  case None
  then have "counters (rw_db (history db es)) d = None" by (simp add: counters_def)
  from no_driver_no_trips [OF past_inv this] None show ?thesis by simp
next
  case (Some r)
  then have "counters (rw_db (history db es)) d = Some (dv_trips r)" by (simp add: counters_def)
  with past_rows [of db es] have "dv_trips r = int (length (driven_to_end d (db_trips (rw_db (history db es)))))"
    unfolding trips_ok_def by blast
  with Some show ?thesis by simp
qed

lemma keys_unique:
  assumes ok: "trips_ok ts c" and t: "t \<in> set ts" "t' \<in> set ts" and k: "tr_rider t = tr_rider t'" "tr_request_key t = Some k" "tr_request_key t' = Some k"
  shows "t = t'"
proof -
  have "inj_on (\<lambda>t. (tr_rider t, tr_request_key t)) (set (filter (\<lambda>t. tr_request_key t \<noteq> None) ts))"
    using ok unfolding trips_ok_def booking_keys_def distinct_map by blast
  then show ?thesis using t k by (auto dest!: inj_onD)
qed

lemma booking_found:
  assumes inv: "ride_inv w" and t: "find_trip i (rw_db w) = Some t" "tr_rider t = u" "tr_request_key t = Some k"
  shows "find_booking u k (rw_db w) = Some t"
proof -
  have m: "t \<in> set (db_trips (rw_db w))" using find_trip_id [OF t(1)] by simp
  then have "find_booking u k (rw_db w) \<noteq> None" using t by (auto simp: find_booking_def find_None_iff)
  then obtain q where q: "find_booking u k (rw_db w) = Some q" by blast
  then have "q \<in> set (db_trips (rw_db w))" "tr_rider q = u" "tr_request_key q = Some k"
    by (auto simp: find_booking_def find_Some_iff)
  with m t keys_unique [of "db_trips (rw_db w)"] inv q show ?thesis by (metis ride_inv_def)
qed

text \<open>Claim C26. A booking whose answer was lost can be sent again: once a rider's request has booked a trip
  under its key, the same key gives that trip, writes nothing and prices nothing, whatever happened since.\<close>
theorem retried_booking_reuses_trip:
  assumes made: "fst (booking_insert env b (rw_db (history db es))) = Booked i" and key: "bk_key b \<noteq> []"
  shows "create_trip env' (bk_rider b) (bk_key b) quoted (rw_db (history db (es @ BooksTrip env b # later)))
    = (Reused i, rw_db (history db (es @ BooksTrip env b # later)))"
proof -
  let ?w = "history db es"
  let ?w1 = "?w\<lparr>rw_db := snd (booking_insert env b (rw_db ?w))\<rparr>"
  let ?w2 = "run_events ride_step ?w1 later"
  have run: "history db (es @ BooksTrip env b # later) = ?w2"
    by (simp add: history_def run_events_append)
  have inv: "ride_inv ?w1"
    using ride_step_proceeds [OF past_inv, of db es "BooksTrip env b"] by (simp add: proceeds_def)
  obtain t where t: "find_trip i (rw_db ?w1) = Some t" "tr_rider t = bk_rider b" "tr_request_key t = Some (bk_key b)"
  proof -
    obtain db' where b: "booking_insert env b (rw_db ?w) = (Booked i, db')" using made by (metis prod.collapse)
    then show ?thesis
    proof (cases rule: booking_insert_cases)
      case (made t)
      then have "t \<in> set (db_trips (rw_db ?w1))" "pt_id t = i" using b by (auto simp: core_def)
      then have "find_trip i (rw_db ?w1) = Some t" using found_row [OF inv] by blast
      with made key show ?thesis by (intro that [of t]) (auto simp: core_def)
    qed simp_all
  qed
  obtain t' where t': "find_trip i (rw_db ?w2) = Some t'" and f: "follows t t'"
    by (rule run_follows [OF inv t(1)])
  have "find_booking (bk_rider b) (bk_key b) (rw_db ?w2) = Some t'"
    using booking_found [OF rides.run_inv [OF inv] t'] f t by (simp add: follows_def)
  moreover have "pt_id t' = i" using find_trip_id [OF t'] by simp
  ultimately show ?thesis using key unfolding run by (simp add: create_trip_def booking_lookup_def)
qed

definition quiet_db :: "unit ride_db" where
  "quiet_db = \<lparr> db_trips = [], db_drivers = Map.empty, db_payments = [], db_actions = [],
     db_money = \<lparr> bk_wallets = Map.empty, bk_rows = [], mb_settlements = [], mb_redemptions = [],
       mb_campaigns = Map.empty, mb_funded = [], mb_history = [] \<rparr>,
     db_promos = \<lparr> pb_codes = [], pb_links = [], pb_claims = [], pb_next = 1 \<rparr>,
     db_riders = no_riders (\<lambda>_. False), db_paid = [], db_sessions = [], db_cancels = [], db_attempts = Map.empty, db_expenses = [] \<rparr>"

definition demo_promo_env :: "unit promo_env" where
  "demo_promo_env = \<lparr> pe_cards = [], pe_zones = [], pe_now = 100, pe_completed = (\<lambda>_. False), pe_country_node = (\<lambda>_. None) \<rparr>"

definition demo_booking :: "unit booking" where
  "demo_booking = \<lparr> bk_rider = 3, bk_key = ''a7'',
     bk_draft = \<lparr> pt_id = 0, pt_zone = None, pt_requested_vt = Some 7, pt_vehicle_vt = None, pt_requested_at = Some 100,
       pt_percent_snapshot = None, pt_rule_id = None, pt_rule_version = None, rd_driver = None, rd_method = ''cash'',
       rd_end_rule = [], rd_final = None, rd_estimated = None, rd_currency = None, rd_snapshot = None \<rparr>,
     bk_fare = Dec 20000 (- 2), bk_surge = Dec 100 (- 2), bk_promo = [], bk_tax = TaxInclusive \<rparr>"

lemma demo_booked: "fst (booking_insert demo_promo_env demo_booking (rw_db (history quiet_db []))) = Booked 1"
proof -
  have d: "DEFAULT_CURRENCY = ''INR''" by code_simp
  have "amount_set (VDec (Finite (Dec 20000 (- 2)))) \<lparr> mr_currency = [], mr_derive = None, mr_minor = None \<rparr>
    = Inr \<lparr> mr_currency = [], mr_derive = None, mr_minor = Some 20000 \<rparr>"
    using to_minor_of_minor [of 20000 "Some ''INR''"] inr_exponent
    by (simp add: amount_set_def currency_of_def falsy_def fits_def d)
  then show ?thesis
    by (simp add: booking_insert_def history_def no_rides_def quiet_db_def demo_booking_def booking_lookup_def find_booking_def
        new_trip_def zone_derive_def next_trip_id_def book_promo_def py_strip_def Let_def)
qed

theorem retried_booking_reuses_trip_witness:
  "fst (create_trip demo_promo_env 3 ''a7'' None (rw_db (history quiet_db [BooksTrip demo_promo_env demo_booking, Aborts 1]))) = Reused 1"
  using retried_booking_reuses_trip [OF demo_booked, of demo_promo_env None "[Aborts 1]"]
  by (simp add: demo_booking_def)

end
