(* ===== verification/RideActions.thy ===== *)
theory RideActions
  imports TripHistory
begin

text \<open>
  What single frames, cancellations and payments do: the start of a ride and the codes that may be tried,
  the two ways a driver can cancel, the wallet payment of a completed trip, and what a rider is charged when
  the console ends a ride.
\<close>

section \<open>Starting a ride\<close>

definition start_frame :: "string option \<Rightarrow> command" where
  "start_frame code = \<lparr> cm_action = ACT_START, cm_otp = code, cm_reason = [] \<rparr>"

text \<open>What a start needs.\<close>

definition may_start :: "int \<Rightarrow> int \<Rightarrow> int \<Rightarrow> string option \<Rightarrow> 'j trip_row \<Rightarrow> 'j ride_db \<Rightarrow> bool" where
  "may_start now u i code t db = (rd_driver t = Some u \<and> db_drivers db u \<noteq> None \<and> tr_status t \<in> {TS_ACCEPTED, TS_REACHED}
     \<and> code = Some (otp_text t) \<and> otp_attempts now i db < TRIP_OTP_MAX_ATTEMPTS)"

lemma update_start:
  assumes "find_trip i db = Some t"
  shows "update_trip_status env i TS_IN_PROGRESS otp [] [] db =
    (if tr_status t = TS_IN_PROGRESS then Inl (AlreadyInTarget TS_IN_PROGRESS)
     else if tr_status t \<notin> {TS_ACCEPTED, TS_REACHED} then Inl (InvalidTransition (tr_status t))
     else if otp_text t \<noteq> otp then Inl (InvalidOtp (tr_status t))
     else Inr (save_trip (t\<lparr>tr_status := TS_IN_PROGRESS, tr_started_at := Some (en_now env)\<rparr>) db))"
  using assms by (simp add: update_trip_status_def check_transition_def allowed_transitions_def Let_def)

text \<open>Claim C19. A start frame starts the ride exactly when it comes from the assigned driver, the trip is accepted
  or reached, the code is the trip's own and fewer than five wrong ones stand against the trip; then the trip is in
  progress and nothing else of it changed. Otherwise no trip and no driver is touched.\<close>
theorem start_needs_driver_and_code:
  "case receive env u i part otp (start_frame code) db of (answer, part', db') \<Rightarrow>
     part' = part \<and>
     (case find_trip i db of
        None \<Rightarrow> db' = db \<and> (\<forall>s. answer \<noteq> Committed s)
      | Some t \<Rightarrow>
          if may_start (en_now env) u i code t db
          then answer = Committed (Some TS_IN_PROGRESS) \<and> db_drivers db' = db_drivers db
            \<and> db_trips db' = db_trips (save_trip (t\<lparr>tr_status := TS_IN_PROGRESS, tr_started_at := Some (en_now env)\<rparr>) db)
          else keeps db db' \<and> (\<forall>s. answer \<noteq> Committed s))"
proof (cases "find_trip i db")
  case None
  then show ?thesis by (simp add: receive_def start_frame_def Let_def is_assigned_driver_def)
next
  case (Some t)
  note u = update_start [OF Some, of env]
  show ?thesis
  proof (cases "is_assigned_driver u i db \<and> code \<noteq> None")
    case False
    with Some show ?thesis
      by (auto simp: receive_def start_frame_def Let_def is_assigned_driver_def may_start_def split: option.splits)
  next
    case True
    then obtain c where c: "code = Some c" by blast
    have a: "rd_driver t = Some u" "db_drivers db u \<noteq> None" using True Some by (auto simp: is_assigned_driver_def)
    have "receive env u i part otp (start_frame code) db = (fst (start_trip env i c db), part, snd (start_trip env i c db))"
      using True c by (simp add: receive_def start_frame_def Let_def case_prod_beta)
    moreover have "if may_start (en_now env) u i code t db
          then fst (start_trip env i c db) = Committed (Some TS_IN_PROGRESS) \<and> db_drivers (snd (start_trip env i c db)) = db_drivers db
            \<and> db_trips (snd (start_trip env i c db)) = db_trips (save_trip (t\<lparr>tr_status := TS_IN_PROGRESS, tr_started_at := Some (en_now env)\<rparr>) db)
          else keeps db (snd (start_trip env i c db)) \<and> (\<forall>s. fst (start_trip env i c db) \<noteq> Committed s)"
      using a c by (auto simp: start_trip_def Let_def u may_start_def update_ack_def TARGET_STATUS_def keeps_def save_trip_def)
    ultimately show ?thesis using Some by simp
  qed
qed






definition codes_trip :: "unit trip_row" where
  "codes_trip = \<lparr> pt_id = 4, pt_zone = None, pt_requested_vt = Some 7, pt_vehicle_vt = Some 7, pt_requested_at = Some 50,
     pt_percent_snapshot = None, pt_rule_id = None, pt_rule_version = None, rd_driver = Some 8, rd_method = ''cash'',
     rd_end_rule = [], rd_final = None, rd_estimated = Some 20000, rd_currency = Some ''INR'', rd_snapshot = None,
     tr_rider = 3, tr_status = TS_REACHED, tr_vehicle = Some 2, tr_otp = Some ''402913'', tr_accepted_at = Some 55,
     tr_reached_at = Some 60, tr_started_at = None, tr_completed_at = None, tr_cancelled_at = None, tr_cancelled_by = [],
     tr_cancel_reason = [], tr_cancel_fee = 0, tr_payment_status = None, tr_request_key = None, tr_surge = Dec 100 (- 2),
     tr_end_reason = [], tr_funded = None \<rparr>"

definition demo_driver :: driver_row where
  "demo_driver = \<lparr> dv_approved = True, dv_qa = False, dv_status = ''active'', dv_vehicle = Some 2, dv_lockout = None,
     dv_ratings = Dec 480 (- 2), dv_trips = 0 \<rparr>"

definition street_db :: "unit trip_row \<Rightarrow> unit ride_db" where
  "street_db t = \<lparr> db_trips = [t], db_drivers = [8 \<mapsto> demo_driver], db_payments = [], db_actions = [],
     db_money = \<lparr> bk_wallets = Map.empty, bk_rows = [], mb_settlements = [], mb_redemptions = [],
       mb_campaigns = Map.empty, mb_funded = [], mb_history = [] \<rparr>,
     db_promos = \<lparr> pb_codes = [], pb_links = [], pb_claims = [], pb_next = 1 \<rparr>,
     db_riders = no_riders (\<lambda>_. False), db_paid = [], db_sessions = [], db_cancels = [], db_attempts = Map.empty, db_expenses = [] \<rparr>"


section \<open>A driver cancels\<close>

definition cancel_frame :: "string \<Rightarrow> command" where
  "cancel_frame reason = \<lparr> cm_action = ACT_CANCEL, cm_otp = None, cm_reason = reason \<rparr>"

definition paid_online :: "int \<Rightarrow> 'j ride_db \<Rightarrow> bool" where
  "paid_online i db = list_ex (\<lambda>p. py_trip p = i \<and> py_method p = ''online'' \<and> py_status p = PS_COMPLETED) (db_payments db)"

lemma no_refund_due: "pt_id t = i \<Longrightarrow> \<not> paid_online i db \<Longrightarrow> process_refund_on_cancel env t db = Inr (False, t, db)"
proof -
  assume "pt_id t = i" and "\<not> paid_online i db"
  then have "find (\<lambda>p. py_trip p = pt_id t \<and> py_method p = ''online'' \<and> py_status p = PS_COMPLETED) (db_payments db) = None"
    by (auto simp: paid_online_def list_ex_iff find_None_iff)
  then show ?thesis by (simp add: process_refund_on_cancel_def)
qed

text \<open>Claim C39. The two ways to cancel disagree: the driver's cancellation refuses a ride in progress
  and sends the driver to support, while a cancel frame of the same driver on the trip's socket cancels it, records
  no cancellation and leaves the driver's row, rating and lockout as they were.\<close>
theorem socket_cancels_ride_in_progress:
  assumes t: "find_trip i db = Some t" and st: "tr_status t = TS_IN_PROGRESS" and d: "rd_driver t = Some u"
    and u: "tr_rider t \<noteq> u" "db_drivers db u \<noteq> None" and free: "\<not> paid_online i db"
  shows "driver_cancel_trip env u i ''personal'' note db = Inl (CancelInvalidState TS_IN_PROGRESS) \<and>
    (case receive env u i part otp (cancel_frame reason) db of (answer, _, db') \<Rightarrow>
       answer = Committed (Some TS_CANCELLED) \<and> db_cancels db' = db_cancels db \<and> db_drivers db' = db_drivers db
       \<and> db_trips db' = db_trips (save_trip (t\<lparr>tr_status := TS_CANCELLED, tr_cancelled_at := Some (en_now env),
            tr_cancelled_by := ''driver'', tr_cancel_reason := take 255 reason\<rparr>) db))"
proof -
  have s: "py_strip ''personal'' = ''personal''" by code_simp
  have "driver_cancel_trip env u i ''personal'' note db = Inl (CancelInvalidState TS_IN_PROGRESS)"
    using t st d by (simp add: driver_cancel_trip_def s)
  moreover have id: "pt_id t = i" using find_trip_id [OF t] by simp
  have "update_trip_status env i TS_CANCELLED [] ''driver'' (take 255 reason) db =
      Inr (save_trip (t\<lparr>tr_status := TS_CANCELLED, tr_cancelled_at := Some (en_now env),
            tr_cancelled_by := ''driver'', tr_cancel_reason := take 255 reason\<rparr>) db)"
    using t st free id by (simp add: update_trip_status_def check_transition_def allowed_transitions_def Let_def
        cancel_trip_def no_refund_due)
  ultimately show ?thesis
    using t d u by (simp add: receive_def cancel_frame_def is_rider_def is_assigned_driver_def Let_def update_ack_def
        TARGET_STATUS_def save_trip_def)
qed

theorem socket_cancels_ride_in_progress_witness:
  "\<forall>env. driver_cancel_trip env 8 4 ''personal'' [] (street_db (codes_trip\<lparr>tr_status := TS_IN_PROGRESS\<rparr>))
     = Inl (CancelInvalidState TS_IN_PROGRESS)"
proof
  fix env
  have "find_trip 4 (street_db (codes_trip\<lparr>tr_status := TS_IN_PROGRESS\<rparr>)) = Some (codes_trip\<lparr>tr_status := TS_IN_PROGRESS\<rparr>)"
    by (simp add: find_trip_def street_db_def codes_trip_def)
  from socket_cancels_ride_in_progress [OF this, of 8 env "[]"]
  show "driver_cancel_trip env 8 4 ''personal'' [] (street_db (codes_trip\<lparr>tr_status := TS_IN_PROGRESS\<rparr>))
     = Inl (CancelInvalidState TS_IN_PROGRESS)"
    by (simp add: street_db_def codes_trip_def paid_online_def)
qed

section \<open>The wallet payment of a completed trip\<close>











end
