(* ===== verification/Fares.thy ===== *)
theory Fares
  imports Trips
begin

text \<open>
  What a ride costs: \<open>quote_fare\<close> of \<open>servers/pricing/services.py\<close> (surge tiers, night window, cap, minimum,
  the displayed lines, the tax of the market) and the quotes a rider books at (\<open>servers/ride/quotes.py\<close>).
  The counts of riders and drivers near the pickup come from Redis and are arguments, as are the hour of the
  day in a time zone and whether two points are more than 50 metres apart (floats).
\<close>

section \<open>Surge and night\<close>

text \<open>The quotient of two counts is compared with 5, 3, 1.5 and 0.5, which it equals exactly when the products
  are equal; the float quotient of counts below \<open>2^26\<close> is on the right side of each.\<close>

definition surge_tier :: "nat \<Rightarrow> nat \<Rightarrow> decimal" where
  "surge_tier demand supply =
     (let safe = max supply 1 in
      if 5 * safe \<le> demand then Dec 150 (- 2)
      else if 3 * safe \<le> demand then Dec 130 (- 2)
      else if 3 * safe \<le> 2 * demand then Dec 115 (- 2)
      else if 2 * demand < safe \<and> 10 \<le> supply then Dec 90 (- 2)
      else Dec 100 (- 2))"

text \<open>\<open>near\<close> is demand and supply, nothing when there is no pickup or Redis is down.\<close>

definition compute_surge_multiplier :: "(nat \<times> nat) option \<Rightarrow> decimal \<Rightarrow> decimal" where
  "compute_surge_multiplier near cap = (case near of
      None \<Rightarrow> Dec 100 (- 2)
    | Some (demand, supply) \<Rightarrow> let s = surge_tier demand supply in if dec_lt cap s then cap else s)"

definition is_night_hour :: "int \<Rightarrow> int \<Rightarrow> int \<Rightarrow> bool" where
  "is_night_hour start stop hour =
     (if start = stop then False
      else if start < stop then start \<le> hour \<and> hour < stop
      else start \<le> hour \<or> hour < stop)"

text \<open>\<open>hour\<close> is the local hour in the card's zone, nothing when the time zone cannot be read.\<close>

definition is_night_now :: "rate_card \<Rightarrow> int option \<Rightarrow> bool" where
  "is_night_now c hour = (case hour of None \<Rightarrow> False | Some h \<Rightarrow> is_night_hour (rc_night_start c) (rc_night_end c) h)"

section \<open>The metered fare\<close>

record fare_rates =
  fr_base :: decimal
  fr_km :: decimal
  fr_min :: decimal
  fr_floor :: decimal
  fr_night :: decimal
  fr_cap :: decimal
  fr_source :: string
  fr_version :: "int option"

definition DEFAULTS :: fare_rates where
  "DEFAULTS = \<lparr> fr_base = Dec 3000 (- 2), fr_km = Dec 1200 (- 2), fr_min = Dec 200 (- 2), fr_floor = Dec 5000 (- 2),
     fr_night = Dec 100 (- 2), fr_cap = Dec 150 (- 2), fr_source = ''default'', fr_version = None \<rparr>"

definition rates_of :: "rate_card option \<Rightarrow> fare_rates" where
  "rates_of found = (case found of
      None \<Rightarrow> DEFAULTS
    | Some c \<Rightarrow> \<lparr> fr_base = rc_base_fare c, fr_km = rc_per_km c, fr_min = rc_per_min c, fr_floor = rc_min_fare c,
        fr_night = rc_night_multiplier c, fr_cap = rc_surge_cap c, fr_source = ''db'', fr_version = Some (rc_version c) \<rparr>)"

text \<open>The subtotal and the multiplier: night, then demand, then the cap on both together.\<close>

definition surged :: "fare_rates \<Rightarrow> bool \<Rightarrow> decimal \<Rightarrow> decimal \<Rightarrow> decimal \<times> decimal" where
  "surged r night dyn pre =
     (let one = Dec 100 (- 2);
          (s1, m1) = (if night then (dec_mul pre (fr_night r), dec_mul one (fr_night r)) else (pre, one));
          (s2, m2) = (if dec_eq dyn one then (s1, m1) else (dec_mul s1 dyn, dec_mul m1 dyn))
      in if dec_lt (fr_cap r) m2 then (dec_mul pre (fr_cap r), fr_cap r) else (s2, m2))"

definition floored :: "fare_rates \<Rightarrow> decimal \<Rightarrow> decimal \<times> bool" where
  "floored r s = (if dec_lt s (fr_floor r) then (fr_floor r, True) else (s, False))"

section \<open>The lines beside the total\<close>

record fare_line =
  fl_code :: string
  fl_label :: string
  fl_amount :: decimal

definition line :: "string \<Rightarrow> string \<Rightarrow> decimal \<Rightarrow> fare_line" where
  "line code label amount = \<lparr> fl_code = code, fl_label = label, fl_amount = amount \<rparr>"

definition sum_lines :: "fare_line list \<Rightarrow> decimal" where
  "sum_lines ls = foldl (\<lambda>s l. dec_add s (fl_amount l)) (Dec 0 (- 2)) ls"

text \<open>Surcharge and minimum as lines of their own, and what rounding leaves.\<close>

definition fare_lines ::
  "fare_rates \<Rightarrow> decimal \<Rightarrow> decimal \<Rightarrow> bool \<Rightarrow> decimal \<Rightarrow> decimal \<times> decimal \<times> decimal \<Rightarrow> string \<Rightarrow> money_error + fare_line list" where
  "fare_lines r pre factor min_applied whole parts currency =
     (case parts of (b, d, t) \<Rightarrow>
      bind_res (if dec_eq factor (Dec 100 (- 2)) then Inr []
         else bind_res (quant (dec_sub (dec_mul pre factor) pre) currency) (\<lambda>a. Inr [line ''surge'' ''Busy-time surcharge'' a])) (\<lambda>surge.
      bind_res (if \<not> min_applied then Inr []
         else bind_res (quant (dec_sub (fr_floor r) (dec_mul pre factor)) currency)
                (\<lambda>a. Inr [line ''minimum_fare'' ''Minimum fare adjustment'' a])) (\<lambda>floor_line.
        let ls = surge @ floor_line;
            residual = dec_sub whole (dec_add (dec_add (dec_add b d) t) (sum_lines ls))
        in Inr (ls @ (if coef residual = 0 then [] else [line ''rounding'' ''Rounding'' residual])))))"

text \<open>\<open>round(d, n)\<close>.\<close>

definition dec_round :: "decimal \<Rightarrow> nat \<Rightarrow> decimal option" where
  "dec_round d n =
     (let t = - int n; c = nat \<bar>coef d\<bar>;
          q = (if t \<le> expo d then c * 10 ^ nat (expo d - t) else div_half_even c (nat (t - expo d)))
      in if ndigits q > dec_prec then None else Some (Dec (sgn (coef d) * int q) t))"

record fare_quote =
  fq_total :: decimal
  fq_currency :: string
  fq_tax_mode :: string
  fq_tax_percent :: decimal
  fq_tax_label :: string
  fq_tax :: decimal
  fq_fee :: decimal
  fq_unit :: string
  fq_base :: decimal
  fq_distance :: decimal
  fq_time :: decimal
  fq_lines :: "fare_line list"
  fq_surge :: decimal
  fq_night :: bool
  fq_min :: bool
  fq_vehicle :: string
  fq_zone :: string
  fq_version :: "int option"
  fq_source :: string

datatype fare_error = FareMoney money_error | PricingUnavailable | VehicleRequired

definition lift_fare :: "money_error + 'a \<Rightarrow> fare_error + 'a" where
  "lift_fare r = (case r of Inl e \<Rightarrow> Inl (FareMoney e) | Inr x \<Rightarrow> Inr x)"

text \<open>The tax of the market: what the rider pays, the tax, the fee and the lines they add.\<close>

definition market_tax ::
  "bool \<Rightarrow> decimal \<Rightarrow> decimal \<Rightarrow> string \<Rightarrow> string \<Rightarrow> decimal \<Rightarrow> string \<Rightarrow> money_error + decimal \<times> decimal \<times> fare_line list" where
  "market_tax on_top percent fee tax_label fee_text whole currency =
     (if on_top
      then bind_res (percent_of whole percent currency) (\<lambda>tax.
        Inr (dec_add (dec_add whole tax) fee, tax,
             (if coef tax = 0 then [] else [line ''tax'' tax_label tax])
             @ (if coef fee = 0 then [] else [line ''per_trip_fee'' fee_text fee])))
      else if coef percent = 0 then Inr (whole, Dec 0 (- 2), [])
      else (case dec_div (dec_mul whole percent) (dec_add (Dec 10000 (- 2)) percent) of
          None \<Rightarrow> Inl DecimalInvalid
        | Some x \<Rightarrow> bind_res (quant x currency) (\<lambda>tax. Inr (whole, tax, []))))"

record 'j fare_request =
  fx_zone :: "'j service_zone option"
  fx_card :: "rate_card option"
  fx_hour :: "int option"
  fx_near :: "(nat \<times> nat) option"
  fx_distance :: decimal
  fx_minutes :: decimal
  fx_vehicle :: string

text \<open>\<open>card\<close> and \<open>zone\<close> as they were found for the pickup, the distance and the minutes as parsed.\<close>

definition fare_parts ::
  "'j fare_request \<Rightarrow> fare_rates \<Rightarrow> decimal \<times> decimal \<times> decimal" where
  "fare_parts x r =
     (let d = dec_max (fx_distance x) (Dec 0 0); m = dec_max (fx_minutes x) (Dec 0 0);
          df = dec_mul (fr_km r) d; tf = dec_mul (fr_min r) m
      in (df, tf, dec_add (dec_add (fr_base r) df) tf))"

definition night_applied :: "'j fare_request \<Rightarrow> fare_rates \<Rightarrow> bool" where
  "night_applied x r = (case fx_card x of None \<Rightarrow> False
     | Some c \<Rightarrow> dec_lt (Dec 100 (- 2)) (fr_night r) \<and> is_night_now c (fx_hour x))"

definition quote_country :: "'j fare_request \<Rightarrow> country" where
  "quote_country x = get_country (map_option sz_country (fx_zone x))"

definition quote_currency :: "'j fare_request \<Rightarrow> string" where
  "quote_currency x = (case fx_zone x of
      Some z \<Rightarrow> if sz_currency z \<noteq> [] then sz_currency z else ct_currency (quote_country x)
    | None \<Rightarrow> ct_currency (quote_country x))"

definition tax_percent_of :: "'j fare_request \<Rightarrow> decimal" where
  "tax_percent_of x = (case fx_card x of None \<Rightarrow> Dec 500 (- 2)
     | Some c \<Rightarrow> if coef (rc_gst_percent c) = 0 then Dec 0 0 else rc_gst_percent c)"

definition quote_fare :: "bool \<Rightarrow> 'j fare_request \<Rightarrow> fare_error + fare_quote" where
  "quote_fare allow_default x =
     (if fx_vehicle x = [] then Inl VehicleRequired
      else if fx_card x = None \<and> \<not> allow_default then Inl PricingUnavailable
      else
        let r = rates_of (fx_card x); (df, tf, pre) = fare_parts x r;
            night = night_applied x r;
            (s, factor) = surged r night (compute_surge_multiplier (fx_near x) (fr_cap r)) pre;
            (sub, min_applied) = floored r s;
            country = quote_country x; currency = quote_currency x;
            on_top = (case fx_zone x of None \<Rightarrow> False | Some z \<Rightarrow> additive_zone z);
            percent = tax_percent_of x
        in lift_fare
          (bind_res (rounded_fare sub currency) (\<lambda>fare.
           bind_res (quant (fr_base r) currency) (\<lambda>b.
           bind_res (quant df currency) (\<lambda>d.
           bind_res (quant tf currency) (\<lambda>t.
           bind_res (fare_lines r pre factor min_applied fare (b, d, t) currency) (\<lambda>ls.
           bind_res (quant (dec_or_zero (case fx_zone x of None \<Rightarrow> None | Some z \<Rightarrow> sz_per_trip_fee z)) currency) (\<lambda>fee.
           bind_res (market_tax on_top percent fee (ct_tax_label country)
               (case fx_zone x of None \<Rightarrow> ''Regulatory fee''
                | Some z \<Rightarrow> fee_label z) fare currency) (\<lambda>(whole, tax, tls).
           case (dec_round percent 3, dec_round factor 2) of
             (Some p3, Some m2) \<Rightarrow> Inr \<lparr> fq_total = whole, fq_currency = currency,
               fq_tax_mode = (case fx_zone x of None \<Rightarrow> ''inclusive''
                 | Some z \<Rightarrow> if sz_tax_mode z = [] then ''inclusive'' else sz_tax_mode z),
               fq_tax_percent = p3, fq_tax_label = ct_tax_label country, fq_tax = tax, fq_fee = fee,
               fq_unit = (case fx_zone x of None \<Rightarrow> ct_distance_unit country
                 | Some z \<Rightarrow> if sz_distance_unit z = [] then ct_distance_unit country else sz_distance_unit z),
               fq_base = b, fq_distance = d, fq_time = t, fq_lines = ls @ tls, fq_surge = m2, fq_night = night,
               fq_min = min_applied, fq_vehicle = fx_vehicle x,
               fq_zone = (case fx_zone x of None \<Rightarrow> [] | Some z \<Rightarrow> sz_code z),
               fq_version = fr_version r, fq_source = fr_source r \<rparr>
           | _ \<Rightarrow> Inl DecimalInvalid)))))))))"

section \<open>The lines add up\<close>

text \<open>An amount as it is shown: hundredths, of a size the 28 digits of the context hold with room to spare.\<close>

definition shown :: "decimal \<Rightarrow> bool" where
  "shown d = (expo d = - 2 \<and> \<bar>coef d\<bar> \<le> 10 ^ 20)"

lemma quant_hundredths: "quant d currency = Inr q \<Longrightarrow> \<exists>n. q = Dec n (- 2)"
proof -
  assume q: "quant d currency = Inr q"
  obtain m where m: "to_minor (VDec (Finite d)) (Some currency) = Inr (Some m)"
    and r: "from_minor (VInt m) (Some currency) = Inr (Some q)"
    using q by (auto simp: quant_def quantize_money_def bind_res_Inr_iff of_minor_def to_minor_def
        from_minor_def split: option.splits)
  from from_minor_int [OF round_trip_fits [OF m] r] show ?thesis by auto
qed

lemma rounded_hundredths: "rounded_fare d currency = Inr q \<Longrightarrow> \<exists>n. q = Dec n (- 2)"
proof -
  assume q: "rounded_fare d currency = Inr q"
  then obtain v where v: "quantize_money v (Some currency) = Inr (Some q)"
    by (auto simp: rounded_fare_def round_fare_def bind_res_Inr_iff split: if_splits option.splits)
  obtain m where m: "to_minor v (Some currency) = Inr (Some m)"
    and r: "from_minor (VInt m) (Some currency) = Inr (Some q)"
    using v by (auto simp: quantize_money_def bind_res_Inr_iff of_minor_def from_minor_def split: option.splits if_splits)
  from from_minor_int [OF round_trip_fits [OF m] r] show ?thesis by auto
qed

lemma dec_fix_keeps_expo: "expo (dec_fix c e) = e \<Longrightarrow> dec_fix c e = Dec c e"
  by (auto simp: dec_fix_def Let_def split: if_splits)

lemma dec_add_hundredths: "expo (dec_add (Dec a (- 2)) (Dec b (- 2))) = - 2 \<Longrightarrow> dec_add (Dec a (- 2)) (Dec b (- 2)) = Dec (a + b) (- 2)"
  by (auto simp: dec_add_def dest: dec_fix_keeps_expo)

lemma small_fits: "\<bar>n\<bar> \<le> 10 ^ 25 \<Longrightarrow> fits n"
  by (simp add: fits_def)

lemma sum_lines_exact:
  assumes "list_all (\<lambda>l. shown (fl_amount l)) ls" and "length ls \<le> 9" and "\<bar>a\<bar> \<le> 10 ^ 21"
  shows "foldl (\<lambda>s l. dec_add s (fl_amount l)) (Dec a (- 2)) ls = Dec (a + sum_list (map (\<lambda>l. coef (fl_amount l)) ls)) (- 2)
    \<and> \<bar>sum_list (map (\<lambda>l. coef (fl_amount l)) ls)\<bar> \<le> int (length ls) * 10 ^ 20"
  using assms
proof (induction ls rule: rev_induct)
  case Nil
  then show ?case by simp
next
  case (snoc l ls)
  let ?s = "sum_list (map (\<lambda>l. coef (fl_amount l)) ls)"
  have IH: "foldl (\<lambda>s l. dec_add s (fl_amount l)) (Dec a (- 2)) ls = Dec (a + ?s) (- 2)" "\<bar>?s\<bar> \<le> int (length ls) * 10 ^ 20"
    using snoc by simp_all
  have l: "fl_amount l = Dec (coef (fl_amount l)) (- 2)" "\<bar>coef (fl_amount l)\<bar> \<le> 10 ^ 20"
    using snoc.prems(1) by (cases "fl_amount l"; simp add: shown_def)+
  have len: "int (length ls) \<le> 8" using snoc.prems(2) by simp
  then have "int (length ls) * 10 ^ 20 \<le> 8 * 10 ^ 20" by simp
  with IH(2) have s: "\<bar>?s\<bar> \<le> 8 * 10 ^ 20" by linarith
  have "fits (a + ?s + coef (fl_amount l))" using s l(2) snoc.prems(3) by (intro small_fits) simp
  then have "dec_add (Dec (a + ?s) (- 2)) (fl_amount l) = Dec (a + ?s + coef (fl_amount l)) (- 2)"
    by (subst l(1)) (rule dec_add_cents)
  then show ?case using IH l(2) by (simp add: algebra_simps)
qed

lemma fare_lines_sum:
  assumes fl: "fare_lines r pre factor m (Dec n (- 2)) (Dec b (- 2), Dec d (- 2), Dec t (- 2)) currency = Inr ls"
    and ls: "list_all (\<lambda>l. shown (fl_amount l)) ls" and small: "\<bar>n\<bar> \<le> 10 ^ 22" "\<bar>b\<bar> \<le> 10 ^ 20" "\<bar>d\<bar> \<le> 10 ^ 20" "\<bar>t\<bar> \<le> 10 ^ 20"
  shows "b + d + t + sum_list (map (\<lambda>l. coef (fl_amount l)) ls) = n"
proof -
  obtain s1 s2 where s1: "(if dec_eq factor (Dec 100 (- 2)) then Inr [] else bind_res (quant (dec_sub (dec_mul pre factor) pre) currency)
        (\<lambda>a. Inr [line ''surge'' ''Busy-time surcharge'' a])) = Inr s1"
    and s2: "(if \<not> m then Inr [] else bind_res (quant (dec_sub (fr_floor r) (dec_mul pre factor)) currency)
        (\<lambda>a. Inr [line ''minimum_fare'' ''Minimum fare adjustment'' a])) = Inr s2"
    and all: "(let ls = s1 @ s2;
            residual = dec_sub (Dec n (- 2)) (dec_add (dec_add (dec_add (Dec b (- 2)) (Dec d (- 2))) (Dec t (- 2))) (sum_lines ls))
        in Inr (ls @ (if coef residual = 0 then [] else [line ''rounding'' ''Rounding'' residual]))) = (Inr ls :: money_error + _)"
    using fl unfolding fare_lines_def prod.case bind_res_Inr_iff by blast
  have l1: "length s1 \<le> 1" "length s2 \<le> 1" using s1 s2 by (auto simp: bind_res_Inr_iff split: if_splits)
  have eq: "ls = (s1 @ s2) @ (let residual = dec_sub (Dec n (- 2)) (dec_add (dec_add (dec_add (Dec b (- 2)) (Dec d (- 2))) (Dec t (- 2))) (sum_lines (s1 @ s2)))
        in if coef residual = 0 then [] else [line ''rounding'' ''Rounding'' residual])"
    using all by (simp add: Let_def)
  let ?s = "sum_list (map (\<lambda>l. coef (fl_amount l)) (s1 @ s2))"
  have ok: "list_all (\<lambda>l. shown (fl_amount l)) (s1 @ s2)" using ls eq by simp
  have len: "length (s1 @ s2) \<le> 2" using l1 by simp
  have sum: "sum_lines (s1 @ s2) = Dec ?s (- 2)" "\<bar>?s\<bar> \<le> 2 * 10 ^ 20"
  proof -
    have e: "sum_lines (s1 @ s2) = Dec (0 + ?s) (- 2) \<and> \<bar>?s\<bar> \<le> int (length (s1 @ s2)) * 10 ^ 20"
      unfolding sum_lines_def using ok len by (intro sum_lines_exact) simp_all
    then show "sum_lines (s1 @ s2) = Dec ?s (- 2)" by simp
    have "int (length (s1 @ s2)) * 10 ^ 20 \<le> 2 * 10 ^ 20" using len by simp
    with e show "\<bar>?s\<bar> \<le> 2 * 10 ^ 20" by linarith
  qed
  have "dec_add (dec_add (dec_add (Dec b (- 2)) (Dec d (- 2))) (Dec t (- 2))) (Dec ?s (- 2)) = Dec (b + d + t + ?s) (- 2)"
    using small sum(2) by (simp add: dec_add_cents small_fits)
  moreover have "dec_sub (Dec n (- 2)) (Dec (b + d + t + ?s) (- 2)) = Dec (n - (b + d + t + ?s)) (- 2)"
    using small sum(2) by (intro dec_sub_cents small_fits) simp
  ultimately have "ls = (s1 @ s2) @ (if n - (b + d + t + ?s) = 0 then [] else [line ''rounding'' ''Rounding'' (Dec (n - (b + d + t + ?s)) (- 2))])"
    using eq unfolding sum(1) by (simp add: Let_def)
  then have "sum_list (map (\<lambda>l. coef (fl_amount l)) ls) = ?s + (if n - (b + d + t + ?s) = 0 then 0 else n - (b + d + t + ?s))"
    by (simp add: line_def)
  then show ?thesis by (simp split: if_splits)
qed

lemma dec_add_bound: "\<bar>dval a + dval b\<bar> \<le> 4 * \<bar>dval (dec_add a b)\<bar>"
proof -
  define e where "e = min (expo a) (expo b)"
  have shift: "dval (Dec (c * 10 ^ nat (x - e)) e) = dval (Dec c x)" if "e \<le> x" for c x
    using that by (simp add: dval_ten_pow ten_pow_nat [symmetric] mult.assoc flip: ten_pow_add)
  have "dval (Dec (coef a * 10 ^ nat (expo a - e) + coef b * 10 ^ nat (expo b - e)) e) = dval a + dval b"
    using shift [of "expo a" "coef a"] shift [of "expo b" "coef b"]
    by (simp add: e_def dval_ten_pow algebra_simps)
  then show ?thesis
    using dec_fix_bounds(2) [of "coef a * 10 ^ nat (expo a - e) + coef b * 10 ^ nat (expo b - e)" e]
    by (simp add: dec_add_def e_def Let_def)
qed

lemma market_tax_sum:
  assumes m: "market_tax on_top percent fee tax_label label_text (Dec n (- 2)) currency = Inr (whole, tax, tls)"
    and fee: "fee = Dec f (- 2)" and whole: "shown whole" and tls: "list_all (\<lambda>l. shown (fl_amount l)) tls"
  shows "\<bar>n\<bar> \<le> 10 ^ 22 \<and> coef whole = n + sum_list (map (\<lambda>l. coef (fl_amount l)) tls)"
proof (cases on_top)
  case False
  then have "whole = Dec n (- 2) \<and> tls = []"
    using m by (auto simp: market_tax_def bind_res_Inr_iff split: if_splits option.splits)
  with whole show ?thesis by (simp add: shown_def)
next
  case True
  obtain x where x: "tax = Dec x (- 2)"
    using m True by (auto simp: market_tax_def bind_res_Inr_iff percent_of_def dest: quant_hundredths split: option.splits)
  have w: "whole = dec_add (dec_add (Dec n (- 2)) (Dec x (- 2))) (Dec f (- 2))"
    and l: "tls = (if x = 0 then [] else [line ''tax'' tax_label tax]) @ (if f = 0 then [] else [line ''per_trip_fee'' label_text fee])"
    using m True x fee by (auto simp: market_tax_def bind_res_Inr_iff)
  have xf: "\<bar>x\<bar> \<le> 10 ^ 20" "\<bar>f\<bar> \<le> 10 ^ 20"
    using tls l x fee by (auto simp: line_def shown_def split: if_splits)
  have s: "sum_list (map (\<lambda>l. coef (fl_amount l)) tls) = x + f"
    using l x fee by (auto simp: line_def)
  have cents_bound: "\<bar>dval (Dec q (- 2))\<bar> \<le> 10 ^ 18" if "\<bar>q\<bar> \<le> 10 ^ 20" for q
    using that by (simp add: dval_cents abs_le_iff)
  let ?y = "dec_add (Dec n (- 2)) (Dec x (- 2))"
  obtain ww where ww: "whole = Dec ww (- 2)" "\<bar>ww\<bar> \<le> 10 ^ 20" using whole by (cases whole) (simp add: shown_def)
  have "\<bar>dval ?y + dval (Dec f (- 2))\<bar> \<le> 4 * 10 ^ 18"
    using dec_add_bound [of ?y "Dec f (- 2)"] cents_bound [OF ww(2)] ww(1) unfolding w [symmetric] by simp
  then have "\<bar>dval ?y\<bar> \<le> 5 * 10 ^ 18" using cents_bound [OF xf(2)] by simp
  then have "\<bar>dval (Dec n (- 2)) + dval (Dec x (- 2))\<bar> \<le> 20 * 10 ^ 18"
    using dec_add_bound [of "Dec n (- 2)" "Dec x (- 2)"] by simp
  then have "\<bar>dval (Dec n (- 2))\<bar> \<le> 21 * 10 ^ 18" using cents_bound [OF xf(1)] by simp
  then have n: "\<bar>n\<bar> \<le> 10 ^ 22" by (simp add: dval_cents)
  then have "whole = Dec (n + x + f) (- 2)" using xf by (simp add: w dec_add_cents small_fits)
  with s n show ?thesis by simp
qed

lemma quote_fare_pieces:
  assumes "quote_fare allow_default x = Inr q"
  obtains r df tf pre s factor sub m fare b d t ls fee whole tax tls where
    "rounded_fare sub (quote_currency x) = Inr fare" "quant (fr_base r) (quote_currency x) = Inr b"
    "quant df (quote_currency x) = Inr d" "quant tf (quote_currency x) = Inr t"
    "fare_lines r pre factor m fare (b, d, t) (quote_currency x) = Inr ls"
    "quant (dec_or_zero (case fx_zone x of None \<Rightarrow> None | Some z \<Rightarrow> sz_per_trip_fee z)) (quote_currency x) = Inr fee"
    "market_tax (case fx_zone x of None \<Rightarrow> False | Some z \<Rightarrow> additive_zone z) (tax_percent_of x) fee (ct_tax_label (quote_country x))
       (case fx_zone x of None \<Rightarrow> ''Regulatory fee'' | Some z \<Rightarrow> fee_label z) fare (quote_currency x) = Inr (whole, tax, tls)"
    "fq_total q = whole" "fq_base q = b" "fq_distance q = d" "fq_time q = t" "fq_lines q = ls @ tls" "fq_tax q = tax" "fq_fee q = fee"
    "fq_vehicle q = fx_vehicle x"
proof -
  define r where "r = rates_of (fx_card x)"
  obtain df tf pre where p: "fare_parts x r = (df, tf, pre)" by (metis prod_cases3)
  obtain s factor where s: "surged r (night_applied x r) (compute_surge_multiplier (fx_near x) (fr_cap r)) pre = (s, factor)" by fastforce
  obtain sub m where f: "floored r s = (sub, m)" by fastforce
  from assms have ok: "fx_vehicle x \<noteq> []" "\<not> (fx_card x = None \<and> \<not> allow_default)"
    by (auto simp: quote_fare_def split: if_splits)
  have lift: "lift_fare y = Inr z \<longleftrightarrow> y = Inr z" for y :: "money_error + fare_quote" and z by (cases y) (simp_all add: lift_fare_def)
  obtain fare b d t ls fee w where e: "rounded_fare sub (quote_currency x) = Inr fare" "quant (fr_base r) (quote_currency x) = Inr b"
    "quant df (quote_currency x) = Inr d" "quant tf (quote_currency x) = Inr t"
    "fare_lines r pre factor m fare (b, d, t) (quote_currency x) = Inr ls"
    "quant (dec_or_zero (case fx_zone x of None \<Rightarrow> None | Some z \<Rightarrow> sz_per_trip_fee z)) (quote_currency x) = Inr fee"
    "market_tax (case fx_zone x of None \<Rightarrow> False | Some z \<Rightarrow> additive_zone z) (tax_percent_of x) fee (ct_tax_label (quote_country x))
       (case fx_zone x of None \<Rightarrow> ''Regulatory fee'' | Some z \<Rightarrow> fee_label z) fare (quote_currency x) = Inr w"
    and q: "fq_total q = fst w \<and> fq_base q = b \<and> fq_distance q = d \<and> fq_time q = t \<and> fq_lines q = ls @ snd (snd w)
      \<and> fq_tax q = fst (snd w) \<and> fq_fee q = fee \<and> fq_vehicle q = fx_vehicle x"
    using assms ok unfolding quote_fare_def Let_def r_def [symmetric] p prod.case s f
    by (simp only: if_False lift bind_res_Inr_iff) (elim exE conjE; force split: prod.splits option.splits)
  obtain whole tax tls where w: "w = (whole, tax, tls)" by (cases w)
  show ?thesis by (rule that [OF e(1-6) e(7) [unfolded w]]) (use q in \<open>simp_all add: w\<close>)
qed

lemma quote_fare_sum:
  assumes q: "quote_fare allow_default x = Inr q"
    and True: "list_all shown ([fq_total q, fq_base q, fq_distance q, fq_time q] @ map fl_amount (fq_lines q))"
  shows "coef (fq_total q) = coef (fq_base q) + coef (fq_distance q) + coef (fq_time q)
    + sum_list (map (\<lambda>l. coef (fl_amount l)) (fq_lines q))"
proof -
  obtain r pre factor m fare b d t ls fee on_top percent tl ft whole tax tls currency where
    p: "\<exists>v. rounded_fare v currency = Inr fare" "\<exists>v. quant v currency = Inr b" "\<exists>v. quant v currency = Inr d"
      "\<exists>v. quant v currency = Inr t" "\<exists>v. quant v currency = Inr fee"
    and fl: "fare_lines r pre factor m fare (b, d, t) currency = Inr ls"
    and mt: "market_tax on_top percent fee tl ft fare currency = Inr (whole, tax, tls)"
    and q: "fq_total q = whole" "fq_base q = b" "fq_distance q = d" "fq_time q = t" "fq_lines q = ls @ tls"
    by (rule quote_fare_pieces [OF q]) blast
  obtain n bb dd tt f where e: "fare = Dec n (- 2)" "b = Dec bb (- 2)" "d = Dec dd (- 2)" "t = Dec tt (- 2)" "fee = Dec f (- 2)"
    using p by (meson quant_hundredths rounded_hundredths)
  have ok: "shown whole" "list_all (\<lambda>l. shown (fl_amount l)) tls" "list_all (\<lambda>l. shown (fl_amount l)) ls"
    "\<bar>bb\<bar> \<le> 10 ^ 20" "\<bar>dd\<bar> \<le> 10 ^ 20" "\<bar>tt\<bar> \<le> 10 ^ 20"
    using True unfolding q e by (simp_all add: list_all_iff shown_def)
  note s = market_tax_sum [OF mt [unfolded e(1)] e(5) ok(1,2)]
  have "bb + dd + tt + sum_list (map (\<lambda>l. coef (fl_amount l)) ls) = n"
    using s by (intro fare_lines_sum [OF fl [unfolded e]] ok) simp
  with s show ?thesis by (simp add: q e)
qed

text \<open>A busy ride of 4.6325 km and 9.81 minutes at the default rates, in whole rupees.\<close>

definition demo_request :: "unit fare_request" where
  "demo_request = \<lparr> fx_zone = None, fx_card = None, fx_hour = None, fx_near = Some (7, 2), fx_distance = Dec 46325 (- 4),
     fx_minutes = Dec 981 (- 2), fx_vehicle = ''sedan'' \<rparr>"

lemma quant_eval:
  assumes "exponent (Some currency) = Inr 2" "fits (int c)" "fits (int (half_up c k))" "e = - int (k + 2)" "0 < k"
  shows "quant (Dec (int c) e) currency = Inr (Dec (int (half_up c k)) (- 2))"
proof -
  have z: "half_up 0 k = 0"
  proof -
    have "(10::nat) ^ k div 2 < 10 ^ k" by simp
    then show ?thesis by (simp add: half_up_def)
  qed
  have f0: "dec_scaleb (Dec 0 0) (- 2) = Dec 0 (- 2)" by (simp add: dec_scaleb_exact fits_def)
  from z have "sgn (int c) * int (half_up c k) = int (half_up c k)" by (cases "c = 0") simp_all
  then show ?thesis using assms z f0
    by (simp add: quant_def quantize_money_def to_minor_def as_decimal_def dec_scaleb_exact dec_quantize_def Let_def
      of_minor_def from_minor_def dec_of_int_def dec_to_int_def fits_ndigits ndigits_pos)
qed

lemma demo_mul: "dec_mul (Dec 1200 (- 2)) (Dec 46325 (- 4)) = Dec 55590000 (- 6)" "dec_mul (Dec 200 (- 2)) (Dec 981 (- 2)) = Dec 196200 (- 4)"
  "dec_add (dec_add (Dec 3000 (- 2)) (Dec 55590000 (- 6))) (Dec 196200 (- 4)) = Dec 105210000 (- 6)"
  "dec_max (Dec 46325 (- 4)) (Dec 0 0) = Dec 46325 (- 4)" "dec_max (Dec 981 (- 2)) (Dec 0 0) = Dec 981 (- 2)"
  by (simp_all add: dec_eval dec_max_def dec_lt_def)

lemma demo_parts:
  "fare_parts demo_request DEFAULTS = (Dec 55590000 (- 6), Dec 196200 (- 4), Dec 105210000 (- 6))"
  by (simp add: fare_parts_def demo_request_def DEFAULTS_def demo_mul)
lemma demo_surged:
  "surged DEFAULTS False (compute_surge_multiplier (Some (7, 2)) (Dec 150 (- 2))) (Dec 105210000 (- 6)) = (Dec 13677300000 (- 8), Dec 13000 (- 4))"
  by (simp add: surged_def compute_surge_multiplier_def surge_tier_def  dec_lt_def dec_eq_def DEFAULTS_def dec_eval)
lemma demo_floored: "floored DEFAULTS (Dec 13677300000 (- 8)) = (Dec 13677300000 (- 8), False)"
  by (simp add: floored_def DEFAULTS_def dec_lt_def dval_def)
lemma demo_round: "dec_round (Dec 13000 (- 4)) 2 = Some (Dec 130 (- 2))" "dec_round (Dec 500 (- 2)) 3 = Some (Dec 5000 (- 3))"
  by (simp_all add: dec_round_def div_half_even_def Let_def dec_prec_def)

lemma demo_quants:
  "quant (Dec 3000 (- 2)) ''INR'' = Inr (Dec 3000 (- 2))"
  "quant (Dec 55590000 (- 6)) ''INR'' = Inr (Dec 5559 (- 2))" "quant (Dec 196200 (- 4)) ''INR'' = Inr (Dec 1962 (- 2))"
  "quant (Dec 315630000000 (- 10)) ''INR'' = Inr (Dec 3156 (- 2))"
  "quant (Dec 0 0) ''INR'' = Inr (Dec 0 (- 2))"
  "quant (Dec 6523809523809523809523809524 (- 27)) ''INR'' = Inr (Dec 652 (- 2))"
  using quant_eval [of "''INR''" 55590000 4 "- 6"] quant_eval [of "''INR''" 196200 2 "- 4"]
    quant_eval [of "''INR''" 315630000000 8 "- 10"] quant_eval [of "''INR''" 6523809523809523809523809524 25 "- 27"]
    quant_exact [of "''INR''" "Dec 3000 (- 2)"] quant_exact [of "''INR''" "Dec 0 0"] round_half_up_int [of 3000] round_half_up_int [of 0]
  by (simp_all add: fits_def inr_exponent half_up_def cents_def dval_def)
lemma demo_tax: "dec_div (dec_mul (Dec 13700 (- 2)) (Dec 500 (- 2))) (dec_add (Dec 10000 (- 2)) (Dec 500 (- 2))) = Some (Dec 6523809523809523809523809524 (- 27))"
  by (simp add: dec_eval)

lemma demo_rounded: "rounded_fare (Dec 13677300000 (- 8)) ''INR'' = Inr (Dec 13700 (- 2))"
proof -
  have up: "py_upper ''INR'' = ''INR''" by code_simp
  have q: "dec_quantize (Dec 13677300000 (- 8)) 0 = Some (Dec 137 0)" by (simp add: dec_eval)
  have m: "to_minor (VDec (Finite (Dec 137 0))) (Some ''INR'') = Inr (Some 13700)"
    by (rule to_minor_eval [OF _ inr_exponent(1), where d = "Dec 137 0" and q = "Dec 13700 0"])
      (simp_all add: as_decimal_def dec_eval)
  have f: "from_minor (VInt 13700) (Some ''INR'') = Inr (Some (Dec 13700 (- 2)))"
    by (simp add: from_minor_def inr_exponent dec_of_int_def dec_scaleb_exact fits_def)
  show ?thesis by (simp add: rounded_fare_def round_fare_def up whole_units_def quantize_money_def q m f of_minor_def)
qed

lemma demo_lines:
  "fare_lines DEFAULTS (Dec 105210000 (- 6)) (Dec 13000 (- 4)) False (Dec 13700 (- 2)) (Dec 3000 (- 2), Dec 5559 (- 2), Dec 1962 (- 2)) ''INR''
   = Inr [line ''surge'' ''Busy-time surcharge'' (Dec 3156 (- 2)), line ''rounding'' ''Rounding'' (Dec 23 (- 2))]"
proof -
  have up: "dec_sub (dec_mul (Dec 105210000 (- 6)) (Dec 13000 (- 4))) (Dec 105210000 (- 6)) = Dec 315630000000 (- 10)"
    "\<not> dec_eq (Dec 13000 (- 4)) (Dec 100 (- 2))"
    by (simp_all add: dec_eval dec_eq_def)
  have res: "dec_sub (Dec 13700 (- 2)) (dec_add (dec_add (dec_add (Dec 3000 (- 2)) (Dec 5559 (- 2))) (Dec 1962 (- 2)))
      (sum_lines [line ''surge'' ''Busy-time surcharge'' (Dec 3156 (- 2))])) = Dec 23 (- 2)"
    by (simp add: sum_lines_def line_def dec_eval)
  show ?thesis by (simp add: fare_lines_def up demo_quants bind_res_def res Let_def)
qed

lemma demo_quote:
  "quote_fare True demo_request = Inr \<lparr> fq_total = Dec 13700 (- 2), fq_currency = ''INR'', fq_tax_mode = ''inclusive'',
     fq_tax_percent = Dec 5000 (- 3), fq_tax_label = ct_tax_label (get_country None), fq_tax = Dec 652 (- 2), fq_fee = Dec 0 (- 2),
     fq_unit = ct_distance_unit (get_country None), fq_base = Dec 3000 (- 2), fq_distance = Dec 5559 (- 2), fq_time = Dec 1962 (- 2),
     fq_lines = [line ''surge'' ''Busy-time surcharge'' (Dec 3156 (- 2)), line ''rounding'' ''Rounding'' (Dec 23 (- 2))],
     fq_surge = Dec 130 (- 2), fq_night = False, fq_min = False, fq_vehicle = ''sedan'', fq_zone = [], fq_version = None,
     fq_source = ''default'' \<rparr>"
proof -
  have f: "fx_zone demo_request = None" "fx_card demo_request = None" "fx_near demo_request = Some (7, 2)" "fx_vehicle demo_request = ''sedan''"
    by (simp_all add: demo_request_def)
  have r: "rates_of None = DEFAULTS" by (simp add: rates_of_def)
  have d: "fr_cap DEFAULTS = Dec 150 (- 2)" "fr_base DEFAULTS = Dec 3000 (- 2)" "fr_source DEFAULTS = ''default''" "fr_version DEFAULTS = None"
    by (simp_all add: DEFAULTS_def)
  have c: "quote_currency demo_request = ''INR''" by (simp add: quote_currency_def f quote_country_def) code_simp
  have n: "night_applied demo_request DEFAULTS = False" by (simp add: night_applied_def f)
  have fee: "dec_or_zero None = Dec 0 0" by (simp add: dec_or_zero_def)
  have tax: "market_tax False (Dec 500 (- 2)) (Dec 0 (- 2)) l t (Dec 13700 (- 2)) ''INR'' = Inr (Dec 13700 (- 2), Dec 652 (- 2), [])" for l t
    by (simp add: market_tax_def demo_tax demo_quants bind_res_def)
  show ?thesis
    by (simp add: quote_fare_def f r d c n demo_parts demo_surged demo_floored demo_rounded demo_quants demo_lines fee tax
      tax_percent_of_def bind_res_def demo_round lift_fare_def quote_country_def Let_def)
qed

text \<open>Claim C8. The itemised fare adds up: base, distance and time and the named lines beside them (surcharge, minimum,
  rounding, tax, fee) sum exactly to what the rider is charged, in every market, whether or not a surcharge, the cap or
  the minimum fare applied.\<close>
theorem itemised_fare_adds_up:
  assumes "quote_fare allow_default x = Inr q"
    and "list_all shown ([fq_total q, fq_base q, fq_distance q, fq_time q] @ map fl_amount (fq_lines q))"
  shows "dval (fq_total q) = dval (fq_base q) + dval (fq_distance q) + dval (fq_time q)
    + sum_list (map (\<lambda>l. dval (fl_amount l)) (fq_lines q))"
proof -
  have cents_sum: "sum_list (map (\<lambda>l. dval (fl_amount l)) xs) = of_int (sum_list (map (\<lambda>l. coef (fl_amount l)) xs)) / 100"
    if "list_all (\<lambda>l. shown (fl_amount l)) xs" for xs
    using that by (induction xs) (auto simp: shown_def dval_def add_divide_distrib)
  have one: "dval d = of_int (coef d) / 100" if "shown d" for d using that by (simp add: shown_def dval_def)
  have "list_all (\<lambda>l. shown (fl_amount l)) (fq_lines q)" using assms(2) by (simp add: list.pred_map comp_def)
  from cents_sum [OF this] show ?thesis
    using quote_fare_sum [OF assms] assms(2) by (simp add: one add_divide_distrib)
qed

theorem itemised_fare_adds_up_witness:
  "dval (Dec 13700 (- 2)) = dval (Dec 3000 (- 2)) + dval (Dec 5559 (- 2)) + dval (Dec 1962 (- 2))
     + (dval (Dec 3156 (- 2)) + dval (Dec 23 (- 2)))"
  using itemised_fare_adds_up [OF demo_quote] by (simp add: shown_def line_def)

end
