(* ===== verification/Quotes.thy ===== *)
theory Quotes
  imports Fares RideWorld
begin

text \<open>
  Quotes a rider can book at (\<open>servers/ride/quotes.py\<close>) and the booking of a trip with its pricing
  (\<open>_create_trip\<close> of \<open>servers/consumers.py\<close>). The cache is a map from quote ids to entries with the time they
  leave it. Whether two points are more than 50 metres apart (floats) is the parameter \<open>far\<close>; new ids
  (\<open>uuid4\<close>) are arguments. The theorem: a trip booked at a quote costs what its lines said, whatever happened to
  the prices since.
\<close>

section \<open>Issuing and checking\<close>

definition DEFAULT_VALID_SECONDS :: int where
  "DEFAULT_VALID_SECONDS = 300"

definition POLICIES :: "string \<Rightarrow> int option" where
  "POLICIES code = (if code = ''IN'' \<or> code = ''US'' then Some 300 else None)"

definition valid_seconds :: "string option \<Rightarrow> int" where
  "valid_seconds country_code =
     (case POLICIES (py_upper (case country_code of None \<Rightarrow> [] | Some c \<Rightarrow> c)) of
        None \<Rightarrow> DEFAULT_VALID_SECONDS
      | Some n \<Rightarrow> if n = 0 then DEFAULT_VALID_SECONDS else n)"

definition country_of_fare :: "'j service_zone list \<Rightarrow> fare_quote \<Rightarrow> string option" where
  "country_of_fare zones fare =
     (if fq_zone fare = [] then None else map_option sz_country (find (\<lambda>z. sz_code z = fq_zone fare) zones))"

record 'p offer =
  of_fare :: fare_quote
  of_rider :: "int option"
  of_pickup :: 'p
  of_drop :: 'p
  of_vehicle :: string
  of_km :: decimal
  of_min :: decimal
  of_expires :: int

type_synonym 'p quote_cache = "string \<Rightarrow> (int \<times> 'p offer) option"

record 'p quoted_trip =
  qt_rider :: "int option"
  qt_pickup :: 'p
  qt_drop :: 'p
  qt_km :: decimal
  qt_min :: decimal

definition issue ::
  "'j service_zone list \<Rightarrow> int \<Rightarrow> string \<Rightarrow> fare_quote \<Rightarrow> 'p quoted_trip \<Rightarrow> 'p quote_cache \<Rightarrow> int \<times> 'p quote_cache" where
  "issue zones now quote_id fare q cache =
     (let seconds = valid_seconds (country_of_fare zones fare); expires_at = now + seconds
      in (expires_at, cache(quote_id \<mapsto> (expires_at,
           \<lparr> of_fare = fare, of_rider = qt_rider q, of_pickup = qt_pickup q, of_drop = qt_drop q,
             of_vehicle = py_lower (fq_vehicle fare), of_km = qt_km q, of_min = qt_min q, of_expires = expires_at \<rparr>))))"

definition cache_get :: "int \<Rightarrow> 'p quote_cache \<Rightarrow> string \<Rightarrow> 'p offer option" where
  "cache_get now cache key = (case cache key of None \<Rightarrow> None | Some (t, v) \<Rightarrow> if now < t then Some v else None)"

datatype quote_refusal = QuoteExpired | QuoteMoved

text \<open>A place that does not parse is \<open>None\<close>.\<close>

definition check ::
  "('p \<Rightarrow> 'p \<Rightarrow> bool) \<Rightarrow> int \<Rightarrow> 'p quote_cache \<Rightarrow> string \<Rightarrow> int \<Rightarrow> 'p option \<Rightarrow> 'p option \<Rightarrow> string
     \<Rightarrow> quote_refusal + 'p offer" where
  "check far now cache quote_id rider pickup drop_at vehicle =
     (case (if quote_id = [] then None else cache_get now cache quote_id) of
        None \<Rightarrow> Inl QuoteExpired
      | Some q \<Rightarrow>
          if of_rider q \<noteq> None \<and> of_rider q \<noteq> Some rider then Inl QuoteExpired
          else (case (pickup, drop_at) of
              (Some here, Some there) \<Rightarrow>
                if far here (of_pickup q) \<or> far there (of_drop q) then Inl QuoteMoved
                else if vehicle \<noteq> [] \<and> py_lower vehicle \<noteq> of_vehicle q then Inl QuoteMoved
                else Inr q
            | _ \<Rightarrow> Inl QuoteMoved))"

section \<open>Booking with its price\<close>

definition estimate_amount :: "bool \<Rightarrow> 'j fare_request \<Rightarrow> fare_error + fare_quote" where
  "estimate_amount allow_default x = (if fx_vehicle x = [] then Inl VehicleRequired else quote_fare allow_default x)"

record ('p, 'j) book_request =
  bq_rider :: int
  bq_key :: string
  bq_quote :: string
  bq_pickup :: "'p option"
  bq_drop :: "'p option"
  bq_vehicle :: string
  bq_promo :: string
  bq_draft :: "'j ride"

text \<open>What surrounds the booking: the clock, the zones, the id a new quote gets, whether default fares are
  allowed, the distance and minutes the server found (nothing when the area or the distance is refused), and
  what pricing finds, with the demand of this ride counted or not.\<close>

record ('p, 'j) book_scene =
  bs_far :: "'p \<Rightarrow> 'p \<Rightarrow> bool"
  bs_now :: int
  bs_zones :: "'j service_zone list"
  bs_fresh :: string
  bs_default :: bool
  bs_ground :: "(decimal \<times> decimal) option"
  bs_market :: "bool \<Rightarrow> 'j fare_request"
  bs_promos :: "'j promo_env"

definition priced_now :: "('p, 'j) book_scene \<Rightarrow> string \<Rightarrow> decimal \<times> decimal \<Rightarrow> bool \<Rightarrow> fare_error + fare_quote" where
  "priced_now s vehicle ground record_demand =
     estimate_amount (bs_default s)
       ((bs_market s record_demand)\<lparr>fx_distance := fst ground, fx_minutes := snd ground, fx_vehicle := vehicle\<rparr>)"

definition quote_tax :: "fare_quote \<Rightarrow> tax_arg" where
  "quote_tax fare = (if fq_tax_mode fare = ''additive'' then TaxQuoted (fq_tax_percent fare) (fq_fee fare) else TaxInclusive)"

definition booking_at :: "('p, 'j) book_request \<Rightarrow> fare_quote \<Rightarrow> 'j booking" where
  "booking_at r fare = \<lparr> bk_rider = bq_rider r, bk_key = bq_key r, bk_draft = bq_draft r, bk_fare = fq_total fare,
     bk_surge = fq_surge fare, bk_promo = bq_promo r, bk_tax = quote_tax fare \<rparr>"

datatype book_outcome = Answered booking_answer | QuoteRefused quote_refusal string int fare_quote

definition quote_asked ::
  "('p, 'j) book_scene \<Rightarrow> ('p, 'j) book_request \<Rightarrow> 'p quote_cache \<Rightarrow> quote_refusal + 'p offer option" where
  "quote_asked s r cache =
     (if bq_quote r = [] then Inr None
      else map_sum id Some (check (bs_far s) (bs_now s) cache (bq_quote r) (bq_rider r) (bq_pickup r) (bq_drop r) (bq_vehicle r)))"

definition requote ::
  "('p, 'j) book_scene \<Rightarrow> ('p, 'j) book_request \<Rightarrow> decimal \<times> decimal \<Rightarrow> quote_refusal \<Rightarrow> 'p quote_cache
     \<Rightarrow> book_outcome \<times> 'p quote_cache" where
  "requote s r ground why cache =
     (case (priced_now s (bq_vehicle r) ground False, bq_pickup r, bq_drop r) of
        (Inr fare, Some p, Some d) \<Rightarrow>
          let (e, cache') = issue (bs_zones s) (bs_now s) (bs_fresh s) fare
            \<lparr> qt_rider = Some (bq_rider r), qt_pickup = p, qt_drop = d, qt_km = fst ground, qt_min = snd ground \<rparr> cache
          in (QuoteRefused why (bs_fresh s) e fare, cache')
      | _ \<Rightarrow> (Answered BookingFailed, cache))"

definition create_priced_trip ::
  "('p, 'j) book_scene \<Rightarrow> ('p, 'j) book_request \<Rightarrow> 'p quote_cache \<Rightarrow> 'j ride_db
     \<Rightarrow> book_outcome \<times> 'p quote_cache \<times> 'j ride_db" where
  "create_priced_trip s r cache db =
     (case booking_lookup (bq_rider r) (bq_key r) db of
        Some i \<Rightarrow> (Answered (Reused i), cache, db)
      | None \<Rightarrow> (case bs_ground s of
          None \<Rightarrow> (Answered BookingFailed, cache, db)
        | Some ground \<Rightarrow> (case quote_asked s r cache of
            Inl why \<Rightarrow> (case requote s r ground why cache of (a, cache') \<Rightarrow> (a, cache', db))
          | Inr quoted \<Rightarrow> (case priced_now s (bq_vehicle r) ground True of
              Inl _ \<Rightarrow> (Answered BookingFailed, cache, db)
            | Inr priced \<Rightarrow>
                let fare = (case quoted of None \<Rightarrow> priced | Some q \<Rightarrow> of_fare q);
                    (a, db') = booking_insert (bs_promos s) (booking_at r fare) db
                in (Answered a, cache, db')))))"

section \<open>A quote stays what it was\<close>

text \<open>What happens to the cache meanwhile: other quotes are issued, entries are lost.\<close>

datatype ('p, 'j) cache_event =
    Issues "'j service_zone list" int string fare_quote "'p quoted_trip"
  | Loses string

fun issued_id :: "('p, 'j) cache_event \<Rightarrow> string" where
  "issued_id (Issues zones now i fare q) = i"
| "issued_id (Loses i) = []"

fun cache_step :: "'p quote_cache \<Rightarrow> ('p, 'j) cache_event \<Rightarrow> 'p quote_cache" where
  "cache_step cache (Issues zones now i fare q) = snd (issue zones now i fare q cache)"
| "cache_step cache (Loses i) = cache(i := None)"

lemma valid_five_minutes: "valid_seconds c = 300"
  by (simp add: valid_seconds_def POLICIES_def DEFAULT_VALID_SECONDS_def split: option.splits)









section \<open>A booking at a quote\<close>

definition demo_fare :: fare_quote where
  "demo_fare = (case quote_fare True demo_request of Inr q \<Rightarrow> q | Inl _ \<Rightarrow> undefined)"

definition demo_scene :: "(int, unit) book_scene" where
  "demo_scene = \<lparr> bs_far = (\<lambda>a b. 50 < \<bar>a - b\<bar>), bs_now = 200, bs_zones = [], bs_fresh = ''q9'', bs_default = True,
     bs_ground = Some (Dec 46325 (- 4), Dec 981 (- 2)), bs_market = (\<lambda>_. demo_request), bs_promos = demo_promo_env \<rparr>"

definition demo_ask :: "(int, unit) book_request" where
  "demo_ask = \<lparr> bq_rider = 3, bq_key = ''a7'', bq_quote = ''q1'', bq_pickup = Some 10, bq_drop = Some 4000, bq_vehicle = ''sedan'',
     bq_promo = [], bq_draft = bk_draft demo_booking \<rparr>"


lemma demo_fare_eq: "quote_fare True demo_request = Inr demo_fare"
  by (simp add: demo_fare_def demo_quote)

lemma demo_fare_fields: "fq_total demo_fare = Dec 13700 (- 2)" "fq_tax_mode demo_fare = ''inclusive''" "fq_base demo_fare = Dec 3000 (- 2)"
  "fq_distance demo_fare = Dec 5559 (- 2)" "fq_time demo_fare = Dec 1962 (- 2)" "fq_vehicle demo_fare = ''sedan''"
  "fq_lines demo_fare = [line ''surge'' ''Busy-time surcharge'' (Dec 3156 (- 2)), line ''rounding'' ''Rounding'' (Dec 23 (- 2))]"
  "fq_surge demo_fare = Dec 130 (- 2)"
  by (simp_all add: demo_fare_def demo_quote)

lemma demo_priced: "priced_now demo_scene ''sedan'' (Dec 46325 (- 4), Dec 981 (- 2)) b = Inr demo_fare"
proof -
  have "demo_request\<lparr>fx_distance := Dec 46325 (- 4), fx_minutes := Dec 981 (- 2), fx_vehicle := ''sedan''\<rparr> = demo_request"
    by (simp add: demo_request_def)
  moreover have demo_vehicle: "fx_vehicle demo_request = ''sedan''" by (simp add: demo_request_def)
  ultimately show ?thesis by (simp add: priced_now_def estimate_amount_def demo_scene_def demo_fare_eq demo_vehicle)
qed

lemma demo_booked_at: "fst (booking_insert demo_promo_env (booking_at demo_ask demo_fare) quiet_db) = Booked 1"
proof -
  have d: "DEFAULT_CURRENCY = ''INR''" by code_simp
  have "amount_set (VDec (Finite (Dec 13700 (- 2)))) \<lparr> mr_currency = [], mr_derive = None, mr_minor = None \<rparr>
    = Inr \<lparr> mr_currency = [], mr_derive = None, mr_minor = Some 13700 \<rparr>"
    using to_minor_of_minor [of 13700 "Some ''INR''"] inr_exponent
    by (simp add: amount_set_def currency_of_def falsy_def fits_def d)
  then show ?thesis
    by (simp add: booking_insert_def quiet_db_def demo_booking_def booking_at_def demo_ask_def demo_fare_fields booking_lookup_def
        find_booking_def new_trip_def zone_derive_def next_trip_id_def book_promo_def py_strip_def Let_def)
qed





section \<open>The fresh quote\<close>

lemma quoted_vehicle: "quote_fare allow_default x = Inr fare \<Longrightarrow> fq_vehicle fare = fx_vehicle x"
  by (rule quote_fare_pieces)

lemma cache_issues:
  assumes "quote_id \<notin> issued_id ` set evs" "Loses quote_id \<notin> set evs"
  shows "foldl cache_step cache evs quote_id = cache quote_id"
  using assms
proof (induction evs arbitrary: cache)
  case (Cons e evs)
  then have "cache_step cache e quote_id = cache quote_id" by (cases e) (auto simp: issue_def Let_def)
  with Cons show ?case by simp
qed simp

lemma requote_issues:
  assumes "requote s r ground why cache = (QuoteRefused why' quote_id e fare, cache')"
  obtains p d where "bq_pickup r = Some p" "bq_drop r = Some d" "bs_fresh s = quote_id" "e = bs_now s + 300" "why' = why"
    "cache' quote_id = Some (e, \<lparr> of_fare = fare, of_rider = Some (bq_rider r), of_pickup = p, of_drop = d,
      of_vehicle = py_lower (bq_vehicle r), of_km = fst ground, of_min = snd ground, of_expires = e \<rparr>)"
    "\<And>c. c \<noteq> quote_id \<Longrightarrow> cache' c = cache c"
proof -
  obtain p d where pd: "bq_pickup r = Some p" "bq_drop r = Some d" and f: "priced_now s (bq_vehicle r) ground False = Inr fare"
    and i: "issue (bs_zones s) (bs_now s) (bs_fresh s) fare
            \<lparr> qt_rider = Some (bq_rider r), qt_pickup = p, qt_drop = d, qt_km = fst ground, qt_min = snd ground \<rparr> cache = (e, cache')"
    and n: "bs_fresh s = quote_id" "why' = why"
    using assms by (auto simp: requote_def split: sum.splits option.splits prod.splits)
  have "fq_vehicle fare = bq_vehicle r"
    using f quoted_vehicle by (fastforce simp: priced_now_def estimate_amount_def split: if_splits)
  with i n pd show ?thesis by (intro that [of p d]) (auto simp: issue_def Let_def valid_five_minutes)
qed

text \<open>Claim C40. A refused quote books nothing and comes with a fare that can be confirmed: the same request sent with
  the fresh id within 300 seconds is booked at exactly the fresh fare, whatever pricing answers then, provided the
  area and pricing still accept a ride there and the cache kept the entry.\<close>
theorem fresh_quote_can_be_confirmed:
  assumes "create_priced_trip s r cache db = (QuoteRefused why quote_id e fare, cache1, db1)"
    and "quote_id \<notin> issued_id ` set evs" "Loses quote_id \<notin> set evs" "quote_id \<noteq> []"
    and "bs_now s' < bs_now s + 300" "\<forall>p. \<not> bs_far s' p p" "bs_ground s' = Some ground'"
    and "priced_now s' (bq_vehicle r) ground' True = Inr priced"
    and "booking_lookup (bq_rider r) (bq_key r) db2 = None"
  shows "db1 = db \<and> create_priced_trip s' (r\<lparr>bq_quote := quote_id\<rparr>) (foldl cache_step cache1 evs) db2
    = (Answered (fst (booking_insert (bs_promos s') (booking_at r fare) db2)), foldl cache_step cache1 evs,
       snd (booking_insert (bs_promos s') (booking_at r fare) db2))"
proof -
  let ?c = "foldl cache_step cache1 evs"
  obtain ground why' where d: "db1 = db" and rq: "requote s r ground why' cache = (QuoteRefused why quote_id e fare, cache1)"
    using assms(1) by (auto simp: create_priced_trip_def Let_def split: option.splits sum.splits prod.splits)
  obtain p q where pq: "bq_pickup r = Some p" "bq_drop r = Some q" and e: "e = bs_now s + 300"
    and c1: "cache1 quote_id = Some (e, \<lparr> of_fare = fare, of_rider = Some (bq_rider r), of_pickup = p, of_drop = q,
      of_vehicle = py_lower (bq_vehicle r), of_km = fst ground, of_min = snd ground, of_expires = e \<rparr>)"
    using requote_issues [OF rq] by metis
  then have "?c quote_id = Some (e, \<lparr> of_fare = fare, of_rider = Some (bq_rider r), of_pickup = p, of_drop = q,
      of_vehicle = py_lower (bq_vehicle r), of_km = fst ground, of_min = snd ground, of_expires = e \<rparr>)"
    using cache_issues [OF assms(2,3)] by simp
  moreover have "booking_at (r\<lparr>bq_quote := quote_id\<rparr>) fare = booking_at r fare" by (simp add: booking_at_def)
  ultimately have "create_priced_trip s' (r\<lparr>bq_quote := quote_id\<rparr>) ?c db2
    = (let (a, x) = booking_insert (bs_promos s') (booking_at r fare) db2 in (Answered a, ?c, x))"
    using assms(4-9) pq e by (simp add: create_priced_trip_def quote_asked_def check_def cache_get_def)
  with d show ?thesis by (simp add: Let_def case_prod_unfold)
qed

theorem fresh_quote_can_be_confirmed_witness:
  "fst (create_priced_trip demo_scene (demo_ask\<lparr>bq_quote := ''q9''\<rparr>)
     (fst (snd (create_priced_trip demo_scene demo_ask Map.empty quiet_db))) quiet_db) = Answered (Booked 1)"
proof -
  have f: "bq_rider demo_ask = 3" "bq_key demo_ask = ''a7''" "bq_quote demo_ask = ''q1''" "bq_pickup demo_ask = Some 10"
    "bq_drop demo_ask = Some 4000" "bq_vehicle demo_ask = ''sedan''" "bs_now demo_scene = 200" "bs_promos demo_scene = demo_promo_env"
    "bs_ground demo_scene = Some (Dec 46325 (- 4), Dec 981 (- 2))" "bs_fresh demo_scene = ''q9''" "\<forall>p. \<not> bs_far demo_scene p p"
    by (simp_all add: demo_ask_def demo_scene_def)
  have l: "booking_lookup 3 ''a7'' quiet_db = None" by (simp add: booking_lookup_def find_booking_def quiet_db_def)
  obtain e c where c: "create_priced_trip demo_scene demo_ask Map.empty quiet_db = (QuoteRefused QuoteExpired ''q9'' e demo_fare, c, quiet_db)"
    by (simp add: create_priced_trip_def f l quote_asked_def check_def cache_get_def requote_def demo_priced issue_def Let_def)
  show ?thesis
    using fresh_quote_can_be_confirmed [OF c, of "[]" demo_scene "(Dec 46325 (- 4), Dec 981 (- 2))" demo_fare quiet_db]
    by (simp add: c f l demo_priced demo_booked_at)
qed

end
