(* ===== verification/Rewards.thy ===== *)
theory Rewards
  imports Settlement RiderWallet
begin

text \<open>
  Rewards a campaign pays: driver incentives (\<open>servers/promotions/incentives.py\<close>) and referrals
  (\<open>servers/promotions/referrals.py\<close>), over the budget row, the driver's ledger and the rider's wallet. A
  driver is named by the user id; what the tables of users say of a person (role, home city, the values the
  fingerprints are made from) is the record \<open>person\<close>; SHA-256 is the argument \<open>hash\<close>. Notifications, the hold
  a fraud flag places and the rider flag are not modelled.
\<close>

section \<open>Campaigns, people, tables\<close>

record campaign_terms =
  tm_country :: string
  tm_currency :: string
  tm_node :: "geo_node option"
  tm_starts :: "int option"
  tm_legacy :: bool
  tm_target :: int
  tm_hours :: "(int \<times> int) option"
  tm_zone :: string
  tm_vehicle :: string
  tm_audience :: string
  tm_required :: int

record campaign_row =
  kw_id :: int
  kw_budget :: campaign
  kw_terms :: campaign_terms

record person =
  pn_role :: string
  pn_active :: bool
  pn_home :: "geo_node option"
  pn_city :: "geo_node option"
  pn_country :: "string option"
  pn_token :: string
  pn_phone :: string
  pn_emergency :: string
  pn_upi :: string
  pn_contact_upi :: string
  pn_bank :: "(string \<times> string) option"
  pn_has_trips :: bool

text \<open>A trip that was completed: its row, the rider, the class of the vehicle, when, and the local hour there.\<close>

record 'j finished_trip =
  ft_ride :: "'j ride"
  ft_rider :: int
  ft_vehicle :: string
  ft_at :: int
  ft_hour :: int

datatype progress_status = IN_PROGRESS | COMPLETED | UNFUNDED

record incentive_progress =
  ip_count :: int
  ip_status :: progress_status
  ip_reward :: int
  ip_currency :: string
  ip_completed_at :: "int option"

datatype referral_status = ATTACHED | QUALIFIED | REWARDED | BLOCKED

datatype signal = SIGNAL_DEVICE | SIGNAL_PHONE | SIGNAL_INSTRUMENT

record referral =
  rf_id :: int
  rf_campaign :: int
  rf_referrer :: int
  rf_referee :: int
  rf_code :: string
  rf_status :: referral_status
  rf_device :: string
  rf_trips :: int
  rf_signals :: "signal list"
  rf_referrer_reward :: int
  rf_referee_reward :: int
  rf_currency :: string
  rf_rewarded_at :: "int option"
  rf_blocked_at :: "int option"

datatype entry_key = EntryIncentive int int | EntryReferral int bool

text \<open>The entries of funded discounts, the third kind, are not rewards and not in these tables.\<close>

datatype entry_kind = INCENTIVE_REWARD | REFERRAL_REWARD

datatype reward_txn = DriverTxn ledger_key | RiderTxn rider_key

record reward_entry =
  re_kind :: entry_kind
  re_campaign :: int
  re_user :: int
  re_amount :: int
  re_currency :: string
  re_txn :: "reward_txn option"
  re_key :: entry_key

record reward_world =
  wd_books :: books
  wd_riders :: rider_books
  wd_campaigns :: "campaign_row list"
  wd_progress :: "int \<times> int \<rightharpoonup> incentive_progress"
  wd_counted :: "(int \<times> int \<times> int) list"
  wd_codes :: "(int \<times> string) list"
  wd_referrals :: "referral list"
  wd_referral_trips :: "(int \<times> int) list"
  wd_entries :: "reward_entry list"
  wd_flags :: "(int \<times> signal list) list"

text \<open>What surrounds a call: the clock, the people, the currencies rows derive, the rider credit cap, the hash.\<close>

record reward_env =
  ev_now :: int
  ev_people :: "int \<Rightarrow> person option"
  ev_rows :: row_context
  ev_cap :: decimal
  ev_salt :: string
  ev_hash :: "string \<Rightarrow> string"

datatype reward_error = RewardIntegrity | RewardMoney money_error | RewardRider rider_error | RewardMissing

definition find_campaign :: "int \<Rightarrow> reward_world \<Rightarrow> campaign_row option" where
  "find_campaign i w = find (\<lambda>k. kw_id k = i) (wd_campaigns w)"

definition set_campaign :: "int \<Rightarrow> campaign \<Rightarrow> reward_world \<Rightarrow> reward_world" where
  "set_campaign i c w = w\<lparr>wd_campaigns := map (\<lambda>k. if kw_id k = i then k\<lparr>kw_budget := c\<rparr> else k) (wd_campaigns w)\<rparr>"

definition home_currency :: "reward_env \<Rightarrow> int \<Rightarrow> string option" where
  "home_currency env u = (if falsy (rc_first_wallet (ev_rows env) u) then None
     else Some (normalize_currency (rc_first_wallet (ev_rows env) u) None))"

section \<open>Money\<close>

text \<open>\<open>budget.spend_now\<close> of the campaign's row: \<open>None\<close> is \<open>Refused\<close>.\<close>

definition spend_campaign :: "int \<Rightarrow> int \<Rightarrow> reward_world \<Rightarrow> reward_error + reward_world option" where
  "spend_campaign i amount w = (case find_campaign i w of
      None \<Rightarrow> Inl RewardMissing
    | Some k \<Rightarrow> (case spend_now amount (kw_budget k) of
        Inl _ \<Rightarrow> Inr None
      | Inr c \<Rightarrow> Inr (Some (set_campaign i c w))))"

text \<open>A credit on the driver's settlement wallet: the row, then the balance.\<close>

definition driver_credit ::
  "reward_env \<Rightarrow> int \<Rightarrow> string \<Rightarrow> int \<Rightarrow> purpose \<Rightarrow> reference \<Rightarrow> ledger_key \<Rightarrow> reward_world \<Rightarrow> reward_world option" where
  "driver_credit env u currency amount purpose ref key w =
     (let s = snd (get_wallet u (wd_books w));
          r = \<lparr> lr_user = u, lr_currency = stamp_currency currency (home_currency env u), lr_amount = amount,
                lr_type = Credit, lr_status = TxnCompleted, lr_purpose = purpose, lr_ref = ref, lr_key = key \<rparr>
      in map_option (\<lambda>b. w\<lparr>wd_books := move_balance u amount b\<rparr>) (insert_row r s))"

text \<open>\<open>LedgerEntry.objects.create\<close>: a positive amount and a key of its own.\<close>

definition add_entry :: "reward_entry \<Rightarrow> reward_world \<Rightarrow> reward_world option" where
  "add_entry e w = (if re_amount e \<le> 0 \<or> re_key e \<in> re_key ` set (wd_entries w) then None
     else Some (w\<lparr>wd_entries := e # wd_entries w\<rparr>))"

definition need :: "'a option \<Rightarrow> reward_error + 'a" where
  "need x = (case x of None \<Rightarrow> Inl RewardIntegrity | Some y \<Rightarrow> Inr y)"

section \<open>Driver incentives\<close>

definition in_hours :: "campaign_terms \<Rightarrow> int \<Rightarrow> bool" where
  "in_hours tm hour = (case tm_hours tm of None \<Rightarrow> True
     | Some (a, b) \<Rightarrow> if a \<le> b then a \<le> hour \<and> hour < b else a \<le> hour \<or> hour < b)"

definition trip_matches :: "campaign_row \<Rightarrow> 'j finished_trip \<Rightarrow> bool" where
  "trip_matches k f =
     (let tm = kw_terms k; t = ft_ride f; zone = pt_zone t in
      if rd_end_rule t \<noteq> [] then False
      else if (case tm_starts tm of None \<Rightarrow> False | Some s \<Rightarrow> ft_at f < s) then False
      else if (case cp_ends_at (kw_budget k) of None \<Rightarrow> False | Some e \<Rightarrow> e \<le> ft_at f) then False
      else if (case tm_node tm of None \<Rightarrow> False
               | Some n \<Rightarrow> (case zone of None \<Rightarrow> True
                   | Some z \<Rightarrow> (case sz_geo z of None \<Rightarrow> True | Some m \<Rightarrow> \<not> starts_with (node_path n) (node_path m)))) then False
      else if tm_zone tm \<noteq> [] \<and> (case zone of None \<Rightarrow> True | Some z \<Rightarrow> sz_code z \<noteq> tm_zone tm) then False
      else if tm_vehicle tm \<noteq> [] \<and> py_lower (ft_vehicle f) \<noteq> py_lower (tm_vehicle tm) then False
      else in_hours tm (ft_hour f))"

definition driver_in_place :: "campaign_row \<Rightarrow> person \<Rightarrow> bool" where
  "driver_in_place k p = (case tm_node (kw_terms k) of None \<Rightarrow> True
     | Some n \<Rightarrow> (case pn_home p of None \<Rightarrow> False | Some m \<Rightarrow> starts_with (node_path n) (node_path m)))"

definition save_progress :: "int \<Rightarrow> int \<Rightarrow> incentive_progress \<Rightarrow> reward_world \<Rightarrow> reward_world" where
  "save_progress c d p w = w\<lparr>wd_progress := (wd_progress w)((c, d) \<mapsto> p)\<rparr>"

definition pay_reward ::
  "reward_env \<Rightarrow> campaign_row \<Rightarrow> int \<Rightarrow> incentive_progress \<Rightarrow> reward_world \<Rightarrow> reward_error + reward_world" where
  "pay_reward env k d p w =
     (let c = kw_id k; reward = int_or (cc_reward_minor (cp_config (kw_budget k))) 0; key = KeyIncentive c d in
      bind_res (spend_campaign c reward w) (\<lambda>r. case r of
        None \<Rightarrow> Inr (save_progress c d (p\<lparr>ip_status := UNFUNDED, ip_completed_at := Some (ev_now env)\<rparr>) w)
      | Some w1 \<Rightarrow>
          bind_res (need (driver_credit env d (tm_currency (kw_terms k)) reward IncentiveReward (RefIncentive c) key w1)) (\<lambda>w2.
          bind_res (need (add_entry \<lparr> re_kind = INCENTIVE_REWARD, re_campaign = c, re_user = d, re_amount = reward,
              re_currency = tm_currency (kw_terms k), re_txn = Some (DriverTxn key), re_key = EntryIncentive c d \<rparr> w2)) (\<lambda>w3.
            Inr (save_progress c d (p\<lparr>ip_status := COMPLETED, ip_reward := reward, ip_completed_at := Some (ev_now env)\<rparr>) w3)))))"

definition fresh_progress :: "campaign_row \<Rightarrow> incentive_progress" where
  "fresh_progress k = \<lparr> ip_count = 0, ip_status = IN_PROGRESS, ip_reward = 0, ip_currency = tm_currency (kw_terms k),
     ip_completed_at = None \<rparr>"

definition counted_trips :: "int \<Rightarrow> int \<Rightarrow> reward_world \<Rightarrow> int" where
  "counted_trips c d w = int (length (filter (\<lambda>(c', d', _). c' = c \<and> d' = d) (wd_counted w)))"

text \<open>\<open>k\<close> is the campaign as the caller read it.\<close>

definition count_incentive_trip ::
  "reward_env \<Rightarrow> campaign_row \<Rightarrow> int \<Rightarrow> int \<Rightarrow> reward_world \<Rightarrow> reward_error + bool \<times> reward_world" where
  "count_incentive_trip env k d trip w =
     (let c = kw_id k;
          p = (case wd_progress w (c, d) of None \<Rightarrow> fresh_progress k | Some p \<Rightarrow> p);
          w0 = save_progress c d p w
      in if (\<exists>x \<in> set (wd_counted w0). fst x = c \<and> snd (snd x) = trip) then Inr (False, w0)
         else let w1 = w0\<lparr>wd_counted := (c, d, trip) # wd_counted w0\<rparr>;
                  p1 = p\<lparr>ip_count := counted_trips c d w1\<rparr>;
                  w2 = save_progress c d p1 w1;
                  target = tm_target (kw_terms k)
              in if ip_status p1 = IN_PROGRESS \<and> target \<noteq> 0 \<and> target \<le> ip_count p1
                 then bind_res (pay_reward env k d p1 w2) (\<lambda>w3. Inr (True, w3))
                 else Inr (True, w2))"

text \<open>Every campaign is a transaction of its own: an exception stops the loop, what came before stays.\<close>

fun count_for ::
  "reward_env \<Rightarrow> int \<Rightarrow> int \<Rightarrow> campaign_row list \<Rightarrow> reward_world \<Rightarrow> reward_error option \<times> reward_world" where
  "count_for env d trip [] w = (None, w)"
| "count_for env d trip (k # ks) w = (case count_incentive_trip env k d trip w of
      Inl e \<Rightarrow> (Some e, w)
    | Inr (_, w') \<Rightarrow> count_for env d trip ks w')"

definition incentive_campaigns :: "reward_env \<Rightarrow> int \<Rightarrow> 'j finished_trip \<Rightarrow> reward_world \<Rightarrow> campaign_row list" where
  "incentive_campaigns env d f w = filter (\<lambda>k. cp_kind (kw_budget k) = DRIVER_INCENTIVE \<and> cp_state (kw_budget k) = CP_LIVE
      \<and> \<not> tm_legacy (kw_terms k) \<and> (case ev_people env d of None \<Rightarrow> False | Some p \<Rightarrow> driver_in_place k p)
      \<and> trip_matches k f) (wd_campaigns w)"

definition incentive_trip_completed ::
  "reward_env \<Rightarrow> 'j finished_trip \<Rightarrow> reward_world \<Rightarrow> reward_error option \<times> reward_world" where
  "incentive_trip_completed env f w = (case rd_driver (ft_ride f) of
      None \<Rightarrow> (None, w)
    | Some d \<Rightarrow> count_for env d (pt_id (ft_ride f)) (incentive_campaigns env d f w) w)"

section \<open>Who is who\<close>

definition salted :: "reward_env \<Rightarrow> string \<Rightarrow> string" where
  "salted env value = (let v = py_strip value in
     if v = [] then [] else ev_hash env (''referral:'' @ ev_salt env @ '':'' @ v))"

definition last_digits :: "string \<Rightarrow> string" where
  "last_digits raw = (let ds = filter is_digit raw in drop (length ds - 10) ds)"

definition device_hash :: "reward_env \<Rightarrow> person \<Rightarrow> string \<Rightarrow> string" where
  "device_hash env p supplied = (if salted env supplied \<noteq> [] then salted env supplied else salted env (pn_token p))"

definition device_hashes :: "reward_env \<Rightarrow> person \<Rightarrow> string \<Rightarrow> string list" where
  "device_hashes env p attached = filter (\<lambda>h. h \<noteq> []) [salted env (pn_token p), attached]"

definition phone_keys :: "person \<Rightarrow> string list" where
  "phone_keys p = filter (\<lambda>k. 7 \<le> length k) [last_digits (pn_phone p), last_digits (pn_emergency p)]"

definition instrument_hashes :: "reward_env \<Rightarrow> person \<Rightarrow> string list" where
  "instrument_hashes env p =
     (if pn_role p \<noteq> ''driver'' then []
      else filter (\<lambda>h. h \<noteq> [])
        ((if pn_upi p = [] then [] else [salted env (''upi:'' @ py_lower (py_strip (pn_upi p)))])
         @ (if pn_contact_upi p = [] then [] else [salted env (''upi:'' @ py_lower (py_strip (pn_contact_upi p)))])
         @ (case pn_bank p of None \<Rightarrow> []
            | Some (ifsc, account) \<Rightarrow> if account = [] then []
                else [salted env (''bank:'' @ py_upper (py_strip ifsc) @ '':'' @ py_strip account)])))"

definition share :: "string list \<Rightarrow> string list \<Rightarrow> bool" where
  "share xs ys = list_ex (\<lambda>x. x \<in> set ys) xs"

text \<open>\<open>attached\<close> is the device hash the referral keeps.\<close>

definition abuse_signals :: "reward_env \<Rightarrow> person \<Rightarrow> person \<Rightarrow> string \<Rightarrow> signal list" where
  "abuse_signals env referrer referee attached =
     (if share (device_hashes env referrer []) (device_hashes env referee attached)
         \<or> attached \<noteq> [] \<and> attached \<in> set (device_hashes env referrer []) then [SIGNAL_DEVICE] else [])
     @ (if share (phone_keys referrer) (phone_keys referee) then [SIGNAL_PHONE] else [])
     @ (if share (instrument_hashes env referrer) (instrument_hashes env referee) then [SIGNAL_INSTRUMENT] else [])"

definition person_role :: "reward_env \<Rightarrow> int \<Rightarrow> string" where
  "person_role env u = (case ev_people env u of None \<Rightarrow> []
     | Some p \<Rightarrow> if pn_role p \<in> {''rider'', ''driver''} then pn_role p else [])"

text \<open>The newest live campaign of the person's country and audience, one of their city before one of the country.\<close>

definition covers_person :: "person \<Rightarrow> string \<Rightarrow> campaign_row \<Rightarrow> bool" where
  "covers_person p role k =
     (let tm = kw_terms k in
      cp_kind (kw_budget k) = REFERRAL \<and> cp_state (kw_budget k) = CP_LIVE \<and> \<not> tm_legacy tm
      \<and> tm_country tm = (case pn_country p of None \<Rightarrow> [] | Some c \<Rightarrow> c) \<and> tm_audience tm = role
      \<and> (case tm_node tm of None \<Rightarrow> True
         | Some n \<Rightarrow> gn_kind n = COUNTRY
             \<or> (case pn_city p of None \<Rightarrow> False | Some m \<Rightarrow> starts_with (node_path n) (node_path m))))"

definition at_city :: "campaign_row \<Rightarrow> bool" where
  "at_city k = (case tm_node (kw_terms k) of None \<Rightarrow> False | Some n \<Rightarrow> gn_kind n \<noteq> COUNTRY)"

definition live_campaign_for :: "reward_env \<Rightarrow> int \<Rightarrow> reward_world \<Rightarrow> campaign_row option" where
  "live_campaign_for env u w = (case ev_people env u of None \<Rightarrow> None
     | Some p \<Rightarrow> if person_role env u = [] then None
         else let ks = rev (sort_key kw_id (filter (covers_person p (person_role env u)) (wd_campaigns w)))
              in (case find at_city ks of Some k \<Rightarrow> Some k | None \<Rightarrow> find (\<lambda>_. True) ks))"

section \<open>Referrals\<close>

datatype attach_refusal = CodeRequired | NotEligible | CodeNotFound | SelfReferral | AlreadyReferred | TooLate
  | NoActiveCampaign

definition next_referral :: "reward_world \<Rightarrow> int" where
  "next_referral w = Max (insert 0 (rf_id ` set (wd_referrals w))) + 1"

definition attach :: "reward_env \<Rightarrow> int \<Rightarrow> string \<Rightarrow> string \<Rightarrow> reward_world \<Rightarrow> attach_refusal + reward_world" where
  "attach env referee raw device w =
     (let code = py_upper (py_strip raw); role = person_role env referee in
      if code = [] then Inl CodeRequired
      else if role = [] then Inl NotEligible
      else case find (\<lambda>c. snd c = code) (wd_codes w) of
        None \<Rightarrow> Inl CodeNotFound
      | Some (referrer, _) \<Rightarrow>
          if (case ev_people env referrer of None \<Rightarrow> True | Some p \<Rightarrow> pn_role p \<noteq> role \<or> \<not> pn_active p) then Inl CodeNotFound
          else if referrer = referee then Inl SelfReferral
          else if referee \<in> rf_referee ` set (wd_referrals w) then Inl AlreadyReferred
          else (case ev_people env referee of None \<Rightarrow> Inl NotEligible
            | Some p \<Rightarrow> if pn_has_trips p then Inl TooLate
                else (case live_campaign_for env referee w of
                    None \<Rightarrow> Inl NoActiveCampaign
                  | Some k \<Rightarrow> Inr (w\<lparr>wd_referrals := \<lparr> rf_id = next_referral w, rf_campaign = kw_id k, rf_referrer = referrer,
                      rf_referee = referee, rf_code = code, rf_status = ATTACHED, rf_device = device_hash env p device, rf_trips = 0,
                      rf_signals = [], rf_referrer_reward = 0, rf_referee_reward = 0, rf_currency = tm_currency (kw_terms k),
                      rf_rewarded_at = None, rf_blocked_at = None \<rparr> # wd_referrals w\<rparr>))))"

definition find_referral :: "int \<Rightarrow> reward_world \<Rightarrow> referral option" where
  "find_referral i w = find (\<lambda>r. rf_id r = i) (wd_referrals w)"

definition save_referral :: "referral \<Rightarrow> reward_world \<Rightarrow> reward_world" where
  "save_referral r w = w\<lparr>wd_referrals := map (\<lambda>q. if rf_id q = rf_id r then r else q) (wd_referrals w)\<rparr>"

text \<open>One item in the fraud queue for each blocked referral.\<close>

definition raise_fraud_flag :: "referral \<Rightarrow> signal list \<Rightarrow> reward_world \<Rightarrow> reward_world" where
  "raise_fraud_flag r signals w =
     (if rf_id r \<in> fst ` set (wd_flags w) then w else w\<lparr>wd_flags := (rf_id r, signals) # wd_flags w\<rparr>)"

definition block :: "reward_env \<Rightarrow> referral \<Rightarrow> signal list \<Rightarrow> reward_world \<Rightarrow> reward_world" where
  "block env r signals w = raise_fraud_flag r signals
     (save_referral (r\<lparr>rf_status := BLOCKED, rf_signals := signals, rf_blocked_at := Some (ev_now env)\<rparr>) w)"

definition who_text :: "bool \<Rightarrow> string" where
  "who_text is_referrer = (if is_referrer then ''referrer'' else ''referee'')"

definition reward_key_text :: "int \<Rightarrow> bool \<Rightarrow> string" where
  "reward_key_text i is_referrer = ''referral:'' @ show_nat (nat i) @ '':'' @ who_text is_referrer"

text \<open>\<open>None\<close> is \<open>_CreditRefused\<close>.\<close>

definition credit_reward ::
  "reward_env \<Rightarrow> referral \<Rightarrow> campaign_row \<Rightarrow> int \<Rightarrow> int \<Rightarrow> bool \<Rightarrow> reward_world \<Rightarrow> reward_error + reward_world option" where
  "credit_reward env r k u minor is_referrer w =
     (let currency = tm_currency (kw_terms k);
          entry = (\<lambda>txn w'. bind_res (need (add_entry \<lparr> re_kind = REFERRAL_REWARD, re_campaign = kw_id k, re_user = u,
              re_amount = minor, re_currency = currency, re_txn = Some txn, re_key = EntryReferral (rf_id r) is_referrer \<rparr> w'))
              (\<lambda>w''. Inr (Some w'')))
      in if person_role env u = ''rider''
         then (case from_minor (VInt minor) (Some currency) of
             Inl e \<Rightarrow> Inl (RewardMoney e)
           | Inr None \<Rightarrow> Inl RewardIntegrity
           | Inr (Some d) \<Rightarrow>
               let key = CallerKey (reward_key_text (rf_id r) is_referrer) in
               (case issue_promo_credit (ev_rows env) (ev_cap env) u (VDec (Finite d)) (''referral:'' @ show_nat (nat (kw_id k))) key (wd_riders w) of
                  Inl e \<Rightarrow> Inl (RewardRider e)
                | Inr (result, riders) \<Rightarrow>
                    if \<not> cr_ok result then Inr None else entry (RiderTxn key) (w\<lparr>wd_riders := riders\<rparr>)))
         else bind_res (need (driver_credit env u currency minor ReferralReward (RefReferral (rf_id r))
                  (KeyReferral (rf_id r) is_referrer) w)) (entry (DriverTxn (KeyReferral (rf_id r) is_referrer))))"

definition pay_both ::
  "reward_env \<Rightarrow> referral \<Rightarrow> campaign_row \<Rightarrow> int \<Rightarrow> int \<Rightarrow> reward_world \<Rightarrow> reward_error + reward_world option" where
  "pay_both env r k a b w =
     bind_res (spend_campaign (kw_id k) (a + b) w) (\<lambda>s. case s of None \<Rightarrow> Inr None
       | Some w1 \<Rightarrow>
           bind_res (if 0 < a then credit_reward env r k (rf_referrer r) a True w1 else Inr (Some w1)) (\<lambda>s2. case s2 of None \<Rightarrow> Inr None
             | Some w2 \<Rightarrow> if 0 < b then credit_reward env r k (rf_referee r) b False w2 else Inr (Some w2)))"

definition pay_referral :: "reward_env \<Rightarrow> referral \<Rightarrow> reward_world \<Rightarrow> reward_error + reward_world" where
  "pay_referral env r w = (case find_campaign (rf_campaign r) w of
      None \<Rightarrow> Inl RewardMissing
    | Some k \<Rightarrow>
        let a = int_or (cc_referrer_minor (cp_config (kw_budget k))) 0; b = int_or (cc_referee_minor (cp_config (kw_budget k))) 0 in
        if a + b \<le> 0 then Inr (save_referral (r\<lparr>rf_status := REWARDED, rf_rewarded_at := Some (ev_now env)\<rparr>) w)
        else bind_res (pay_both env r k a b w) (\<lambda>s. case s of
            None \<Rightarrow> Inr (save_referral (r\<lparr>rf_status := QUALIFIED\<rparr>) w)
          | Some w' \<Rightarrow> Inr (save_referral (r\<lparr>rf_status := REWARDED, rf_referrer_reward := a, rf_referee_reward := b,
              rf_rewarded_at := Some (ev_now env)\<rparr>) w')))"

definition qualify :: "reward_env \<Rightarrow> referral \<Rightarrow> reward_world \<Rightarrow> reward_error + reward_world" where
  "qualify env r w = (case (ev_people env (rf_referrer r), ev_people env (rf_referee r)) of
      (Some p, Some q) \<Rightarrow>
        let signals = abuse_signals env p q (rf_device r); r' = r\<lparr>rf_status := QUALIFIED\<rparr> in
        if signals \<noteq> [] then Inr (block env r' signals w) else pay_referral env r' w
    | _ \<Rightarrow> Inl RewardMissing)"

definition count_referral_trip :: "reward_env \<Rightarrow> int \<Rightarrow> int \<Rightarrow> reward_world \<Rightarrow> reward_error + reward_world" where
  "count_referral_trip env i trip w = (case find_referral i w of
      None \<Rightarrow> Inl RewardMissing
    | Some r \<Rightarrow>
        if rf_status r \<noteq> ATTACHED \<or> (i, trip) \<in> set (wd_referral_trips w) then Inr w
        else let w1 = w\<lparr>wd_referral_trips := (i, trip) # wd_referral_trips w\<rparr>;
                 r1 = r\<lparr>rf_trips := int (length (filter (\<lambda>x. fst x = i) (wd_referral_trips w1)))\<rparr>;
                 w2 = save_referral r1 w1
             in (case find_campaign (rf_campaign r) w of
                 None \<Rightarrow> Inl RewardMissing
               | Some k \<Rightarrow> let required = tm_required (kw_terms k) in
                   if required \<noteq> 0 \<and> required \<le> rf_trips r1 then qualify env r1 w2 else Inr w2))"

text \<open>The rider's referral, then the driver's; an exception stops.\<close>

definition count_referral_of :: "reward_env \<Rightarrow> int \<Rightarrow> int \<Rightarrow> reward_world \<Rightarrow> reward_error option \<times> reward_world" where
  "count_referral_of env u trip w =
     (case find (\<lambda>r. rf_referee r = u \<and> rf_status r = ATTACHED) (wd_referrals w) of
        None \<Rightarrow> (None, w)
      | Some r \<Rightarrow> (case find_campaign (rf_campaign r) w of
            None \<Rightarrow> (None, w)
          | Some k \<Rightarrow> if tm_audience (kw_terms k) \<noteq> person_role env u then (None, w)
              else (case count_referral_trip env (rf_id r) trip w of Inl e \<Rightarrow> (Some e, w) | Inr w' \<Rightarrow> (None, w'))))"

fun count_referrals :: "reward_env \<Rightarrow> int list \<Rightarrow> int \<Rightarrow> reward_world \<Rightarrow> reward_error option \<times> reward_world" where
  "count_referrals env [] trip w = (None, w)"
| "count_referrals env (u # us) trip w = (case count_referral_of env u trip w of
      (Some e, w') \<Rightarrow> (Some e, w')
    | (None, w') \<Rightarrow> count_referrals env us trip w')"

definition referral_trip_completed ::
  "reward_env \<Rightarrow> 'j finished_trip \<Rightarrow> reward_world \<Rightarrow> reward_error option \<times> reward_world" where
  "referral_trip_completed env f w =
     (if rd_end_rule (ft_ride f) \<noteq> [] then (None, w)
      else count_referrals env (ft_rider f # (case rd_driver (ft_ride f) of None \<Rightarrow> [] | Some d \<Rightarrow> [d])) (pt_id (ft_ride f)) w)"

text \<open>The task of a completed trip, delivered at least once, and the sweep.\<close>

definition on_trip_completed :: "reward_env \<Rightarrow> 'j finished_trip \<Rightarrow> reward_world \<Rightarrow> reward_error option \<times> reward_world" where
  "on_trip_completed env f w = (case incentive_trip_completed env f w of
      (Some e, w') \<Rightarrow> (Some e, w')
    | (None, w') \<Rightarrow> referral_trip_completed env f w')"

fun retry_each :: "reward_env \<Rightarrow> referral list \<Rightarrow> reward_world \<Rightarrow> reward_error option \<times> reward_world" where
  "retry_each env [] w = (None, w)"
| "retry_each env (r # rs) w = (case find_referral (rf_id r) w of
      None \<Rightarrow> retry_each env rs w
    | Some q \<Rightarrow> if rf_status q \<noteq> QUALIFIED then retry_each env rs w
        else (case pay_referral env q w of Inl e \<Rightarrow> (Some e, w) | Inr w' \<Rightarrow> retry_each env rs w'))"

definition retry_qualified :: "reward_env \<Rightarrow> nat \<Rightarrow> reward_world \<Rightarrow> reward_error option \<times> reward_world" where
  "retry_qualified env limit w = retry_each env (take limit (filter (\<lambda>r. rf_status r = QUALIFIED
      \<and> (case find_campaign (rf_campaign r) w of None \<Rightarrow> False | Some k \<Rightarrow> cp_state (kw_budget k) = CP_LIVE)) (wd_referrals w))) w"

end
