(* ===== verification/RewardLaws.thy ===== *)
theory RewardLaws
  imports Rewards
begin

text \<open>
  What rewards keep, over every history of completed trips (delivered any number of times), attached codes,
  sweeps, campaign changes and other postings: the spend of a campaign is the sum of its ledger entries and
  within its budget, every entry has its wallet row, an incentive is paid once per driver and a referral once
  per person, and a blocked referral is never paid.
\<close>

section \<open>Money\<close>

definition paid :: "int \<Rightarrow> reward_world \<Rightarrow> int" where
  "paid c w = sum_by re_amount (filter (\<lambda>e. re_campaign e = c) (wd_entries w))"

definition booked :: "reward_world \<Rightarrow> reward_entry \<Rightarrow> bool" where
  "booked w e = (case re_txn e of
      None \<Rightarrow> False
    | Some (DriverTxn key) \<Rightarrow> (\<exists>r \<in> set (bk_rows (wd_books w)). lr_key r = key \<and> lr_user r = re_user e \<and> lr_amount r = re_amount e
        \<and> weight r = re_amount e)
    | Some (RiderTxn key) \<Rightarrow> key \<in> rt_key ` set (rb_rows (wd_riders w)))"

lemma booked_cong:
  assumes "wd_books w' = wd_books w" "wd_riders w' = wd_riders w"
  shows "booked w' e = booked w e"
  unfolding booked_def assms ..

text \<open>The row of a reward campaign: nothing is held, what is spent is what was paid, plus \<open>x\<close> that is being
  paid, and it is within the budget.\<close>

definition rewards_ok :: "campaign_config \<Rightarrow> bool" where
  "rewards_ok cfg = (0 \<le> int_or (cc_reward_minor cfg) 0 \<and> 0 \<le> int_or (cc_referrer_minor cfg) 0 \<and> 0 \<le> int_or (cc_referee_minor cfg) 0)"

definition campaign_ok :: "int \<Rightarrow> int \<Rightarrow> reward_world \<Rightarrow> campaign_row \<Rightarrow> bool" where
  "campaign_ok c x w k = (rewards_ok (cp_config (kw_budget k)) \<and> (cp_kind (kw_budget k) = RIDER_PROMO
     \<or> cp_committed (kw_budget k) = 0 \<and> cp_spent (kw_budget k) = paid (kw_id k) w + (if kw_id k = c then x else 0)
       \<and> (case cp_budget (kw_budget k) of None \<Rightarrow> True | Some b \<Rightarrow> cp_spent (kw_budget k) \<le> b)))"

definition entry_form :: "reward_entry \<Rightarrow> bool" where
  "entry_form e = (case re_key e of EntryIncentive c d \<Rightarrow> re_kind e = INCENTIVE_REWARD \<and> re_campaign e = c \<and> re_user e = d
     | EntryReferral i b \<Rightarrow> re_kind e = REFERRAL_REWARD)"

definition money_ok :: "int \<Rightarrow> int \<Rightarrow> reward_world \<Rightarrow> bool" where
  "money_ok c x w = (distinct (map kw_id (wd_campaigns w)) \<and> list_all (campaign_ok c x w) (wd_campaigns w)
     \<and> distinct (map re_key (wd_entries w)) \<and> list_all (\<lambda>e. 0 < re_amount e \<and> booked w e \<and> entry_form e) (wd_entries w)
     \<and> books_ok (wd_books w))"

text \<open>What a call leaves alone: the campaigns but for their spend and state, the rows that were there.\<close>

definition same_terms :: "reward_world \<Rightarrow> reward_world \<Rightarrow> bool" where
  "same_terms w w' = (map (\<lambda>k. (kw_id k, kw_terms k, cp_kind (kw_budget k), cp_config (kw_budget k))) (wd_campaigns w')
     = map (\<lambda>k. (kw_id k, kw_terms k, cp_kind (kw_budget k), cp_config (kw_budget k))) (wd_campaigns w))"

lemma same_terms_refl [simp]: "same_terms w w"
  by (simp add: same_terms_def)

lemma same_terms_trans: "same_terms a b \<Longrightarrow> same_terms b c \<Longrightarrow> same_terms a c"
  by (simp add: same_terms_def)

lemma paid_cong: "wd_entries w' = wd_entries w \<Longrightarrow> paid c w' = paid c w"
  by (simp add: paid_def)

lemma find_campaign_Some: "find_campaign i w = Some k \<Longrightarrow> k \<in> set (wd_campaigns w) \<and> kw_id k = i"
  by (auto simp: find_campaign_def find_Some_iff)

lemma spend_now_fields:
  "spend_now a c = Inr c' \<Longrightarrow> cp_spent c' = cp_spent c + a \<and> cp_committed c' = cp_committed c \<and> cp_budget c' = cp_budget c
     \<and> cp_kind c' = cp_kind c \<and> cp_config c' = cp_config c \<and> cp_state c = CP_LIVE
     \<and> (case cp_budget c of None \<Rightarrow> True | Some b \<Rightarrow> cp_committed c + cp_spent c + a \<le> b)"
  by (auto simp: spend_now_def bind_res_Inr_iff refuse_if_def after_change_def admits_def Let_def split: option.splits if_splits)

lemma spend_campaign_ok:
  assumes ok: "money_ok c 0 w" and s: "spend_campaign i a w = Inr (Some w')" and a: "0 \<le> a"
  shows "money_ok i a w'" and "same_terms w w'"
    and "\<exists>cs. w' = w\<lparr>wd_campaigns := cs\<rparr>"
proof -
  obtain k b where k: "find_campaign i w = Some k" and b: "spend_now a (kw_budget k) = Inr b" and w': "w' = set_campaign i b w"
    using s by (auto simp: spend_campaign_def split: option.splits sum.splits)
  note f = spend_now_fields [OF b]
  have kk: "k \<in> set (wd_campaigns w)" "kw_id k = i" using find_campaign_Some [OF k] by auto
  have same: "q = k" if "q \<in> set (wd_campaigns w)" "kw_id q = i" for q
    using that kk ok by (auto simp: money_ok_def distinct_map inj_on_def)
  show "\<exists>cs. w' = w\<lparr>wd_campaigns := cs\<rparr>" by (auto simp: w' set_campaign_def)
  show "same_terms w w'"
    using f same by (auto simp: same_terms_def w' set_campaign_def)
  have ids: "map kw_id (wd_campaigns w') = map kw_id (wd_campaigns w)" by (simp add: w' set_campaign_def)
  have p: "paid x w' = paid x w" for x by (simp add: w' set_campaign_def paid_def)
  have "campaign_ok i a w' q'" if mem: "q' \<in> set (wd_campaigns w')" for q'
  proof -
    obtain q where q: "q \<in> set (wd_campaigns w)" "q' = (if kw_id q = i then q\<lparr>kw_budget := b\<rparr> else q)"
      using mem by (auto simp: w' set_campaign_def)
    have "campaign_ok c 0 w q" using ok q(1) by (auto simp: money_ok_def list_all_iff)
    then show ?thesis using q f same [OF q(1)] a
      by (auto simp: campaign_ok_def p split: option.splits if_splits)
  qed
  moreover have "booked w' e = booked w e" for e
    by (rule booked_cong) (simp_all add: w' set_campaign_def)
  ultimately show "money_ok i a w'"
    using ok by (simp add: money_ok_def ids list_all_iff) (simp add: w' set_campaign_def)
qed

lemma driver_credit_ok:
  assumes ok: "money_ok c x w" and d: "driver_credit env u cur a p ref key w = Some w'"
  shows "money_ok c x w'" and "\<exists>b. w' = w\<lparr>wd_books := b\<rparr>" and "\<exists>r \<in> set (bk_rows (wd_books w')). lr_key r = key \<and> lr_user r = u
      \<and> lr_amount r = a \<and> weight r = a"
    and "key \<notin> lr_key ` set (bk_rows (wd_books w))" "lr_key ` set (bk_rows (wd_books w')) = insert key (lr_key ` set (bk_rows (wd_books w)))"
proof -
  define r where "r = \<lparr> lr_user = u, lr_currency = stamp_currency cur (home_currency env u), lr_amount = a,
                lr_type = Credit, lr_status = TxnCompleted, lr_purpose = p, lr_ref = ref, lr_key = key \<rparr>"
  define s where "s = snd (get_wallet u (wd_books w))"
  obtain b where b: "insert_row r s = Some b" and w': "w' = w\<lparr>wd_books := move_balance u a b\<rparr>"
    using d by (auto simp: driver_credit_def Let_def r_def [symmetric] s_def [symmetric])
  have rows: "bk_rows (wd_books w') = r # bk_rows (wd_books w)"
    using b by (auto simp: w' insert_row_Some s_def get_wallet_simps)
  have wr: "weight r = a" by (simp add: weight_def counted_def signed_def r_def)
  have "books_ok (move_balance u a b)"
    using ok wr b by (intro post_rows_ok [of s u "[r]"])
      (auto simp: money_ok_def s_def get_wallet_simps r_def intro: get_wallet_ok)
  moreover have "booked w e \<Longrightarrow> booked w' e" for e
    using rows by (auto simp: booked_def w' split: option.splits reward_txn.splits)
  moreover have "campaign_ok c x w' k = campaign_ok c x w k" for k by (simp add: campaign_ok_def paid_def w')
  ultimately show "money_ok c x w'" using ok by (auto simp: money_ok_def w' list_all_iff)
  show "\<exists>b. w' = w\<lparr>wd_books := b\<rparr>" using w' by blast
  show "\<exists>r \<in> set (bk_rows (wd_books w')). lr_key r = key \<and> lr_user r = u \<and> lr_amount r = a \<and> weight r = a"
    using rows wr by (auto simp: r_def)
  show "key \<notin> lr_key ` set (bk_rows (wd_books w))" "lr_key ` set (bk_rows (wd_books w')) = insert key (lr_key ` set (bk_rows (wd_books w)))"
    using rows b by (auto simp: r_def insert_row_Some s_def get_wallet_simps)
qed

lemma add_entry_ok:
  assumes ok: "money_ok c x w" and e: "add_entry e w = Some w'" and c: "re_campaign e = c" and b: "booked w e" "entry_form e"
  shows "money_ok c (x - re_amount e) w'" and "w' = w\<lparr>wd_entries := e # wd_entries w\<rparr>" and "0 < re_amount e"
    "re_key e \<notin> re_key ` set (wd_entries w)"
proof -
  show w': "w' = w\<lparr>wd_entries := e # wd_entries w\<rparr>" and pos: "0 < re_amount e" and new: "re_key e \<notin> re_key ` set (wd_entries w)"
    using e by (auto simp: add_entry_def split: if_splits)
  have "campaign_ok c x w k \<Longrightarrow> campaign_ok c (x - re_amount e) w' k" for k
    using c by (auto simp: campaign_ok_def paid_def w')
  moreover have "booked w' q = booked w q" for q by (rule booked_cong) (simp_all add: w')
  ultimately show "money_ok c (x - re_amount e) w'"
    using ok pos new b by (auto simp: money_ok_def w' list_all_iff)
qed

lemma money_ok_zero: "money_ok c 0 w = money_ok c' 0 w"
  by (simp add: money_ok_def campaign_ok_def list_all_iff)

text \<open>Tables that are not money.\<close>

lemma money_ok_frame:
  assumes "wd_campaigns w' = wd_campaigns w" "wd_entries w' = wd_entries w" "wd_books w' = wd_books w" "wd_riders w' = wd_riders w"
  shows "money_ok c x w' = money_ok c x w"
proof -
  have "campaign_ok c x w' = campaign_ok c x w" using assms by (simp add: campaign_ok_def paid_def fun_eq_iff)
  moreover have "booked w' = booked w" using booked_cong [OF assms(3,4)] by blast
  ultimately show ?thesis using assms by (simp add: money_ok_def)
qed

section \<open>Incentives\<close>

definition incentive_paid :: "reward_world \<Rightarrow> (int \<times> int \<times> int) set" where
  "incentive_paid w = {(c, d, a). \<exists>e \<in> set (wd_entries w). re_key e = EntryIncentive c d \<and> re_amount e = a}"

definition reached :: "int \<Rightarrow> int \<Rightarrow> reward_world \<Rightarrow> bool" where
  "reached c n w = (\<exists>k \<in> set (wd_campaigns w). kw_id k = c \<and> tm_target (kw_terms k) \<le> n)"

definition progress_ok :: "reward_world \<Rightarrow> int \<Rightarrow> int \<Rightarrow> bool" where
  "progress_ok w c d = (case wd_progress w (c, d) of
      None \<Rightarrow> counted_trips c d w = 0 \<and> (\<forall>a. (c, d, a) \<notin> incentive_paid w)
    | Some p \<Rightarrow> ip_count p = counted_trips c d w
        \<and> {a. (c, d, a) \<in> incentive_paid w} = (if ip_status p = COMPLETED then {ip_reward p} else {})
        \<and> (ip_status p \<noteq> IN_PROGRESS \<longrightarrow> reached c (ip_count p) w))"

definition incentive_ok :: "reward_world \<Rightarrow> bool" where
  "incentive_ok w = (distinct (map (\<lambda>x. (fst x, snd (snd x))) (wd_counted w)) \<and> (\<forall>c d. progress_ok w c d))"

lemma terms_same:
  assumes "same_terms w w'"
  shows "(\<lambda>k. (kw_id k, kw_terms k, cp_config (kw_budget k))) ` set (wd_campaigns w') = (\<lambda>k. (kw_id k, kw_terms k, cp_config (kw_budget k))) ` set (wd_campaigns w)"
proof -
  have form: "(\<lambda>k. (kw_id k, kw_terms k, cp_config (kw_budget k))) ` set ks = (\<lambda>(a, b, _, c). (a, b, c)) ` set (map (\<lambda>k. (kw_id k, kw_terms k, cp_kind (kw_budget k), cp_config (kw_budget k))) ks)" for ks
    by (simp add: image_image)
  show ?thesis unfolding form assms [unfolded same_terms_def] ..
qed

lemma reached_same: "same_terms w w' \<Longrightarrow> reached c n w' = reached c n w"
proof -
  have form: "reached c n v = (\<exists>x \<in> (\<lambda>k. (kw_id k, kw_terms k, cp_config (kw_budget k))) ` set (wd_campaigns v). fst x = c \<and> tm_target (fst (snd x)) \<le> n)" for v
    by (auto simp: reached_def)
  assume "same_terms w w'"
  then show ?thesis unfolding form by (simp only: terms_same)
qed

lemma progress_ok_frame:
  assumes "wd_progress w' (c, d) = wd_progress w (c, d)" "counted_trips c d w' = counted_trips c d w"
    "\<And>a. (c, d, a) \<in> incentive_paid w' \<longleftrightarrow> (c, d, a) \<in> incentive_paid w" "same_terms w w'"
  shows "progress_ok w' c d = progress_ok w c d"
  using assms reached_same [OF assms(4)] by (auto simp: progress_ok_def split: option.splits)

text \<open>What the incentives leave alone.\<close>

definition referral_part :: "reward_world \<Rightarrow> referral list \<times> (int \<times> int) list \<times> (int \<times> string) list \<times> (int \<times> signal list) list
    \<times> rider_books \<times> reward_entry set" where
  "referral_part w = (wd_referrals w, wd_referral_trips w, wd_codes w, wd_flags w, wd_riders w,
     {e \<in> set (wd_entries w). re_kind e = REFERRAL_REWARD})"

definition known :: "reward_world \<Rightarrow> campaign_row \<Rightarrow> bool" where
  "known w k = (\<exists>q \<in> set (wd_campaigns w). kw_id q = kw_id k \<and> kw_terms q = kw_terms k
     \<and> cp_config (kw_budget q) = cp_config (kw_budget k))"

lemma known_same: "same_terms w w' \<Longrightarrow> known w' k = known w k"
proof -
  have form: "known v k = ((kw_id k, kw_terms k, cp_config (kw_budget k)) \<in> (\<lambda>k. (kw_id k, kw_terms k, cp_config (kw_budget k))) ` set (wd_campaigns v))" for v
    by (auto simp: known_def image_iff eq_commute)
  assume "same_terms w w'"
  then show ?thesis unfolding form by (simp only: terms_same)
qed

definition incentive_step :: "reward_world \<Rightarrow> reward_world \<Rightarrow> bool" where
  "incentive_step w w' = (money_ok 0 0 w' \<and> incentive_ok w' \<and> same_terms w w' \<and> referral_part w' = referral_part w
     \<and> set (wd_counted w) \<subseteq> set (wd_counted w'))"

lemma pay_reward_ok:
  assumes ok: "money_ok 0 0 w" "incentive_ok w" and p: "wd_progress w (kw_id k, d) = Some p" "ip_status p = IN_PROGRESS"
    and r: "reached (kw_id k) (ip_count p) w" and run: "pay_reward env k d p w = Inr w'"
    and pos: "0 \<le> int_or (cc_reward_minor (cp_config (kw_budget k))) 0"
  shows "incentive_step w w'"
proof -
  let ?c = "kw_id k" and ?a = "int_or (cc_reward_minor (cp_config (kw_budget k))) 0"
  note pok = ok(2) [unfolded incentive_ok_def, THEN conjunct2, rule_format, of ?c d]
  obtain s where s: "spend_campaign ?c ?a w = Inr s" using run by (auto simp: pay_reward_def bind_res_Inr_iff Let_def)
  show ?thesis
  proof (cases s)
    case None
    then have w': "w' = save_progress ?c d (p\<lparr>ip_status := UNFUNDED, ip_completed_at := Some (ev_now env)\<rparr>) w"
      using run s by (simp add: pay_reward_def Let_def)
    have st: "same_terms w w'" by (simp add: same_terms_def w' save_progress_def)
    have "progress_ok w' c' d'" for c' d'
    proof (cases "(c', d') = (?c, d)")
      case True
      with pok p r reached_same [OF st] show ?thesis
        by (auto simp: progress_ok_def w' save_progress_def counted_trips_def incentive_paid_def)
    next
      case False
      then have "progress_ok w' c' d' = progress_ok w c' d'"
        by (intro progress_ok_frame [OF _ _ _ st]) (auto simp: w' save_progress_def counted_trips_def incentive_paid_def)
      with ok(2) show ?thesis by (simp add: incentive_ok_def)
    qed
    moreover have "money_ok 0 0 w'" using ok(1) money_ok_frame [of w' w] by (simp add: w' save_progress_def)
    ultimately show ?thesis using ok(2) st
      by (simp add: incentive_step_def incentive_ok_def w' save_progress_def referral_part_def)
  next
    case (Some w1)
    let ?key = "KeyIncentive ?c d"
    define e where "e = \<lparr> re_kind = INCENTIVE_REWARD, re_campaign = ?c, re_user = d, re_amount = ?a,
              re_currency = tm_currency (kw_terms k), re_txn = Some (DriverTxn ?key), re_key = EntryIncentive ?c d \<rparr>"
    obtain w2 w3 where w2: "driver_credit env d (tm_currency (kw_terms k)) ?a IncentiveReward (RefIncentive ?c) ?key w1 = Some w2"
      and w3: "add_entry e w2 = Some w3"
      and w': "w' = save_progress ?c d (p\<lparr>ip_status := COMPLETED, ip_reward := ?a, ip_completed_at := Some (ev_now env)\<rparr>) w3"
      using run s Some by (auto simp: pay_reward_def bind_res_Inr_iff Let_def need_def e_def split: option.splits)
    note s1 = spend_campaign_ok [OF ok(1) s [unfolded Some] pos]
    note s2 = driver_credit_ok [OF s1(1) w2]
    have "booked w2 e" "entry_form e" using s2(3) by (auto simp: booked_def e_def entry_form_def)
    note s3 = add_entry_ok [OF s2(1) w3 _ this]
    obtain cs b where eq: "w3 = w\<lparr>wd_campaigns := cs, wd_books := b, wd_entries := e # wd_entries w\<rparr>"
      using s1(3) s2(2) s3(2) by (auto simp: e_def)
    have st: "same_terms w w'"
      using s1(2,3) s2(2) s3(2) by (auto simp: same_terms_def w' save_progress_def e_def)
    have paid: "incentive_paid w' = insert (?c, d, ?a) (incentive_paid w)"
      by (auto simp: incentive_paid_def w' eq save_progress_def e_def)
    have cnt: "counted_trips c' d' w' = counted_trips c' d' w" for c' d' by (simp add: w' eq save_progress_def counted_trips_def)
    have prog: "wd_progress w' = (wd_progress w)((?c, d) \<mapsto> p\<lparr>ip_status := COMPLETED, ip_reward := ?a, ip_completed_at := Some (ev_now env)\<rparr>)"
      by (simp add: w' eq save_progress_def)
    have "progress_ok w' c' d'" for c' d'
    proof (cases "(c', d') = (?c, d)")
      case True
      then show ?thesis using pok p r by (auto simp: progress_ok_def paid cnt prog reached_same [OF st])
    next
      case False
      then have "progress_ok w' c' d' = progress_ok w c' d'"
        by (intro progress_ok_frame [OF _ _ _ st]) (auto simp: paid cnt prog)
      with ok(2) show ?thesis by (simp add: incentive_ok_def)
    qed
    moreover have "money_ok 0 0 w'"
      using s3(1) money_ok_frame [of w' w3 0 0] money_ok_zero [of ?c w3 0] by (simp add: w' save_progress_def e_def)
    ultimately show ?thesis using ok(2) st
      by (auto simp: incentive_step_def incentive_ok_def w' eq save_progress_def referral_part_def e_def)
  qed
qed

lemma known_rewards: "money_ok c x w \<Longrightarrow> known w k \<Longrightarrow> rewards_ok (cp_config (kw_budget k))"
  by (auto simp: money_ok_def list_all_iff campaign_ok_def known_def)

lemma counted_fresh:
  "(\<forall>x \<in> set (wd_counted w). fst x = c \<longrightarrow> snd (snd x) \<noteq> t) \<Longrightarrow> distinct (map (\<lambda>x. (fst x, snd (snd x))) (wd_counted w))
   \<Longrightarrow> distinct (map (\<lambda>x. (fst x, snd (snd x))) ((c, d, t) # wd_counted w))"
  by auto

lemma incentive_step_refl: "money_ok 0 0 w \<Longrightarrow> incentive_ok w \<Longrightarrow> incentive_step w w"
  by (simp add: incentive_step_def)

lemma incentive_step_trans: "incentive_step a b \<Longrightarrow> incentive_step b c \<Longrightarrow> incentive_step a c"
  by (auto simp: incentive_step_def intro: same_terms_trans)

lemma count_incentive_trip_ok:
  assumes ok: "money_ok 0 0 w" "incentive_ok w" and k: "known w k" and run: "count_incentive_trip env k d trip w = Inr (b, w')"
  shows "incentive_step w w' \<and> (\<exists>x \<in> set (wd_counted w'). fst x = kw_id k \<and> snd (snd x) = trip)"
proof -
  let ?c = "kw_id k"
  define p where "p = (case wd_progress w (?c, d) of None \<Rightarrow> fresh_progress k | Some p \<Rightarrow> p)"
  define w0 where "w0 = save_progress ?c d p w"
  have st0: "same_terms w w0" by (simp add: same_terms_def w0_def save_progress_def)
  have p0: "progress_ok w0 c' d'" for c' d'
  proof (cases "(c', d') = (?c, d)")
    case True
    have "progress_ok w ?c d" using ok(2) by (simp add: incentive_ok_def)
    with True reached_same [OF st0] show ?thesis
      by (auto simp: progress_ok_def w0_def save_progress_def p_def fresh_progress_def counted_trips_def incentive_paid_def split: option.splits)
  next
    case False
    then have "progress_ok w0 c' d' = progress_ok w c' d'"
      by (intro progress_ok_frame [OF _ _ _ st0]) (auto simp: w0_def save_progress_def counted_trips_def incentive_paid_def)
    with ok(2) show ?thesis by (simp add: incentive_ok_def)
  qed
  have ok0: "incentive_step w w0"
    using p0 ok st0 money_ok_frame [of w0 w 0 0]
    by (simp add: incentive_step_def incentive_ok_def w0_def save_progress_def referral_part_def)
  show ?thesis
  proof (cases "\<exists>x \<in> set (wd_counted w0). fst x = ?c \<and> snd (snd x) = trip")
    case True
    then have "w' = w0" using run by (simp add: count_incentive_trip_def Let_def p_def [symmetric] w0_def [symmetric])
    with ok0 True show ?thesis by simp
  next
    case False
    define w1 where "w1 = w0\<lparr>wd_counted := (?c, d, trip) # wd_counted w0\<rparr>"
    define p1 where "p1 = p\<lparr>ip_count := counted_trips ?c d w1\<rparr>"
    define w2 where "w2 = save_progress ?c d p1 w1"
    have cnt: "counted_trips c' d' w2 = counted_trips c' d' w0 + (if (c', d') = (?c, d) then 1 else 0)" for c' d'
      by (simp add: counted_trips_def w2_def w1_def save_progress_def)
    have cnt1: "counted_trips ?c d w1 = counted_trips ?c d w2" by (simp add: counted_trips_def w2_def save_progress_def)
    have st: "same_terms w0 w2" by (simp add: same_terms_def w2_def w1_def save_progress_def)
    have paid2: "incentive_paid w2 = incentive_paid w0" by (simp add: incentive_paid_def w2_def w1_def save_progress_def)
    have prog: "wd_progress w2 = (wd_progress w0)((?c, d) \<mapsto> p1)" by (simp add: w2_def w1_def save_progress_def)
    have pr0: "wd_progress w0 (?c, d) = Some p" by (simp add: w0_def save_progress_def)
    have mono: "reached c n v \<Longrightarrow> reached c (n + 1) v" for c n v unfolding reached_def by (metis add.commute zle_add1_eq_le zless_add1_eq less_le)
    have "progress_ok w2 c' d'" for c' d'
    proof (cases "(c', d') = (?c, d)")
      case True
      have "progress_ok w0 ?c d" by (rule p0)
      then show ?thesis
        using True pr0 by (auto simp: progress_ok_def prog p1_def cnt1 paid2 reached_same [OF st] cnt intro: mono)
    next
      case False
      then have "progress_ok w2 c' d' = progress_ok w0 c' d'"
        by (intro progress_ok_frame [OF _ _ _ st]) (auto simp: prog cnt paid2)
      with p0 show ?thesis by simp
    qed
    moreover have "distinct (map (\<lambda>x. (fst x, snd (snd x))) (wd_counted w2))"
      using ok0 False counted_fresh [of w0 ?c trip d] by (auto simp: incentive_step_def incentive_ok_def w2_def w1_def save_progress_def)
    moreover have "money_ok 0 0 w2"
      using ok0 money_ok_frame [of w2 w0 0 0] by (simp add: incentive_step_def w2_def w1_def save_progress_def)
    ultimately have ok2: "incentive_step w0 w2"
      using st by (auto simp: incentive_step_def incentive_ok_def referral_part_def) (auto simp: w2_def w1_def save_progress_def)
    have eq: "count_incentive_trip env k d trip w =
        (if ip_status p1 = IN_PROGRESS \<and> tm_target (kw_terms k) \<noteq> 0 \<and> tm_target (kw_terms k) \<le> ip_count p1
         then bind_res (pay_reward env k d p1 w2) (\<lambda>w3. Inr (True, w3)) else Inr (True, w2))"
      using False unfolding count_incentive_trip_def Let_def p_def [symmetric] w0_def [symmetric]
      by (auto simp: w2_def p1_def w1_def)
    have here: "\<exists>x \<in> set (wd_counted w2). fst x = ?c \<and> snd (snd x) = trip" by (auto simp: w2_def w1_def save_progress_def)
    show ?thesis
    proof (cases "ip_status p1 = IN_PROGRESS \<and> tm_target (kw_terms k) \<noteq> 0 \<and> tm_target (kw_terms k) \<le> ip_count p1")
      case True
      then have pay: "pay_reward env k d p1 w2 = Inr w'"
        using run unfolding eq by (auto simp: bind_res_Inr_iff)
      have "reached ?c (ip_count p1) w2"
      proof -
        have "known w2 k" using k known_same [OF same_terms_trans [OF st0 st]] by simp
        with True show ?thesis by (auto simp: reached_def known_def)
      qed
      moreover have "0 \<le> int_or (cc_reward_minor (cp_config (kw_budget k))) 0"
        using known_rewards [OF ok(1) k] by (simp add: rewards_ok_def)
      ultimately have "incentive_step w2 w'"
        using True ok2 prog pay_reward_ok [OF _ _ _ _ _ pay] by (simp add: incentive_step_def)
      with ok0 ok2 here show ?thesis by (meson incentive_step_trans incentive_step_def subsetD)
    next
      case 2: False
      then have "w' = w2" using run unfolding eq by (simp split: if_splits)
      with ok0 ok2 here show ?thesis by (auto intro: incentive_step_trans)
    qed
  qed
qed

lemma count_for_ok:
  assumes "money_ok 0 0 w" "incentive_ok w" "list_all (known w) ks"
  shows "incentive_step w (snd (count_for env d trip ks w))
    \<and> (fst (count_for env d trip ks w) = None \<longrightarrow>
        (\<forall>k \<in> set ks. \<exists>x \<in> set (wd_counted (snd (count_for env d trip ks w))). fst x = kw_id k \<and> snd (snd x) = trip))"
  using assms
proof (induction ks arbitrary: w)
  case Nil
  then show ?case by (simp add: incentive_step_refl)
next
  case (Cons k ks)
  show ?case
  proof (cases "count_incentive_trip env k d trip w")
    case (Inl e)
    with Cons.prems show ?thesis by (simp add: incentive_step_refl)
  next
    case (Inr r)
    obtain b w1 where r: "r = (b, w1)" by (cases r)
    have one: "incentive_step w w1" "\<exists>x \<in> set (wd_counted w1). fst x = kw_id k \<and> snd (snd x) = trip"
      using count_incentive_trip_ok [OF Cons.prems(1,2) _ Inr [unfolded r]] Cons.prems(3) by auto
    then have "list_all (known w1) ks"
      using Cons.prems(3) known_same [of w w1] by (auto simp: incentive_step_def list_all_iff)
    then have rest: "incentive_step w1 (snd (count_for env d trip ks w1))"
      "fst (count_for env d trip ks w1) = None \<longrightarrow>
        (\<forall>k \<in> set ks. \<exists>x \<in> set (wd_counted (snd (count_for env d trip ks w1))). fst x = kw_id k \<and> snd (snd x) = trip)"
      using Cons.IH [of w1] one(1) by (auto simp: incentive_step_def)
    then show ?thesis
      using one incentive_step_trans [OF one(1) rest(1)] by (auto simp: Inr r incentive_step_def)
  qed
qed

lemma campaigns_known: "list_all (known w) (filter P (wd_campaigns w))"
  by (auto simp: list_all_iff known_def)

lemma incentive_completed_ok:
  "money_ok 0 0 w \<Longrightarrow> incentive_ok w \<Longrightarrow> incentive_step w (snd (incentive_trip_completed env f w))"
  using count_for_ok [OF _ _ campaigns_known]
  by (auto simp: incentive_trip_completed_def incentive_campaigns_def incentive_step_refl split: option.splits)

section \<open>Referrals\<close>

definition referral_paid :: "reward_world \<Rightarrow> int \<Rightarrow> (bool \<times> int \<times> int \<times> int) set" where
  "referral_paid w i = {(b, c, u, a). \<exists>e \<in> set (wd_entries w). re_key e = EntryReferral i b \<and> re_campaign e = c
     \<and> re_user e = u \<and> re_amount e = a}"

definition due :: "referral \<Rightarrow> (bool \<times> int \<times> int \<times> int) set" where
  "due r = (if 0 < rf_referrer_reward r then {(True, rf_campaign r, rf_referrer r, rf_referrer_reward r)} else {})
     \<union> (if 0 < rf_referee_reward r then {(False, rf_campaign r, rf_referee r, rf_referee_reward r)} else {})"

definition required_by :: "int \<Rightarrow> int \<Rightarrow> reward_world \<Rightarrow> bool" where
  "required_by c n w = (\<exists>k \<in> set (wd_campaigns w). kw_id k = c \<and> tm_required (kw_terms k) \<le> n)"

definition referral_trips :: "int \<Rightarrow> reward_world \<Rightarrow> int" where
  "referral_trips i w = int (length (filter (\<lambda>x. fst x = i) (wd_referral_trips w)))"

definition referral_row_ok :: "reward_world \<Rightarrow> referral \<Rightarrow> bool" where
  "referral_row_ok w r = (rf_referrer r \<noteq> rf_referee r \<and> rf_trips r = referral_trips (rf_id r) w
     \<and> referral_paid w (rf_id r) = (if rf_status r = REWARDED then due r else {})
     \<and> (rf_status r \<noteq> REWARDED \<longrightarrow> rf_referrer_reward r = 0 \<and> rf_referee_reward r = 0)
     \<and> (rf_status r \<noteq> ATTACHED \<longrightarrow> required_by (rf_campaign r) (rf_trips r) w))"

definition referral_ok :: "reward_world \<Rightarrow> bool" where
  "referral_ok w = (distinct (map rf_id (wd_referrals w)) \<and> distinct (map rf_referee (wd_referrals w))
     \<and> distinct (wd_referral_trips w) \<and> list_all (referral_row_ok w) (wd_referrals w)
     \<and> (\<forall>i. i \<notin> rf_id ` set (wd_referrals w) \<longrightarrow> referral_paid w i = {} \<and> referral_trips i w = 0))"

definition incentive_part :: "reward_world \<Rightarrow> (int \<times> int \<rightharpoonup> incentive_progress) \<times> (int \<times> int \<times> int) list \<times> (int \<times> int \<times> int) set" where
  "incentive_part w = (wd_progress w, wd_counted w, incentive_paid w)"

lemma required_same: "same_terms w w' \<Longrightarrow> required_by c n w' = required_by c n w"
proof -
  have form: "required_by c n v = (\<exists>x \<in> (\<lambda>k. (kw_id k, kw_terms k, cp_config (kw_budget k))) ` set (wd_campaigns v). fst x = c \<and> tm_required (fst (snd x)) \<le> n)" for v
    by (auto simp: required_by_def)
  assume "same_terms w w'"
  then show ?thesis unfolding form by (simp only: terms_same)
qed

text \<open>The two halves of the tables do not touch each other.\<close>

lemma incentive_ok_frame:
  assumes "incentive_part w' = incentive_part w" "same_terms w w'"
  shows "incentive_ok w' = incentive_ok w"
proof -
  have p: "wd_progress w' = wd_progress w" and c: "wd_counted w' = wd_counted w" and i: "incentive_paid w' = incentive_paid w"
    using assms(1) unfolding incentive_part_def by blast+
  have "progress_ok w' c d = progress_ok w c d" for c d
    by (rule progress_ok_frame [OF _ _ _ assms(2)]) (simp_all only: p c i counted_trips_def)
  then show ?thesis unfolding incentive_ok_def c by blast
qed

lemma referral_paid_part: "entry_form e \<Longrightarrow> re_key e = EntryReferral i b \<Longrightarrow> re_kind e = REFERRAL_REWARD"
  by (simp add: entry_form_def)

lemma referral_ok_frame:
  assumes part: "referral_part w' = referral_part w" and st: "same_terms w w'"
    and m: "money_ok c x w" "money_ok c' x' w'"
  shows "referral_ok w' = referral_ok w"
proof -
  have e: "{e \<in> set (wd_entries w'). re_kind e = REFERRAL_REWARD} = {e \<in> set (wd_entries w). re_kind e = REFERRAL_REWARD}"
    using part by (simp add: referral_part_def)
  have form: "referral_paid v i = {(b, c, u, a). \<exists>e \<in> {e \<in> set (wd_entries v). re_kind e = REFERRAL_REWARD}. re_key e = EntryReferral i b
      \<and> re_campaign e = c \<and> re_user e = u \<and> re_amount e = a}"
    if "money_ok d y v" for d y v i
  proof -
    have "re_kind e = REFERRAL_REWARD" if "e \<in> set (wd_entries v)" "re_key e = EntryReferral i b" for e b
      using that \<open>money_ok d y v\<close> referral_paid_part by (auto simp: money_ok_def list_all_iff)
    then show ?thesis unfolding referral_paid_def by blast
  qed
  have "referral_paid w' i = referral_paid w i" for i
    unfolding form [OF m(1)] form [OF m(2)] e ..
  moreover have "referral_trips i w' = referral_trips i w" for i using part by (simp add: referral_trips_def referral_part_def)
  ultimately have "referral_row_ok w' = referral_row_ok w"
    using required_same [OF st] by (simp add: referral_row_ok_def fun_eq_iff)
  with part \<open>\<And>i. referral_paid w' i = referral_paid w i\<close> \<open>\<And>i. referral_trips i w' = referral_trips i w\<close>
  show ?thesis by (simp add: referral_ok_def referral_part_def)
qed

definition referral_step :: "reward_world \<Rightarrow> reward_world \<Rightarrow> bool" where
  "referral_step w w' = (money_ok 0 0 w' \<and> referral_ok w' \<and> same_terms w w' \<and> incentive_part w' = incentive_part w)"

text \<open>Everything but the row \<open>i\<close>.\<close>

definition others_ok :: "int \<Rightarrow> reward_world \<Rightarrow> bool" where
  "others_ok i w = (distinct (map rf_id (wd_referrals w)) \<and> distinct (map rf_referee (wd_referrals w)) \<and> distinct (wd_referral_trips w)
     \<and> (\<forall>q \<in> set (wd_referrals w). rf_id q \<noteq> i \<longrightarrow> referral_row_ok w q)
     \<and> (\<forall>j. j \<notin> rf_id ` set (wd_referrals w) \<longrightarrow> referral_paid w j = {} \<and> referral_trips j w = 0))"

lemma others_ok_of: "referral_ok w \<Longrightarrow> others_ok i w"
  by (simp add: referral_ok_def others_ok_def list_all_iff)

lemma others_ok_frame:
  assumes "others_ok i w" "wd_referrals w' = wd_referrals w" "distinct (wd_referral_trips w')" "i \<in> rf_id ` set (wd_referrals w)"
    "\<And>j. j \<noteq> i \<Longrightarrow> referral_trips j w' = referral_trips j w" "\<And>j. j \<noteq> i \<Longrightarrow> referral_paid w' j = referral_paid w j" "same_terms w w'"
  shows "others_ok i w'"
proof -
  have "referral_row_ok w' q = referral_row_ok w q" if "rf_id q \<noteq> i" for q
    using assms(5,6) [OF that] required_same [OF assms(7)] by (simp add: referral_row_ok_def)
  moreover have "referral_paid w' j = {} \<and> referral_trips j w' = 0" if "j \<notin> rf_id ` set (wd_referrals w)" for j
  proof -
    have "j \<noteq> i" using that assms(4) by auto
    then show ?thesis using that assms(1) assms(5,6) [of j] by (simp add: others_ok_def)
  qed
  ultimately show ?thesis using assms(1-3) by (simp add: others_ok_def)
qed

lemma saved_same:
  "referral_paid (save_referral r w) = referral_paid w" "referral_trips j (save_referral r w) = referral_trips j w"
  "required_by c n (save_referral r w) = required_by c n w" "referral_row_ok (save_referral r w) = referral_row_ok w"
  by (simp_all add: save_referral_def referral_row_ok_def referral_paid_def referral_trips_def required_by_def fun_eq_iff)

lemma saved_referral:
  assumes ok: "others_ok (rf_id r) w" and q: "q \<in> set (wd_referrals w)" "rf_id q = rf_id r" "rf_referee q = rf_referee r"
    and r: "referral_row_ok w r"
  shows "referral_ok (save_referral r w)" and "set (wd_referrals (save_referral r w)) = insert r {p \<in> set (wd_referrals w). rf_id p \<noteq> rf_id r}"
proof -
  have inj: "inj_on rf_id (set (wd_referrals w))" using ok by (simp add: others_ok_def distinct_map)
  have one: "p = q" if "p \<in> set (wd_referrals w)" "rf_id p = rf_id r" for p
    using inj_onD [OF inj, of p q] that q by simp
  have ids: "map rf_id (wd_referrals (save_referral r w)) = map rf_id (wd_referrals w)" by (simp add: save_referral_def)
  have who: "map rf_referee (wd_referrals (save_referral r w)) = map rf_referee (wd_referrals w)"
  proof -
    have "rf_referee (if rf_id p = rf_id r then r else p) = rf_referee p" if "p \<in> set (wd_referrals w)" for p
      using one [OF that] q(3) by (cases "rf_id p = rf_id r") simp_all
    then show ?thesis by (simp add: save_referral_def)
  qed
  show rows: "set (wd_referrals (save_referral r w)) = insert r {p \<in> set (wd_referrals w). rf_id p \<noteq> rf_id r}"
    using q by (auto simp: save_referral_def)
  have "rf_id ` set (wd_referrals (save_referral r w)) = rf_id ` set (wd_referrals w)" using ids by (metis list.set_map)
  then show "referral_ok (save_referral r w)"
    using ok r by (simp add: referral_ok_def ids who saved_same list_all_iff rows others_ok_def) (simp add: save_referral_def)
qed

lemma save_referral_money: "money_ok c x (save_referral r w) = money_ok c x w"
  by (rule money_ok_frame) (simp_all add: save_referral_def)

lemma money_ok_riders:
  assumes "money_ok c x w" "rt_key ` set (rb_rows (wd_riders w)) \<subseteq> rt_key ` set (rb_rows rb)"
  shows "money_ok c x (w\<lparr>wd_riders := rb\<rparr>)"
proof -
  have "booked w e \<Longrightarrow> booked (w\<lparr>wd_riders := rb\<rparr>) e" for e
    using assms(2) by (auto simp: booked_def split: option.splits reward_txn.splits)
  moreover have "campaign_ok c x (w\<lparr>wd_riders := rb\<rparr>) = campaign_ok c x w" by (simp add: campaign_ok_def paid_def fun_eq_iff)
  ultimately show ?thesis using assms(1) by (auto simp: money_ok_def list_all_iff)
qed

lemma promo_credit_rows:
  assumes "issue_promo_credit rc cap u amount campaign key s = Inr (r, s')"
  shows "rt_key ` set (rb_rows s) \<subseteq> rt_key ` set (rb_rows s') \<and> (cr_ok r \<longrightarrow> key \<in> rt_key ` set (rb_rows s'))"
  using typed_credit_rows(1) [OF assms [unfolded issue_promo_credit_def]] by (auto simp: rows_grow_def)

text \<open>One credit of a referral: the books, the wallet, one entry.\<close>

lemma credit_reward_ok:
  assumes ok: "money_ok (kw_id k) x w" and run: "credit_reward env r k u a b w = Inr (Some w')"
  obtains e bks rbs where "money_ok (kw_id k) (x - a) w'" "w' = w\<lparr>wd_books := bks, wd_riders := rbs, wd_entries := e # wd_entries w\<rparr>"
    "re_key e = EntryReferral (rf_id r) b" "re_campaign e = kw_id k" "re_user e = u" "re_amount e = a" "0 < a"
proof -
  define e where "e = (\<lambda>txn. \<lparr> re_kind = REFERRAL_REWARD, re_campaign = kw_id k, re_user = u, re_amount = a,
      re_currency = tm_currency (kw_terms k), re_txn = Some txn, re_key = EntryReferral (rf_id r) b \<rparr>)"
  have form: "entry_form (e txn)" for txn by (simp add: e_def entry_form_def)
  have fields: "re_key (e txn) = EntryReferral (rf_id r) b" "re_campaign (e txn) = kw_id k" "re_user (e txn) = u" "re_amount (e txn) = a"
    "re_txn (e txn) = Some txn" for txn
    by (simp_all add: e_def)
  show ?thesis
  proof (cases "person_role env u = ''rider''")
    case True
    let ?key = "CallerKey (reward_key_text (rf_id r) b)"
    obtain d result rb where i: "issue_promo_credit (ev_rows env) (ev_cap env) u (VDec (Finite d)) (''referral:'' @ show_nat (nat (kw_id k))) ?key
        (wd_riders w) = Inr (result, rb)" "cr_ok result" and a: "add_entry (e (RiderTxn ?key)) (w\<lparr>wd_riders := rb\<rparr>) = Some w'"
    proof -
      obtain d where d: "from_minor (VInt a) (Some (tm_currency (kw_terms k))) = Inr (Some d)"
        using run True by (cases "from_minor (VInt a) (Some (tm_currency (kw_terms k)))")
          (auto simp: credit_reward_def Let_def split: option.splits)
      obtain p where p: "issue_promo_credit (ev_rows env) (ev_cap env) u (VDec (Finite d)) (''referral:'' @ show_nat (nat (kw_id k))) ?key
          (wd_riders w) = Inr p"
        using run True d by (cases "issue_promo_credit (ev_rows env) (ev_cap env) u (VDec (Finite d)) (''referral:'' @ show_nat (nat (kw_id k))) ?key
          (wd_riders w)") (simp_all add: credit_reward_def Let_def)
      obtain result rb where pair: "p = (result, rb)" by (cases p)
      have "cr_ok result" "need (add_entry (e (RiderTxn ?key)) (w\<lparr>wd_riders := rb\<rparr>)) = Inr w'"
        using run True d p pair by (auto simp: credit_reward_def Let_def e_def bind_res_Inr_iff split: if_splits)
      then show ?thesis using that p pair by (auto simp: need_def split: option.splits)
    qed
    have m: "money_ok (kw_id k) x (w\<lparr>wd_riders := rb\<rparr>)" using promo_credit_rows [OF i(1)] by (intro money_ok_riders [OF ok]) simp
    have "booked (w\<lparr>wd_riders := rb\<rparr>) (e (RiderTxn ?key))" using promo_credit_rows [OF i(1)] i(2) by (simp add: booked_def fields)
    note f = add_entry_ok [OF m a fields(2) this form]
    show ?thesis using f fields
      by (intro that [where e = "e (RiderTxn ?key)" and bks = "wd_books w" and rbs = rb]) auto
  next
    case False
    let ?key = "KeyReferral (rf_id r) b"
    obtain w1 where d: "driver_credit env u (tm_currency (kw_terms k)) a ReferralReward (RefReferral (rf_id r)) ?key w = Some w1"
      and a: "add_entry (e (DriverTxn ?key)) w1 = Some w'"
      using run False unfolding credit_reward_def Let_def e_def
      by (auto simp: need_def bind_res_Inr_iff split: option.splits)
    note s = driver_credit_ok [OF ok d]
    have "booked w1 (e (DriverTxn ?key))" using s(3) by (simp add: booked_def fields)
    note f = add_entry_ok [OF s(1) a fields(2) this form]
    obtain bks where "w1 = w\<lparr>wd_books := bks\<rparr>" using s(2) by blast
    then show ?thesis using f fields
      by (intro that [where e = "e (DriverTxn ?key)" and bks = bks and rbs = "wd_riders w"]) auto
  qed
qed

text \<open>What a payment changes: spend and state of campaigns, books, wallets, entries of this referral.\<close>

definition pays_for :: "int \<Rightarrow> reward_world \<Rightarrow> reward_world \<Rightarrow> bool" where
  "pays_for i w w' = (\<exists>cs bks rbs es. w' = w\<lparr>wd_campaigns := cs, wd_books := bks, wd_riders := rbs, wd_entries := es @ wd_entries w\<rparr>
     \<and> (\<forall>e \<in> set es. \<exists>b. re_key e = EntryReferral i b))"

lemma pays_for_refl: "pays_for i w w"
  unfolding pays_for_def by (rule exI [of _ "wd_campaigns w"], rule exI [of _ "wd_books w"], rule exI [of _ "wd_riders w"], rule exI [of _ "[]"]) simp

lemma pays_for_trans: "pays_for i a b \<Longrightarrow> pays_for i b c \<Longrightarrow> pays_for i a c"
proof -
  assume "pays_for i a b" "pays_for i b c"
  then obtain cs bks rbs es cs' bks' rbs' es' where
    "b = a\<lparr>wd_campaigns := cs, wd_books := bks, wd_riders := rbs, wd_entries := es @ wd_entries a\<rparr>"
    "c = b\<lparr>wd_campaigns := cs', wd_books := bks', wd_riders := rbs', wd_entries := es' @ wd_entries b\<rparr>"
    "\<forall>e \<in> set es. \<exists>b. re_key e = EntryReferral i b" "\<forall>e \<in> set es'. \<exists>b. re_key e = EntryReferral i b"
    unfolding pays_for_def by blast
  then have "c = a\<lparr>wd_campaigns := cs', wd_books := bks', wd_riders := rbs', wd_entries := (es' @ es) @ wd_entries a\<rparr>"
    "\<forall>e \<in> set (es' @ es). \<exists>b. re_key e = EntryReferral i b" by auto
  then show ?thesis unfolding pays_for_def by blast
qed

lemma pays_for_facts:
  assumes "pays_for i w w'"
  shows "wd_referrals w' = wd_referrals w" "wd_referral_trips w' = wd_referral_trips w" "incentive_part w' = incentive_part w"
    "j \<noteq> i \<Longrightarrow> referral_paid w' j = referral_paid w j" "wd_flags w' = wd_flags w" "wd_codes w' = wd_codes w"
proof -
  obtain cs bks rbs es where w': "w' = w\<lparr>wd_campaigns := cs, wd_books := bks, wd_riders := rbs, wd_entries := es @ wd_entries w\<rparr>"
    and es: "\<forall>e \<in> set es. \<exists>b. re_key e = EntryReferral i b"
    using assms unfolding pays_for_def by blast
  show "wd_referrals w' = wd_referrals w" "wd_referral_trips w' = wd_referral_trips w" "wd_flags w' = wd_flags w" "wd_codes w' = wd_codes w"
    by (simp_all add: w')
  have "incentive_paid w' = incentive_paid w" using es by (force simp: incentive_paid_def w')
  then show "incentive_part w' = incentive_part w" by (simp add: incentive_part_def w')
  show "referral_paid w' j = referral_paid w j" if "j \<noteq> i" using es that by (force simp: referral_paid_def w')
qed

lemma same_terms_campaigns: "wd_campaigns w' = wd_campaigns w \<Longrightarrow> same_terms w w'"
  by (simp add: same_terms_def)

lemma spend_pays: "(\<exists>cs. w' = w\<lparr>wd_campaigns := cs\<rparr>) \<Longrightarrow> pays_for i w w'"
  unfolding pays_for_def by (erule exE, rule_tac x = cs in exI, rule exI [of _ "wd_books w"], rule exI [of _ "wd_riders w"], rule exI [of _ "[]"]) simp

lemma credit_step:
  assumes ok: "money_ok (kw_id k) x w" and a: "0 \<le> a"
    and run: "(if 0 < a then credit_reward env r k u a b w else Inr (Some w)) = Inr (Some w')"
  shows "money_ok (kw_id k) (x - a) w'" "pays_for (rf_id r) w w'" "same_terms w w'"
    "referral_paid w' (rf_id r) = referral_paid w (rf_id r) \<union> (if 0 < a then {(b, kw_id k, u, a)} else {})"
proof -
  have "money_ok (kw_id k) (x - a) w' \<and> pays_for (rf_id r) w w' \<and> same_terms w w'
    \<and> referral_paid w' (rf_id r) = referral_paid w (rf_id r) \<union> (if 0 < a then {(b, kw_id k, u, a)} else {})"
  proof (cases "0 < a")
    case True
    then have c: "credit_reward env r k u a b w = Inr (Some w')" using run by simp
    obtain e bks rbs where e: "money_ok (kw_id k) (x - a) w'" "w' = w\<lparr>wd_books := bks, wd_riders := rbs, wd_entries := e # wd_entries w\<rparr>"
      "re_key e = EntryReferral (rf_id r) b" "re_campaign e = kw_id k" "re_user e = u" "re_amount e = a"
      by (rule credit_reward_ok [OF ok c]) blast
    have "pays_for (rf_id r) w w'"
      unfolding pays_for_def
      by (rule exI [of _ "wd_campaigns w"], rule exI [of _ bks], rule exI [of _ rbs], rule exI [of _ "[e]"]) (use e in simp)
    moreover have "same_terms w w'" by (rule same_terms_campaigns) (simp add: e(2))
    moreover have "referral_paid w' (rf_id r) = referral_paid w (rf_id r) \<union> {(b, kw_id k, u, a)}"
      using e(3-6) by (auto simp: referral_paid_def e(2))
    ultimately show ?thesis using e(1) True by simp
  next
    case False
    then show ?thesis using run a ok by (simp add: pays_for_refl)
  qed
  then show "money_ok (kw_id k) (x - a) w'" "pays_for (rf_id r) w w'" "same_terms w w'"
    "referral_paid w' (rf_id r) = referral_paid w (rf_id r) \<union> (if 0 < a then {(b, kw_id k, u, a)} else {})" by simp_all
qed

lemma bind_option_Inr:
  "bind_res x (\<lambda>s. case s of None \<Rightarrow> Inr None | Some y \<Rightarrow> f y) = Inr (Some z) \<longleftrightarrow> (\<exists>y. x = Inr (Some y) \<and> f y = Inr (Some z))"
  by (auto simp: bind_res_Inr_iff split: option.splits)

lemma pay_both_ok:
  assumes ok: "money_ok 0 0 w" and ab: "0 \<le> a" "0 \<le> b" and run: "pay_both env r k a b w = Inr (Some w')"
  shows "money_ok 0 0 w'" "pays_for (rf_id r) w w'" "same_terms w w'"
    "referral_paid w' (rf_id r) = referral_paid w (rf_id r) \<union> (if 0 < a then {(True, kw_id k, rf_referrer r, a)} else {})
       \<union> (if 0 < b then {(False, kw_id k, rf_referee r, b)} else {})"
proof -
  obtain w1 w2 where s: "spend_campaign (kw_id k) (a + b) w = Inr (Some w1)"
    and c1: "(if 0 < a then credit_reward env r k (rf_referrer r) a True w1 else Inr (Some w1)) = Inr (Some w2)"
    and c2: "(if 0 < b then credit_reward env r k (rf_referee r) b False w2 else Inr (Some w2)) = Inr (Some w')"
    using run unfolding pay_both_def bind_option_Inr by blast
  note m1 = spend_campaign_ok [OF ok s] and m2 = credit_step [OF _ ab(1) c1] and m3 = credit_step [OF _ ab(2) c2]
  have x1: "money_ok (kw_id k) (a + b) w1" using m1(1) ab by simp
  have x2: "money_ok (kw_id k) b w2" using m2(1) [OF x1] by simp
  have "money_ok (kw_id k) 0 w'" using m3(1) [OF x2] by simp
  then show "money_ok 0 0 w'" by (simp only: money_ok_zero [of "kw_id k" w' 0])
  show "pays_for (rf_id r) w w'"
    using spend_pays m1(3) m2(2) [OF x1] m3(2) [OF x2] ab by (meson add_nonneg_nonneg pays_for_trans)
  show "same_terms w w'" using m1(2) m2(3) [OF x1] m3(3) [OF x2] ab by (meson add_nonneg_nonneg same_terms_trans)
  obtain cs where "w1 = w\<lparr>wd_campaigns := cs\<rparr>" using m1(3) ab by auto
  then have "referral_paid w1 (rf_id r) = referral_paid w (rf_id r)" by (simp add: referral_paid_def)
  then show "referral_paid w' (rf_id r) = referral_paid w (rf_id r) \<union> (if 0 < a then {(True, kw_id k, rf_referrer r, a)} else {})
       \<union> (if 0 < b then {(False, kw_id k, rf_referee r, b)} else {})"
    using m2(4) [OF x1] m3(4) [OF x2] by simp
qed

text \<open>The row of a referral that is due but was not paid: what an operation on it starts from.\<close>

definition unpaid_row :: "reward_world \<Rightarrow> referral \<Rightarrow> bool" where
  "unpaid_row w r = (rf_referrer r \<noteq> rf_referee r \<and> rf_trips r = referral_trips (rf_id r) w \<and> referral_paid w (rf_id r) = {}
     \<and> required_by (rf_campaign r) (rf_trips r) w \<and> rf_referrer_reward r = 0 \<and> rf_referee_reward r = 0
     \<and> (\<exists>q \<in> set (wd_referrals w). rf_id q = rf_id r \<and> rf_referee q = rf_referee r))"

lemma referral_step_refl: "money_ok 0 0 w \<Longrightarrow> referral_ok w \<Longrightarrow> referral_step w w"
  by (simp add: referral_step_def)

lemma referral_step_trans: "referral_step a b \<Longrightarrow> referral_step b c \<Longrightarrow> referral_step a c"
  by (auto simp: referral_step_def intro: same_terms_trans)

lemma saved_step:
  assumes "money_ok 0 0 w" "others_ok (rf_id r) w" "\<exists>p \<in> set (wd_referrals w). rf_id p = rf_id r \<and> rf_referee p = rf_referee r"
    "referral_row_ok w r"
  shows "referral_step w (save_referral r w)"
proof -
  obtain p where "p \<in> set (wd_referrals w)" "rf_id p = rf_id r" "rf_referee p = rf_referee r"
    using assms(3) by blast
  note s = saved_referral(1) [OF assms(2) this assms(4)]
  have "same_terms w (save_referral r w)" by (rule same_terms_campaigns) (simp add: save_referral_def)
  moreover have "incentive_part (save_referral r w) = incentive_part w"
    by (simp add: incentive_part_def incentive_paid_def save_referral_def)
  ultimately show ?thesis using s assms(1) by (simp add: referral_step_def save_referral_money)
qed

lemma pay_referral_ok:
  assumes ok: "money_ok 0 0 w" "others_ok (rf_id r) w" and r: "unpaid_row w r" and run: "pay_referral env r w = Inr w'"
  shows "referral_step w w'"
proof -
  obtain k where k: "find_campaign (rf_campaign r) w = Some k" using run by (auto simp: pay_referral_def split: option.splits)
  then have k': "k \<in> set (wd_campaigns w)" "kw_id k = rf_campaign r" using find_campaign_Some by blast+
  define a where "a = int_or (cc_referrer_minor (cp_config (kw_budget k))) 0"
  define b where "b = int_or (cc_referee_minor (cp_config (kw_budget k))) 0"
  have ab: "0 \<le> a" "0 \<le> b"
    using ok(1) k'(1) by (auto simp: money_ok_def list_all_iff campaign_ok_def rewards_ok_def a_def b_def)
  have eq: "pay_referral env r w = (if a + b \<le> 0 then Inr (save_referral (r\<lparr>rf_status := REWARDED, rf_rewarded_at := Some (ev_now env)\<rparr>) w)
      else bind_res (pay_both env r k a b w) (\<lambda>s. case s of
            None \<Rightarrow> Inr (save_referral (r\<lparr>rf_status := QUALIFIED\<rparr>) w)
          | Some w' \<Rightarrow> Inr (save_referral (r\<lparr>rf_status := REWARDED, rf_referrer_reward := a, rf_referee_reward := b,
              rf_rewarded_at := Some (ev_now env)\<rparr>) w')))"
    unfolding pay_referral_def k option.case Let_def a_def [symmetric] b_def [symmetric] ..
  have mem: "\<exists>p \<in> set (wd_referrals w). rf_id p = rf_id r \<and> rf_referee p = rf_referee r" using r by (simp add: unpaid_row_def)
  consider (free) "a + b \<le> 0" | (refused) "pay_both env r k a b w = Inr None" "w' = save_referral (r\<lparr>rf_status := QUALIFIED\<rparr>) w"
    | (paid) w1 where "pay_both env r k a b w = Inr (Some w1)"
        "w' = save_referral (r\<lparr>rf_status := REWARDED, rf_referrer_reward := a, rf_referee_reward := b, rf_rewarded_at := Some (ev_now env)\<rparr>) w1"
  proof (cases "a + b \<le> 0")
    case False
    obtain v where v: "pay_both env r k a b w = Inr v" "(case v of None \<Rightarrow> Inr (save_referral (r\<lparr>rf_status := QUALIFIED\<rparr>) w)
          | Some w' \<Rightarrow> Inr (save_referral (r\<lparr>rf_status := REWARDED, rf_referrer_reward := a, rf_referee_reward := b,
              rf_rewarded_at := Some (ev_now env)\<rparr>) w')) = (Inr w' :: reward_error + reward_world)"
      using run unfolding eq if_not_P [OF False] bind_res_Inr_iff by blast
    then show ?thesis using that(2,3) by (cases v) simp_all
  qed (rule that(1))
  then show ?thesis
  proof cases
    case free
    then have w': "w' = save_referral (r\<lparr>rf_status := REWARDED, rf_rewarded_at := Some (ev_now env)\<rparr>) w" using run unfolding eq by simp
    have "referral_row_ok w (r\<lparr>rf_status := REWARDED, rf_rewarded_at := Some (ev_now env)\<rparr>)"
      using r unfolding unpaid_row_def by (elim conjE) (simp add: referral_row_ok_def due_def)
    with saved_step [OF ok(1)] ok(2) mem show ?thesis unfolding w' by simp
  next
    case refused
    have "referral_row_ok w (r\<lparr>rf_status := QUALIFIED\<rparr>)" using r unfolding unpaid_row_def by (elim conjE) (simp add: referral_row_ok_def)
    with saved_step [OF ok(1)] ok(2) mem refused(2) show ?thesis by simp
  next
    case (paid w1)
    note p = pay_both_ok [OF ok(1) ab paid(1)]
    let ?r = "r\<lparr>rf_status := REWARDED, rf_referrer_reward := a, rf_referee_reward := b, rf_rewarded_at := Some (ev_now env)\<rparr>"
    have here: "rf_id r \<in> rf_id ` set (wd_referrals w)" using mem by (metis imageI)
    have trips: "referral_trips j w1 = referral_trips j w" for j using pays_for_facts(2) [OF p(2)] by (simp add: referral_trips_def)
    have "distinct (wd_referral_trips w1)" using ok(2) pays_for_facts(2) [OF p(2)] by (simp add: others_ok_def)
    then have o1: "others_ok (rf_id r) w1"
      using others_ok_frame [OF ok(2) pays_for_facts(1) [OF p(2)] _ here trips _ p(3)] pays_for_facts(4) [OF p(2)] by blast
    have pd: "referral_paid w1 (rf_id r) = due ?r"
      using p(4) r k'(2) by (auto simp: due_def unpaid_row_def)
    have "referral_row_ok w1 ?r"
      using r pd trips required_same [OF p(3)] unfolding unpaid_row_def by (elim conjE) (simp add: referral_row_ok_def)
    then have "referral_step w1 (save_referral ?r w1)"
      using saved_step [OF p(1), of ?r] o1 mem pays_for_facts(1) [OF p(2)] by simp
    then show ?thesis
      using p(3) pays_for_facts(3) [OF p(2)] same_terms_trans unfolding paid(2) referral_step_def by metis
  qed
qed

lemma block_ok:
  assumes ok: "money_ok 0 0 w" "others_ok (rf_id r) w" and r: "unpaid_row w r"
  shows "referral_step w (block env r signals w)"
proof -
  let ?r = "r\<lparr>rf_status := BLOCKED, rf_signals := signals, rf_blocked_at := Some (ev_now env)\<rparr>"
  have "referral_row_ok w ?r" using r unfolding unpaid_row_def by (elim conjE) (simp add: referral_row_ok_def)
  then have s: "referral_step w (save_referral ?r w)" using saved_step [OF ok(1), of ?r] ok(2) r by (simp add: unpaid_row_def)
  have f: "wd_campaigns (raise_fraud_flag r signals v) = wd_campaigns v" "wd_entries (raise_fraud_flag r signals v) = wd_entries v"
    "wd_books (raise_fraud_flag r signals v) = wd_books v" "wd_riders (raise_fraud_flag r signals v) = wd_riders v"
    "wd_referrals (raise_fraud_flag r signals v) = wd_referrals v" "wd_referral_trips (raise_fraud_flag r signals v) = wd_referral_trips v"
    "wd_progress (raise_fraud_flag r signals v) = wd_progress v" "wd_counted (raise_fraud_flag r signals v) = wd_counted v" for v
    by (simp_all add: raise_fraud_flag_def)
  have "referral_row_ok (raise_fraud_flag r signals v) = referral_row_ok v" for v
    by (simp add: referral_row_ok_def referral_paid_def referral_trips_def required_by_def fun_eq_iff f)
  then have "referral_ok (raise_fraud_flag r signals v) = referral_ok v" for v
    by (simp add: referral_ok_def referral_paid_def referral_trips_def f)
  with s money_ok_frame [OF f(1-4)] show ?thesis
    by (simp add: block_def referral_step_def same_terms_def incentive_part_def incentive_paid_def f)
qed

lemma qualify_ok:
  assumes ok: "money_ok 0 0 w" "others_ok (rf_id r) w" and r: "unpaid_row w r" and run: "qualify env r w = Inr w'"
  shows "referral_step w w'"
proof -
  have q: "unpaid_row w (r\<lparr>rf_status := QUALIFIED\<rparr>)" using r unfolding unpaid_row_def by (elim conjE) simp
  obtain signals where "w' = block env (r\<lparr>rf_status := QUALIFIED\<rparr>) signals w \<or> pay_referral env (r\<lparr>rf_status := QUALIFIED\<rparr>) w = Inr w'"
    using run by (auto simp: qualify_def Let_def split: option.splits if_splits)
  then show ?thesis
    using block_ok [OF ok(1) _ q] pay_referral_ok [OF ok(1) _ q] ok(2) by auto
qed

lemma found_referral: "find_referral i w = Some r \<Longrightarrow> r \<in> set (wd_referrals w) \<and> rf_id r = i"
  by (auto simp: find_referral_def find_Some_iff)

lemma count_referral_trip_ok:
  assumes ok: "money_ok 0 0 w" "referral_ok w" and run: "count_referral_trip env i trip w = Inr w'"
  shows "referral_step w w'"
proof -
  obtain r where r: "find_referral i w = Some r" using run by (auto simp: count_referral_trip_def split: option.splits)
  then have mem: "r \<in> set (wd_referrals w)" "rf_id r = i" using found_referral by blast+
  show ?thesis
  proof (cases "rf_status r \<noteq> ATTACHED \<or> (i, trip) \<in> set (wd_referral_trips w)")
    case True
    then have "w' = w" using run by (auto simp: count_referral_trip_def r)
    with ok show ?thesis by (simp add: referral_step_refl)
  next
    case False
    define w1 where "w1 = w\<lparr>wd_referral_trips := (i, trip) # wd_referral_trips w\<rparr>"
    define r1 where "r1 = r\<lparr>rf_trips := referral_trips i w1\<rparr>"
    define w2 where "w2 = save_referral r1 w1"
    obtain k where k: "find_campaign (rf_campaign r) w = Some k"
      and w': "(if tm_required (kw_terms k) \<noteq> 0 \<and> tm_required (kw_terms k) \<le> rf_trips r1 then qualify env r1 w2 else Inr w2) = Inr w'"
    proof -
      have "count_referral_trip env i trip w = (case find_campaign (rf_campaign r) w of None \<Rightarrow> Inl RewardMissing
          | Some k \<Rightarrow> if tm_required (kw_terms k) \<noteq> 0 \<and> tm_required (kw_terms k) \<le> rf_trips r1 then qualify env r1 w2 else Inr w2)"
        using False by (cases "find_campaign (rf_campaign r) w")
          (simp_all add: count_referral_trip_def r Let_def w1_def r1_def w2_def referral_trips_def)
      with run that show ?thesis by (cases "find_campaign (rf_campaign r) w") simp_all
    qed
    have row: "referral_row_ok w r" using ok(2) mem by (simp add: referral_ok_def list_all_iff)
    have st: "same_terms w w1" by (simp add: same_terms_def w1_def)
    have trips: "j \<noteq> i \<Longrightarrow> referral_trips j w1 = referral_trips j w" for j by (simp add: referral_trips_def w1_def)
    have paid1: "referral_paid w1 j = referral_paid w j" for j by (simp add: referral_paid_def w1_def)
    have dist: "distinct (wd_referral_trips w1)" using ok(2) False by (simp add: referral_ok_def w1_def)
    have o1: "others_ok i w1"
      proof (rule others_ok_frame [OF others_ok_of [OF ok(2)]])
      show "i \<in> rf_id ` set (wd_referrals w)" using mem by blast
    qed (use trips paid1 st dist in \<open>simp_all add: w1_def\<close>)
    have m1: "money_ok 0 0 w1" using ok(1) money_ok_frame [of w1 w 0 0] by (simp add: w1_def)
    have row1: "referral_row_ok w1 r1" "rf_status r1 = ATTACHED"
      using row False mem(2) by (simp_all add: referral_row_ok_def r1_def paid1)
    have s2: "referral_step w1 w2"
      unfolding w2_def using saved_step [OF m1 _ _ row1(1)] o1 mem by (auto simp: r1_def w1_def)
    have "referral_step w w2"
      using s2 st by (auto simp: referral_step_def w1_def incentive_part_def incentive_paid_def intro: same_terms_trans)
    moreover have "referral_step w2 w'"
    proof (cases "tm_required (kw_terms k) \<noteq> 0 \<and> tm_required (kw_terms k) \<le> rf_trips r1")
      case True
      then have q: "qualify env r1 w2 = Inr w'" using w' by simp
      have kk: "k \<in> set (wd_campaigns w2)" "kw_id k = rf_campaign r1"
        using find_campaign_Some [OF k] by (simp_all add: w2_def w1_def save_referral_def r1_def)
      have "referral_row_ok w2 r1" using row1(1) by (simp add: w2_def saved_same)
      moreover have "r1 \<in> set (wd_referrals w2)" using mem by (force simp: w2_def w1_def save_referral_def r1_def)
      ultimately have "unpaid_row w2 r1"
        using True kk row1(2) by (auto simp: unpaid_row_def referral_row_ok_def required_by_def)
      moreover have "others_ok (rf_id r1) w2" using s2 by (simp add: referral_step_def others_ok_of)
      ultimately show ?thesis using qualify_ok [OF _ _ _ q] s2 by (simp add: referral_step_def)
    next
      case False
      then have "w' = w2" using w' by (simp split: if_splits)
      then show ?thesis using s2 by (simp add: referral_step_def)
    qed
    ultimately show ?thesis by (rule referral_step_trans)
  qed
qed

lemma count_referral_of_ok:
  "money_ok 0 0 w \<Longrightarrow> referral_ok w \<Longrightarrow> referral_step w (snd (count_referral_of env u trip w))"
  using count_referral_trip_ok
  by (auto simp: count_referral_of_def referral_step_refl split: option.splits sum.splits)

lemma count_referrals_ok:
  "money_ok 0 0 w \<Longrightarrow> referral_ok w \<Longrightarrow> referral_step w (snd (count_referrals env us trip w))"
proof (induction us arbitrary: w)
  case (Cons u us)
  note one = count_referral_of_ok [OF Cons.prems, of env u trip]
  then have "referral_step (snd (count_referral_of env u trip w)) (snd (count_referrals env us trip (snd (count_referral_of env u trip w))))"
    by (intro Cons.IH) (simp_all add: referral_step_def)
  with one show ?case by (auto split: prod.splits option.splits intro: referral_step_trans)
qed (simp add: referral_step_refl)

lemma referral_completed_ok:
  "money_ok 0 0 w \<Longrightarrow> referral_ok w \<Longrightarrow> referral_step w (snd (referral_trip_completed env f w))"
  by (simp add: referral_trip_completed_def referral_step_refl count_referrals_ok del: count_referrals.simps)

lemma retry_each_ok:
  "money_ok 0 0 w \<Longrightarrow> referral_ok w \<Longrightarrow> referral_step w (snd (retry_each env rs w))"
proof (induction rs arbitrary: w)
  case (Cons r rs)
  show ?case
  proof (cases "\<exists>q w1. find_referral (rf_id r) w = Some q \<and> rf_status q = QUALIFIED \<and> pay_referral env q w = Inr w1")
    case True
    then obtain q w1 where q: "find_referral (rf_id r) w = Some q" "rf_status q = QUALIFIED" "pay_referral env q w = Inr w1" by blast
    have "referral_row_ok w q" using Cons.prems(2) found_referral [OF q(1)] by (simp add: referral_ok_def list_all_iff)
    then have "unpaid_row w q" using q(2) found_referral [OF q(1)] by (auto simp: unpaid_row_def referral_row_ok_def)
    then have s: "referral_step w w1" using pay_referral_ok [OF Cons.prems(1) others_ok_of [OF Cons.prems(2)] _ q(3)] by simp
    then have "referral_step w1 (snd (retry_each env rs w1))" by (intro Cons.IH) (simp_all add: referral_step_def)
    with s show ?thesis by (auto simp: q intro: referral_step_trans)
  next
    case False
    then show ?thesis using Cons by (auto simp: referral_step_refl split: option.splits sum.splits)
  qed
qed (simp add: referral_step_refl)

end
