(* ===== verification/RewardHistory.thy ===== *)
theory RewardHistory
  imports RewardLaws
begin

text \<open>
  Every history of the rewards of campaigns: trips that complete (the task may deliver one again), codes that are
  attached, the sweep, campaigns that are launched, paused, re-budgeted or spent on discounts, rows other parts of
  the system post on a driver's ledger, and movements of the riders' wallets.
\<close>

section \<open>The machine\<close>

datatype 'j reward_event =
    TripCompleted reward_env "'j finished_trip"
  | CodeUsed reward_env int string string
  | SweepRetries reward_env nat
  | CampaignCreated campaign_row
  | CampaignState int campaign_state
  | BudgetRaised int int
  | PromoSpends int campaign
  | CodeIssued int string
  | DriverPosting ledger_row
  | RiderMoves rider_event

definition edit_campaign :: "int \<Rightarrow> (campaign \<Rightarrow> campaign) \<Rightarrow> reward_world \<Rightarrow> reward_world" where
  "edit_campaign i g w = w\<lparr>wd_campaigns := map (\<lambda>k. if kw_id k = i then k\<lparr>kw_budget := g (kw_budget k)\<rparr> else k) (wd_campaigns w)\<rparr>"

definition raises :: "int \<Rightarrow> campaign_row \<Rightarrow> bool" where
  "raises b k = (case cp_budget (kw_budget k) of None \<Rightarrow> False | Some old \<Rightarrow> old < b)"

text \<open>An exception keeps what its own transactions had committed. A campaign enters with a new id, nothing
  spent and terms that were cleaned; the row of a rider promo is moved by the discounts.\<close>

fun reward_step :: "reward_world \<Rightarrow> 'j reward_event \<Rightarrow> unit + reward_world" where
  "reward_step w (TripCompleted env f) = Inr (snd (on_trip_completed env f w))"
| "reward_step w (CodeUsed env u c device) = (case attach env u c device w of Inl _ \<Rightarrow> Inl () | Inr w' \<Rightarrow> Inr w')"
| "reward_step w (SweepRetries env limit) = Inr (snd (retry_qualified env limit w))"
| "reward_step w (CampaignCreated k) =
     (if kw_id k \<in> kw_id ` set (wd_campaigns w) \<or> kw_id k \<in> re_campaign ` set (wd_entries w)
         \<or> cp_committed (kw_budget k) \<noteq> 0 \<or> cp_spent (kw_budget k) \<noteq> 0 \<or> \<not> rewards_ok (cp_config (kw_budget k))
         \<or> (case cp_budget (kw_budget k) of None \<Rightarrow> False | Some b \<Rightarrow> b < 0)
      then Inl () else Inr (w\<lparr>wd_campaigns := k # wd_campaigns w\<rparr>))"
| "reward_step w (CampaignState i st) = Inr (edit_campaign i (\<lambda>c. c\<lparr>cp_state := st\<rparr>) w)"
| "reward_step w (BudgetRaised i b) = (case find_campaign i w of
      None \<Rightarrow> Inl ()
    | Some k \<Rightarrow> if raises b k then Inr (edit_campaign i (\<lambda>c. c\<lparr>cp_budget := Some b\<rparr>) w) else Inl ())"
| "reward_step w (PromoSpends i c) = (case find_campaign i w of
      None \<Rightarrow> Inl ()
    | Some k \<Rightarrow> if cp_kind (kw_budget k) = RIDER_PROMO \<and> cp_kind c = RIDER_PROMO \<and> cp_config c = cp_config (kw_budget k)
        then Inr (edit_campaign i (\<lambda>_. c) w) else Inl ())"
| "reward_step w (CodeIssued u c) = (if c \<in> snd ` set (wd_codes w) then Inl () else Inr (w\<lparr>wd_codes := (u, c) # wd_codes w\<rparr>))"
| "reward_step w (DriverPosting r) = (case post_row r (wd_books w) of None \<Rightarrow> Inl () | Some b \<Rightarrow> Inr (w\<lparr>wd_books := b\<rparr>))"
| "reward_step w (RiderMoves e) = (case rider_step (wd_riders w) e of Inl _ \<Rightarrow> Inl () | Inr rb \<Rightarrow> Inr (w\<lparr>wd_riders := rb\<rparr>))"

definition reward_inv :: "reward_world \<Rightarrow> bool" where
  "reward_inv w = (money_ok 0 0 w \<and> incentive_ok w \<and> referral_ok w)"

definition no_rewards :: "(int \<Rightarrow> bool) \<Rightarrow> reward_world" where
  "no_rewards drivers = \<lparr> wd_books = \<lparr> bk_wallets = Map.empty, bk_rows = [] \<rparr>, wd_riders = no_riders drivers, wd_campaigns = [],
     wd_progress = Map.empty, wd_counted = [], wd_codes = [], wd_referrals = [], wd_referral_trips = [], wd_entries = [],
     wd_flags = [] \<rparr>"

section \<open>Each event keeps the invariant\<close>

lemma incentive_kind: "money_ok c x w \<Longrightarrow> e \<in> set (wd_entries w) \<Longrightarrow> re_key e = EntryIncentive a b \<Longrightarrow> re_kind e \<noteq> REFERRAL_REWARD"
  by (auto simp: money_ok_def list_all_iff entry_form_def)

lemma incentive_step_inv: "reward_inv w \<Longrightarrow> incentive_step w w' \<Longrightarrow> reward_inv w'"
  using referral_ok_frame [of w' w 0 0 0 0] by (auto simp: reward_inv_def incentive_step_def)

lemma referral_step_inv: "reward_inv w \<Longrightarrow> referral_step w w' \<Longrightarrow> reward_inv w'"
  using incentive_ok_frame [of w' w] by (auto simp: reward_inv_def referral_step_def)

lemma trip_inv:
  assumes "reward_inv w"
  shows "reward_inv (snd (on_trip_completed env f w))"
proof -
  let ?w1 = "snd (incentive_trip_completed env f w)"
  have one: "reward_inv ?w1"
    using assms incentive_completed_ok [of w env f] incentive_step_inv [OF assms] by (simp add: reward_inv_def)
  then have "reward_inv (snd (referral_trip_completed env f ?w1))"
    using referral_completed_ok [of ?w1 env f] referral_step_inv [OF one] by (simp add: reward_inv_def)
  with one show ?thesis by (auto simp: on_trip_completed_def split: prod.splits option.splits)
qed

lemma retried_inv: "reward_inv w \<Longrightarrow> reward_inv (snd (retry_qualified env limit w))"
  using retry_each_ok [of w env] referral_step_inv [of w] by (simp add: retry_qualified_def reward_inv_def)

text \<open>The campaigns' table.\<close>

lemma campaigns_money:
  assumes "money_ok 0 0 w" "distinct (map kw_id ks)" "list_all (campaign_ok 0 0 w) ks"
  shows "money_ok 0 0 (w\<lparr>wd_campaigns := ks\<rparr>)"
proof -
  have "campaign_ok 0 0 (w\<lparr>wd_campaigns := ks\<rparr>) = campaign_ok 0 0 w" by (simp add: campaign_ok_def paid_def fun_eq_iff)
  moreover have "booked (w\<lparr>wd_campaigns := ks\<rparr>) = booked w" by (rule ext, rule booked_cong) simp_all
  ultimately show ?thesis using assms by (simp add: money_ok_def)
qed

lemma edit_inv:
  assumes inv: "reward_inv w"
    and g: "\<And>k. k \<in> set (wd_campaigns w) \<Longrightarrow> kw_id k = i \<Longrightarrow> campaign_ok 0 0 w (k\<lparr>kw_budget := g (kw_budget k)\<rparr>)
      \<and> cp_kind (g (kw_budget k)) = cp_kind (kw_budget k) \<and> cp_config (g (kw_budget k)) = cp_config (kw_budget k)"
  shows "reward_inv (edit_campaign i g w)"
proof -
  let ?ks = "map (\<lambda>k. if kw_id k = i then k\<lparr>kw_budget := g (kw_budget k)\<rparr> else k) (wd_campaigns w)"
  have ids: "map kw_id ?ks = map kw_id (wd_campaigns w)" by simp
  have m: "money_ok 0 0 w" using inv by (simp add: reward_inv_def)
  then have "distinct (map kw_id ?ks)" "list_all (campaign_ok 0 0 w) ?ks"
    unfolding ids using g by (auto simp: money_ok_def list_all_iff)
  then have m': "money_ok 0 0 (edit_campaign i g w)" unfolding edit_campaign_def by (rule campaigns_money [OF m])
  have "same_terms w (edit_campaign i g w)" using g by (auto simp: same_terms_def edit_campaign_def)
  moreover have "referral_part (edit_campaign i g w) = referral_part w" "incentive_part (edit_campaign i g w) = incentive_part w"
    by (simp_all add: referral_part_def incentive_part_def incentive_paid_def edit_campaign_def)
  ultimately show ?thesis
    using inv m m' incentive_ok_frame [of "edit_campaign i g w" w] referral_ok_frame [of "edit_campaign i g w" w 0 0 0 0]
    by (simp add: reward_inv_def)
qed

lemma created_inv:
  assumes inv: "reward_inv w" and new: "kw_id k \<notin> kw_id ` set (wd_campaigns w)" "kw_id k \<notin> re_campaign ` set (wd_entries w)"
    and zero: "cp_committed (kw_budget k) = 0" "cp_spent (kw_budget k) = 0" "rewards_ok (cp_config (kw_budget k))"
    "case cp_budget (kw_budget k) of None \<Rightarrow> True | Some b \<Rightarrow> 0 \<le> b"
  shows "reward_inv (w\<lparr>wd_campaigns := k # wd_campaigns w\<rparr>)"
proof -
  let ?w = "w\<lparr>wd_campaigns := k # wd_campaigns w\<rparr>"
  have "filter (\<lambda>e. re_campaign e = kw_id k) (wd_entries w) = []" using new(2) by (auto simp: filter_empty_conv image_iff)
  then have "paid (kw_id k) w = 0" by (simp add: paid_def)
  then have "campaign_ok 0 0 w k" using zero by (simp add: campaign_ok_def split: option.splits)
  then have m: "money_ok 0 0 ?w"
    using inv new(1) by (intro campaigns_money) (auto simp: reward_inv_def money_ok_def)
  have p: "incentive_paid ?w = incentive_paid w" "counted_trips c d ?w = counted_trips c d w" "reached c n w \<Longrightarrow> reached c n ?w" for c d n
    by (auto simp: incentive_paid_def counted_trips_def reached_def)
  then have "progress_ok w c d \<Longrightarrow> progress_ok ?w c d" for c d
    by (auto simp: progress_ok_def split: option.splits)
  then have i: "incentive_ok ?w" using inv by (simp add: reward_inv_def incentive_ok_def)
  have q: "referral_paid ?w j = referral_paid w j" "referral_trips j ?w = referral_trips j w" "required_by c n w \<Longrightarrow> required_by c n ?w" for j c n
    by (auto simp: referral_paid_def referral_trips_def required_by_def)
  then have "referral_row_ok w r \<Longrightarrow> referral_row_ok ?w r" for r unfolding referral_row_ok_def q(1,2) using q(3) by blast
  then have "referral_ok ?w" using inv q by (auto simp: reward_inv_def referral_ok_def list_all_iff)
  with m i show ?thesis by (simp add: reward_inv_def)
qed

text \<open>Other tables.\<close>

lemma outside_inv:
  assumes "reward_inv w" "money_ok 0 0 w'" "wd_campaigns w' = wd_campaigns w" "incentive_part w' = incentive_part w"
    "wd_referrals w' = wd_referrals w" "wd_referral_trips w' = wd_referral_trips w" "wd_entries w' = wd_entries w"
  shows "reward_inv w'"
proof -
  have st: "same_terms w w'" using assms(3) by (rule same_terms_campaigns)
  have p: "referral_paid w' = referral_paid w" "referral_trips j w' = referral_trips j w" for j
    using assms(6,7) by (simp_all add: referral_paid_def referral_trips_def fun_eq_iff)
  then have "referral_row_ok w' = referral_row_ok w" using required_same [OF st] by (simp add: referral_row_ok_def fun_eq_iff)
  then have "referral_ok w' = referral_ok w" using p assms(5,6) by (simp add: referral_ok_def)
  then show ?thesis using assms(1,2) incentive_ok_frame [OF assms(4) st] by (simp add: reward_inv_def)
qed

lemma posting_inv:
  assumes inv: "reward_inv w" and p: "post_row r (wd_books w) = Some b"
  shows "reward_inv (w\<lparr>wd_books := b\<rparr>)"
proof -
  let ?w = "w\<lparr>wd_books := b\<rparr>"
  have ok: "books_ok b" using inv p by (auto simp: reward_inv_def money_ok_def intro: post_row_ok)
  have "set (bk_rows (wd_books w)) \<subseteq> set (bk_rows b)" using p by (auto simp: post_row_Some get_wallet_simps)
  then have "booked w e \<Longrightarrow> booked ?w e" for e by (auto simp: booked_def split: option.splits reward_txn.splits)
  moreover have "campaign_ok 0 0 ?w = campaign_ok 0 0 w" by (simp add: campaign_ok_def paid_def fun_eq_iff)
  ultimately have "money_ok 0 0 ?w" using inv ok by (auto simp: reward_inv_def money_ok_def list_all_iff)
  then show ?thesis by (rule outside_inv [OF inv]) (simp_all add: incentive_part_def incentive_paid_def)
qed

lemma riders_inv:
  assumes inv: "reward_inv w" and r: "rider_step (wd_riders w) e = Inr rb"
  shows "reward_inv (w\<lparr>wd_riders := rb\<rparr>)"
proof -
  have "money_ok 0 0 (w\<lparr>wd_riders := rb\<rparr>)"
    using rider_step_rows [OF r] inv by (intro money_ok_riders) (auto simp: reward_inv_def rows_grow_def)
  then show ?thesis by (rule outside_inv [OF inv]) (simp_all add: incentive_part_def incentive_paid_def)
qed

text \<open>A new referral: a person who was not referred before, by another person.\<close>

lemma next_referral_new: "next_referral w \<notin> rf_id ` set (wd_referrals w)"
proof
  assume "next_referral w \<in> rf_id ` set (wd_referrals w)"
  then have "next_referral w \<le> Max (insert 0 (rf_id ` set (wd_referrals w)))" by (intro Max_ge) auto
  then show False by (simp add: next_referral_def)
qed

lemma attach_row:
  assumes "attach env u raw device w = Inr w'"
  obtains r where "w' = w\<lparr>wd_referrals := r # wd_referrals w\<rparr>" "rf_id r = next_referral w" "rf_status r = ATTACHED" "rf_trips r = 0"
    "rf_referrer r \<noteq> rf_referee r" "rf_referee r \<notin> rf_referee ` set (wd_referrals w)" "rf_referrer_reward r = 0" "rf_referee_reward r = 0"
proof -
  obtain referrer c where f: "find (\<lambda>c. snd c = py_upper (py_strip raw)) (wd_codes w) = Some (referrer, c)"
    using assms by (auto simp: attach_def Let_def split: if_splits option.splits)
  obtain p k where "ev_people env u = Some p" "live_campaign_for env u w = Some k"
    using assms by (auto simp: attach_def Let_def f split: if_splits option.splits)
  then show ?thesis
    using assms by (auto simp: attach_def Let_def f split: if_splits intro: that)
qed

lemma attach_inv:
  assumes inv: "reward_inv w" and a: "attach env u raw device w = Inr w'"
  shows "reward_inv w'"
proof -
  obtain r where w': "w' = w\<lparr>wd_referrals := r # wd_referrals w\<rparr>" and r: "rf_id r = next_referral w" "rf_status r = ATTACHED" "rf_trips r = 0"
    "rf_referrer r \<noteq> rf_referee r" "rf_referee r \<notin> rf_referee ` set (wd_referrals w)" "rf_referrer_reward r = 0" "rf_referee_reward r = 0"
    using attach_row [OF a] by metis
  have ref: "referral_ok w" using inv by (simp add: reward_inv_def)
  have new: "rf_id r \<notin> rf_id ` set (wd_referrals w)" using next_referral_new r(1) by metis
  have st: "same_terms w w'" by (simp add: same_terms_def w')
  have p: "referral_paid w' j = referral_paid w j" "referral_trips j w' = referral_trips j w" for j
    by (simp_all add: referral_paid_def referral_trips_def w')
  have rows: "referral_row_ok w' q = referral_row_ok w q" for q using p required_same [OF st] by (simp add: referral_row_ok_def)
  have "referral_row_ok w r" using new ref r by (simp add: referral_row_ok_def referral_ok_def)
  then have "referral_ok w'" using ref new r(5) p rows by (auto simp: referral_ok_def w' list_all_iff)
  moreover have "money_ok 0 0 w'" using inv money_ok_frame [of w' w 0 0] by (simp add: reward_inv_def w')
  moreover have "incentive_ok w'"
    using inv incentive_ok_frame [OF _ st] by (simp add: reward_inv_def incentive_part_def incentive_paid_def w')
  ultimately show ?thesis by (simp add: reward_inv_def)
qed

lemma reward_step_inv: "reward_inv w \<Longrightarrow> reward_step w e = Inr w' \<Longrightarrow> reward_inv w'"
proof (cases e)
  case (CampaignState i st)
  assume inv: "reward_inv w" and "reward_step w e = Inr w'"
  then have w': "w' = edit_campaign i (\<lambda>c. c\<lparr>cp_state := st\<rparr>) w" using CampaignState by simp
  have ok: "campaign_ok 0 0 w k" if "k \<in> set (wd_campaigns w)" for k
    using inv that by (simp add: reward_inv_def money_ok_def list_all_iff)
  have "campaign_ok 0 0 w (k\<lparr>kw_budget := (kw_budget k)\<lparr>cp_state := st\<rparr>\<rparr>)" if "k \<in> set (wd_campaigns w)" for k
    using ok [OF that] unfolding campaign_ok_def by (simp cong: option.case_cong)
  then show ?thesis unfolding w' by (intro edit_inv [OF inv]) simp
next
  case (BudgetRaised i b)
  assume inv: "reward_inv w" and s: "reward_step w e = Inr w'"
  then obtain k where k: "find_campaign i w = Some k" "raises b k" "w' = edit_campaign i (\<lambda>c. c\<lparr>cp_budget := Some b\<rparr>) w"
    using BudgetRaised by (auto split: option.splits if_splits)
  have m: "money_ok 0 0 w" using inv by (simp add: reward_inv_def)
  have "q = k" if "q \<in> set (wd_campaigns w)" "kw_id q = i" for q
    using that find_campaign_Some [OF k(1)] m by (auto simp: money_ok_def distinct_map inj_on_def)
  moreover have "campaign_ok 0 0 w k" using m find_campaign_Some [OF k(1)] by (auto simp: money_ok_def list_all_iff)
  ultimately show ?thesis unfolding k(3)
    by (intro edit_inv [OF inv]) (use k(2) in \<open>auto simp: campaign_ok_def raises_def split: option.splits\<close>)
next
  case (PromoSpends i c)
  assume inv: "reward_inv w" and s: "reward_step w e = Inr w'"
  then obtain k where k: "find_campaign i w = Some k" "cp_kind (kw_budget k) = RIDER_PROMO" "cp_kind c = RIDER_PROMO"
      "cp_config c = cp_config (kw_budget k)" "w' = edit_campaign i (\<lambda>_. c) w"
    using PromoSpends by (auto split: option.splits if_splits)
  have m: "money_ok 0 0 w" using inv by (simp add: reward_inv_def)
  have "q = k" if "q \<in> set (wd_campaigns w)" "kw_id q = i" for q
    using that find_campaign_Some [OF k(1)] m by (auto simp: money_ok_def distinct_map inj_on_def)
  moreover have "campaign_ok 0 0 w k" using m find_campaign_Some [OF k(1)] by (auto simp: money_ok_def list_all_iff)
  ultimately show ?thesis unfolding k(5)
    by (intro edit_inv [OF inv]) (use k(2-4) in \<open>auto simp: campaign_ok_def\<close>)
next
  case (CampaignCreated k)
  assume "reward_inv w" "reward_step w e = Inr w'"
  with CampaignCreated created_inv [of w k] show ?thesis by (auto split: if_splits option.splits)
next
  case (CodeIssued u c)
  assume inv: "reward_inv w" and "reward_step w e = Inr w'"
  then have w': "w' = w\<lparr>wd_codes := (u, c) # wd_codes w\<rparr>" using CodeIssued by (auto split: if_splits)
  have "money_ok 0 0 w'" using inv money_ok_frame [of w' w 0 0] by (simp add: reward_inv_def w')
  then show ?thesis by (rule outside_inv [OF inv]) (simp_all add: incentive_part_def incentive_paid_def w')
qed (auto intro: trip_inv retried_inv attach_inv posting_inv riders_inv split: sum.splits option.splits)

interpretation rewards: guarded_system reward_step reward_inv
  by unfold_locales (rule reward_step_inv)

lemma no_rewards_inv: "reward_inv (no_rewards drivers)"
  by (simp add: reward_inv_def no_rewards_def money_ok_def incentive_ok_def referral_ok_def progress_ok_def counted_trips_def
      incentive_paid_def referral_paid_def referral_trips_def books_ok_def balance_def ledger_total_def)

lemmas rewards_always = rewards.run_inv [OF no_rewards_inv]

section \<open>What every history keeps\<close>

text \<open>Claim C13. Rewards stay within the budget that was approved: after any history, what a reward campaign
  has spent is the sum of its own ledger entries and no more than its budget; every entry is positive, is booked
  on a wallet ledger and has a key no other entry has.\<close>

theorem rewards_within_budget:
  "let w = run_events reward_step (no_rewards drivers) es in
     list_all (\<lambda>k. cp_kind (kw_budget k) = RIDER_PROMO \<or> cp_spent (kw_budget k) = paid (kw_id k) w
       \<and> (case cp_budget (kw_budget k) of None \<Rightarrow> True | Some b \<Rightarrow> paid (kw_id k) w \<le> b)) (wd_campaigns w)
     \<and> list_all (\<lambda>e. 0 < re_amount e \<and> booked w e) (wd_entries w) \<and> distinct (map re_key (wd_entries w))"
  using rewards_always [of drivers es]
  by (auto simp: Let_def reward_inv_def money_ok_def campaign_ok_def list_all_iff split: option.splits)


text \<open>Claim C15. A referral pays what it records, once: after any history of completed trips, attached codes and
  sweeps, a person was referred at most once and never by themselves; a referral that is rewarded has exactly
  the entries of its two recorded rewards, and one that is attached, qualified or blocked has none; and no
  referral leaves its first state before the campaign's number of distinct trips was counted.\<close>

theorem referral_pays_what_it_records:
  "let w = run_events reward_step (no_rewards drivers) es in
     distinct (map rf_referee (wd_referrals w))
     \<and> list_all (\<lambda>r. rf_referrer r \<noteq> rf_referee r
          \<and> referral_paid w (rf_id r) = (if rf_status r = REWARDED then due r else {})
          \<and> rf_trips r = referral_trips (rf_id r) w
          \<and> (rf_status r = ATTACHED \<or> required_by (rf_campaign r) (rf_trips r) w)) (wd_referrals w)"
proof -
  let ?w = "run_events reward_step (no_rewards drivers) es"
  have "referral_ok ?w" using rewards_always [of drivers es] by (simp add: reward_inv_def)
  then show ?thesis by (auto simp: Let_def referral_ok_def referral_row_ok_def list_all_iff)
qed

end
