(* ===== verification/Spec2Isabelle.thy ===== *)
theory Spec2Isabelle
  imports Countries Money Geo Access Zones Commission PromoTax Budget Wallet Settlement SettlementLaws PayoutLaws AuditLaws ApprovalLaws PolicyLaws Fatigue RiderWallet RideWorld RideActions Quotes RewardHistory
begin

text \<open>
  \<^bold>\<open>The program.\<close> The backend of a ride-hailing platform: Django applications under
  \<^verbatim>\<open>servers/\<close> over shared helpers in \<^verbatim>\<open>base/\<close>. Riders book trips that drivers carry out; a
  trip is priced from the rate card of its zone, settled against the driver's wallet, and the wallet is
  paid out to the driver's bank. Operators act through the console, within the geography they are
  assigned to, and what moves money or policy is checked by a second person and recorded in a hash
  chained log. The development models the parts that decide about money, authority and evidence.

  \<^bold>\<open>How the theories correspond to the code.\<close> Each theory has its records and datatypes first
  (a Django row is a record, a choices field a datatype, a table a list of rows in the order of their
  ids), then one definition per function under its own name, then the lemmas.

  \<^item> \<^verbatim>\<open>Prelude\<close>: the error sum \<^verbatim>\<open>bind_res\<close>, the Python string operations, sums and
    minima over lists, event runs, and the locale \<^verbatim>\<open>guarded_system\<close> of a state machine with an
    invariant, which the budget, reward, settlement, payout, approval, audit and trip machines interpret.
  \<^item> \<^verbatim>\<open>Countries\<close>, \<^verbatim>\<open>PyDecimal\<close>, \<^verbatim>\<open>Money\<close>: \<^verbatim>\<open>base/countries.py\<close>, Python's decimal
    arithmetic at 28 digits with its rounding, and \<^verbatim>\<open>base/money.py\<close>. Amounts are integers of minor
    units; they are unbounded in HOL as in Python, and the lemmas that need exact decimals say which
    size (\<^verbatim>\<open>fits\<close>, 28 digits) they need.
  \<^item> \<^verbatim>\<open>Geo\<close>, \<^verbatim>\<open>Access\<close>: the geographic tree, role assignments, permission checks and query set
    scoping of \<^verbatim>\<open>servers/admin_access\<close>, with the capability layer of \<^verbatim>\<open>base/permissions.py\<close>.
  \<^item> \<^verbatim>\<open>Zones\<close>, \<^verbatim>\<open>Commission\<close>, \<^verbatim>\<open>PromoTax\<close>: \<^verbatim>\<open>servers/pricing\<close>: zones of a point through
    the polygon cache, rate cards up the zone's chain, commission rules and their snapshot, and the
    split of a charge into fare, additive tax and fee.
  \<^item> \<^verbatim>\<open>Budget\<close>: the campaign budget row of \<^verbatim>\<open>servers/promotions/budget.py\<close>.
  \<^item> \<^verbatim>\<open>Wallet\<close>, \<^verbatim>\<open>Settlement\<close>, \<^verbatim>\<open>SettlementLaws\<close>: balances, ledger rows and their
    idempotency keys; crediting a trip, a later platform payment, a refund, a platform-funded end.
    Settlement calls Commission, PromoTax and Budget, as \<^verbatim>\<open>driver/utils.py\<close> does.
  \<^item> \<^verbatim>\<open>Payouts\<close>, \<^verbatim>\<open>PayoutLaws\<close>: a withdrawal from its request or the weekly run through
    approval, the gateway, retries and webhooks, and the adjustments of an operator.
  \<^item> \<^verbatim>\<open>Fatigue\<close>: who may drive, online sessions, the 12 hour limit and the cancellation
    penalty of \<^verbatim>\<open>driver/fatigue.py\<close> and \<^verbatim>\<open>driver/qa_eligibility.py\<close>.
  \<^item> \<^verbatim>\<open>RiderWallet\<close>: the rider's wallet: the credits of \<^verbatim>\<open>rider/credits.py\<close>, the approved
    credit, and \<^verbatim>\<open>wallet_payment\<close> of \<^verbatim>\<open>base/utils.py\<close>.
  \<^item> \<^verbatim>\<open>RiderPromos\<close>: promo codes from the preview to the booking, over Budget and PromoTax
    (\<^verbatim>\<open>ride/promos.py\<close>, \<^verbatim>\<open>promotions/rider_promos.py\<close>).
  \<^item> \<^verbatim>\<open>Rewards\<close>: driver incentives and referrals (\<^verbatim>\<open>promotions/incentives.py\<close>,
    \<^verbatim>\<open>promotions/referrals.py\<close>, the task of a completed trip), over Budget, Wallet and RiderWallet;
    \<^verbatim>\<open>RewardLaws\<close>: what each operation keeps; \<^verbatim>\<open>RewardHistory\<close>: every history of them.
  \<^item> \<^verbatim>\<open>Trips\<close>: the life of a trip: booking, acceptance, status machine, cash and the commands of
    the socket (\<^verbatim>\<open>servers/consumers.py\<close>), the cancellations (\<^verbatim>\<open>ride/views.py\<close>, \<^verbatim>\<open>ride/tasks.py\<close>,
    \<^verbatim>\<open>ride/admin_trips.py\<close>), payment and refund (\<^verbatim>\<open>ride/utils.py\<close>), and the rider paying from the
    wallet; \<^verbatim>\<open>OperatorEnd\<close>: ending a started trip from the console (\<^verbatim>\<open>ride/operator_end.py\<close>).
    They call Settlement, RiderWallet, RiderPromos and Fatigue over one state, \<^verbatim>\<open>ride_db\<close>.
  \<^item> \<^verbatim>\<open>TripLaws\<close>, \<^verbatim>\<open>TripHistory\<close>: every operation moves at most one trip along the machine and
    counts a completion exactly then; \<^verbatim>\<open>RideWorld\<close>: the operations as interleaved transactions, an
    acceptance being three steps between its row locks; \<^verbatim>\<open>RideActions\<close>: single frames and payments.
  \<^item> \<^verbatim>\<open>Fares\<close>: the metered fare (\<^verbatim>\<open>quote_fare\<close> of \<^verbatim>\<open>pricing/services.py\<close>): surge, night, cap,
    minimum, the lines shown and the tax of the market; \<^verbatim>\<open>Quotes\<close>: quotes with their ids and lifetime
    (\<^verbatim>\<open>ride/quotes.py\<close>) and the booking with its price, which calls Fares and Trips.
  \<^item> \<^verbatim>\<open>AuditChain\<close>, \<^verbatim>\<open>AuditLaws\<close>: \<^verbatim>\<open>servers/admin_audit\<close>: canonical bytes, chain, anchors,
    verifier, and the two phases of a save as separate steps, so that writers interleave.
  \<^item> \<^verbatim>\<open>Approvals\<close>, \<^verbatim>\<open>ApprovalLaws\<close>, \<^verbatim>\<open>PolicyLaws\<close>: maker-checker of
    \<^verbatim>\<open>servers/approvals\<close>: policies, requests, the lock phase and the executor phase of an approval
    as separate steps with crashes in between, the expiry sweep, the seed command.

  \<^bold>\<open>Errors, state, time.\<close> A function that may raise returns \<^verbatim>\<open>error + value\<close>, and every raise
  and early return is a branch; a function that writes takes the tables and returns them. A
  transaction that rolls back returns \<^verbatim>\<open>Inl\<close> and so no state. The clock, the caller and the answer
  of a gateway are arguments. A row lock with its transaction is one step; where the code gives up
  the lock between two writes, each side is a step of its own.

  \<^bold>\<open>Parameters.\<close> Code that is not in the repository is an argument of the definitions that call
  it: the shape library (\<^verbatim>\<open>parse\<close>, \<^verbatim>\<open>covers\<close> of a polygon), the distance of two points, SHA-256, the payment gateways'
  answers, the registered executors. The hypotheses on them are documented behaviour (the hash has no
  collisions among the rows compared, its digest has 64 characters).

  \<^bold>\<open>Termination and fuel.\<close> Walks up a parent table (zones, rate cards) are bounded in the code by a
  visited set; the model recurses over the rows not yet visited, so no fuel is needed. Decimal division
  produces 29 digits and strips zeros, by structural recursion. No definition uses fuel.

  \<^bold>\<open>What the lemmas show.\<close> For each component: its invariant and that every operation keeps it
  (budget accounts, wallet balances and ledger, withdrawals and their rows, requests and policies, the
  access tables); what one call does on every branch; and, over every history of operations, what the
  component promises: a trip is credited once, a budget is never overspent, a withdrawal takes its
  amount exactly while it stands, an approved action runs once and on the authority of two people or
  within the limit, a scoped query returns exactly the rows of the scope, and an equal last hash means
  an equal log. A driver is never on two trips at once however acceptances interleave, a trip follows
  its status machine, and a trip is paid from a wallet once. Rewards stay within the approved budget, an
  incentive is paid once and a referral exactly what it records.
  The lines of a fare sum to the fare, and a trip booked at a quote is stored at that sum. Some lemmas state what the code does not do
  although it says so: see the findings (interleaved writers fork the audit chain, a rejected withdrawal
  reported as failed is paid back twice, a socket frame cancels a ride in progress).

  \<^bold>\<open>Not modelled.\<close> Views, serializers, admin pages, reports, search and dashboards read the tables
  and render them; notifications, mail, SMS and the object store are sent and not read back;
  \<^verbatim>\<open>settings.py\<close>, middleware and the Celery wiring are configuration of the frameworks. Location,
  dispatch and presence live in Redis, whose commands are not in the repository; the distance driven and
  map answers are floats from services and are arguments. Log lines, metrics and
  alerts that a modelled function also raises are left out of its definition.
\<close>

end
